(* ===== verification/Prelude.thy ===== *)
theory Prelude
  imports Complex_Main "HOL-Library.Word" "HOL-Library.Signed_Division"
begin

text \<open>
  Shared vocabulary of the development: the C integer types, the truncating division of C,
  byte lists and the collections of rewrite rules the component theories fill in.
\<close>

named_theorems wm_defs \<open>definitions of the washing machine's small helpers\<close>
named_theorems pkt_defs \<open>definitions of the packet writers and readers\<close>
named_theorems frame_simps \<open>fields an operation leaves unchanged\<close>

type_synonym u8 = "8 word"
type_synonym u16 = "16 word"
type_synonym u32 = "32 word"
type_synonym bytes = "8 word list"

subsection \<open>C integers\<close>

text \<open>
  A value of C's 32-bit int is an int; \<open>i32\<close> is the two's complement wrap-around the
  target's compiler gives to an arithmetic result. Division and remainder truncate towards
  zero: \<open>sdiv\<close> and \<open>smod\<close> of the library.
\<close>

definition i32 :: "int \<Rightarrow> int" where
  "i32 n = signed_take_bit 31 n"

lemma i32_id [simp]: "- (2 ^ 31) \<le> n \<Longrightarrow> n < 2 ^ 31 \<Longrightarrow> i32 n = n"
  by (simp add: i32_def signed_take_bit_int_eq_self)

lemma i32_range: "- (2 ^ 31) \<le> i32 n \<and> i32 n < 2 ^ 31"
  using signed_take_bit_int_less_exp [of 31 n] signed_take_bit_int_greater_eq_minus_exp [of 31 n]
  by (simp add: i32_def)

lemma sdiv_pos: "0 \<le> a \<Longrightarrow> 0 < b \<Longrightarrow> (a::int) sdiv b = a div b"
  by (auto simp: signed_divide_int_def sgn_if)

lemma smod_pos: "0 \<le> a \<Longrightarrow> 0 < b \<Longrightarrow> (a::int) smod b = a mod b"
  by (auto simp: signed_modulo_int_def signed_divide_int_def sgn_if minus_div_mult_eq_mod)

lemma mult_sdiv_cancel [simp]: "b \<noteq> 0 \<Longrightarrow> (a * b) sdiv b = (a::int)"
proof -
  assume "b \<noteq> 0"
  then have "(a * b) sdiv b = sgn a * (sgn b * sgn b) * \<bar>a\<bar>"
    by (simp add: signed_divide_int_def abs_mult sgn_mult mult.assoc)
  also have "\<dots> = a" using \<open>b \<noteq> 0\<close> by (simp add: sgn_if abs_if)
  finally show ?thesis .
qed

text \<open>C's truth value of an integer and the integer value of a bool.\<close>

definition c_true :: "int \<Rightarrow> bool" where
  "c_true n \<longleftrightarrow> n \<noteq> 0"

definition c_int :: "bool \<Rightarrow> int" where
  "c_int b = (if b then 1 else 0)"

lemma c_true_c_int [simp]: "c_true (c_int b) = b"
  by (simp add: c_true_def c_int_def)

subsection \<open>Lists\<close>

lemma take_drop_append3 [simp]:
  "take (length ys) (drop (length xs) (xs @ ys @ zs)) = ys"
  by simp

lemma list_all_map_eq: "list_all P (map f xs) = list_all (\<lambda>x. P (f x)) xs"
  by (simp add: list_all_iff)

end
