(* ===== verification/CFloat.thy ===== *)
theory CFloat
  imports Prelude
begin

text \<open>
  C's \<open>float\<close> and \<open>double\<close> as rationals: every arithmetic result is rounded to the nearest
  representable value, ties to even, with 24 or 53 significant bits. The exponent range is
  bounded below (subnormals) and not above: infinities and NaN are not modelled.
\<close>

definition round_half_even :: "rat \<Rightarrow> int" where
  "round_half_even x =
     (let n = \<lfloor>x\<rfloor>; d = x - of_int n
      in if d < 1 / 2 then n else if 1 / 2 < d then n + 1 else if even n then n else n + 1)"

text \<open>Number of binary digits of a natural number.\<close>

fun bit_len :: "nat \<Rightarrow> nat" where
  "bit_len n = (if n = 0 then 0 else Suc (bit_len (n div 2)))"

declare bit_len.simps [simp del]

definition ilog2 :: "rat \<Rightarrow> int" where
  "ilog2 x =
     (let (a, b) = quotient_of x; k = int (bit_len (nat a)) - int (bit_len (nat b))
      in if (2::rat) powi k \<le> x then k else k - 1)"

definition fround :: "int \<Rightarrow> int \<Rightarrow> rat \<Rightarrow> rat" where
  "fround p emin x =
     (if x = 0 then 0
      else let e = max (ilog2 \<bar>x\<bar> - p + 1) emin
           in of_int (round_half_even (x / 2 powi e)) * 2 powi e)"

definition f32 :: "rat \<Rightarrow> rat" where
  "f32 x = fround 24 (-149) x"

definition f64 :: "rat \<Rightarrow> rat" where
  "f64 x = fround 53 (-1074) x"

text \<open>The cast \<open>(int)x\<close> drops the fraction.\<close>

definition f_trunc :: "rat \<Rightarrow> int" where
  "f_trunc x = (if 0 \<le> x then \<lfloor>x\<rfloor> else \<lceil>x\<rceil>)"

subsection \<open>Rounding to an integer\<close>

lemma round_half_even_of_int [simp]: "round_half_even (of_int n) = n"
  by (simp add: round_half_even_def)

lemma round_half_even_bounds: "\<lfloor>x\<rfloor> \<le> round_half_even x \<and> round_half_even x \<le> \<lfloor>x\<rfloor> + 1"
  by (auto simp: round_half_even_def Let_def)

lemma round_half_even_mono:
  assumes "x \<le> y" shows "round_half_even x \<le> round_half_even y"
proof (cases "\<lfloor>x\<rfloor> = \<lfloor>y\<rfloor>")
  case True
  with assms show ?thesis by (auto simp: round_half_even_def Let_def)
next
  case False
  from assms have "\<lfloor>x\<rfloor> \<le> \<lfloor>y\<rfloor>" by (rule floor_mono)
  with False have "\<lfloor>x\<rfloor> + 1 \<le> \<lfloor>y\<rfloor>" by simp
  then show ?thesis
    using round_half_even_bounds [of x] round_half_even_bounds [of y] by linarith
qed

lemma round_half_even_ge: "of_int n \<le> x \<Longrightarrow> n \<le> round_half_even x"
  using round_half_even_mono [of "of_int n" x] by simp

lemma round_half_even_le: "x \<le> of_int n \<Longrightarrow> round_half_even x \<le> n"
  using round_half_even_mono [of x "of_int n"] by simp

lemma round_half_even_minus: "round_half_even (- x) = - round_half_even x"
proof (cases "x = of_int \<lfloor>x\<rfloor>")
  case True
  then show ?thesis by (metis of_int_minus round_half_even_of_int)
next
  case False
  then have lt: "of_int \<lfloor>x\<rfloor> < x" using of_int_floor_le [of x] by linarith
  have fl: "\<lfloor>- x\<rfloor> = - \<lfloor>x\<rfloor> - 1"
    using lt by (intro floor_unique) (simp_all, linarith+)
  show ?thesis
    by (auto simp: round_half_even_def fl Let_def algebra_simps)
qed

subsection \<open>The binary exponent\<close>

lemma bit_len_0 [simp]: "bit_len 0 = 0"
  by (simp add: bit_len.simps)

lemma bit_len_bounds: "n < 2 ^ bit_len n \<and> (0 < n \<longrightarrow> 2 ^ (bit_len n - 1) \<le> n)"
proof (induction n rule: bit_len.induct)
  case (1 n)
  show ?case
  proof (cases "n = 0")
    case False
    with 1 have IH: "n div 2 < 2 ^ bit_len (n div 2)"
        "0 < n div 2 \<longrightarrow> 2 ^ (bit_len (n div 2) - 1) \<le> n div 2" by auto
    have up: "n < 2 * 2 ^ bit_len (n div 2)" using IH(1) by linarith
    have lo: "2 ^ bit_len (n div 2) \<le> n"
    proof (cases "n div 2 = 0")
      case True with False show ?thesis by simp
    next
      case div: False
      then have "bit_len (n div 2) = Suc (bit_len (n div 2) - 1)"
        by (simp add: bit_len.simps [of "n div 2"])
      then have "(2::nat) ^ bit_len (n div 2) = 2 * 2 ^ (bit_len (n div 2) - 1)"
        by (metis power_Suc)
      with IH(2) div show ?thesis by simp
    qed
    show ?thesis using up lo False by (simp add: bit_len.simps [of n])
  qed simp
qed

lemma ilog2_bounds:
  assumes "0 < x" shows "2 powi ilog2 x \<le> x \<and> x < 2 powi (ilog2 x + 1)"
proof -
  obtain a b where q: "quotient_of x = (a, b)" by fastforce
  have b: "0 < b" using q by (rule quotient_of_denom_pos)
  have x: "x = of_int a / of_int b" using q by (rule quotient_of_div)
  have a: "0 < a" using assms x b by (simp add: zero_less_divide_iff)
  define la where "la = bit_len (nat a)"
  define lb where "lb = bit_len (nat b)"
  have la0: "0 < la" and lb0: "0 < lb" using a b
    by (simp_all add: la_def lb_def bit_len.simps [of "nat a"] bit_len.simps [of "nat b"])
  have a1: "(2::nat) ^ (la - 1) \<le> nat a" and a2: "nat a < 2 ^ la"
    and b1: "(2::nat) ^ (lb - 1) \<le> nat b" and b2: "nat b < 2 ^ lb"
    using bit_len_bounds [of "nat a"] bit_len_bounds [of "nat b"] a b
    by (simp_all add: la_def lb_def)
  have A1: "(2::rat) powi (int la - 1) \<le> of_int a"
  proof -
    have "of_nat (2 ^ (la - 1)) \<le> (of_nat (nat a) :: rat)" using a1 by (simp only: of_nat_le_iff)
    then show ?thesis using a la0 by (simp add: power_int_def nat_diff_distrib)
  qed
  have A2: "of_int a < (2::rat) powi int la"
  proof -
    have "of_nat (nat a) < (of_nat (2 ^ la) :: rat)" using a2 by (simp only: of_nat_less_iff)
    then show ?thesis using a by simp
  qed
  have B1: "(2::rat) powi (int lb - 1) \<le> of_int b"
  proof -
    have "of_nat (2 ^ (lb - 1)) \<le> (of_nat (nat b) :: rat)" using b1 by (simp only: of_nat_le_iff)
    then show ?thesis using b lb0 by (simp add: power_int_def nat_diff_distrib)
  qed
  have B2: "of_int b < (2::rat) powi int lb"
  proof -
    have "of_nat (nat b) < (of_nat (2 ^ lb) :: rat)" using b2 by (simp only: of_nat_less_iff)
    then show ?thesis using b by simp
  qed
  define k where "k = int la - int lb"
  have bp: "(0::rat) < of_int b" using b by simp
  have lo: "2 powi (k - 1) \<le> x"
  proof -
    have "2 powi (k - 1) * of_int b \<le> 2 powi (k - 1) * (2::rat) powi int lb"
      using B2 by (intro mult_left_mono) auto
    also have "\<dots> = 2 powi (k - 1 + int lb)" by (rule power_int_add [symmetric]) simp
    also have "k - 1 + int lb = int la - 1" by (simp add: k_def)
    finally show ?thesis using A1 bp by (simp add: x field_simps)
  qed
  have hi: "x < 2 powi (k + 1)"
  proof -
    have "(of_int a::rat) < 2 powi int la" by (rule A2)
    also have "int la = (k + 1) + (int lb - 1)" by (simp add: k_def)
    also have "(2::rat) powi \<dots> = 2 powi (k + 1) * 2 powi (int lb - 1)" by (rule power_int_add) simp
    also have "\<dots> \<le> 2 powi (k + 1) * of_int b" using B1 by (intro mult_left_mono) auto
    finally show ?thesis using bp by (simp add: x field_simps)
  qed
  have "ilog2 x = (if 2 powi k \<le> x then k else k - 1)"
    by (simp add: ilog2_def q k_def la_def lb_def)
  then show ?thesis using lo hi by auto
qed

lemma powi2_le: "a \<le> b \<Longrightarrow> (2::rat) powi a \<le> 2 powi b"
  by (rule power_int_increasing) auto

lemma powi2_less_D: "(2::rat) powi a < 2 powi b \<Longrightarrow> a < b"
  using powi2_le [of b a] by linarith

lemma ilog2_mono:
  assumes "0 < x" "x \<le> y" shows "ilog2 x \<le> ilog2 y"
proof -
  have "2 powi ilog2 x \<le> x" using ilog2_bounds [OF assms(1)] by blast
  also have "x < 2 powi (ilog2 y + 1)" using ilog2_bounds [of y] assms by fastforce
  finally show ?thesis using powi2_less_D by fastforce
qed

subsection \<open>Rounding to the format\<close>

lemma fround_0 [simp]: "fround p emin 0 = 0"
  by (simp add: fround_def)

lemma fround_minus: "fround p emin (- x) = - fround p emin x"
  by (simp add: fround_def Let_def minus_divide_left [symmetric] round_half_even_minus)

lemma fround_nonneg: "0 \<le> x \<Longrightarrow> 0 \<le> fround p emin x"
  using round_half_even_ge [of 0 "x / 2 powi max (ilog2 \<bar>x\<bar> - p + 1) emin"]
  by (auto simp: fround_def Let_def)

text \<open>The exponent chosen for a positive value leaves at most \<open>p\<close> digits.\<close>

lemma fround_le_exp:
  assumes "0 < x" "0 < p"
  shows "fround p emin x \<le> 2 powi (max (ilog2 x - p + 1) emin + p)"
proof -
  define e where "e = max (ilog2 x - p + 1) emin"
  have "x \<le> 2 powi (ilog2 x + 1)" using ilog2_bounds [OF assms(1)] by simp
  also have "\<dots> \<le> 2 powi (e + p)" by (rule powi2_le) (simp add: e_def)
  also have "\<dots> = 2 powi e * 2 powi p" by (rule power_int_add) simp
  also have "(2::rat) powi p = of_int (2 ^ nat p)" using assms by (simp add: power_int_def)
  finally have "x / 2 powi e \<le> of_int (2 ^ nat p)" by (simp add: field_simps)
  then have "round_half_even (x / 2 powi e) \<le> 2 ^ nat p" by (rule round_half_even_le)
  then have "of_int (round_half_even (x / 2 powi e)) \<le> (of_int (2 ^ nat p) :: rat)"
    by (simp only: of_int_le_iff)
  then have "of_int (round_half_even (x / 2 powi e)) * 2 powi e \<le> 2 powi p * (2::rat) powi e"
    using assms by (intro mult_right_mono) (simp_all add: power_int_def)
  also have "\<dots> = 2 powi (p + e)" by (rule power_int_add [symmetric]) simp
  finally show ?thesis using assms by (simp add: fround_def Let_def e_def add.commute)
qed

lemma fround_mono_pos:
  assumes "0 < x" "x \<le> y" "0 < p" shows "fround p emin x \<le> fround p emin y"
proof -
  define ex where "ex = max (ilog2 x - p + 1) emin"
  define ey where "ey = max (ilog2 y - p + 1) emin"
  have fx: "fround p emin x = of_int (round_half_even (x / 2 powi ex)) * 2 powi ex"
    and fy: "fround p emin y = of_int (round_half_even (y / 2 powi ey)) * 2 powi ey"
    using assms by (simp_all add: fround_def Let_def ex_def ey_def)
  have le: "ex \<le> ey" using ilog2_mono [OF assms(1,2)] by (simp add: ex_def ey_def)
  show ?thesis
  proof (cases "ex = ey")
    case True
    have "round_half_even (x / 2 powi ex) \<le> round_half_even (y / 2 powi ex)"
      using assms by (intro round_half_even_mono divide_right_mono) auto
    then show ?thesis unfolding fx fy True by (intro mult_right_mono) auto
  next
    case False
    with le have ey: "ey = ilog2 y - p + 1" "ex + 1 \<le> ey" by (auto simp: ex_def ey_def)
    have "fround p emin x \<le> 2 powi (ex + p)"
      using fround_le_exp [OF assms(1,3)] by (simp add: ex_def)
    also have "\<dots> \<le> 2 powi (ey + (p - 1))" using ey by (intro powi2_le) simp
    also have "\<dots> = 2 powi (p - 1) * 2 powi ey"
      by (simp add: power_int_add mult.commute)
    also have "\<dots> \<le> of_int (round_half_even (y / 2 powi ey)) * 2 powi ey"
    proof (rule mult_right_mono)
      have "2 powi (ilog2 y) \<le> y" using ilog2_bounds [of y] assms by simp
      moreover have "(2::rat) powi ilog2 y = of_int (2 ^ nat (p - 1)) * 2 powi ey"
      proof -
        have "ilog2 y = (p - 1) + ey" using ey by simp
        then have "(2::rat) powi ilog2 y = 2 powi (p - 1) * 2 powi ey"
          by (simp add: power_int_add)
        then show ?thesis using assms by (simp add: power_int_def)
      qed
      ultimately have "of_int (2 ^ nat (p - 1)) \<le> y / 2 powi ey" by (simp add: field_simps)
      then have "2 ^ nat (p - 1) \<le> round_half_even (y / 2 powi ey)"
        by (rule round_half_even_ge)
      then have "of_int (2 ^ nat (p - 1)) \<le> (of_int (round_half_even (y / 2 powi ey)) :: rat)"
        by (simp only: of_int_le_iff)
      then show "2 powi (p - 1) \<le> (of_int (round_half_even (y / 2 powi ey)) :: rat)"
        using assms by (simp add: power_int_def)
    qed simp
    finally show ?thesis by (simp add: fy)
  qed
qed

lemma fround_mono:
  assumes "x \<le> y" "0 < p" shows "fround p emin x \<le> fround p emin y"
proof -
  consider "0 < x" | "x \<le> 0" "0 \<le> y" | "y < 0" using assms by linarith
  then show ?thesis
  proof cases
    case 1 then show ?thesis using assms fround_mono_pos by blast
  next
    case 2
    then have "fround p emin x \<le> 0" using fround_nonneg [of "- x"] by (simp add: fround_minus)
    also have "0 \<le> fround p emin y" using 2 by (simp add: fround_nonneg)
    finally show ?thesis .
  next
    case 3
    then have "fround p emin (- y) \<le> fround p emin (- x)"
      using assms by (intro fround_mono_pos) auto
    then show ?thesis by (simp add: fround_minus)
  qed
qed

text \<open>Integers of at most \<open>p\<close> bits are represented exactly.\<close>

lemma fround_of_int:
  assumes "\<bar>n\<bar> \<le> 2 ^ nat p" "0 < p" "emin \<le> 0"
  shows "fround p emin (of_int n) = of_int n"
proof -
  have "fround p emin (of_int m) = of_int m" if m: "0 < m" "m \<le> 2 ^ nat p" for m :: int
  proof (cases "m = 2 ^ nat p")
    case True
    have il: "ilog2 (of_int m) = p"
    proof -
      have e: "(of_int m :: rat) = 2 powi p" using True assms by (simp add: power_int_def)
      have "0 < (of_int m :: rat)" using m by simp
      from ilog2_bounds [OF this]
      have lo: "(2::rat) powi ilog2 (of_int m) \<le> 2 powi p"
        and hi: "(2::rat) powi p < 2 powi (ilog2 (of_int m) + 1)" by (simp_all add: e)
      have "p < ilog2 (of_int m) + 1" using hi by (rule powi2_less_D)
      moreover have "ilog2 (of_int m) \<le> p"
      proof (rule ccontr)
        assume "\<not> ilog2 (of_int m) \<le> p"
        then have "(2::rat) powi (p + 1) \<le> 2 powi p"
          using lo powi2_le [of "p + 1" "ilog2 (of_int m)"] by linarith
        then show False by (simp add: power_int_add)
      qed
      ultimately show ?thesis by simp
    qed
    obtain k where k: "nat p = Suc k" using assms(2) by (cases "nat p") auto
    have half: "(of_int m / 2 powi 1 :: rat) = of_int (2 ^ k)"
      by (simp add: True k)
    have "max (ilog2 \<bar>of_int m\<bar> - p + 1) emin = 1" using assms(3) m by (simp add: il)
    then have "fround p emin (of_int m) = of_int (round_half_even (of_int m / 2 powi 1)) * 2 powi 1"
      using m by (simp add: fround_def Let_def)
    also have "\<dots> = of_int m" unfolding half round_half_even_of_int by (simp add: True k)
    finally show ?thesis .
  next
    case False
    with m have lt: "m < 2 ^ nat p" by simp
    define e where "e = max (ilog2 (of_int m) - p + 1) emin"
    have "2 powi (ilog2 (of_int m)) \<le> (of_int m :: rat)" using ilog2_bounds [of "of_int m"] m by simp
    also have "\<dots> < 2 powi p" using lt assms
      by (simp add: power_int_def)
    finally have "ilog2 (of_int m) < p" by (rule powi2_less_D)
    with assms have e0: "e \<le> 0" by (simp add: e_def)
    then have "(of_int m / 2 powi e :: rat) = of_int (m * 2 ^ nat (- e))"
      by (simp add: power_int_def divide_simps power_inverse)
    then have "round_half_even (of_int m / 2 powi e) = m * 2 ^ nat (- e)"
      by (metis round_half_even_of_int)
    then have "fround p emin (of_int m) = of_int (m * 2 ^ nat (- e)) * 2 powi e"
      using m by (simp add: fround_def Let_def e_def)
    also have "\<dots> = of_int m" using e0 by (simp add: power_int_def power_inverse divide_simps)
    finally show ?thesis .
  qed
  note pos = this
  consider "0 < n" | "n = 0" | "n < 0" by linarith
  then show ?thesis
  proof cases
    case 1 then show ?thesis using pos assms by simp
  next
    case 3
    then have "fround p emin (of_int (- n)) = of_int (- n)" using pos [of "- n"] assms by simp
    then show ?thesis by (simp add: fround_minus)
  qed simp
qed

subsection \<open>Single and double precision\<close>

lemma f32_mono: "x \<le> y \<Longrightarrow> f32 x \<le> f32 y"
  by (simp add: f32_def fround_mono)

lemma f64_mono: "x \<le> y \<Longrightarrow> f64 x \<le> f64 y"
  by (simp add: f64_def fround_mono)

lemma f32_of_int: "\<bar>n\<bar> \<le> 16777216 \<Longrightarrow> f32 (of_int n) = of_int n"
  by (simp add: f32_def fround_of_int)

lemma f64_of_int: "\<bar>n\<bar> \<le> 9007199254740992 \<Longrightarrow> f64 (of_int n) = of_int n"
  by (simp add: f64_def fround_of_int)

lemma f32_numeral [simp]: "(numeral n :: int) \<le> 16777216 \<Longrightarrow> f32 (numeral n) = numeral n"
  using f32_of_int [of "numeral n"] by simp

lemma f64_numeral [simp]: "(numeral n :: int) \<le> 9007199254740992 \<Longrightarrow> f64 (numeral n) = numeral n"
  using f64_of_int [of "numeral n"] by simp

lemma f32_neg_numeral [simp]: "(numeral n :: int) \<le> 16777216 \<Longrightarrow> f32 (- numeral n) = - numeral n"
  using f32_of_int [of "- numeral n"] by simp

lemma f64_neg_numeral [simp]:
  "(numeral n :: int) \<le> 9007199254740992 \<Longrightarrow> f64 (- numeral n) = - numeral n"
  using f64_of_int [of "- numeral n"] by simp

lemma f32_01 [simp]: "f32 0 = 0" "f32 1 = 1"
  by (simp_all add: f32_def fround_of_int [of 1 24, simplified])

lemma f64_01 [simp]: "f64 0 = 0" "f64 1 = 1"
  by (simp_all add: f64_def fround_of_int [of 1 53, simplified])

lemma f_trunc_of_int [simp]: "f_trunc (of_int n) = n"
  by (simp add: f_trunc_def)

lemma f_trunc_numeral [simp]: "f_trunc (numeral n) = numeral n" "f_trunc 0 = 0" "f_trunc 1 = 1"
  by (simp_all add: f_trunc_def)

lemma f_trunc_nonneg: "0 \<le> x \<Longrightarrow> f_trunc x = \<lfloor>x\<rfloor>"
  by (simp add: f_trunc_def)

lemma f_trunc_mono:
  assumes "x \<le> y" shows "f_trunc x \<le> f_trunc y"
proof (cases "x < 0 \<and> 0 \<le> y")
  case True
  then have "\<lceil>x\<rceil> \<le> 0" "0 \<le> \<lfloor>y\<rfloor>" by (simp_all add: ceiling_le_iff)
  then have "\<lceil>x\<rceil> \<le> \<lfloor>y\<rfloor>" by linarith
  with True show ?thesis by (simp add: f_trunc_def)
next
  case False
  with assms show ?thesis by (auto simp: f_trunc_def floor_mono ceiling_mono)
qed

end
