(* ===== verification/CFormat.thy ===== *)
theory CFormat
  imports CFloat
begin

text \<open>
  The conversions of the C library the sources rely on: \<open>%d\<close> and \<open>%.2f\<close> of printf,
  the truncation of snprintf, and \<open>atoi\<close>.
\<close>

definition digit_char :: "nat \<Rightarrow> char" where
  "digit_char d = char_of (48 + d mod 10)"

fun dec_digits :: "nat \<Rightarrow> string" where
  "dec_digits n = (if n < 10 then [digit_char n] else dec_digits (n div 10) @ [digit_char n])"

declare dec_digits.simps [simp del]

definition fmt_d :: "int \<Rightarrow> string" where
  "fmt_d i = (if i < 0 then ''-'' @ dec_digits (nat (- i)) else dec_digits (nat i))"

definition fmt_f2 :: "rat \<Rightarrow> string" where
  "fmt_f2 x =
     (let r = nat (round_half_even (\<bar>x\<bar> * 100))
      in (if x < 0 then ''-'' else '''') @ dec_digits (r div 100) @ ''.''
         @ [digit_char (r div 10), digit_char r])"

text \<open>
  \<open>snprintf(out, size, \<dots>)\<close> stores at most \<open>size - 1\<close> characters and returns the length
  of the whole text.
\<close>

definition c_snprintf :: "nat \<Rightarrow> string \<Rightarrow> string \<times> nat" where
  "c_snprintf n txt = (take (n - 1) txt, length txt)"

definition is_digit :: "char \<Rightarrow> bool" where
  "is_digit c \<longleftrightarrow> 48 \<le> (of_char c :: nat) \<and> (of_char c :: nat) \<le> 57"

definition is_space :: "char \<Rightarrow> bool" where
  "is_space c \<longleftrightarrow> (of_char c :: nat) = 32 \<or> 9 \<le> (of_char c :: nat) \<and> (of_char c :: nat) \<le> 13"

fun digits_val :: "int \<Rightarrow> string \<Rightarrow> int" where
  "digits_val acc [] = acc"
| "digits_val acc (c # cs) =
     (if is_digit c then digits_val (acc * 10 + (int (of_char c) - 48)) cs else acc)"

definition c_atoi :: "string \<Rightarrow> int" where
  "c_atoi s =
     (case dropWhile is_space s of
        [] \<Rightarrow> 0
      | c # cs \<Rightarrow> if c = CHR ''-'' then - digits_val 0 cs
                  else if c = CHR ''+'' then digits_val 0 cs
                  else digits_val 0 (c # cs))"

subsection \<open>Printing and reading back\<close>

lemma of_char_digit_char [simp]: "(of_char (digit_char d) :: nat) = 48 + d mod 10"
proof -
  have "d mod 10 < 10" by simp
  then have "48 + d mod 10 < (256::nat)" by linarith
  then show ?thesis unfolding digit_char_def by (simp add: of_char_of mod_less)
qed

lemma is_digit_digit_char [simp]: "is_digit (digit_char d)"
proof -
  have "d mod 10 < 10" by simp
  then have "d mod 10 \<le> 9" by linarith
  then show ?thesis by (simp add: is_digit_def)
qed

lemma dec_digits_ne [simp]: "dec_digits n \<noteq> []"
  by (subst dec_digits.simps) simp

lemma dec_digits_digits: "c \<in> set (dec_digits n) \<Longrightarrow> is_digit c"
proof (induction n rule: dec_digits.induct)
  case (1 n)
  then show ?case by (subst (asm) (2) dec_digits.simps) (auto split: if_splits)
qed

lemma digits_val_append:
  "(\<And>c. c \<in> set xs \<Longrightarrow> is_digit c) \<Longrightarrow> digits_val a (xs @ ys) = digits_val (digits_val a xs) ys"
  by (induction a xs rule: digits_val.induct) auto

lemma digits_val_dec_digits: "digits_val 0 (dec_digits n) = int n"
proof (induction n rule: dec_digits.induct)
  case (1 n)
  show ?case
  proof (cases "n < 10")
    case True
    then show ?thesis by (simp add: dec_digits.simps [of n])
  next
    case False
    with 1 have "digits_val 0 (dec_digits (n div 10)) = int (n div 10)" by simp
    then show ?thesis using False
      by (simp add: dec_digits.simps [of n] digits_val_append dec_digits_digits)
        (simp flip: of_nat_add of_nat_mult add: zdiv_int zmod_int)
  qed
qed

lemma is_digit_not_space: "is_digit c \<Longrightarrow> \<not> is_space c"
  by (auto simp: is_digit_def is_space_def)

lemma is_digit_not_sign: "is_digit c \<Longrightarrow> c \<noteq> CHR ''-'' \<and> c \<noteq> CHR ''+''"
  by (auto simp: is_digit_def)

lemma c_atoi_digits:
  assumes "xs \<noteq> []" "\<And>c. c \<in> set xs \<Longrightarrow> is_digit c"
  shows "c_atoi xs = digits_val 0 xs"
proof (cases xs)
  case (Cons c cs)
  then have "is_digit c" using assms by simp
  then show ?thesis using is_digit_not_space [of c] is_digit_not_sign [of c]
    by (simp add: Cons c_atoi_def)
qed (use assms in simp)

lemma c_atoi_fmt_d: "c_atoi (fmt_d i) = i"
proof (cases "i < 0")
  case True
  have "\<not> is_space (CHR ''-'')" by (simp add: is_space_def)
  then show ?thesis using True by (simp add: fmt_d_def c_atoi_def digits_val_dec_digits)
next
  case False
  then show ?thesis
    using c_atoi_digits [OF dec_digits_ne, of "nat i"] dec_digits_digits
    by (simp add: fmt_d_def digits_val_dec_digits)
qed

text \<open>Characters after the number do not matter.\<close>

lemma digits_val_stop: "ys = [] \<or> \<not> is_digit (hd ys) \<Longrightarrow> digits_val n ys = n"
  by (cases ys) auto

lemma c_atoi_fmt_d_suffix:
  assumes "ys = [] \<or> \<not> is_digit (hd ys)"
  shows "c_atoi (fmt_d i @ ys) = i"
proof -
  have v: "digits_val 0 (dec_digits n @ ys) = int n" for n
    by (simp only: digits_val_append [OF dec_digits_digits] digits_val_dec_digits digits_val_stop [OF assms])
  show ?thesis
  proof (cases "i < 0")
    case True
    have "\<not> is_space (CHR ''-'')" by (simp add: is_space_def)
    then show ?thesis using True by (simp add: fmt_d_def c_atoi_def v)
  next
    case False
    obtain c cs where c: "dec_digits (nat i) = c # cs" by (cases "dec_digits (nat i)") auto
    then have "is_digit c" using dec_digits_digits [of c "nat i"] by simp
    then have "c_atoi (c # cs @ ys) = digits_val 0 (c # cs @ ys)"
      using is_digit_not_space [of c] is_digit_not_sign [of c] by (simp add: c_atoi_def)
    also have "\<dots> = int (nat i)" using v [of "nat i"] by (simp add: c)
    finally show ?thesis using False by (simp add: fmt_d_def c)
  qed
qed

lemma digit_char_neq: "\<not> is_digit c \<Longrightarrow> digit_char d \<noteq> c"
  using is_digit_digit_char by metis

text \<open>The number of digits of a 32-bit value.\<close>

lemma length_dec_digits_le: "n < 10 ^ k \<Longrightarrow> 0 < k \<Longrightarrow> length (dec_digits n) \<le> k"
proof (induction n arbitrary: k rule: dec_digits.induct)
  case (1 n)
  show ?case
  proof (cases "n < 10")
    case True
    then show ?thesis using "1.prems" by (simp add: dec_digits.simps [of n])
  next
    case False
    with "1.prems" obtain k' where k: "k = Suc k'" "0 < k'"
      by (cases k; cases "k - 1") auto
    with "1.prems" have "n div 10 < 10 ^ k'" by (simp add: less_mult_imp_div_less mult.commute)
    with "1.IH" False k have "length (dec_digits (n div 10)) \<le> k'" by simp
    then show ?thesis using False k by (simp add: dec_digits.simps [of n])
  qed
qed

lemma length_fmt_d: "- (2 ^ 31) \<le> i \<Longrightarrow> i < 2 ^ 31 \<Longrightarrow> length (fmt_d i) \<le> 11"
  using length_dec_digits_le [of "nat i" 10] length_dec_digits_le [of "nat (- i)" 10]
  by (cases "i < 0") (simp_all add: fmt_d_def nat_less_iff)

end
