(* ===== verification/WmData.thy ===== *)
theory WmData
  imports CFormat
begin

text \<open>
  Data of the washing machine application (source/demo_wm/washing_machine.h and the static
  variables of washing_machine.c): properties, modes, the information block, the software
  timers, the connection context, and the calls the application makes to the GUI and the cloud.
\<close>

subsection \<open>Enumerations\<close>

text \<open>Constants of the enum types with the integer value each has in C.\<close>

datatype wm_propertity_e =
    WORK_SW_PRO | WORK_ST_PRO | CHILD_LOCKSW_PRO | WATER_LEVEL_PRO | LEFT_TIME_PRO
  | SOAK_TIME_PRO | WASH_TIME_PRO | RINSH_TIME_PRO | SPINE_TIME_PRO | RINSH_TIMES_PRO
  | TARGET_SPINSPEED_PRO | TARGET_WATERTEM_PRO | DRY_TIME_PRO | DRY_SW_PRO
  | TARGET_DETERGENT_PRO | TARGET_SOFTENER_PRO | TARGET_DISINFECTAN_PRO | DOOR_OPENING_ST_PRO
  | PAUSE_SW_PRO | DRY_OPT_PRO | RESERVATION_TIMER_PRO | POWER_SW_PRO | WASHING_MODE_PRO
  | ALL_PRO

text \<open>The properties below \<open>ALL_PRO\<close> in the order of the enum, and their names.\<close>

definition wm_props :: "wm_propertity_e list" where
  "wm_props =
     [WORK_SW_PRO, WORK_ST_PRO, CHILD_LOCKSW_PRO, WATER_LEVEL_PRO, LEFT_TIME_PRO,
      SOAK_TIME_PRO, WASH_TIME_PRO, RINSH_TIME_PRO, SPINE_TIME_PRO, RINSH_TIMES_PRO,
      TARGET_SPINSPEED_PRO, TARGET_WATERTEM_PRO, DRY_TIME_PRO, DRY_SW_PRO,
      TARGET_DETERGENT_PRO, TARGET_SOFTENER_PRO, TARGET_DISINFECTAN_PRO, DOOR_OPENING_ST_PRO,
      PAUSE_SW_PRO, DRY_OPT_PRO, RESERVATION_TIMER_PRO, POWER_SW_PRO, WASHING_MODE_PRO]"

fun wm_properties :: "wm_propertity_e \<Rightarrow> string" where
  "wm_properties WORK_SW_PRO = ''WorkSwitch''"
| "wm_properties WORK_ST_PRO = ''WorkState''"
| "wm_properties CHILD_LOCKSW_PRO = ''ChildLockSwitch''"
| "wm_properties WATER_LEVEL_PRO = ''WaterLevel''"
| "wm_properties LEFT_TIME_PRO = ''LeftTime''"
| "wm_properties SOAK_TIME_PRO = ''SoakTime''"
| "wm_properties WASH_TIME_PRO = ''WashTime''"
| "wm_properties RINSH_TIME_PRO = ''RinshTime''"
| "wm_properties SPINE_TIME_PRO = ''SpinTime''"
| "wm_properties RINSH_TIMES_PRO = ''RinshTimes''"
| "wm_properties TARGET_SPINSPEED_PRO = ''TargetSpinSpeed''"
| "wm_properties TARGET_WATERTEM_PRO = ''TargetWaterTemperature''"
| "wm_properties DRY_TIME_PRO = ''DryTime''"
| "wm_properties DRY_SW_PRO = ''DrySwitch''"
| "wm_properties TARGET_DETERGENT_PRO = ''TargetDetergent''"
| "wm_properties TARGET_SOFTENER_PRO = ''TargetSoftener''"
| "wm_properties TARGET_DISINFECTAN_PRO = ''TargetDisinfectant''"
| "wm_properties DOOR_OPENING_ST_PRO = ''DoorOpeningState''"
| "wm_properties PAUSE_SW_PRO = ''PauseSwitch''"
| "wm_properties DRY_OPT_PRO = ''DryOpt''"
| "wm_properties RESERVATION_TIMER_PRO = ''ReservationTimer''"
| "wm_properties POWER_SW_PRO = ''PowerSwitch''"
| "wm_properties WASHING_MODE_PRO = ''WashingMode''"
| "wm_properties ALL_PRO = ''''"

text \<open>
  The cloud and the GUI assign integers to enum fields, so every enum type keeps the values
  outside its constants in a last constructor.
\<close>

datatype wm_washing_mode_e =
    WM_WM_STANDARD | WM_WM_SOFT | WM_WM_STRONG | WM_WM_QUICK | WM_WM_WOOL
  | WM_WM_CHEMFIBER | WM_WM_COTTON | WM_WM_JEANS | WM_WM_SELF | WM_WM_RAW int

datatype wm_work_state_e =
    WS_IDLE | WS_WORKING | WS_FINISHED | WS_RESERVATION | WS_PAUSE | WS_ERROR | WS_SHUTDOWN
  | WS_RAW int

definition wm_modes :: "wm_washing_mode_e list" where
  "wm_modes = [WM_WM_STANDARD, WM_WM_SOFT, WM_WM_STRONG, WM_WM_QUICK, WM_WM_WOOL,
               WM_WM_CHEMFIBER, WM_WM_COTTON, WM_WM_JEANS, WM_WM_SELF]"

definition mode_of_int :: "int \<Rightarrow> wm_washing_mode_e" where
  "mode_of_int i = (if 0 \<le> i \<and> i < 9 then wm_modes ! nat i else WM_WM_RAW i)"

fun int_of_mode :: "wm_washing_mode_e \<Rightarrow> int" where
  "int_of_mode WM_WM_STANDARD = 0"
| "int_of_mode WM_WM_SOFT = 1"
| "int_of_mode WM_WM_STRONG = 2"
| "int_of_mode WM_WM_QUICK = 3"
| "int_of_mode WM_WM_WOOL = 4"
| "int_of_mode WM_WM_CHEMFIBER = 5"
| "int_of_mode WM_WM_COTTON = 6"
| "int_of_mode WM_WM_JEANS = 7"
| "int_of_mode WM_WM_SELF = 8"
| "int_of_mode (WM_WM_RAW i) = i"

definition wm_states :: "wm_work_state_e list" where
  "wm_states = [WS_IDLE, WS_WORKING, WS_FINISHED, WS_RESERVATION, WS_PAUSE, WS_ERROR, WS_SHUTDOWN]"

definition state_of_int :: "int \<Rightarrow> wm_work_state_e" where
  "state_of_int i = (if 0 \<le> i \<and> i < 7 then wm_states ! nat i else WS_RAW i)"

fun int_of_state :: "wm_work_state_e \<Rightarrow> int" where
  "int_of_state WS_IDLE = 0"
| "int_of_state WS_WORKING = 1"
| "int_of_state WS_FINISHED = 2"
| "int_of_state WS_RESERVATION = 3"
| "int_of_state WS_PAUSE = 4"
| "int_of_state WS_ERROR = 5"
| "int_of_state WS_SHUTDOWN = 6"
| "int_of_state (WS_RAW i) = i"

text \<open>\<open>wm_water_level_e\<close> and \<open>wm_dry_opt_e\<close> are stored and printed only.\<close>

abbreviation (input) WL_LOW :: int where "WL_LOW \<equiv> 1"
abbreviation (input) WL_MIDDLE :: int where "WL_MIDDLE \<equiv> 2"
abbreviation (input) WL_HIGH :: int where "WL_HIGH \<equiv> 3"

lemma int_cases_lt9:
  "0 \<le> i \<Longrightarrow> i < 9 \<Longrightarrow> i = 0 \<or> i = 1 \<or> i = 2 \<or> i = 3 \<or> i = 4 \<or> i = 5 \<or> i = 6 \<or> i = 7 \<or> i = (8::int)"
  by arith

lemma int_of_mode_of_int [simp]: "int_of_mode (mode_of_int i) = i"
  using int_cases_lt9 [of i] by (auto simp: mode_of_int_def wm_modes_def)

lemma int_of_state_of_int [simp]: "int_of_state (state_of_int i) = i"
  using int_cases_lt9 [of i] by (auto simp: state_of_int_def wm_states_def)

subsection \<open>The information block\<close>

record wm_data_info =
  work_switch :: bool
  work_state :: wm_work_state_e
  clock_switch :: bool
  water_level :: int
  left_time :: rat
  soak_time :: rat
  wash_time :: rat
  rinsh_time :: rat
  spin_time :: rat
  rinsh_times :: int
  target_ss :: int
  target_wtem :: rat
  dry_time :: rat
  dry_switch :: bool
  target_detergent :: rat
  target_softener :: rat
  target_disinfectant :: rat
  door_opening_state :: bool
  pause_switch :: bool
  dry_opt :: int
  reserv_time :: rat
  power_switch :: bool
  washing_mode :: wm_washing_mode_e

subsection \<open>Units\<close>

text \<open>
  The conversion macros between minutes, seconds and timer counts. A macro applied to an int
  computes in int, applied to a double in double, applied to the float fields in float.
\<close>

definition WM_CBTIMER_PERIOD_MS :: int where
  "WM_CBTIMER_PERIOD_MS = 1000"

definition minutes2count_i :: "int \<Rightarrow> rat" where
  "minutes2count_i m = of_int (i32 (i32 (m * 60) * 1000) sdiv WM_CBTIMER_PERIOD_MS)"

definition minutes2count_d :: "rat \<Rightarrow> rat" where
  "minutes2count_d m = f64 (f64 (f64 (m * 60) * 1000) / of_int WM_CBTIMER_PERIOD_MS)"

definition seconds2count_i :: "int \<Rightarrow> rat" where
  "seconds2count_i s = of_int (i32 (s * 1000) sdiv WM_CBTIMER_PERIOD_MS)"

definition count2seconds :: "rat \<Rightarrow> rat" where
  "count2seconds c = f32 (f32 (c * of_int WM_CBTIMER_PERIOD_MS) / 1000)"

definition count2minutes :: "rat \<Rightarrow> rat" where
  "count2minutes c = f64 (count2seconds c / 60)"

subsection \<open>Timers, context and the machine state\<close>

record wm_local_timer_cb_args =
  lt_work_switch :: bool
  lt_wm :: int
  lt_timer_value :: string

text \<open>The callback functions a timer is started with, with their argument.\<close>

datatype wm_timer_cb_fun =
  CbNull | ReservationTimeout int | LocalTimerTimeout wm_local_timer_cb_args | FinishTimeout

datatype wm_periodic_cb_fun = PcbNull | ReservationPeriodic | LocalPeriodic | FinishPeriodic

record wm_timer_event =
  time_set :: int
  time_left :: int
  cb_function :: wm_timer_cb_fun
  pcb_function :: wm_periodic_cb_fun
  timer_event_name :: string

record wm_example_ctx =
  master_devid :: int
  cloud_connected :: bool
  master_initialized :: bool
  time_set_triggered :: bool
  report_error_to_cloud :: bool

text \<open>
  What the application makes visible: calls into the generated GUI class, and calls of the
  cloud SDK.
\<close>

datatype wm_effect =
    UpdateProgram int | UpdateTemp int | UpdateSpin int | UpdateOption int
  | UpdateMinute int | UpdateSecond int | UpdateRunning int
  | LinkkitReport string | LinkkitTriggerEvent string string | LinkkitQuery string
  | LinkkitUpdate string | LinkkitDelete string | SleepMs int

text \<open>
  The machine state: the static variables of washing_machine.c, the timer list (head first),
  the software timer and its mutex, whether freed memory has been read, whether allocations
  succeed (decided by the environment), and the trace of effects, latest last.
\<close>

record wm_state =
  wm_ib :: wm_data_info
  g_wm_ctx :: wm_example_ctx
  report_pro_current :: nat
  report_started :: bool
  wm_timers :: "wm_timer_event list"
  wm_second_timer_created :: bool
  wm_second_timer_on :: bool
  wm_mutex_taken :: bool
  finish_cnt :: int
  read_after_free :: bool
  mem_ok :: bool
  effects :: "wm_effect list"

datatype wm_fault = Blocked | BadAccess

type_synonym 'a wm_res = "wm_fault + 'a"

definition res_bind :: "'e + 'a \<Rightarrow> ('a \<Rightarrow> 'e + 'b) \<Rightarrow> 'e + 'b" where
  "res_bind r f = (case r of Inl e \<Rightarrow> Inl e | Inr x \<Rightarrow> f x)"

lemma res_bind_simps [simp]: "res_bind (Inl e) f = Inl e" "res_bind (Inr x) f = f x"
  by (simp_all add: res_bind_def)

lemma res_bind_Inr_iff: "res_bind r f = Inr y \<longleftrightarrow> (\<exists>x. r = Inr x \<and> f x = Inr y)"
  by (cases r) auto

definition emit :: "wm_effect list \<Rightarrow> wm_state \<Rightarrow> wm_state" where
  "emit es s = s\<lparr>effects := effects s @ es\<rparr>"

lemma emit_simps [simp]:
  "wm_ib (emit es s) = wm_ib s" "g_wm_ctx (emit es s) = g_wm_ctx s"
  "report_pro_current (emit es s) = report_pro_current s"
  "report_started (emit es s) = report_started s" "wm_timers (emit es s) = wm_timers s"
  "wm_second_timer_created (emit es s) = wm_second_timer_created s"
  "wm_second_timer_on (emit es s) = wm_second_timer_on s"
  "wm_mutex_taken (emit es s) = wm_mutex_taken s" "finish_cnt (emit es s) = finish_cnt s"
  "read_after_free (emit es s) = read_after_free s" "mem_ok (emit es s) = mem_ok s"
  "effects (emit es s) = effects s @ es"
  by (simp_all add: emit_def)

subsection \<open>Facts about the units\<close>

lemma minutes2count_i_eq:
  assumes "\<bar>m\<bar> \<le> 35791" shows "minutes2count_i m = of_int (60 * m)"
proof -
  have "i32 (i32 (m * 60) * 1000) = (60 * m) * 1000" using assms by (simp add: i32_id)
  moreover have "((60 * m) * 1000) sdiv 1000 = 60 * m" by (rule mult_sdiv_cancel) simp
  ultimately show ?thesis by (simp only: minutes2count_i_def WM_CBTIMER_PERIOD_MS_def)
qed

lemma seconds2count_i_eq: "\<bar>s\<bar> \<le> 2147483 \<Longrightarrow> seconds2count_i s = of_int s"
  using mult_sdiv_cancel [of 1000 s] by (simp add: seconds2count_i_def WM_CBTIMER_PERIOD_MS_def)

lemma count2seconds_of_int: "\<bar>n\<bar> \<le> 16777 \<Longrightarrow> count2seconds (of_int n) = of_int n"
proof -
  assume n: "\<bar>n\<bar> \<le> 16777"
  have "f32 (of_int n * of_int WM_CBTIMER_PERIOD_MS) = of_int (n * 1000)"
    unfolding WM_CBTIMER_PERIOD_MS_def of_int_mult [symmetric] using n by (intro f32_of_int) simp
  then show ?thesis using n by (simp add: count2seconds_def f32_of_int)
qed

lemma count2seconds_mono: "x \<le> y \<Longrightarrow> count2seconds x \<le> count2seconds y"
  by (simp add: count2seconds_def WM_CBTIMER_PERIOD_MS_def f32_mono)

lemma count2minutes_mono: "x \<le> y \<Longrightarrow> count2minutes x \<le> count2minutes y"
  by (simp add: count2minutes_def f64_mono count2seconds_mono)

lemma count2seconds_numeral [simp]:
  "(numeral n :: int) \<le> 16777 \<Longrightarrow> count2seconds (numeral n) = numeral n"
  using count2seconds_of_int [of "numeral n"] by simp

lemma count2seconds_01 [simp]: "count2seconds 0 = 0" "count2seconds 1 = 1"
  using count2seconds_of_int [of 0] count2seconds_of_int [of 1] by simp_all

end
