(* ===== verification/DeviceDriver.thy ===== *)
theory DeviceDriver
  imports WmData
begin

text \<open>
  The output half of emgui/DeviceDriver.c: the functions through which the application updates
  the properties of the generated GUI device class. The calls of the generated class
  (\<open>WasherDeviceClass__Update...\<close>) are the effects of \<open>WmData\<close>.
\<close>

definition DeviceDriver_updateWaterTemp :: "int \<Rightarrow> wm_state \<Rightarrow> wm_state" where
  "DeviceDriver_updateWaterTemp v = emit [UpdateTemp v]"

definition DeviceDriver_updateSpinSpeed :: "int \<Rightarrow> wm_state \<Rightarrow> wm_state" where
  "DeviceDriver_updateSpinSpeed v = emit [UpdateSpin v]"

definition DeviceDriver_updateLeftTime :: "int \<Rightarrow> wm_state \<Rightarrow> wm_state" where
  "DeviceDriver_updateLeftTime v =
     (let minutes = v sdiv 60; seconds = v smod 60
      in emit [UpdateSecond seconds, UpdateMinute minutes])"

definition DeviceDriver_updateWashMode :: "int \<Rightarrow> wm_state \<Rightarrow> wm_state" where
  "DeviceDriver_updateWashMode v = emit [UpdateProgram v]"

definition DeviceDriver_updateRunning :: "int \<Rightarrow> wm_state \<Rightarrow> wm_state" where
  "DeviceDriver_updateRunning v = emit [UpdateRunning v]"

definition DeviceDriver_updateDrySwitch :: "int \<Rightarrow> wm_state \<Rightarrow> wm_state" where
  "DeviceDriver_updateDrySwitch v = emit [UpdateOption v]"

text \<open>The values the GUI is initialised with.\<close>

definition DeviceDriver_Initialize :: "wm_state \<Rightarrow> wm_state" where
  "DeviceDriver_Initialize =
     emit [UpdateProgram 0, UpdateTemp 1, UpdateSpin 3, UpdateOption 0, UpdateMinute 8,
           UpdateSecond 0, UpdateRunning 0]"

lemmas driver_defs [wm_defs] =
  DeviceDriver_updateWaterTemp_def DeviceDriver_updateSpinSpeed_def
  DeviceDriver_updateLeftTime_def DeviceDriver_updateWashMode_def
  DeviceDriver_updateRunning_def DeviceDriver_updateDrySwitch_def DeviceDriver_Initialize_def

text \<open>The displayed minutes and seconds recombine to the seconds they show.\<close>

lemma updateLeftTime_split:
  assumes "0 \<le> v"
  shows "effects (DeviceDriver_updateLeftTime v s) =
           effects s @ [UpdateSecond (v mod 60), UpdateMinute (v div 60)]"
  using assms by (simp add: DeviceDriver_updateLeftTime_def sdiv_pos smod_pos)

subsection \<open>Text from the GUI to the serial console\<close>

text \<open>
  \<open>DeviceDriver_PrintMessage\<close>: 16-bit characters are narrowed to 8 bits into a buffer of 256
  bytes. The loop stops at the terminating 0 or when \<open>buflen\<close>, 255 at the start, is used up.
\<close>

fun copy_narrow :: "nat \<Rightarrow> u16 list \<Rightarrow> bytes" where
  "copy_narrow n [] = []"
| "copy_narrow 0 (c # cs) = []"
| "copy_narrow (Suc n) (c # cs) = (if c = 0 then [] else ucast c # copy_narrow n cs)"

definition DeviceDriver_PrintMessage :: "u16 list option \<Rightarrow> bytes option" where
  "DeviceDriver_PrintMessage aText =
     (case aText of None \<Rightarrow> None | Some cs \<Rightarrow> Some (copy_narrow 255 cs @ [0]))"

lemma copy_narrow_length: "length (copy_narrow n cs) \<le> n"
  by (induction n cs rule: copy_narrow.induct) auto

end
