(* ===== verification/WmReport.thy ===== *)
theory WmReport
  imports DeviceDriver
begin

text \<open>
  Reporting to the cloud (washing_machine.c): the text of a property, posting one property, and
  the report state machine that posts the properties of \<open>report_properties\<close> one per reply.
\<close>

subsection \<open>The text of a property\<close>

text \<open>The value part of \<open>wm_build_property_name_value\<close>: the switch over the properties.\<close>

fun property_value :: "wm_data_info \<Rightarrow> wm_propertity_e \<Rightarrow> string" where
  "property_value ib WORK_SW_PRO = fmt_d (c_int (work_switch ib))"
| "property_value ib WORK_ST_PRO = fmt_d (int_of_state (work_state ib))"
| "property_value ib CHILD_LOCKSW_PRO = fmt_d (c_int (clock_switch ib))"
| "property_value ib WATER_LEVEL_PRO = fmt_d (water_level ib)"
| "property_value ib LEFT_TIME_PRO = fmt_f2 (count2minutes (left_time ib))"
| "property_value ib SOAK_TIME_PRO = fmt_f2 (count2minutes (soak_time ib))"
| "property_value ib WASH_TIME_PRO = fmt_f2 (count2minutes (wash_time ib))"
| "property_value ib RINSH_TIME_PRO = fmt_f2 (count2minutes (rinsh_time ib))"
| "property_value ib SPINE_TIME_PRO = fmt_f2 (count2minutes (spin_time ib))"
| "property_value ib RINSH_TIMES_PRO = fmt_d (rinsh_times ib)"
| "property_value ib TARGET_SPINSPEED_PRO = fmt_d (target_ss ib)"
| "property_value ib TARGET_WATERTEM_PRO = fmt_f2 (target_wtem ib)"
| "property_value ib DRY_TIME_PRO = fmt_f2 (count2minutes (dry_time ib))"
| "property_value ib DRY_SW_PRO = fmt_d (c_int (dry_switch ib))"
| "property_value ib TARGET_DETERGENT_PRO = fmt_f2 (target_detergent ib)"
| "property_value ib TARGET_SOFTENER_PRO = fmt_f2 (target_softener ib)"
| "property_value ib TARGET_DISINFECTAN_PRO = fmt_f2 (target_disinfectant ib)"
| "property_value ib DOOR_OPENING_ST_PRO = fmt_d (c_int (door_opening_state ib))"
| "property_value ib PAUSE_SW_PRO = fmt_d (c_int (pause_switch ib))"
| "property_value ib DRY_OPT_PRO = fmt_d (dry_opt ib)"
| "property_value ib RESERVATION_TIMER_PRO = fmt_f2 (count2minutes (reserv_time ib))"
| "property_value ib POWER_SW_PRO = fmt_d (c_int (power_switch ib))"
| "property_value ib WASHING_MODE_PRO = fmt_d (int_of_mode (washing_mode ib))"
| "property_value ib ALL_PRO = ''''"

text \<open>
  \<open>wm_build_property_name_value\<close>: the characters stored and the offset returned, nothing for
  \<open>ALL_PRO\<close> (the code returns -1).
\<close>

definition wm_build_property_name_value ::
    "wm_data_info \<Rightarrow> wm_propertity_e \<Rightarrow> (string \<times> nat) option" where
  "wm_build_property_name_value ib epro =
     (if epro = ALL_PRO then None
      else let (t1, n1) = c_snprintf 64 (''{'' @ [CHR 0x22] @ wm_properties epro @ [CHR 0x22] @ '': '');
               (t2, n2) = c_snprintf 64 (property_value ib epro @ ''}'')
           in Some (t1 @ t2, n1 + n2))"

text \<open>The texts of several properties, written one behind the other.\<close>

fun build_all :: "wm_data_info \<Rightarrow> wm_propertity_e list \<Rightarrow> string" where
  "build_all ib [] = ''''"
| "build_all ib (p # ps) =
     (case wm_build_property_name_value ib p of
        None \<Rightarrow> build_all ib ps
      | Some (t, n) \<Rightarrow> t @ build_all ib ps)"

text \<open>
  \<open>wm_property_post\<close>: the text is built in an allocated buffer of 128 bytes; writing past it
  is a bad access.
\<close>

definition wm_property_post :: "wm_propertity_e \<Rightarrow> wm_state \<Rightarrow> wm_state wm_res" where
  "wm_property_post epro s =
     (if \<not> cloud_connected (g_wm_ctx s) then Inr s
      else if \<not> mem_ok s then Inr s
      else let payload = (if epro = ALL_PRO then build_all (wm_ib s) wm_props
                          else build_all (wm_ib s) [epro])
           in if 128 \<le> length payload then Inl BadAccess
              else Inr (emit [LinkkitReport payload] s))"

subsection \<open>The report state machine\<close>

definition report_properties :: "wm_propertity_e list" where
  "report_properties =
     [WORK_SW_PRO, WORK_ST_PRO, LEFT_TIME_PRO, TARGET_WATERTEM_PRO, TARGET_SPINSPEED_PRO,
      DRY_SW_PRO, WASHING_MODE_PRO]"

definition wm_report_all_pro_to_cloud :: "wm_state \<Rightarrow> wm_state wm_res" where
  "wm_report_all_pro_to_cloud s =
     (let n = length report_properties in
      if report_pro_current s = n \<and> \<not> report_started s then Inr s
      else
        let cur = (if report_pro_current s = n then 0 else report_pro_current s) in
        if n \<le> cur then Inl BadAccess
        else res_bind
          (wm_property_post (report_properties ! cur) (s\<lparr>report_pro_current := (cur + 1) mod 256\<rparr>))
          (\<lambda>s. Inr (if n \<le> report_pro_current s
                    then s\<lparr>report_started := False, report_pro_current := n\<rparr> else s)))"

definition wm_report_all_to_gui :: "wm_state \<Rightarrow> wm_state" where
  "wm_report_all_to_gui s =
     (let ib = wm_ib s in
      DeviceDriver_updateLeftTime (f_trunc (count2seconds (left_time ib)))
        (DeviceDriver_updateSpinSpeed (i32 (target_ss ib - 400) sdiv 200)
          (DeviceDriver_updateWaterTemp (i32 (f_trunc (target_wtem ib) - 20) sdiv 10)
            (DeviceDriver_updateWashMode (int_of_mode (washing_mode ib)) s))))"

definition wm_report_dryswitch_to_gui :: "wm_state \<Rightarrow> wm_state" where
  "wm_report_dryswitch_to_gui s =
     DeviceDriver_updateLeftTime (f_trunc (count2seconds (left_time (wm_ib s))))
       (DeviceDriver_updateDrySwitch (c_int (dry_switch (wm_ib s))) s)"

text \<open>\<open>wm_report_all_enable\<close>: a report is started only when the cloud is connected.\<close>

definition wm_report_all_enable :: "wm_state \<Rightarrow> wm_state" where
  "wm_report_all_enable s = (if cloud_connected (g_wm_ctx s) then s\<lparr>report_started := True\<rparr> else s)"

subsection \<open>Length of a posted property\<close>

lemma length_wm_properties: "length (wm_properties p) \<le> 22"
  by (cases p) simp_all

lemma build_one:
  "p \<noteq> ALL_PRO \<Longrightarrow> build_all ib [p] =
     ''{'' @ [CHR 0x22] @ wm_properties p @ [CHR 0x22] @ '': '' @ take 63 (property_value ib p @ ''}'')"
  using length_wm_properties [of p]
  by (simp add: wm_build_property_name_value_def c_snprintf_def take_Cons')

lemma length_build_one: "p \<noteq> ALL_PRO \<Longrightarrow> length (build_all ib [p]) \<le> 90"
  using length_wm_properties [of p] by (simp add: build_one del: build_all.simps)

definition prop_payload :: "wm_data_info \<Rightarrow> wm_propertity_e \<Rightarrow> string" where
  "prop_payload ib p = build_all ib [p]"

text \<open>Posting a single property never leaves the buffer.\<close>

definition post_effects :: "wm_state \<Rightarrow> wm_propertity_e \<Rightarrow> wm_effect list" where
  "post_effects s p =
     (if cloud_connected (g_wm_ctx s) \<and> mem_ok s then [LinkkitReport (prop_payload (wm_ib s) p)] else [])"

lemma wm_property_post_one:
  "p \<noteq> ALL_PRO \<Longrightarrow> wm_property_post p s = Inr (emit (post_effects s p) s)"
  using length_build_one [of p "wm_ib s"]
  by (simp add: wm_property_post_def post_effects_def emit_def Let_def prop_payload_def del: build_all.simps)

lemma wm_property_post_simps [simp]:
  "wm_property_post WORK_SW_PRO s = Inr (emit (post_effects s WORK_SW_PRO) s)"
  "wm_property_post LEFT_TIME_PRO s = Inr (emit (post_effects s LEFT_TIME_PRO) s)"
  "wm_property_post DRY_SW_PRO s = Inr (emit (post_effects s DRY_SW_PRO) s)"
  "wm_property_post TARGET_SPINSPEED_PRO s = Inr (emit (post_effects s TARGET_SPINSPEED_PRO) s)"
  "wm_property_post TARGET_WATERTEM_PRO s = Inr (emit (post_effects s TARGET_WATERTEM_PRO) s)"
  "wm_property_post WASHING_MODE_PRO s = Inr (emit (post_effects s WASHING_MODE_PRO) s)"
  "wm_property_post RESERVATION_TIMER_PRO s = Inr (emit (post_effects s RESERVATION_TIMER_PRO) s)"
  by (simp_all add: wm_property_post_one)

subsection \<open>One step of the report\<close>

text \<open>The step as a total function, for states whose report position is in range.\<close>

definition report_step :: "wm_state \<Rightarrow> wm_state" where
  "report_step s =
     (if report_pro_current s = 7 \<and> \<not> report_started s then s
      else let cur = (if report_pro_current s = 7 then 0 else report_pro_current s);
               s' = emit (post_effects s (report_properties ! cur)) s
           in if cur = 6 then s'\<lparr>report_started := False, report_pro_current := 7\<rparr>
              else s'\<lparr>report_pro_current := cur + 1\<rparr>)"

lemma report_properties_not_all: "i < 7 \<Longrightarrow> report_properties ! i \<noteq> ALL_PRO"
proof -
  assume "i < 7"
  then have "i = 0 \<or> i = 1 \<or> i = 2 \<or> i = 3 \<or> i = 4 \<or> i = 5 \<or> i = 6" by arith
  then show ?thesis by (auto simp: report_properties_def)
qed

lemma post_effects_cong:
  "cloud_connected (g_wm_ctx s) = cloud_connected (g_wm_ctx t) \<Longrightarrow> mem_ok s = mem_ok t \<Longrightarrow>
   wm_ib s = wm_ib t \<Longrightarrow> post_effects s p = post_effects t p"
  by (simp add: post_effects_def)

lemma post_effects_current [simp]:
  "post_effects (s\<lparr>report_pro_current := n\<rparr>) p = post_effects s p"
  by (simp add: post_effects_def)

lemma length_report_properties [simp]: "length report_properties = 7"
  by (simp add: report_properties_def)

lemma wm_report_step:
  assumes "report_pro_current s \<le> 7"
  shows "wm_report_all_pro_to_cloud s = Inr (report_step s)"
proof (cases "report_pro_current s = 7 \<and> \<not> report_started s")
  case True
  then show ?thesis by (simp add: wm_report_all_pro_to_cloud_def report_step_def Let_def)
next
  case False
  define cur where "cur = (if report_pro_current s = 7 then 0 else report_pro_current s)"
  have cur: "cur < 7" using assms by (simp add: cur_def)
  have "wm_report_all_pro_to_cloud s = res_bind
          (wm_property_post (report_properties ! cur) (s\<lparr>report_pro_current := (cur + 1) mod 256\<rparr>))
          (\<lambda>s. Inr (if 7 \<le> report_pro_current s
                    then s\<lparr>report_started := False, report_pro_current := 7\<rparr> else s))"
  proof -
    have neg: "(report_pro_current s = 7 \<and> \<not> report_started s) = False" using False by simp
    show ?thesis
      by (simp only: wm_report_all_pro_to_cloud_def Let_def length_report_properties neg if_False
          cur_def [symmetric]) (use cur in simp)
  qed
  also have "\<dots> = Inr (report_step s)"
    using False cur
    by (auto simp: wm_property_post_one [OF report_properties_not_all] report_step_def emit_def Let_def
        simp flip: cur_def)
  finally show ?thesis .
qed

lemma report_step_frame [simp]:
  "wm_ib (report_step s) = wm_ib s" "g_wm_ctx (report_step s) = g_wm_ctx s"
  "wm_timers (report_step s) = wm_timers s"
  "wm_second_timer_on (report_step s) = wm_second_timer_on s"
  "wm_mutex_taken (report_step s) = wm_mutex_taken s" "finish_cnt (report_step s) = finish_cnt s"
  "read_after_free (report_step s) = read_after_free s" "mem_ok (report_step s) = mem_ok s"
  by (simp_all add: report_step_def Let_def)

lemma report_step_bound [simp]: "report_pro_current s \<le> 7 \<Longrightarrow> report_pro_current (report_step s) \<le> 7"
  by (auto simp: report_step_def Let_def)

text \<open>
  The calls made one after the other: each reply of the cloud triggers the next call.
\<close>

fun report_calls :: "nat \<Rightarrow> wm_state \<Rightarrow> wm_state wm_res" where
  "report_calls 0 s = Inr s"
| "report_calls (Suc n) s = res_bind (wm_report_all_pro_to_cloud s) (report_calls n)"

text \<open>From position \<open>cur\<close>, the remaining properties are posted in order.\<close>

lemma report_step_middle:
  assumes "report_pro_current s < 6" "cloud_connected (g_wm_ctx s)" "mem_ok s"
  shows "report_step s =
     (emit [LinkkitReport (prop_payload (wm_ib s) (report_properties ! report_pro_current s))] s)
       \<lparr>report_pro_current := report_pro_current s + 1\<rparr>"
  using assms by (simp add: report_step_def post_effects_def Let_def)

lemma report_calls_middle:
  assumes "report_pro_current s + n = 7" "0 < n" "cloud_connected (g_wm_ctx s)" "mem_ok s"
  shows "report_calls n s = Inr
     ((emit (map (\<lambda>p. LinkkitReport (prop_payload (wm_ib s) p)) (drop (report_pro_current s) report_properties)) s)
       \<lparr>report_started := False, report_pro_current := 7\<rparr>)"
  using assms
proof (induction n arbitrary: s)
  case (Suc n)
  let ?c = "report_pro_current s"
  have c: "?c \<le> 6" using Suc.prems by simp
  have drop: "drop ?c report_properties = report_properties ! ?c # drop (Suc ?c) report_properties"
    using c by (intro Cons_nth_drop_Suc [symmetric]) simp
  show ?case
  proof (cases "n = 0")
    case True
    then have c6: "?c = 6" using Suc.prems by simp
    have last: "drop 6 report_properties = [report_properties ! 6]"
      by (simp add: report_properties_def)
    show ?thesis using Suc.prems True c6
      by (simp add: wm_report_step report_step_def post_effects_def last emit_def)
  next
    case False
    with Suc.prems have lt: "?c < 6" by simp
    define t where "t = report_step s"
    have t: "t = (emit [LinkkitReport (prop_payload (wm_ib s) (report_properties ! ?c))] s)
                   \<lparr>report_pro_current := Suc ?c\<rparr>"
      using report_step_middle [of s] lt Suc.prems by (simp add: t_def)
    have cur: "report_pro_current t = Suc ?c" and ib: "wm_ib t = wm_ib s"
      by (simp_all add: t)
    have "report_calls (Suc n) s = report_calls n t"
      using c by (simp add: wm_report_step t_def)
    also have "\<dots> = Inr
      ((emit (map (\<lambda>p. LinkkitReport (prop_payload (wm_ib s) p)) (drop (Suc ?c) report_properties)) t)
         \<lparr>report_started := False, report_pro_current := 7\<rparr>)"
      using Suc.IH [of t] Suc.prems False by (simp only: cur ib) (simp add: t)
    also have "\<dots> = Inr
      ((emit (map (\<lambda>p. LinkkitReport (prop_payload (wm_ib s) p)) (drop ?c report_properties)) s)
         \<lparr>report_started := False, report_pro_current := 7\<rparr>)"
      by (subst drop) (simp add: t emit_def)
    finally show ?thesis .
  qed
qed simp

lemma report_cycle:
  assumes "report_pro_current s = 7" "report_started s" "cloud_connected (g_wm_ctx s)" "mem_ok s"
  shows "report_calls 7 s = Inr
     ((emit (map (\<lambda>p. LinkkitReport (prop_payload (wm_ib s) p)) report_properties) s)
       \<lparr>report_started := False, report_pro_current := 7\<rparr>)"
proof -
  have 7: "(7::nat) = Suc 6" by simp
  have r0: "report_step s =
     (emit [LinkkitReport (prop_payload (wm_ib s) (report_properties ! 0))] s)\<lparr>report_pro_current := 1\<rparr>"
    using assms by (simp add: report_step_def post_effects_def Let_def)
  have d: "report_properties = report_properties ! 0 # drop 1 report_properties"
    by (simp add: report_properties_def)
  have "report_calls 7 s = report_calls 6 (report_step s)"
    unfolding 7 report_calls.simps using assms by (simp add: wm_report_step)
  also have "\<dots> = Inr
     ((emit (map (\<lambda>p. LinkkitReport (prop_payload (wm_ib s) p)) (drop 1 report_properties)) (report_step s))
       \<lparr>report_started := False, report_pro_current := 7\<rparr>)"
    using report_calls_middle [of "report_step s" 6] assms by (simp add: r0 emit_def)
  finally show ?thesis by (simp add: r0 emit_def) (subst (2) d, simp)
qed

end
