(* ===== verification/Interfaces.thy ===== *)
theory Interfaces
  imports Prelude
begin

text \<open>
  The contracts several components share, as locales: a store addressed by keys (the timer
  list, the cache of pending messages, the table of connections, the flash store), a bounded
  first-in first-out queue (the message queue of the device manager), and a pair of an encoder
  and a decoder (the packets of the network protocols). The theory of each component interprets
  them on its own operations.
\<close>

subsection \<open>Stores addressed by keys\<close>

datatype ('k, 'v) store_op = Put 'k 'v | Del 'k

text \<open>The abstract store is a map; a sequence of operations acts on it.\<close>

fun map_op :: "('k, 'v) store_op \<Rightarrow> ('k \<Rightarrow> 'v option) \<Rightarrow> ('k \<Rightarrow> 'v option)" where
  "map_op (Put k v) m = m(k \<mapsto> v)"
| "map_op (Del k) m = m(k := None)"

fun store_apply :: "('k \<Rightarrow> 'v \<Rightarrow> 's \<Rightarrow> 's) \<Rightarrow> ('k \<Rightarrow> 's \<Rightarrow> 's) \<Rightarrow> ('k, 'v) store_op \<Rightarrow> 's \<Rightarrow> 's" where
  "store_apply put del (Put k v) s = put k v s"
| "store_apply put del (Del k) s = del k s"

locale keyed_store =
  fixes inv :: "'s \<Rightarrow> bool"
    and ok :: "'k \<Rightarrow> 'v \<Rightarrow> bool"
    and lookup :: "'k \<Rightarrow> 's \<Rightarrow> 'v option"
    and put :: "'k \<Rightarrow> 'v \<Rightarrow> 's \<Rightarrow> 's"
    and del :: "'k \<Rightarrow> 's \<Rightarrow> 's"
  assumes inv_put: "inv s \<Longrightarrow> ok k v \<Longrightarrow> inv (put k v s)"
    and inv_del: "inv s \<Longrightarrow> inv (del k s)"
    and lookup_put: "inv s \<Longrightarrow> ok k v \<Longrightarrow> lookup j (put k v s) = (if j = k then Some v else lookup j s)"
    and lookup_del: "inv s \<Longrightarrow> lookup j (del k s) = (if j = k then None else lookup j s)"
begin

fun op_ok :: "('k, 'v) store_op \<Rightarrow> bool" where
  "op_ok (Put k v) = ok k v"
| "op_ok (Del k) = True"

lemma inv_apply: "inv s \<Longrightarrow> op_ok p \<Longrightarrow> inv (store_apply put del p s)"
  by (cases p) (simp_all add: inv_put inv_del)

lemma lookup_apply:
  "inv s \<Longrightarrow> op_ok p \<Longrightarrow>
   (\<lambda>k. lookup k (store_apply put del p s)) = map_op p (\<lambda>k. lookup k s)"
  by (cases p) (auto simp: lookup_put lookup_del)

lemma inv_run: "inv s \<Longrightarrow> list_all op_ok ps \<Longrightarrow> inv (fold (store_apply put del) ps s)"
  by (induction ps arbitrary: s) (auto simp: inv_apply)

text \<open>Any sequence of operations refines the same sequence on maps.\<close>

lemma lookup_run:
  "inv s \<Longrightarrow> list_all op_ok ps \<Longrightarrow>
   (\<lambda>k. lookup k (fold (store_apply put del) ps s)) = fold map_op ps (\<lambda>k. lookup k s)"
  by (induction ps arbitrary: s) (simp_all add: inv_apply lookup_apply)

lemma lookup_put_del: "inv s \<Longrightarrow> ok k v \<Longrightarrow> lookup k (put k v (del k s)) = Some v"
  by (simp add: lookup_put inv_del)

lemma lookup_put_put:
  "inv s \<Longrightarrow> ok k v \<Longrightarrow> ok k w \<Longrightarrow> lookup j (put k w (put k v s)) = lookup j (put k w s)"
  by (simp add: lookup_put inv_put)

end

subsection \<open>Stores that may refuse\<close>

text \<open>
  A store whose \<open>put\<close> may refuse for want of space, and may even never return. The ones of a
  sequence of operations that were accepted act on the map the store represents.
\<close>

fun accepted :: "('k, 'v) store_op list \<Rightarrow> bool list \<Rightarrow> ('k, 'v) store_op list" where
  "accepted (p # ps) (b # bs) = (if b then p # accepted ps bs else accepted ps bs)"
| "accepted _ _ = []"

fun store_run :: "('k \<Rightarrow> 'v \<Rightarrow> 's \<Rightarrow> (bool \<times> 's) option) \<Rightarrow> ('k \<Rightarrow> 's \<Rightarrow> 's) \<Rightarrow>
    ('k, 'v) store_op list \<Rightarrow> 's \<Rightarrow> (bool list \<times> 's) option" where
  "store_run put del [] s = Some ([], s)"
| "store_run put del (Put k v # ps) s =
     (case put k v s of None \<Rightarrow> None
      | Some (b, t) \<Rightarrow> map_option (\<lambda>(bs, u). (b # bs, u)) (store_run put del ps t))"
| "store_run put del (Del k # ps) s =
     map_option (\<lambda>(bs, u). (True # bs, u)) (store_run put del ps (del k s))"

locale map_refinement =
  fixes rep :: "('k \<Rightarrow> 'v option) \<Rightarrow> 's \<Rightarrow> bool"
    and ok :: "'k \<Rightarrow> 'v \<Rightarrow> bool"
    and get :: "'k \<Rightarrow> 's \<Rightarrow> 'v option"
    and put :: "'k \<Rightarrow> 'v \<Rightarrow> 's \<Rightarrow> (bool \<times> 's) option"
    and del :: "'k \<Rightarrow> 's \<Rightarrow> 's"
  assumes rep_get: "rep m s \<Longrightarrow> get k s = m k"
    and rep_put: "rep m s \<Longrightarrow> ok k v \<Longrightarrow> put k v s = Some (b, t) \<Longrightarrow> rep (if b then m(k \<mapsto> v) else m) t"
    and rep_del: "rep m s \<Longrightarrow> rep (m(k := None)) (del k s)"
begin

fun put_ok :: "('k, 'v) store_op \<Rightarrow> bool" where
  "put_ok (Put k v) = ok k v"
| "put_ok (Del k) = True"

lemma rep_run:
  "rep m s \<Longrightarrow> list_all put_ok ps \<Longrightarrow> store_run put del ps s = Some (bs, t) \<Longrightarrow>
   rep (fold map_op (accepted ps bs) m) t"
proof (induction ps arbitrary: m s bs)
  case (Cons p ps)
  show ?case
  proof (cases p)
    case (Put k v)
    then obtain b u cs where "put k v s = Some (b, u)" "store_run put del ps u = Some (cs, t)" "bs = b # cs"
      using Cons.prems(3) by (auto split: option.splits)
    then show ?thesis
      using Cons.IH [of "if b then m(k \<mapsto> v) else m" u cs] rep_put [OF Cons.prems(1), of k v b u] Cons.prems(2) Put
      by (auto split: if_splits)
  next
    case (Del k)
    then show ?thesis using Cons.IH rep_del [OF Cons.prems(1), of k] Cons.prems by auto
  qed
qed simp

text \<open>What is read at the end is what the accepted operations leave.\<close>

lemma get_run:
  "rep m s \<Longrightarrow> list_all put_ok ps \<Longrightarrow> store_run put del ps s = Some (bs, t) \<Longrightarrow>
   get k t = fold map_op (accepted ps bs) m k"
  using rep_run rep_get by blast

end

subsection \<open>Bounded queues\<close>

fun enq_all :: "('a \<Rightarrow> 's \<Rightarrow> 's option) \<Rightarrow> 'a list \<Rightarrow> 's \<Rightarrow> 's option" where
  "enq_all enq [] s = Some s"
| "enq_all enq (x # xs) s = (case enq x s of None \<Rightarrow> None | Some t \<Rightarrow> enq_all enq xs t)"

fun deq_all :: "('s \<Rightarrow> ('a \<times> 's) option) \<Rightarrow> nat \<Rightarrow> 's \<Rightarrow> ('a list \<times> 's) option" where
  "deq_all deq 0 s = Some ([], s)"
| "deq_all deq (Suc n) s =
     (case deq s of None \<Rightarrow> None
      | Some (x, t) \<Rightarrow> (case deq_all deq n t of None \<Rightarrow> None | Some (xs, u) \<Rightarrow> Some (x # xs, u)))"

locale bounded_queue =
  fixes inv :: "'s \<Rightarrow> bool"
    and cap :: nat
    and elems :: "'s \<Rightarrow> 'a list"
    and enq :: "'a \<Rightarrow> 's \<Rightarrow> 's option"
    and deq :: "'s \<Rightarrow> ('a \<times> 's) option"
  assumes bound: "inv s \<Longrightarrow> length (elems s) \<le> cap"
    and enq_room: "inv s \<Longrightarrow> length (elems s) < cap \<Longrightarrow>
      \<exists>t. enq x s = Some t \<and> inv t \<and> elems t = elems s @ [x]"
    and enq_full: "inv s \<Longrightarrow> length (elems s) = cap \<Longrightarrow> enq x s = None"
    and deq_empty: "inv s \<Longrightarrow> elems s = [] \<Longrightarrow> deq s = None"
    and deq_cons: "inv s \<Longrightarrow> elems s = x # xs \<Longrightarrow> \<exists>t. deq s = Some (x, t) \<and> inv t \<and> elems t = xs"
begin

lemma enq_all_room:
  "inv s \<Longrightarrow> length (elems s) + length xs \<le> cap \<Longrightarrow>
   \<exists>t. enq_all enq xs s = Some t \<and> inv t \<and> elems t = elems s @ xs"
proof (induction xs arbitrary: s)
  case (Cons x xs)
  obtain t where t: "enq x s = Some t" "inv t" "elems t = elems s @ [x]"
    using enq_room [of s x] Cons.prems by auto
  then show ?case using Cons.IH [of t] Cons.prems by auto
qed simp

lemma deq_all_elems:
  "inv s \<Longrightarrow> elems s = xs @ ys \<Longrightarrow>
   \<exists>t. deq_all deq (length xs) s = Some (xs, t) \<and> inv t \<and> elems t = ys"
proof (induction xs arbitrary: s)
  case (Cons x xs)
  obtain t where t: "deq s = Some (x, t)" "inv t" "elems t = xs @ ys"
    using deq_cons [of s x "xs @ ys"] Cons.prems by auto
  then show ?case using Cons.IH [of t] by auto
qed simp

text \<open>What goes in comes out, in the same order.\<close>

lemma fifo:
  assumes "inv s" "elems s = []" "length xs \<le> cap"
  shows "\<exists>t u. enq_all enq xs s = Some t \<and> deq_all deq (length xs) t = Some (xs, u) \<and>
               inv u \<and> elems u = []"
proof -
  obtain t where t: "enq_all enq xs s = Some t" "inv t" "elems t = xs"
    using enq_all_room [of s xs] assms by auto
  then show ?thesis using deq_all_elems [of t xs "[]"] by auto
qed

end

subsection \<open>Encoders and decoders\<close>

fun dec_stream :: "('b list \<Rightarrow> ('a \<times> 'b list) option) \<Rightarrow> nat \<Rightarrow> 'b list \<Rightarrow> ('a list \<times> 'b list) option" where
  "dec_stream dec 0 bs = Some ([], bs)"
| "dec_stream dec (Suc n) bs =
     (case dec bs of None \<Rightarrow> None
      | Some (x, r) \<Rightarrow>
          (case dec_stream dec n r of None \<Rightarrow> None | Some (xs, r') \<Rightarrow> Some (x # xs, r')))"

locale codec =
  fixes ok :: "'a \<Rightarrow> bool"
    and enc :: "'a \<Rightarrow> 'b list"
    and dec :: "'b list \<Rightarrow> ('a \<times> 'b list) option"
  assumes dec_enc: "ok x \<Longrightarrow> dec (enc x @ r) = Some (x, r)"
begin

lemma enc_prefix_free: "ok x \<Longrightarrow> ok y \<Longrightarrow> enc x @ r = enc y @ q \<Longrightarrow> x = y \<and> r = q"
proof -
  assume a: "ok x" "ok y" "enc x @ r = enc y @ q"
  have "Some (x, r) = Some (y, q)"
    by (simp only: dec_enc [OF a(1), symmetric] dec_enc [OF a(2), symmetric] a(3))
  then show ?thesis by simp
qed

lemma enc_inj: "ok x \<Longrightarrow> ok y \<Longrightarrow> enc x = enc y \<Longrightarrow> x = y"
  using enc_prefix_free [of x y "[]" "[]"] by (simp only: append_Nil2)

lemma dec_enc_stream:
  "list_all ok xs \<Longrightarrow> dec_stream dec (length xs) (concat (map enc xs) @ r) = Some (xs, r)"
  by (induction xs) (simp_all add: dec_enc)

end

end
