(* ===== verification/WmTimer.thy ===== *)
theory WmTimer
  imports WmReport Interfaces
begin

text \<open>
  The software timers of the washing machine (washing_machine.c): a list of timer events
  served once per second by the FreeRTOS timer, protected by a mutex. The list is kept head
  first: \<open>list_add\<close> is \<open>#\<close>, \<open>list_del\<close> removes the node. A mutex that is already taken
  blocks the caller for ever (\<open>portMAX_DELAY\<close>).
\<close>

subsection \<open>Callbacks\<close>

definition wm_ui_handle_work_switch_off :: "wm_state \<Rightarrow> wm_state" where
  "wm_ui_handle_work_switch_off s = DeviceDriver_updateRunning 0 s"

definition wm_ui_handle_work_switch_on :: "wm_state \<Rightarrow> wm_state" where
  "wm_ui_handle_work_switch_on s = DeviceDriver_updateRunning 1 s"

definition wm_reservation_timeout_cb :: "int \<Rightarrow> wm_state \<Rightarrow> wm_state wm_res" where
  "wm_reservation_timeout_cb minutes s =
     wm_property_post RESERVATION_TIMER_PRO (s\<lparr>wm_ib := (wm_ib s)\<lparr>reserv_time := 0\<rparr>\<rparr>)"

definition wm_localtimer_timeout_cb :: "wm_local_timer_cb_args \<Rightarrow> wm_state \<Rightarrow> wm_state wm_res" where
  "wm_localtimer_timeout_cb a s =
     res_bind
       (wm_property_post WORK_SW_PRO
          (s\<lparr>wm_ib := (wm_ib s)\<lparr>work_switch := lt_work_switch a, work_state := state_of_int (lt_wm a)\<rparr>\<rparr>))
       (wm_property_post WASHING_MODE_PRO)"

definition wm_finishtimer_timeout_cb :: "wm_state \<Rightarrow> wm_state wm_res" where
  "wm_finishtimer_timeout_cb s =
     res_bind
       (wm_report_all_pro_to_cloud
          (s\<lparr>wm_ib := (wm_ib s)\<lparr>work_state := WS_FINISHED, work_switch := False\<rparr>, report_started := True\<rparr>))
       (\<lambda>s. Inr (wm_ui_handle_work_switch_off s))"

text \<open>
  \<open>wm_finish_timer_periodic_cb\<close>: one second less, shown on the GUI, and posted on every sixth
  call (the static counter \<open>cnt\<close>).
\<close>

definition wm_finish_timer_periodic_cb :: "int \<Rightarrow> wm_state \<Rightarrow> wm_state wm_res" where
  "wm_finish_timer_periodic_cb cnt_left s =
     (let ib = (wm_ib s)\<lparr>left_time := f32 (left_time (wm_ib s) - 1)\<rparr>;
          s1 = DeviceDriver_updateLeftTime (f_trunc (count2seconds (left_time ib))) (s\<lparr>wm_ib := ib\<rparr>);
          s2 = s1\<lparr>finish_cnt := i32 (finish_cnt s + 1)\<rparr>
      in if finish_cnt s smod 6 = 0 then wm_property_post LEFT_TIME_PRO s2 else Inr s2)"

fun run_cb :: "wm_timer_cb_fun \<Rightarrow> wm_state \<Rightarrow> wm_state wm_res" where
  "run_cb CbNull s = Inr s"
| "run_cb (ReservationTimeout m) s = wm_reservation_timeout_cb m s"
| "run_cb (LocalTimerTimeout a) s = wm_localtimer_timeout_cb a s"
| "run_cb FinishTimeout s = wm_finishtimer_timeout_cb s"

text \<open>\<open>wm_reservation_periodic_cb\<close> and \<open>wm_local_periodic_cb\<close> only print.\<close>

fun run_pcb :: "wm_periodic_cb_fun \<Rightarrow> int \<Rightarrow> wm_state \<Rightarrow> wm_state wm_res" where
  "run_pcb PcbNull n s = Inr s"
| "run_pcb ReservationPeriodic n s = Inr s"
| "run_pcb LocalPeriodic n s = Inr s"
| "run_pcb FinishPeriodic n s = wm_finish_timer_periodic_cb n s"

subsection \<open>Find, start and stop\<close>

fun wm_s_timer_event_find :: "string \<Rightarrow> wm_timer_event list \<Rightarrow> wm_timer_event option" where
  "wm_s_timer_event_find name [] = None"
| "wm_s_timer_event_find name (t # ts) =
     (if name = timer_event_name t then Some t else wm_s_timer_event_find name ts)"

text \<open>Unlinking the first event with the name.\<close>

fun timer_unlink :: "string \<Rightarrow> wm_timer_event list \<Rightarrow> wm_timer_event list" where
  "timer_unlink name [] = []"
| "timer_unlink name (t # ts) =
     (if name = timer_event_name t then ts else t # timer_unlink name ts)"

definition new_timer ::
    "int \<Rightarrow> wm_timer_cb_fun \<Rightarrow> wm_periodic_cb_fun \<Rightarrow> string \<Rightarrow> wm_timer_event" where
  "new_timer time_s cb pcb name =
     \<lparr>time_set = time_s, time_left = i32 (time_s * 1000) sdiv WM_CBTIMER_PERIOD_MS,
      cb_function = cb, pcb_function = pcb, timer_event_name = name\<rparr>"

text \<open>
  \<open>wm_s_timer_start\<close>: an event with the same name is reused. The name is copied into 32
  bytes; a longer one overwrites memory.
\<close>

definition wm_s_timer_start ::
    "int \<Rightarrow> wm_timer_cb_fun \<Rightarrow> wm_periodic_cb_fun \<Rightarrow> string \<Rightarrow> wm_state \<Rightarrow> wm_state wm_res" where
  "wm_s_timer_start time_s cb pcb name s =
     (let s1 = (if wm_timers s = [] then s\<lparr>wm_second_timer_on := True\<rparr> else s) in
      if wm_mutex_taken s1 then Inl Blocked
      else case wm_s_timer_event_find name (wm_timers s1) of
        None \<Rightarrow>
          if \<not> mem_ok s1 then Inr s1
          else if 32 < length name then Inl BadAccess
          else Inr (s1\<lparr>wm_timers := new_timer time_s cb pcb name # wm_timers s1\<rparr>)
      | Some wme \<Rightarrow>
          if 32 < length name then Inl BadAccess
          else Inr (s1\<lparr>wm_timers := new_timer time_s cb pcb name # timer_unlink name (wm_timers s1)\<rparr>))"

definition wm_s_timer_stop :: "string \<Rightarrow> wm_state \<Rightarrow> wm_state wm_res" where
  "wm_s_timer_stop name s =
     (if wm_mutex_taken s then Inl Blocked
      else if wm_timers s = [] then Inr s
      else
        let ts = timer_unlink name (wm_timers s) in
        Inr (if ts = [] then s\<lparr>wm_timers := ts, wm_second_timer_on := False\<rparr>
             else s\<lparr>wm_timers := ts\<rparr>))"

subsection \<open>The one-second tick\<close>

text \<open>
  The walk over the list: a running event is counted down and its periodic callback called; an
  event at 0 has its callback called, is unlinked and freed, and the walk then reads the next
  pointer out of the freed node.
\<close>

fun tick_events :: "wm_timer_event list \<Rightarrow> wm_state \<Rightarrow> (wm_timer_event list \<times> wm_state) wm_res" where
  "tick_events [] s = Inr ([], s)"
| "tick_events (wte # ts) s =
     (if 0 < time_left wte then
        let wte' = wte\<lparr>time_left := time_left wte - 1\<rparr> in
        res_bind (run_pcb (pcb_function wte) (time_left wte') s)
          (\<lambda>s. res_bind (tick_events ts s) (\<lambda>(ts', s). Inr (wte' # ts', s)))
      else
        res_bind (run_cb (cb_function wte) s)
          (\<lambda>s. tick_events ts (s\<lparr>read_after_free := True\<rparr>)))"

text \<open>
  \<open>wm_s_timer_cb\<close>. The early return on an empty list does not give the mutex back.
\<close>

definition wm_s_timer_cb :: "wm_state \<Rightarrow> wm_state wm_res" where
  "wm_s_timer_cb s =
     (if wm_mutex_taken s then Inl Blocked
      else
        let s1 = s\<lparr>wm_mutex_taken := True\<rparr> in
        if wm_timers s1 = [] then Inr (s1\<lparr>wm_second_timer_on := False\<rparr>)
        else res_bind (tick_events (wm_timers s1) s1)
          (\<lambda>(ts, s2). Inr
             ((if ts = [] then s2\<lparr>wm_timers := ts, wm_second_timer_on := False\<rparr>
               else s2\<lparr>wm_timers := ts\<rparr>)\<lparr>wm_mutex_taken := False\<rparr>)))"

subsection \<open>The timer list\<close>

definition timer_names :: "wm_state \<Rightarrow> string list" where
  "timer_names s = map timer_event_name (wm_timers s)"

lemma find_None_iff: "wm_s_timer_event_find name ts = None \<longleftrightarrow> name \<notin> timer_event_name ` set ts"
  by (induction name ts rule: timer_unlink.induct) auto

lemma timer_unlink_names: "map timer_event_name (timer_unlink name ts) = remove1 name (map timer_event_name ts)"
  by (induction name ts rule: timer_unlink.induct) auto

lemma timer_unlink_notin: "name \<notin> timer_event_name ` set ts \<Longrightarrow> timer_unlink name ts = ts"
  by (induction name ts rule: timer_unlink.induct) auto

lemma set_timer_unlink: "set (timer_unlink name ts) \<subseteq> set ts"
  by (induction name ts rule: timer_unlink.induct) auto

text \<open>The list of timer events is a store addressed by the names.\<close>

definition timer_put :: "string \<Rightarrow> wm_timer_event \<Rightarrow> wm_timer_event list \<Rightarrow> wm_timer_event list" where
  "timer_put name w ts = w # timer_unlink name ts"

definition names_distinct :: "wm_timer_event list \<Rightarrow> bool" where
  "names_distinct ts \<longleftrightarrow> distinct (map timer_event_name ts)"

lemma names_distinct_unlink: "names_distinct ts \<Longrightarrow> names_distinct (timer_unlink name ts)"
  by (simp add: names_distinct_def timer_unlink_names)

lemma unlink_gone: "names_distinct ts \<Longrightarrow> name \<notin> timer_event_name ` set (timer_unlink name ts)"
  by (induction name ts rule: timer_unlink.induct) (auto simp: names_distinct_def)

lemma find_unlink:
  "names_distinct ts \<Longrightarrow> wm_s_timer_event_find j (timer_unlink name ts) =
     (if j = name then None else wm_s_timer_event_find j ts)"
proof (induction name ts rule: timer_unlink.induct)
  case (2 name t ts)
  then show ?case by (auto simp: names_distinct_def find_None_iff)
qed simp

interpretation timers: keyed_store names_distinct "\<lambda>k w. timer_event_name w = k"
  wm_s_timer_event_find timer_put timer_unlink
proof
  fix ts :: "wm_timer_event list" and w :: wm_timer_event and k j
  assume a: "names_distinct ts" "timer_event_name w = k"
  then show "names_distinct (timer_put k w ts)"
    using names_distinct_unlink [OF a(1), of k] unlink_gone [OF a(1), of k]
    by (simp add: timer_put_def names_distinct_def)
  show "wm_s_timer_event_find j (timer_put k w ts) = (if j = k then Some w else wm_s_timer_event_find j ts)"
    using a by (simp add: timer_put_def find_unlink)
qed (simp_all add: names_distinct_unlink find_unlink)

text \<open>With an allocation available, start always puts the new event first.\<close>

lemma wm_s_timer_start_eq:
  assumes "\<not> wm_mutex_taken s" "mem_ok s" "length name \<le> 32"
  shows "wm_s_timer_start time_s cb pcb name s = Inr
     (s\<lparr>wm_second_timer_on := wm_timers s = [] \<or> wm_second_timer_on s,
        wm_timers := new_timer time_s cb pcb name # timer_unlink name (wm_timers s)\<rparr>)"
proof (cases "wm_s_timer_event_find name (wm_timers s)")
  case None
  then have "timer_unlink name (wm_timers s) = wm_timers s"
    by (simp add: find_None_iff timer_unlink_notin)
  then show ?thesis using assms None by (auto simp: wm_s_timer_start_def Let_def)
next
  case (Some t)
  then show ?thesis using assms by (auto simp: wm_s_timer_start_def Let_def)
qed

text \<open>All outcomes of a start that returns.\<close>

lemma wm_s_timer_start_Inr:
  assumes "wm_s_timer_start time_s cb pcb name s = Inr t"
  shows "\<not> wm_mutex_taken s \<and>
    (t = s\<lparr>wm_second_timer_on := wm_timers s = [] \<or> wm_second_timer_on s\<rparr> \<and> \<not> mem_ok s \<and>
       name \<notin> set (timer_names s) \<or>
     t = s\<lparr>wm_second_timer_on := wm_timers s = [] \<or> wm_second_timer_on s,
           wm_timers := new_timer time_s cb pcb name # timer_unlink name (wm_timers s)\<rparr>)"
proof (cases "wm_s_timer_event_find name (wm_timers s)")
  case None
  then have n: "name \<notin> timer_event_name ` set (wm_timers s)" by (simp add: find_None_iff)
  then have "timer_unlink name (wm_timers s) = wm_timers s" by (rule timer_unlink_notin)
  with assms None n show ?thesis
    by (cases "wm_timers s = []")
      (auto simp: wm_s_timer_start_def Let_def timer_names_def split: if_splits)
next
  case (Some w)
  then show ?thesis using assms
    by (cases "wm_timers s = []") (auto simp: wm_s_timer_start_def Let_def split: if_splits)
qed

subsection \<open>What callbacks leave unchanged\<close>

text \<open>The invariant: no name twice, and the report position in range.\<close>

definition timers_ok :: "wm_state \<Rightarrow> bool" where
  "timers_ok s \<longleftrightarrow> distinct (timer_names s) \<and> report_pro_current s \<le> 7"

definition same_timers :: "wm_state \<Rightarrow> wm_state \<Rightarrow> bool" where
  "same_timers s t \<longleftrightarrow>
     wm_timers t = wm_timers s \<and> wm_mutex_taken t = wm_mutex_taken s \<and>
     wm_second_timer_on t = wm_second_timer_on s \<and> mem_ok t = mem_ok s \<and>
     g_wm_ctx t = g_wm_ctx s \<and> (report_pro_current s \<le> 7 \<longrightarrow> report_pro_current t \<le> 7)"

lemma same_timers_refl [simp]: "same_timers s s"
  by (simp add: same_timers_def)

lemma same_timers_trans: "same_timers r s \<Longrightarrow> same_timers s t \<Longrightarrow> same_timers r t"
  by (auto simp: same_timers_def)

lemma run_cb_ok:
  assumes "report_pro_current s \<le> 7"
  shows "\<exists>t. run_cb cb s = Inr t \<and> same_timers s t"
  using assms
  by (cases cb) (auto simp: wm_reservation_timeout_cb_def wm_localtimer_timeout_cb_def
      wm_finishtimer_timeout_cb_def wm_report_step same_timers_def
      wm_ui_handle_work_switch_off_def wm_defs)

lemma run_pcb_ok:
  "\<exists>t. run_pcb pcb n s = Inr t \<and> same_timers s t"
  by (cases pcb) (auto simp: wm_finish_timer_periodic_cb_def same_timers_def wm_defs Let_def)

lemma tick_events_ok:
  assumes "report_pro_current s \<le> 7"
  shows "\<exists>t. tick_events ts s =
     Inr (map (\<lambda>w. w\<lparr>time_left := time_left w - 1\<rparr>) (filter (\<lambda>w. 0 < time_left w) ts), t) \<and>
     same_timers s t \<and>
     (read_after_free t \<longleftrightarrow> read_after_free s \<or> (\<exists>w \<in> set ts. time_left w \<le> 0))"
  using assms
proof (induction ts arbitrary: s)
  case (Cons w ts)
  show ?case
  proof (cases "0 < time_left w")
    case True
    obtain u where u: "run_pcb (pcb_function w) (time_left w - 1) s = Inr u" "same_timers s u"
      using run_pcb_ok by blast
    have raf: "read_after_free u = read_after_free s"
      using u(1) by (cases "pcb_function w") (auto simp: wm_finish_timer_periodic_cb_def wm_defs Let_def split: if_splits)
    have "report_pro_current u \<le> 7" using u(2) Cons.prems by (simp add: same_timers_def)
    from Cons.IH [OF this] obtain t where
      "tick_events ts u = Inr (map (\<lambda>w. w\<lparr>time_left := time_left w - 1\<rparr>) (filter (\<lambda>w. 0 < time_left w) ts), t)"
      "same_timers u t" "read_after_free t \<longleftrightarrow> read_after_free u \<or> (\<exists>w \<in> set ts. time_left w \<le> 0)" by blast
    then show ?thesis using True u raf by (auto intro: same_timers_trans)
  next
    case False
    obtain u where u: "run_cb (cb_function w) s = Inr u" "same_timers s u"
      using run_cb_ok [OF Cons.prems] by blast
    let ?u = "u\<lparr>read_after_free := True\<rparr>"
    have su: "same_timers s ?u" using u(2) by (simp add: same_timers_def)
    then have "report_pro_current ?u \<le> 7" using Cons.prems by (simp add: same_timers_def)
    from Cons.IH [OF this] obtain t where
      "tick_events ts ?u = Inr (map (\<lambda>w. w\<lparr>time_left := time_left w - 1\<rparr>) (filter (\<lambda>w. 0 < time_left w) ts), t)"
      "same_timers ?u t" "read_after_free t" by auto
    then show ?thesis using False u su by (auto intro: same_timers_trans)
  qed
qed simp

end
