(* ===== verification/WmControl.thy ===== *)
theory WmControl
  imports WmTimer
begin

text \<open>
  Control of the wash programme (washing_machine.c): the remaining time, the programme table,
  the dry switch, starting and pausing.
\<close>

subsection \<open>The remaining time\<close>

definition wm_left_time_valid_check :: "wm_data_info \<Rightarrow> wm_data_info" where
  "wm_left_time_valid_check ib =
     (if 60 \<le> f_trunc (count2minutes (left_time ib))
      then ib\<lparr>left_time := f32 (of_int (f_trunc (minutes2count_i 59)))\<rparr> else ib)"

text \<open>The sum computed by \<open>wm_left_time_calculate\<close>, every operation rounded to float.\<close>

definition programme_time :: "wm_data_info \<Rightarrow> rat" where
  "programme_time ib =
     (let t1 = f32 (soak_time ib + wash_time ib);
          t2 = f32 (t1 + f32 (rinsh_time ib * f32 (of_int (rinsh_times ib))));
          t3 = f32 (t2 + spin_time ib)
      in if dry_switch ib then f32 (t3 + of_int (f_trunc (minutes2count_i 9))) else t3)"

definition wm_left_time_calculate :: "wm_state \<Rightarrow> wm_state" where
  "wm_left_time_calculate s =
     (if time_set_triggered (g_wm_ctx s)
      then s\<lparr>g_wm_ctx := (g_wm_ctx s)\<lparr>time_set_triggered := False\<rparr>\<rparr>
      else s\<lparr>wm_ib := wm_left_time_valid_check
                 ((wm_ib s)\<lparr>left_time := programme_time (wm_ib s)\<rparr>)\<rparr>)"

definition wm_ib_default_set :: "wm_state \<Rightarrow> wm_state" where
  "wm_ib_default_set s =
     wm_left_time_calculate
       (s\<lparr>wm_ib := (wm_ib s)\<lparr>work_state := WS_IDLE\<rparr>,
          report_pro_current := length report_properties\<rparr>)"

subsection \<open>Setting the dry switch and the washing mode\<close>

text \<open>Both return 1 and change nothing while the machine is working.\<close>

definition wm_dry_switch_set_handle :: "bool \<Rightarrow> wm_state \<Rightarrow> int \<times> wm_state" where
  "wm_dry_switch_set_handle sws s =
     (if work_state (wm_ib s) = WS_WORKING then (1, s)
      else
        let ib = (wm_ib s)\<lparr>dry_switch := sws\<rparr>;
            t = (if dry_switch ib then f32 (f64 (left_time ib + minutes2count_i 9))
                 else f32 (f64 (left_time ib - minutes2count_i 9)))
        in (0, s\<lparr>wm_ib := wm_left_time_valid_check (ib\<lparr>left_time := t\<rparr>)\<rparr>))"

text \<open>One row of the programme table.\<close>

definition set_programme ::
    "int \<Rightarrow> int \<Rightarrow> int \<Rightarrow> int \<Rightarrow> int \<Rightarrow> int \<Rightarrow> rat \<Rightarrow> int \<Rightarrow> wm_data_info \<Rightarrow> wm_data_info" where
  "set_programme level soak wash rinsh rtimes spin temp speed ib =
     ib\<lparr>water_level := level,
        soak_time := f32 (minutes2count_i soak), wash_time := f32 (minutes2count_i wash),
        rinsh_time := f32 (minutes2count_i rinsh), rinsh_times := rtimes,
        spin_time := f32 (minutes2count_i spin), target_wtem := temp, target_ss := speed\<rparr>"

text \<open>The switch of \<open>wm_washing_mode_set_handle\<close>; an unknown mode changes no parameter.\<close>

fun mode_programme :: "wm_washing_mode_e \<Rightarrow> wm_data_info \<Rightarrow> wm_data_info" where
  "mode_programme WM_WM_STANDARD = set_programme WL_MIDDLE 1 3 1 2 2 30 1000"
| "mode_programme WM_WM_SOFT = set_programme WL_MIDDLE 2 2 2 3 3 20 800"
| "mode_programme WM_WM_STRONG = set_programme WL_HIGH 15 25 2 3 4 70 1400"
| "mode_programme WM_WM_QUICK = set_programme WL_LOW 1 2 2 1 1 20 1200"
| "mode_programme WM_WM_WOOL = set_programme WL_LOW 3 2 2 3 3 40 600"
| "mode_programme WM_WM_CHEMFIBER = set_programme WL_LOW 4 5 1 3 2 50 1200"
| "mode_programme WM_WM_COTTON = set_programme WL_LOW 2 1 4 2 5 30 1000"
| "mode_programme WM_WM_JEANS = set_programme WL_LOW 3 2 4 2 6 40 600"
| "mode_programme WM_WM_SELF = set_programme WL_LOW 10 5 1 2 3 20 1400"
| "mode_programme (WM_WM_RAW i) = (\<lambda>ib. ib)"

definition wm_washing_mode_set_handle :: "wm_washing_mode_e \<Rightarrow> wm_state \<Rightarrow> int \<times> wm_state" where
  "wm_washing_mode_set_handle wm s =
     (if work_state (wm_ib s) = WS_WORKING then (1, s)
      else
        let ib = mode_programme wm ((wm_ib s)\<lparr>work_state := WS_IDLE, washing_mode := wm\<rparr>)
        in (0, wm_left_time_calculate
                 (s\<lparr>wm_ib := ib, g_wm_ctx := (g_wm_ctx s)\<lparr>time_set_triggered := False\<rparr>\<rparr>)))"

subsection \<open>Start and pause\<close>

definition work_start_state :: "wm_state \<Rightarrow> wm_state" where
  "work_start_state s =
     (let s1 = (if work_state (wm_ib s) \<noteq> WS_PAUSE then wm_left_time_calculate s else s);
          s2 = (if left_time (wm_ib s1) = 0
                then snd (wm_washing_mode_set_handle (washing_mode (wm_ib s1)) s1) else s1)
      in s2\<lparr>wm_ib := (wm_ib s2)\<lparr>work_state := WS_WORKING\<rparr>\<rparr>)"

definition wm_work_switch_changed :: "wm_state \<Rightarrow> wm_state wm_res" where
  "wm_work_switch_changed s =
     res_bind
       (if \<not> work_switch (wm_ib s) then
          res_bind (wm_s_timer_stop ''local_timer'' (s\<lparr>wm_ib := (wm_ib s)\<lparr>work_state := WS_PAUSE\<rparr>\<rparr>))
            (\<lambda>s. res_bind (wm_s_timer_stop ''finish_timer'' s)
              (\<lambda>s. Inr (wm_ui_handle_work_switch_off s)))
        else
          let s3 = work_start_state s
          in res_bind
               (wm_s_timer_start (f_trunc (count2seconds (left_time (wm_ib s3)))) FinishTimeout
                  FinishPeriodic ''finish_timer'' s3)
               (\<lambda>s. Inr (wm_ui_handle_work_switch_on s)))
       (\<lambda>s. wm_report_all_pro_to_cloud (s\<lparr>report_started := True\<rparr>))"

subsection \<open>Settings refused while working\<close>

definition wm_lefttime_set_handle :: "rat \<Rightarrow> wm_state \<Rightarrow> wm_state" where
  "wm_lefttime_set_handle minute s =
     (if work_state (wm_ib s) = WS_WORKING then s
      else
        let ib = (wm_ib s)\<lparr>left_time := f32 (minutes2count_d minute)\<rparr>
        in DeviceDriver_updateLeftTime (f_trunc (count2seconds (left_time ib))) (s\<lparr>wm_ib := ib\<rparr>))"

definition wm_targetspin_set_handle :: "int \<Rightarrow> wm_state \<Rightarrow> wm_state" where
  "wm_targetspin_set_handle ss s =
     (if work_state (wm_ib s) = WS_WORKING then s
      else DeviceDriver_updateSpinSpeed (i32 (ss - 400) sdiv 200)
             (s\<lparr>wm_ib := (wm_ib s)\<lparr>target_ss := ss\<rparr>\<rparr>))"

definition wm_watertemp_set_handle :: "rat \<Rightarrow> wm_state \<Rightarrow> wm_state" where
  "wm_watertemp_set_handle watertemp s =
     (if work_state (wm_ib s) = WS_WORKING then s
      else
        let ib = (wm_ib s)\<lparr>target_wtem := f32 watertemp\<rparr>
        in DeviceDriver_updateWaterTemp (i32 (f_trunc (target_wtem ib) - 20) sdiv 10) (s\<lparr>wm_ib := ib\<rparr>))"

subsection \<open>Facts about the remaining time\<close>

lemma count2minutes_3600: "count2minutes 3600 = 60"
  by (simp add: count2minutes_def)

text \<open>After the check, the remaining time is below an hour.\<close>

lemma valid_check_less_hour: "left_time (wm_left_time_valid_check ib) < 3600"
proof (cases "60 \<le> f_trunc (count2minutes (left_time ib))")
  case True
  then show ?thesis
    by (simp add: wm_left_time_valid_check_def minutes2count_i_eq)
next
  case False
  have "left_time ib < 3600"
  proof (rule ccontr)
    assume "\<not> left_time ib < 3600"
    then have "count2minutes 3600 \<le> count2minutes (left_time ib)"
      by (intro count2minutes_mono) simp
    then have "f_trunc 60 \<le> f_trunc (count2minutes (left_time ib))"
      by (simp only: count2minutes_3600 f_trunc_mono)
    with False show False by simp
  qed
  with False show ?thesis by (simp add: wm_left_time_valid_check_def)
qed

lemma valid_check_id: "0 \<le> left_time ib \<Longrightarrow> left_time ib < 3600 \<Longrightarrow>
    f_trunc (count2minutes (left_time ib)) < 60 \<Longrightarrow> wm_left_time_valid_check ib = ib"
  by (simp add: wm_left_time_valid_check_def)

lemma valid_check_frame [simp]:
  "work_state (wm_left_time_valid_check ib) = work_state ib"
  "work_switch (wm_left_time_valid_check ib) = work_switch ib"
  "washing_mode (wm_left_time_valid_check ib) = washing_mode ib"
  "dry_switch (wm_left_time_valid_check ib) = dry_switch ib"
  "target_ss (wm_left_time_valid_check ib) = target_ss ib"
  "target_wtem (wm_left_time_valid_check ib) = target_wtem ib"
  by (simp_all add: wm_left_time_valid_check_def)

lemma set_programme_frame [simp]:
  "work_state (set_programme a b c d e f g h ib) = work_state ib"
  "work_switch (set_programme a b c d e f g h ib) = work_switch ib"
  "washing_mode (set_programme a b c d e f g h ib) = washing_mode ib"
  "dry_switch (set_programme a b c d e f g h ib) = dry_switch ib"
  by (simp_all add: set_programme_def)

lemma mode_programme_frame [simp]:
  "work_state (mode_programme m ib) = work_state ib"
  "work_switch (mode_programme m ib) = work_switch ib"
  "washing_mode (mode_programme m ib) = washing_mode ib"
  "dry_switch (mode_programme m ib) = dry_switch ib"
  by (cases m; simp)+

end
