(* ===== verification/Cjson.thy ===== *)
theory Cjson
  imports Prelude
begin

text \<open>
  What the applications see of cJSON (linkkit/wrappers/external_libs/cJSON.h): a parsed text is a
  tree. The parser is a parameter of the handlers that call it.
\<close>

subsection \<open>JSON items\<close>

datatype cjson =
    CNull | CBool bool | CNumber int rat | CString string
  | CArray "cjson list" | CObject "(string \<times> cjson) list"

fun cJSON_IsNumber :: "cjson \<Rightarrow> bool" where
  "cJSON_IsNumber (CNumber i d) = True"
| "cJSON_IsNumber _ = False"

fun cJSON_IsObject :: "cjson \<Rightarrow> bool" where
  "cJSON_IsObject (CObject kvs) = True"
| "cJSON_IsObject _ = False"

fun valueint :: "cjson \<Rightarrow> int" where
  "valueint (CNumber i d) = i"
| "valueint (CBool b) = c_int b"
| "valueint _ = 0"

fun valuedouble :: "cjson \<Rightarrow> rat" where
  "valuedouble (CNumber i d) = d"
| "valuedouble _ = 0"

fun valuestring :: "cjson \<Rightarrow> string option" where
  "valuestring (CString s) = Some s"
| "valuestring _ = None"

fun json_child :: "cjson \<Rightarrow> cjson option" where
  "json_child (CArray (x # xs)) = Some x"
| "json_child (CObject ((k, x) # kvs)) = Some x"
| "json_child _ = None"

definition to_lower :: "char \<Rightarrow> char" where
  "to_lower c = (let n = (of_char c :: nat) in if 65 \<le> n \<and> n \<le> 90 then char_of (n + 32) else c)"

fun obj_find :: "(string \<Rightarrow> bool) \<Rightarrow> (string \<times> cjson) list \<Rightarrow> cjson option" where
  "obj_find P [] = None"
| "obj_find P ((k, x) # kvs) = (if P k then Some x else obj_find P kvs)"

text \<open>Elements of an array have no key; a null object has no items.\<close>

fun json_items :: "cjson \<Rightarrow> (string \<times> cjson) list" where
  "json_items (CObject kvs) = kvs"
| "json_items _ = []"

definition cJSON_GetObjectItem :: "cjson option \<Rightarrow> string \<Rightarrow> cjson option" where
  "cJSON_GetObjectItem obj name =
     (case obj of None \<Rightarrow> None
      | Some j \<Rightarrow> obj_find (\<lambda>k. map to_lower k = map to_lower name) (json_items j))"

definition cJSON_GetObjectItemCaseSensitive :: "cjson \<Rightarrow> string \<Rightarrow> cjson option" where
  "cJSON_GetObjectItemCaseSensitive j name = obj_find (\<lambda>k. k = name) (json_items j)"

end
