(* ===== verification/WmHandlers.thy ===== *)
theory WmHandlers
  imports WmControl Cjson
begin

text \<open>
  The entry points of the application (washing_machine.c): property requests of the cloud, the
  local timer, the callbacks registered with the SDK, the GUI handlers and the command line.
  A parsed JSON text is a tree; the parser itself (cJSON) is a parameter.
\<close>

subsection \<open>The local timer\<close>

text \<open>
  The characters up to the next space are copied into a buffer of 8 bytes; running past the end
  of the text or of the buffer is a bad access.
\<close>

fun copy_field :: "string \<Rightarrow> nat \<Rightarrow> string \<Rightarrow> (string \<times> string) wm_res" where
  "copy_field mh j [] = Inl BadAccess"
| "copy_field mh j (c # cs) =
     (if c = CHR '' '' then Inr (mh, c # cs)
      else if j < length mh then copy_field (mh[j := c]) (Suc j) cs
      else Inl BadAccess)"

text \<open>The text a C function sees in a buffer: up to the first 0 byte.\<close>

definition c_str :: "string \<Rightarrow> string" where
  "c_str buf = takeWhile (\<lambda>c. c \<noteq> CHR 0x00) buf"

text \<open>
  The loop over minute and hour. The buffer is not cleared between the two fields.
\<close>

definition extract_time :: "string \<Rightarrow> int wm_res" where
  "extract_time value =
     (let mh0 = replicate 8 (CHR 0x00); txt = value @ [CHR 0x00] in
      if hd txt = CHR ''*'' then Inr 0
      else res_bind (copy_field mh0 0 txt) (\<lambda>(mh1, rest1).
        let minutes = i32 (c_atoi (c_str mh1) * 60); txt2 = tl rest1 in
        if txt2 = [] then Inl BadAccess
        else if hd txt2 = CHR ''*'' then Inr minutes
        else res_bind (copy_field mh1 0 txt2) (\<lambda>(mh2, rest2).
          Inr (i32 (minutes + i32 (i32 (c_atoi (c_str mh2) * 60) * 60))))))"

text \<open>
  \<open>wm_local_timer_event_hdl\<close>; the items of the entry are used without a check, a missing one
  is a null pointer.
\<close>

definition wm_local_timer_event_hdl :: "cjson \<Rightarrow> wm_state \<Rightarrow> wm_state wm_res" where
  "wm_local_timer_event_hdl rte s =
     (case cJSON_GetObjectItem (Some rte) ''LocalTimer'' of
        None \<Rightarrow> Inl BadAccess
      | Some local_arr \<Rightarrow>
          (let arr_item = json_child local_arr in
           case cJSON_GetObjectItem arr_item ''Enable'' of
             None \<Rightarrow> Inr s
           | Some enable \<Rightarrow>
               if valueint enable = 0 then wm_s_timer_stop ''local_timer'' s
               else if \<not> mem_ok s then Inr s
               else
                 (case (cJSON_GetObjectItem arr_item ''Timer'', cJSON_GetObjectItem arr_item ''WorkSwitch'',
                        cJSON_GetObjectItem arr_item ''WashingMode'') of
                    (Some timer, Some ws, Some mode) \<Rightarrow>
                      (case valuestring timer of
                         None \<Rightarrow> Inl BadAccess
                       | Some v \<Rightarrow>
                           if 255 \<le> length v then Inl BadAccess
                           else res_bind (extract_time v) (\<lambda>time_s.
                             wm_s_timer_start time_s
                               (LocalTimerTimeout \<lparr>lt_work_switch = c_true (valueint ws),
                                  lt_wm = valueint mode, lt_timer_value = v\<rparr>)
                               LocalPeriodic ''local_timer'' s))
                  | _ \<Rightarrow> Inl BadAccess)))"

subsection \<open>Setting a property\<close>

definition wm_reservation_timer_set_hdl :: "int \<Rightarrow> wm_state \<Rightarrow> wm_state wm_res" where
  "wm_reservation_timer_set_hdl minutes s =
     wm_s_timer_start (i32 (minutes * 60)) (ReservationTimeout minutes) ReservationPeriodic
       ''reservation_timer'' s"

definition upd_ib :: "(wm_data_info \<Rightarrow> wm_data_info) \<Rightarrow> wm_state \<Rightarrow> wm_state" where
  "upd_ib f s = s\<lparr>wm_ib := f (wm_ib s)\<rparr>"

fun wm_property_ib_set :: "wm_propertity_e \<Rightarrow> cjson \<Rightarrow> wm_state \<Rightarrow> wm_state wm_res" where
  "wm_property_ib_set WORK_SW_PRO v s =
     (if cJSON_IsNumber v
      then wm_work_switch_changed (upd_ib (\<lambda>ib. ib\<lparr>work_switch := c_true (valueint v)\<rparr>) s) else Inr s)"
| "wm_property_ib_set WORK_ST_PRO v s =
     Inr (if cJSON_IsNumber v then upd_ib (\<lambda>ib. ib\<lparr>work_state := state_of_int (valueint v)\<rparr>) s else s)"
| "wm_property_ib_set CHILD_LOCKSW_PRO v s =
     Inr (if cJSON_IsNumber v then upd_ib (\<lambda>ib. ib\<lparr>clock_switch := c_true (valueint v)\<rparr>) s else s)"
| "wm_property_ib_set WATER_LEVEL_PRO v s =
     Inr (if cJSON_IsNumber v then upd_ib (\<lambda>ib. ib\<lparr>water_level := valueint v\<rparr>) s else s)"
| "wm_property_ib_set LEFT_TIME_PRO v s =
     Inr (if cJSON_IsNumber v then wm_lefttime_set_handle (valuedouble v) s else s)"
| "wm_property_ib_set SOAK_TIME_PRO v s =
     Inr (if cJSON_IsNumber v
          then upd_ib (\<lambda>ib. ib\<lparr>soak_time := f32 (minutes2count_d (valuedouble v))\<rparr>) s else s)"
| "wm_property_ib_set WASH_TIME_PRO v s =
     Inr (if cJSON_IsNumber v
          then upd_ib (\<lambda>ib. ib\<lparr>wash_time := f32 (minutes2count_d (valuedouble v))\<rparr>) s else s)"
| "wm_property_ib_set RINSH_TIME_PRO v s =
     Inr (if cJSON_IsNumber v
          then upd_ib (\<lambda>ib. ib\<lparr>rinsh_time := f32 (minutes2count_d (valuedouble v))\<rparr>) s else s)"
| "wm_property_ib_set SPINE_TIME_PRO v s =
     Inr (if cJSON_IsNumber v
          then upd_ib (\<lambda>ib. ib\<lparr>spin_time := f32 (minutes2count_d (valuedouble v))\<rparr>) s else s)"
| "wm_property_ib_set RINSH_TIMES_PRO v s =
     Inr (if cJSON_IsNumber v then upd_ib (\<lambda>ib. ib\<lparr>rinsh_times := valueint v\<rparr>) s else s)"
| "wm_property_ib_set TARGET_SPINSPEED_PRO v s =
     Inr (if cJSON_IsNumber v then wm_targetspin_set_handle (valueint v) s else s)"
| "wm_property_ib_set TARGET_WATERTEM_PRO v s =
     Inr (if cJSON_IsNumber v then wm_watertemp_set_handle (valuedouble v) s else s)"
| "wm_property_ib_set DRY_TIME_PRO v s =
     Inr (if cJSON_IsNumber v then upd_ib (\<lambda>ib. ib\<lparr>dry_time := f32 (valuedouble v)\<rparr>) s else s)"
| "wm_property_ib_set DRY_SW_PRO v s =
     (if cJSON_IsNumber v then
        res_bind
          (wm_report_all_pro_to_cloud
             ((snd (wm_dry_switch_set_handle (c_true (valueint v)) s))\<lparr>report_started := True\<rparr>))
          (\<lambda>s. Inr (wm_report_dryswitch_to_gui s))
      else Inr s)"
| "wm_property_ib_set TARGET_DETERGENT_PRO v s =
     Inr (if cJSON_IsNumber v then upd_ib (\<lambda>ib. ib\<lparr>target_detergent := f32 (valuedouble v)\<rparr>) s else s)"
| "wm_property_ib_set TARGET_SOFTENER_PRO v s =
     Inr (if cJSON_IsNumber v then upd_ib (\<lambda>ib. ib\<lparr>target_softener := f32 (valuedouble v)\<rparr>) s else s)"
| "wm_property_ib_set TARGET_DISINFECTAN_PRO v s =
     Inr (if cJSON_IsNumber v then upd_ib (\<lambda>ib. ib\<lparr>target_disinfectant := f32 (valuedouble v)\<rparr>) s else s)"
| "wm_property_ib_set DOOR_OPENING_ST_PRO v s =
     Inr (if cJSON_IsNumber v then upd_ib (\<lambda>ib. ib\<lparr>door_opening_state := c_true (valueint v)\<rparr>) s else s)"
| "wm_property_ib_set PAUSE_SW_PRO v s =
     Inr (if cJSON_IsNumber v then upd_ib (\<lambda>ib. ib\<lparr>pause_switch := c_true (valueint v)\<rparr>) s else s)"
| "wm_property_ib_set DRY_OPT_PRO v s =
     Inr (if cJSON_IsNumber v then upd_ib (\<lambda>ib. ib\<lparr>dry_opt := valueint v\<rparr>) s else s)"
| "wm_property_ib_set RESERVATION_TIMER_PRO v s =
     (let s1 = (if cJSON_IsNumber v
                then upd_ib (\<lambda>ib. ib\<lparr>reserv_time := f32 (minutes2count_d (valuedouble v))\<rparr>) s else s)
      in if reserv_time (wm_ib s1) \<noteq> 0
         then wm_reservation_timer_set_hdl (f_trunc (valuedouble v)) s1 else Inr s1)"
| "wm_property_ib_set POWER_SW_PRO v s =
     Inr (if cJSON_IsNumber v then upd_ib (\<lambda>ib. ib\<lparr>power_switch := c_true (valueint v)\<rparr>) s else s)"
| "wm_property_ib_set WASHING_MODE_PRO v s =
     (if cJSON_IsNumber v then
        res_bind
          (wm_report_all_pro_to_cloud
             ((snd (wm_washing_mode_set_handle (mode_of_int (valueint v)) s))\<lparr>report_started := True\<rparr>))
          (\<lambda>s. Inr (wm_report_all_to_gui s))
      else Inr s)"
| "wm_property_ib_set ALL_PRO v s = Inr s"

text \<open>
  \<open>wm_property_hal_set\<close>: the first property of the table that the request contains, and only
  that one.
\<close>

fun first_property :: "cjson \<Rightarrow> wm_propertity_e list \<Rightarrow> (wm_propertity_e \<times> cjson) option" where
  "first_property jroot [] = None"
| "first_property jroot (p # ps) =
     (case cJSON_GetObjectItemCaseSensitive jroot (wm_properties p) of
        Some v \<Rightarrow> Some (p, v)
      | None \<Rightarrow> first_property jroot ps)"

definition wm_property_hal_set :: "cjson \<Rightarrow> wm_state \<Rightarrow> wm_state wm_res" where
  "wm_property_hal_set jroot s =
     (case first_property jroot wm_props of
        None \<Rightarrow> Inr s
      | Some (p, v) \<Rightarrow> wm_property_ib_set p v s)"

text \<open>The request is echoed to the cloud, whatever became of it.\<close>

definition wm_property_set_event_handler ::
    "(string \<Rightarrow> cjson option) \<Rightarrow> string \<Rightarrow> wm_state \<Rightarrow> (int \<times> wm_state) wm_res" where
  "wm_property_set_event_handler cJSON_Parse request s =
     (case cJSON_Parse request of
        None \<Rightarrow> Inr (-1, s)
      | Some jroot \<Rightarrow>
          if \<not> cJSON_IsObject jroot then Inr (-1, s)
          else res_bind
            (if cJSON_GetObjectItem (Some jroot) ''LocalTimer'' \<noteq> None
             then wm_local_timer_event_hdl jroot s else wm_property_hal_set jroot s)
            (\<lambda>s. Inr (0, emit [LinkkitReport request] s)))"

end
