(* ===== verification/WmEvents.thy ===== *)
theory WmEvents
  imports WmHandlers
begin

text \<open>
  The handlers of the GUI, the callbacks of the cloud SDK, the command line, start-up and the
  main loop (washing_machine.c), and the input half of emgui/DeviceDriver.c.
\<close>

subsection \<open>Changes made on the GUI\<close>

definition wm_minute_changed_by_gui :: "int \<Rightarrow> wm_state \<Rightarrow> wm_state wm_res" where
  "wm_minute_changed_by_gui minute s =
     (if work_state (wm_ib s) = WS_WORKING then Inr s
      else
        let seconds_local = f_trunc (count2seconds (left_time (wm_ib s)));
            seconds_re = seconds_local smod 60;
            t1 = f32 (minutes2count_i minute);
            t2 = f32 (f64 (t1 + seconds2count_i seconds_re));
            s1 = s\<lparr>g_wm_ctx := (g_wm_ctx s)\<lparr>time_set_triggered := True\<rparr>,
                   wm_ib := wm_left_time_valid_check ((wm_ib s)\<lparr>left_time := t2\<rparr>)\<rparr>
        in res_bind (wm_property_post LEFT_TIME_PRO s1)
             (\<lambda>s. Inr (DeviceDriver_updateLeftTime (f_trunc (count2seconds (left_time (wm_ib s)))) s)))"

definition wm_second_changed_by_gui :: "int \<Rightarrow> wm_state \<Rightarrow> wm_state wm_res" where
  "wm_second_changed_by_gui second s =
     (if work_state (wm_ib s) = WS_WORKING then Inr s
      else
        let minutes_local = f_trunc (count2minutes (left_time (wm_ib s)));
            t1 = f32 (minutes2count_i minutes_local);
            t2 = f32 (f64 (t1 + seconds2count_i second));
            s1 = s\<lparr>g_wm_ctx := (g_wm_ctx s)\<lparr>time_set_triggered := True\<rparr>,
                   wm_ib := wm_left_time_valid_check ((wm_ib s)\<lparr>left_time := t2\<rparr>)\<rparr>
        in res_bind (wm_property_post LEFT_TIME_PRO s1)
             (\<lambda>s. Inr (DeviceDriver_updateLeftTime (f_trunc (count2seconds (left_time (wm_ib s)))) s)))"

definition wm_targetspin_changed_by_ui :: "int \<Rightarrow> wm_state \<Rightarrow> wm_state wm_res" where
  "wm_targetspin_changed_by_ui target_spin s =
     (if work_state (wm_ib s) = WS_WORKING then Inr s
      else wm_property_post TARGET_SPINSPEED_PRO
             (upd_ib (\<lambda>ib. ib\<lparr>target_ss := i32 (i32 (target_spin * 200) + 400)\<rparr>) s))"

definition wm_watertemp_changed_by_ui :: "int \<Rightarrow> wm_state \<Rightarrow> wm_state wm_res" where
  "wm_watertemp_changed_by_ui water_temp s =
     (if work_state (wm_ib s) = WS_WORKING then Inr s
      else wm_property_post TARGET_WATERTEM_PRO
             (upd_ib (\<lambda>ib. ib\<lparr>target_wtem := f32 (of_int (i32 (i32 (water_temp * 10) + 20)))\<rparr>) s))"

text \<open>A refused dry switch is answered through \<open>DeviceDriver_updateWashMode\<close>.\<close>

definition wm_dryswitch_changed_by_gui :: "int \<Rightarrow> wm_state \<Rightarrow> wm_state wm_res" where
  "wm_dryswitch_changed_by_gui dry s =
     (let (ret, s1) = wm_dry_switch_set_handle (c_true dry) s in
      if ret \<noteq> 0 then
        Inr (DeviceDriver_updateWashMode (c_int (dry_switch (wm_ib s1))) (emit [SleepMs 100] s1))
      else res_bind (wm_property_post LEFT_TIME_PRO s1)
        (\<lambda>s. res_bind (wm_property_post DRY_SW_PRO s)
          (\<lambda>s. Inr (DeviceDriver_updateLeftTime (f_trunc (count2seconds (left_time (wm_ib s)))) s))))"

definition wm_workmode_changed_by_ui :: "int \<Rightarrow> wm_state \<Rightarrow> wm_state wm_res" where
  "wm_workmode_changed_by_ui work_mode s =
     (let (ret, s1) = wm_washing_mode_set_handle (mode_of_int work_mode) s in
      if ret \<noteq> 0 then
        Inr (DeviceDriver_updateWashMode (int_of_mode (washing_mode (wm_ib s1))) (emit [SleepMs 100] s1))
      else res_bind (wm_report_all_pro_to_cloud (s1\<lparr>report_started := True\<rparr>))
        (\<lambda>s. Inr (wm_report_all_to_gui s)))"

definition wm_workswitch_changed_by_ui :: "int \<Rightarrow> wm_state \<Rightarrow> wm_state wm_res" where
  "wm_workswitch_changed_by_ui sw s =
     res_bind (wm_work_switch_changed (upd_ib (\<lambda>ib. ib\<lparr>work_switch := c_true sw\<rparr>) s))
       (\<lambda>s. wm_report_all_pro_to_cloud (s\<lparr>report_started := True\<rparr>))"

definition wm_button_pressed :: "wm_state \<Rightarrow> wm_state" where
  "wm_button_pressed s = s\<lparr>g_wm_ctx := (g_wm_ctx s)\<lparr>report_error_to_cloud := True\<rparr>\<rparr>"

text \<open>The setters the generated GUI code calls (emgui/DeviceDriver.c).\<close>

definition Device_SetProgram :: "int \<Rightarrow> wm_state \<Rightarrow> wm_state wm_res" where
  "Device_SetProgram v s = wm_workmode_changed_by_ui v s"

definition Device_SetTemp :: "int \<Rightarrow> wm_state \<Rightarrow> wm_state wm_res" where
  "Device_SetTemp v s = wm_watertemp_changed_by_ui v s"

definition Device_SetSpin :: "int \<Rightarrow> wm_state \<Rightarrow> wm_state wm_res" where
  "Device_SetSpin v s = wm_targetspin_changed_by_ui v s"

definition Device_SetOption :: "int \<Rightarrow> wm_state \<Rightarrow> wm_state wm_res" where
  "Device_SetOption v s = wm_dryswitch_changed_by_gui v s"

definition Device_SetSecond :: "int \<Rightarrow> wm_state \<Rightarrow> wm_state wm_res" where
  "Device_SetSecond v s = wm_second_changed_by_gui v s"

definition Device_SetMinute :: "int \<Rightarrow> wm_state \<Rightarrow> wm_state wm_res" where
  "Device_SetMinute v s = wm_minute_changed_by_gui v s"

definition Device_SetRunning :: "int \<Rightarrow> wm_state \<Rightarrow> wm_state wm_res" where
  "Device_SetRunning v s = wm_workswitch_changed_by_ui v s"

text \<open>The interrupt callback of the hardware button reports presses only.\<close>

definition HardButtonIsrCallback :: "int \<Rightarrow> wm_state \<Rightarrow> wm_state" where
  "HardButtonIsrCallback pressed s = (if c_true pressed then wm_button_pressed s else s)"

subsection \<open>Callbacks of the cloud SDK\<close>

definition wm_connected_event_handler :: "wm_state \<Rightarrow> wm_state" where
  "wm_connected_event_handler s = s\<lparr>g_wm_ctx := (g_wm_ctx s)\<lparr>cloud_connected := True\<rparr>\<rparr>"

definition wm_disconnected_event_handler :: "wm_state \<Rightarrow> wm_state" where
  "wm_disconnected_event_handler s = s\<lparr>g_wm_ctx := (g_wm_ctx s)\<lparr>cloud_connected := False\<rparr>\<rparr>"

definition wm_initialized :: "wm_state \<Rightarrow> wm_state" where
  "wm_initialized s = s\<lparr>g_wm_ctx := (g_wm_ctx s)\<lparr>master_initialized := True\<rparr>\<rparr>"

text \<open>A reply is only traced; then the next property of a running report is posted.\<close>

definition wm_report_reply_event_handler :: "wm_state \<Rightarrow> wm_state wm_res" where
  "wm_report_reply_event_handler s = wm_report_all_pro_to_cloud s"

text \<open>
  \<open>wm_service_request_event_handler\<close>: the service adds two numbers. The result is the return
  code and the response, if one was made. The buffer holds the format's 14 characters and 11
  more.
\<close>

definition service_id :: string where
  "service_id = ''Operation_Service''"

definition response_text :: "int \<Rightarrow> string" where
  "response_text n = ''{'' @ [CHR 0x22] @ ''Result'' @ [CHR 0x22] @ '': '' @ fmt_d n @ ''}''"

definition wm_service_request_event_handler ::
    "(string \<Rightarrow> cjson option) \<Rightarrow> bool \<Rightarrow> string \<Rightarrow> string \<Rightarrow> int \<times> string option" where
  "wm_service_request_event_handler cJSON_Parse mem serviceid request =
     (case cJSON_Parse request of
        None \<Rightarrow> (-1, None)
      | Some jroot \<Rightarrow>
          if \<not> cJSON_IsObject jroot then (-1, None)
          else if serviceid \<noteq> service_id then (0, None)
          else
            (case (cJSON_GetObjectItem (Some jroot) ''NumberA'', cJSON_GetObjectItem (Some jroot) ''NumberB'') of
               (Some a, Some b) \<Rightarrow>
                 if \<not> cJSON_IsNumber a \<or> \<not> cJSON_IsNumber b then (-1, None)
                 else if \<not> mem then (-1, None)
                 else (0, Some (fst (c_snprintf (14 + 10 + 1)
                                       (response_text (i32 (valueint a + valueint b))))))
             | _ \<Rightarrow> (-1, None)))"

definition wm_fota_event_handler :: "int \<Rightarrow> wm_state \<Rightarrow> wm_state" where
  "wm_fota_event_handler typ s = (if typ = 0 then emit [LinkkitQuery ''FOTA_DATA''] s else s)"

definition wm_cota_event_handler :: "int \<Rightarrow> wm_state \<Rightarrow> wm_state" where
  "wm_cota_event_handler typ s = (if typ = 0 then emit [LinkkitQuery ''COTA_DATA''] s else s)"

definition wm_post_event :: "wm_state \<Rightarrow> wm_state" where
  "wm_post_event s =
     emit [LinkkitTriggerEvent ''HardwareError'' (''{'' @ [CHR 0x22] @ ''ErrorCode'' @ [CHR 0x22] @ '': 1}'')] s"

definition wm_deviceinfo_update :: "wm_state \<Rightarrow> wm_state" where
  "wm_deviceinfo_update s = emit [LinkkitUpdate
     (''[{'' @ [CHR 0x22] @ ''attrKey'' @ [CHR 0x22] @ '':'' @ [CHR 0x22] @ ''abc'' @ [CHR 0x22] @ '',''
      @ [CHR 0x22] @ ''attrValue'' @ [CHR 0x22] @ '':'' @ [CHR 0x22] @ ''hello,world'' @ [CHR 0x22] @ ''}]'')] s"

definition wm_deviceinfo_delete :: "wm_state \<Rightarrow> wm_state" where
  "wm_deviceinfo_delete s = emit [LinkkitDelete
     (''[{'' @ [CHR 0x22] @ ''attrKey'' @ [CHR 0x22] @ '':'' @ [CHR 0x22] @ ''abc'' @ [CHR 0x22] @ ''}]'')] s"

subsection \<open>The command line\<close>

text \<open>The digits of the mode, up to the end of the line, go into a buffer of 4 bytes.\<close>

fun cli_copy :: "string \<Rightarrow> nat \<Rightarrow> string \<Rightarrow> string wm_res" where
  "cli_copy wm j [] = Inl BadAccess"
| "cli_copy wm j (c # cs) =
     (if c = CHR 0x00 \<or> c = CHR 0x0D then Inr wm
      else if j < length wm then cli_copy (wm[j := c]) (Suc j) cs
      else Inl BadAccess)"

definition wm_cli_process :: "string \<Rightarrow> wm_state \<Rightarrow> wm_state wm_res" where
  "wm_cli_process inc s =
     (if \<not> mem_ok s then Inr s
      else if length inc \<le> 1 then Inl BadAccess
      else if inc ! 1 = CHR ''s'' then
        (if length inc \<le> 3 then Inl BadAccess
         else wm_property_ib_set WORK_SW_PRO
                (CNumber (if inc ! 3 = CHR ''0'' then 0 else 1) 0) s)
      else if inc ! 1 = CHR ''m'' then
        res_bind (cli_copy (replicate 4 (CHR 0x00)) 0 (drop 3 inc))
          (\<lambda>wm. wm_property_ib_set WASHING_MODE_PRO (CNumber (c_atoi (c_str wm)) 0) s)
      else Inr s)"

subsection \<open>Start-up and main loop\<close>

text \<open>The static initial values: everything 0 but the fields of the initialiser of \<open>wm_ib\<close>.\<close>

definition wm_ib_static :: wm_data_info where
  "wm_ib_static =
     \<lparr>work_switch = False, work_state = WS_IDLE, clock_switch = False, water_level = WL_MIDDLE,
      left_time = 0, soak_time = f32 (minutes2count_i 1), wash_time = f32 (minutes2count_i 3),
      rinsh_time = f32 (minutes2count_i 1), spin_time = f32 (minutes2count_i 2), rinsh_times = 2,
      target_ss = 1000, target_wtem = 30, dry_time = 0, dry_switch = False,
      target_detergent = 0, target_softener = 0, target_disinfectant = 0,
      door_opening_state = False, pause_switch = False, dry_opt = 0, reserv_time = 0,
      power_switch = False, washing_mode = WM_WM_STANDARD\<rparr>"

definition ctx_zero :: wm_example_ctx where
  "ctx_zero = \<lparr>master_devid = 0, cloud_connected = False, master_initialized = False,
               time_set_triggered = False, report_error_to_cloud = False\<rparr>"

definition wm_static :: wm_state where
  "wm_static =
     \<lparr>wm_ib = wm_ib_static, g_wm_ctx = ctx_zero, report_pro_current = 0, report_started = False,
      wm_timers = [], wm_second_timer_created = False, wm_second_timer_on = False,
      wm_mutex_taken = False, finish_cnt = 0, read_after_free = False, mem_ok = True, effects = []\<rparr>"

definition wm_init :: "wm_state \<Rightarrow> wm_state" where
  "wm_init s =
     (let s1 = (if \<not> wm_second_timer_created s
                then s\<lparr>wm_second_timer_created := True, wm_mutex_taken := False, wm_timers := []\<rparr> else s)
      in wm_report_all_to_gui (wm_ib_default_set s1))"

text \<open>
  \<open>wm_run\<close> up to its loop, given the results of opening and connecting; a negative one ends
  the function with -1.
\<close>

definition wm_run_start :: "int \<Rightarrow> int \<Rightarrow> wm_state \<Rightarrow> wm_state wm_res \<times> bool" where
  "wm_run_start open_res connect_res s =
     (let s1 = wm_init (s\<lparr>g_wm_ctx := ctx_zero\<rparr>);
          s2 = s1\<lparr>g_wm_ctx := (g_wm_ctx s1)\<lparr>master_devid := open_res\<rparr>\<rparr>
      in if open_res < 0 then (Inr s2, False)
         else if connect_res < 0 then (Inr s2, False)
         else (wm_report_all_pro_to_cloud (s2\<lparr>report_started := True\<rparr>), True))"

text \<open>One round of the loop, after \<open>IOT_Linkkit_Yield\<close>; \<open>cnt\<close> has been incremented.\<close>

definition wm_run_round :: "int \<Rightarrow> wm_state \<Rightarrow> wm_state wm_res" where
  "wm_run_round cnt s =
     (let s1 = (if report_error_to_cloud (g_wm_ctx s)
                then (let t = wm_post_event s
                      in t\<lparr>g_wm_ctx := (g_wm_ctx t)\<lparr>report_error_to_cloud := False\<rparr>\<rparr>)
                else s)
      in if cnt smod 500 = 0 then wm_property_post WORK_SW_PRO s1 else Inr s1)"

end
