(* ===== verification/WmSystem.thy ===== *)
theory WmSystem
  imports WmEvents
begin

text \<open>
  The washing machine as a system: the handlers of the tasks (GUI, cloud, command line, main
  loop), the timer task and the environment interleave. A tick has two steps, as in FreeRTOS:
  the timer expires while it is running, and its callback runs later, even if the timer has
  been stopped in between.
\<close>

inductive wm_step :: "wm_state \<times> bool \<Rightarrow> wm_state \<times> bool \<Rightarrow> bool" where
  gui_minute: "wm_minute_changed_by_gui v s = Inr t \<Longrightarrow> wm_step (s, p) (t, p)"
| gui_second: "wm_second_changed_by_gui v s = Inr t \<Longrightarrow> wm_step (s, p) (t, p)"
| gui_spin: "wm_targetspin_changed_by_ui v s = Inr t \<Longrightarrow> wm_step (s, p) (t, p)"
| gui_temp: "wm_watertemp_changed_by_ui v s = Inr t \<Longrightarrow> wm_step (s, p) (t, p)"
| gui_dry: "wm_dryswitch_changed_by_gui v s = Inr t \<Longrightarrow> wm_step (s, p) (t, p)"
| gui_mode: "wm_workmode_changed_by_ui v s = Inr t \<Longrightarrow> wm_step (s, p) (t, p)"
| gui_run: "wm_workswitch_changed_by_ui v s = Inr t \<Longrightarrow> wm_step (s, p) (t, p)"
| button: "wm_step (s, p) (HardButtonIsrCallback v s, p)"
| connected: "wm_step (s, p) (wm_connected_event_handler s, p)"
| disconnected: "wm_step (s, p) (wm_disconnected_event_handler s, p)"
| initialized: "wm_step (s, p) (wm_initialized s, p)"
| report_enable: "wm_step (s, p) (wm_report_all_enable s, p)"
| reply: "wm_report_reply_event_handler s = Inr t \<Longrightarrow> wm_step (s, p) (t, p)"
| property_set: "wm_property_set_event_handler parse req s = Inr (r, t) \<Longrightarrow> wm_step (s, p) (t, p)"
| fota: "wm_step (s, p) (wm_fota_event_handler v s, p)"
| cota: "wm_step (s, p) (wm_cota_event_handler v s, p)"
| cli: "wm_cli_process inc s = Inr t \<Longrightarrow> wm_step (s, p) (t, p)"
| main_loop: "wm_run_round cnt s = Inr t \<Longrightarrow> wm_step (s, p) (t, p)"
| memory: "wm_step (s, p) (s\<lparr>mem_ok := b\<rparr>, p)"
| tick_due: "wm_second_timer_on s \<Longrightarrow> wm_step (s, p) (s, True)"
| tick_run: "wm_s_timer_cb s = Inr t \<Longrightarrow> wm_step (s, True) (t, False)"

inductive wm_reachable :: "wm_state \<times> bool \<Rightarrow> bool" where
  start: "wm_run_start open_res connect_res wm_static = (Inr s, True) \<Longrightarrow> wm_reachable (s, False)"
| step: "wm_reachable x \<Longrightarrow> wm_step x y \<Longrightarrow> wm_reachable y"

subsection \<open>The invariant\<close>

text \<open>
  Every timer has one of the three names used by the code and no name occurs twice, so there are
  never more than three timers; a timer in the list implies the periodic timer is running; the
  report position is in range.
\<close>

definition known_timers :: "string set" where
  "known_timers = {''local_timer'', ''finish_timer'', ''reservation_timer''}"

definition sys_inv :: "wm_state \<Rightarrow> bool" where
  "sys_inv s \<longleftrightarrow> report_pro_current s \<le> 7 \<and> distinct (timer_names s) \<and>
     (\<forall>w \<in> set (wm_timers s). timer_event_name w \<in> known_timers) \<and> (wm_timers s \<noteq> [] \<longrightarrow> wm_second_timer_on s)"

lemma sys_inv_frame [frame_simps, simp]:
  "sys_inv (s\<lparr>wm_ib := x\<rparr>) = sys_inv s" "sys_inv (s\<lparr>g_wm_ctx := c\<rparr>) = sys_inv s"
  "sys_inv (s\<lparr>report_started := b\<rparr>) = sys_inv s" "sys_inv (s\<lparr>finish_cnt := i\<rparr>) = sys_inv s"
  "sys_inv (s\<lparr>read_after_free := b\<rparr>) = sys_inv s" "sys_inv (s\<lparr>mem_ok := b\<rparr>) = sys_inv s"
  "sys_inv (s\<lparr>wm_mutex_taken := b\<rparr>) = sys_inv s"
  "sys_inv (emit es s) = sys_inv s" "sys_inv (upd_ib f s) = sys_inv s"
  by (simp_all add: sys_inv_def timer_names_def emit_def upd_ib_def)

lemma sys_inv_report: "sys_inv s \<Longrightarrow> report_pro_current s \<le> 7"
  by (simp add: sys_inv_def)

lemma sys_inv_report_step [simp]: "sys_inv s \<Longrightarrow> sys_inv (report_step s)"
  by (simp add: sys_inv_def timer_names_def)

lemma report_call: "sys_inv s \<Longrightarrow> wm_report_all_pro_to_cloud s = Inr (report_step s)"
  by (simp add: wm_report_step sys_inv_report)

lemma sys_inv_calculate [simp]: "sys_inv (wm_left_time_calculate s) = sys_inv s"
  by (simp add: wm_left_time_calculate_def)

lemma sys_inv_mode [simp]: "sys_inv (snd (wm_washing_mode_set_handle m s)) = sys_inv s"
  by (simp add: wm_washing_mode_set_handle_def Let_def)

lemma sys_inv_dry [simp]: "sys_inv (snd (wm_dry_switch_set_handle b s)) = sys_inv s"
  by (simp add: wm_dry_switch_set_handle_def Let_def)

lemma sys_inv_same_timers: "same_timers s t \<Longrightarrow> sys_inv s \<Longrightarrow> sys_inv t"
  by (auto simp: same_timers_def sys_inv_def timer_names_def)

lemma remove1_subset: "distinct xs \<Longrightarrow> set (remove1 x xs) = set xs - {x}"
  by (rule set_remove1_eq)

lemma unlink_known:
  assumes "sys_inv s"
  shows "distinct (map timer_event_name (timer_unlink name (wm_timers s)))"
    and "name \<notin> timer_event_name ` set (timer_unlink name (wm_timers s))"
    and "\<forall>w \<in> set (timer_unlink name (wm_timers s)). timer_event_name w \<in> known_timers"
proof -
  have d: "distinct (map timer_event_name (wm_timers s))"
    and k: "set (map timer_event_name (wm_timers s)) \<subseteq> known_timers"
    using assms by (auto simp: sys_inv_def timer_names_def)
  let ?n = "map timer_event_name (timer_unlink name (wm_timers s))"
  have "set ?n = set (map timer_event_name (wm_timers s)) - {name}"
    by (simp only: timer_unlink_names set_remove1_eq [OF d])
  then show "name \<notin> timer_event_name ` set (timer_unlink name (wm_timers s))"
    and "\<forall>w \<in> set (timer_unlink name (wm_timers s)). timer_event_name w \<in> known_timers"
    using k by auto
  show "distinct ?n" using d by (simp only: timer_unlink_names distinct_remove1)
qed

lemma sys_inv_timer_start:
  assumes "wm_s_timer_start n cb pcb name s = Inr t" "sys_inv s" "name \<in> known_timers"
  shows "sys_inv t"
  using wm_s_timer_start_Inr [OF assms(1)] unlink_known [OF assms(2), of name] assms(2,3)
  by (auto simp: sys_inv_def timer_names_def new_timer_def)

lemma sys_inv_timer_stop:
  assumes "wm_s_timer_stop name s = Inr t" "sys_inv s"
  shows "sys_inv t"
  using assms unlink_known [OF assms(2), of name]
  by (auto simp: wm_s_timer_stop_def Let_def sys_inv_def timer_names_def split: if_splits)

lemma sys_inv_tick:
  assumes "wm_s_timer_cb s = Inr t" "sys_inv s"
  shows "sys_inv t"
proof (cases "wm_timers s = []")
  case True
  then show ?thesis using assms by (auto simp: wm_s_timer_cb_def Let_def sys_inv_def timer_names_def split: if_splits)
next
  case False
  let ?ts = "map (\<lambda>w. w\<lparr>time_left := time_left w - 1\<rparr>) (filter (\<lambda>w. 0 < time_left w) (wm_timers s))"
  obtain u where u: "tick_events (wm_timers s) (s\<lparr>wm_mutex_taken := True\<rparr>) = Inr (?ts, u)"
    "same_timers (s\<lparr>wm_mutex_taken := True\<rparr>) u"
    using tick_events_ok [of "s\<lparr>wm_mutex_taken := True\<rparr>" "wm_timers s"] assms(2)
    by (auto simp: sys_inv_def)
  have iu: "sys_inv u" using u(2) assms(2) by (auto intro: sys_inv_same_timers)
  have names: "map timer_event_name ?ts = map timer_event_name (filter (\<lambda>w. 0 < time_left w) (wm_timers s))"
    by simp
  have "distinct (map timer_event_name (filter (\<lambda>w. 0 < time_left w) (wm_timers s)))"
    using assms(2) by (simp add: sys_inv_def timer_names_def distinct_map_filter)
  then show ?thesis using assms u iu False
    by (auto simp: wm_s_timer_cb_def Let_def sys_inv_def timer_names_def same_timers_def comp_def
        split: if_splits)
qed

subsection \<open>Every handler keeps the invariant\<close>

lemma sys_inv_gui_fun [simp]:
  "sys_inv (wm_report_all_to_gui s) = sys_inv s" "sys_inv (wm_report_dryswitch_to_gui s) = sys_inv s"
  "sys_inv (wm_ui_handle_work_switch_on s) = sys_inv s"
  "sys_inv (wm_ui_handle_work_switch_off s) = sys_inv s"
  "sys_inv (wm_lefttime_set_handle m s) = sys_inv s" "sys_inv (wm_targetspin_set_handle v s) = sys_inv s"
  "sys_inv (wm_watertemp_set_handle m s) = sys_inv s" "sys_inv (DeviceDriver_updateLeftTime v s) = sys_inv s"
  "sys_inv (DeviceDriver_updateWashMode v s) = sys_inv s"
  by (simp_all add: wm_report_all_to_gui_def wm_report_dryswitch_to_gui_def wm_defs Let_def
      wm_ui_handle_work_switch_on_def wm_ui_handle_work_switch_off_def wm_lefttime_set_handle_def
      wm_targetspin_set_handle_def wm_watertemp_set_handle_def)

lemma known_timers_simps [simp]:
  "''local_timer'' \<in> known_timers" "''finish_timer'' \<in> known_timers"
  "''reservation_timer'' \<in> known_timers"
  by (simp_all add: known_timers_def)

lemma sys_inv_start_state [simp]: "sys_inv (work_start_state s) = sys_inv s"
  by (simp add: work_start_state_def Let_def)

lemma sys_inv_switch:
  assumes "wm_work_switch_changed s = Inr t" "sys_inv s"
  shows "sys_inv t"
proof -
  obtain u where u: "wm_report_all_pro_to_cloud (u\<lparr>report_started := True\<rparr>) = Inr t" "sys_inv u"
  proof (cases "work_switch (wm_ib s)")
    case False
    with assms(1) obtain a b where ab:
      "wm_s_timer_stop ''local_timer'' (s\<lparr>wm_ib := (wm_ib s)\<lparr>work_state := WS_PAUSE\<rparr>\<rparr>) = Inr a"
      "wm_s_timer_stop ''finish_timer'' a = Inr b"
      "wm_report_all_pro_to_cloud ((wm_ui_handle_work_switch_off b)\<lparr>report_started := True\<rparr>) = Inr t"
      by (auto simp: wm_work_switch_changed_def res_bind_Inr_iff)
    then have "sys_inv b" using assms(2) by (auto dest!: sys_inv_timer_stop)
    then have "sys_inv (wm_ui_handle_work_switch_off b)" by simp
    with ab(3) show thesis by (rule that)
  next
    case True
    let ?x = "work_start_state s"
    from True assms(1) obtain a where xa:
      "wm_s_timer_start (f_trunc (count2seconds (left_time (wm_ib ?x)))) FinishTimeout FinishPeriodic
         ''finish_timer'' ?x = Inr a"
      "wm_report_all_pro_to_cloud ((wm_ui_handle_work_switch_on a)\<lparr>report_started := True\<rparr>) = Inr t"
      by (auto simp: wm_work_switch_changed_def res_bind_Inr_iff Let_def)
    have "sys_inv ?x" using assms(2) by simp
    then have "sys_inv a" using sys_inv_timer_start [OF xa(1)] by simp
    then have "sys_inv (wm_ui_handle_work_switch_on a)" by simp
    with xa(2) show thesis by (rule that)
  qed
  then show ?thesis using report_call [of "u\<lparr>report_started := True\<rparr>"] by auto
qed

lemma sys_inv_property:
  assumes "wm_property_ib_set p v s = Inr t" "sys_inv s"
  shows "sys_inv t"
  using assms
  by (cases p) (auto split: if_splits dest!: sys_inv_switch sys_inv_timer_start
      simp: res_bind_Inr_iff report_call Let_def wm_reservation_timer_set_hdl_def)

lemma sys_inv_hal_set:
  "wm_property_hal_set j s = Inr t \<Longrightarrow> sys_inv s \<Longrightarrow> sys_inv t"
  by (auto simp: wm_property_hal_set_def split: option.splits intro: sys_inv_property)

lemma sys_inv_local_timer:
  "wm_local_timer_event_hdl j s = Inr t \<Longrightarrow> sys_inv s \<Longrightarrow> sys_inv t"
  by (auto simp: wm_local_timer_event_hdl_def Let_def res_bind_Inr_iff split: option.splits if_splits
      dest!: sys_inv_timer_stop sys_inv_timer_start)

lemma sys_inv_property_set:
  "wm_property_set_event_handler parse req s = Inr (r, t) \<Longrightarrow> sys_inv s \<Longrightarrow> sys_inv t"
  by (auto simp: wm_property_set_event_handler_def res_bind_Inr_iff split: option.splits if_splits
      dest!: sys_inv_local_timer sys_inv_hal_set)

lemma sys_inv_gui:
  "wm_minute_changed_by_gui v s = Inr t \<Longrightarrow> sys_inv s \<Longrightarrow> sys_inv t"
  "wm_second_changed_by_gui v s = Inr t \<Longrightarrow> sys_inv s \<Longrightarrow> sys_inv t"
  "wm_targetspin_changed_by_ui v s = Inr t \<Longrightarrow> sys_inv s \<Longrightarrow> sys_inv t"
  "wm_watertemp_changed_by_ui v s = Inr t \<Longrightarrow> sys_inv s \<Longrightarrow> sys_inv t"
  by (auto simp: wm_minute_changed_by_gui_def wm_second_changed_by_gui_def Let_def
      wm_targetspin_changed_by_ui_def wm_watertemp_changed_by_ui_def split: if_splits)

lemma sys_inv_gui_dry:
  assumes "wm_dryswitch_changed_by_gui v s = Inr t" "sys_inv s"
  shows "sys_inv t"
proof -
  obtain r u where ru: "wm_dry_switch_set_handle (c_true v) s = (r, u)" by fastforce
  then have "sys_inv u" using sys_inv_dry [of "c_true v" s] assms(2) by simp
  then show ?thesis using assms(1) ru
    by (auto simp: wm_dryswitch_changed_by_gui_def split: if_splits)
qed

lemma sys_inv_gui_mode:
  assumes "wm_workmode_changed_by_ui v s = Inr t" "sys_inv s"
  shows "sys_inv t"
proof -
  obtain r u where ru: "wm_washing_mode_set_handle (mode_of_int v) s = (r, u)" by fastforce
  then have "sys_inv u" using sys_inv_mode [of "mode_of_int v" s] assms(2) by simp
  then show ?thesis using assms(1) ru report_call [of "u\<lparr>report_started := True\<rparr>"]
    by (auto simp: wm_workmode_changed_by_ui_def split: if_splits)
qed

lemma sys_inv_gui_run:
  assumes "wm_workswitch_changed_by_ui v s = Inr t" "sys_inv s"
  shows "sys_inv t"
proof -
  obtain u where u: "wm_work_switch_changed (upd_ib (\<lambda>ib. ib\<lparr>work_switch := c_true v\<rparr>) s) = Inr u"
    "wm_report_all_pro_to_cloud (u\<lparr>report_started := True\<rparr>) = Inr t"
    using assms(1) by (auto simp: wm_workswitch_changed_by_ui_def res_bind_Inr_iff)
  then have "sys_inv u" using assms(2) by (auto dest!: sys_inv_switch)
  then show ?thesis using u(2) report_call [of "u\<lparr>report_started := True\<rparr>"] by auto
qed

lemma sys_inv_cli:
  "wm_cli_process inc s = Inr t \<Longrightarrow> sys_inv s \<Longrightarrow> sys_inv t"
  by (auto simp: wm_cli_process_def res_bind_Inr_iff split: if_splits simp del: wm_property_ib_set.simps
      dest!: sys_inv_property)

lemma sys_inv_round:
  "wm_run_round cnt s = Inr t \<Longrightarrow> sys_inv s \<Longrightarrow> sys_inv t"
  by (auto simp: wm_run_round_def Let_def wm_post_event_def split: if_splits)

lemma wm_step_inv:
  assumes "wm_step x y" "sys_inv (fst x)"
  shows "sys_inv (fst y)"
  using assms
proof (induction rule: wm_step.induct)
  case (tick_run s t)
  then show ?case by (simp add: sys_inv_tick)
next
  case (reply s t p)
  then show ?case by (auto simp: wm_report_reply_event_handler_def report_call)
qed (auto simp: HardButtonIsrCallback_def wm_button_pressed_def wm_connected_event_handler_def
      wm_disconnected_event_handler_def wm_initialized_def wm_report_all_enable_def
      wm_fota_event_handler_def wm_cota_event_handler_def
      dest: sys_inv_gui sys_inv_gui_dry sys_inv_gui_mode sys_inv_gui_run sys_inv_property_set
        sys_inv_cli sys_inv_round)

lemma wm_init_inv: "sys_inv (wm_init wm_static)"
  by (simp add: wm_init_def wm_static_def wm_ib_default_set_def wm_left_time_calculate_def Let_def
      ctx_zero_def) (simp add: sys_inv_def timer_names_def)

lemma wm_start_inv:
  assumes "wm_run_start o_res c_res wm_static = (Inr s, True)"
  shows "sys_inv s"
proof -
  let ?u = "(wm_init (wm_static\<lparr>g_wm_ctx := ctx_zero\<rparr>))"
  have z: "wm_static\<lparr>g_wm_ctx := ctx_zero\<rparr> = wm_static" by (simp add: wm_static_def)
  let ?v = "?u\<lparr>g_wm_ctx := (g_wm_ctx ?u)\<lparr>master_devid := o_res\<rparr>, report_started := True\<rparr>"
  have "sys_inv ?v" unfolding z using wm_init_inv by simp
  then show ?thesis using assms report_call [of ?v]
    by (auto simp: wm_run_start_def Let_def split: if_splits)
qed

lemma wm_reachable_inv: "wm_reachable x \<Longrightarrow> sys_inv (fst x)"
proof (induction rule: wm_reachable.induct)
  case (start o_res c_res s)
  then show ?case using wm_start_inv by simp
next
  case (step x y)
  then show ?case using wm_step_inv by blast
qed

text \<open>At most three timers: the list uses a bounded amount of memory.\<close>

lemma sys_inv_three_timers:
  assumes "sys_inv s" shows "length (wm_timers s) \<le> 3"
proof -
  have "length (wm_timers s) = card (set (timer_names s))"
    using assms by (simp add: sys_inv_def distinct_card timer_names_def [symmetric])
      (metis distinct_card length_map timer_names_def)
  also have "\<dots> \<le> card known_timers"
    using assms by (intro card_mono) (auto simp: sys_inv_def timer_names_def known_timers_def)
  also have "\<dots> \<le> 3" by (simp add: known_timers_def card_insert_if)
  finally show ?thesis .
qed

end
