(* ===== verification/WmProps.thy ===== *)
theory WmProps
  imports WmSystem
begin

text \<open>
  The properties of the washing machine, each over the definitions of the components: the
  programme table, the finishing of a wash, the settings refused while working, the report to
  the cloud, the software timers, and the system as a whole.
\<close>

subsection \<open>Durations\<close>

text \<open>The minutes each programme is meant to take, without drying.\<close>

fun programme_minutes :: "wm_washing_mode_e \<Rightarrow> int" where
  "programme_minutes WM_WM_STANDARD = 8"
| "programme_minutes WM_WM_SOFT = 13"
| "programme_minutes WM_WM_STRONG = 50"
| "programme_minutes WM_WM_QUICK = 6"
| "programme_minutes WM_WM_WOOL = 14"
| "programme_minutes WM_WM_CHEMFIBER = 14"
| "programme_minutes WM_WM_COTTON = 16"
| "programme_minutes WM_WM_JEANS = 19"
| "programme_minutes WM_WM_SELF = 20"
| "programme_minutes (WM_WM_RAW i) = 0"

definition programme_seconds :: "wm_washing_mode_e \<Rightarrow> bool \<Rightarrow> int" where
  "programme_seconds m dry = 60 * (programme_minutes m + (if dry then 9 else 0))"

lemma minutes2count_i_numeral [simp]:
  "(numeral n :: int) \<le> 35791 \<Longrightarrow> minutes2count_i (numeral n) = 60 * numeral n"
  "minutes2count_i 1 = 60"
  using minutes2count_i_eq [of "numeral n"] minutes2count_i_eq [of 1] by simp_all

lemma programme_seconds_bounds:
  "m \<in> set wm_modes \<Longrightarrow> 360 \<le> programme_seconds m d \<and> programme_seconds m d \<le> 3540"
  by (auto simp: wm_modes_def programme_seconds_def)

lemma programme_time_mode:
  "m \<in> set wm_modes \<Longrightarrow>
   programme_time (mode_programme m ib) = of_int (programme_seconds m (dry_switch ib))"
  by (auto simp: wm_modes_def programme_time_def set_programme_def programme_seconds_def Let_def)


lemma valid_check_seconds:
  assumes "left_time ib = of_int n" "n \<le> 3540"
  shows "wm_left_time_valid_check ib = ib"
proof -
  have "count2minutes (left_time ib) \<le> count2minutes (of_int 3540)"
    using assms by (intro count2minutes_mono) simp
  then have "f_trunc (count2minutes (left_time ib)) \<le> f_trunc (count2minutes 3540)"
    by (intro f_trunc_mono) simp
  also have "f_trunc (count2minutes 3540) = 59"
    by (simp add: count2minutes_def)
  finally show ?thesis by (simp add: wm_left_time_valid_check_def)
qed

lemma mode_set_left_time:
  assumes "m \<in> set wm_modes" "work_state (wm_ib s) \<noteq> WS_WORKING"
  shows "left_time (wm_ib (snd (wm_washing_mode_set_handle m s))) =
           of_int (programme_seconds m (dry_switch (wm_ib s)))"
proof -
  let ?ib = "mode_programme m ((wm_ib s)\<lparr>work_state := WS_IDLE, washing_mode := m\<rparr>)"
  have t: "programme_time ?ib = of_int (programme_seconds m (dry_switch (wm_ib s)))"
    by (simp add: programme_time_mode [OF assms(1)])
  have "wm_left_time_valid_check (?ib\<lparr>left_time := programme_time ?ib\<rparr>) = ?ib\<lparr>left_time := programme_time ?ib\<rparr>"
    using programme_seconds_bounds [OF assms(1), of "dry_switch (wm_ib s)"]
    by (intro valid_check_seconds [of _ "programme_seconds m (dry_switch (wm_ib s))"]) (simp_all add: t)
  then show ?thesis
    using assms(2) by (simp add: wm_washing_mode_set_handle_def wm_left_time_calculate_def Let_def t)
qed

subsection \<open>Ticks\<close>

text \<open>The timer callback run \<open>n\<close> times.\<close>

fun wm_ticks :: "nat \<Rightarrow> wm_state \<Rightarrow> wm_state wm_res" where
  "wm_ticks 0 s = Inr s"
| "wm_ticks (Suc n) s = res_bind (wm_s_timer_cb s) (wm_ticks n)"

text \<open>The state of a running wash: only the finish timer runs, and both count the same seconds.\<close>

definition washing :: "nat \<Rightarrow> wm_state \<Rightarrow> bool" where
  "washing n s \<longleftrightarrow> \<not> wm_mutex_taken s \<and> report_pro_current s \<le> 7 \<and>
     left_time (wm_ib s) = of_nat n \<and>
     (\<exists>k. wm_timers s = [\<lparr>time_set = k, time_left = int n, cb_function = FinishTimeout,
                         pcb_function = FinishPeriodic, timer_event_name = ''finish_timer''\<rparr>])"

lemma washing_tick:
  assumes "washing (Suc n) s" "n \<le> 16000"
  shows "\<exists>t. wm_s_timer_cb s = Inr t \<and> washing n t \<and> work_state (wm_ib t) = work_state (wm_ib s) \<and>
             work_switch (wm_ib t) = work_switch (wm_ib s)"
proof -
  have "f32 (of_nat (Suc n) - 1) = of_nat n"
    using f32_of_int [of "int n"] assms(2) by simp
  then show ?thesis
    using assms by (auto simp: washing_def wm_s_timer_cb_def wm_finish_timer_periodic_cb_def Let_def
        DeviceDriver_updateLeftTime_def)
qed

lemma washing_last_tick:
  assumes "washing 0 s"
  shows "\<exists>t. wm_s_timer_cb s = Inr t \<and> work_state (wm_ib t) = WS_FINISHED \<and> \<not> work_switch (wm_ib t) \<and>
     left_time (wm_ib t) = 0 \<and> wm_timers t = [] \<and> \<not> wm_second_timer_on t \<and> \<not> wm_mutex_taken t \<and>
     last (effects t) = UpdateRunning 0"
  using assms
  by (auto simp: washing_def wm_s_timer_cb_def wm_finishtimer_timeout_cb_def Let_def wm_report_step
      wm_ui_handle_work_switch_off_def DeviceDriver_updateRunning_def)

lemma washing_ends:
  assumes "washing n s" "n \<le> 16000"
  shows "\<exists>t. wm_ticks (Suc n) s = Inr t \<and> work_state (wm_ib t) = WS_FINISHED \<and> \<not> work_switch (wm_ib t) \<and>
     left_time (wm_ib t) = 0 \<and> wm_timers t = [] \<and> \<not> wm_second_timer_on t \<and> \<not> wm_mutex_taken t \<and>
     last (effects t) = UpdateRunning 0"
  using assms
proof (induction n arbitrary: s)
  case 0
  then show ?case using washing_last_tick [of s] by auto
next
  case (Suc n)
  then obtain u where "wm_s_timer_cb s = Inr u" "washing n u"
    using washing_tick [of n s] by auto
  then show ?case using Suc.IH [of u] Suc.prems by auto
qed

text \<open>While it runs, the wash stays on.\<close>

lemma washing_goes_on:
  assumes "washing n s" "k \<le> n" "n \<le> 16000"
  shows "\<exists>t. wm_ticks k s = Inr t \<and> washing (n - k) t \<and> work_state (wm_ib t) = work_state (wm_ib s)"
  using assms
proof (induction k arbitrary: n s)
  case (Suc k)
  then obtain m where m: "n = Suc m" by (cases n) auto
  with Suc.prems obtain u where "wm_s_timer_cb s = Inr u" "washing m u"
    "work_state (wm_ib u) = work_state (wm_ib s)"
    using washing_tick [of m s] by auto
  then show ?case using Suc.IH [of m u] Suc.prems m by auto
qed simp

subsection \<open>From choosing a programme to its end\<close>

definition wash_ready :: "wm_washing_mode_e \<Rightarrow> wm_state \<Rightarrow> bool" where
  "wash_ready m s \<longleftrightarrow> programme_time (wm_ib s) = of_int (programme_seconds m (dry_switch (wm_ib s))) \<and>
     \<not> time_set_triggered (g_wm_ctx s) \<and> work_state (wm_ib s) = WS_IDLE \<and>
     \<not> wm_mutex_taken s \<and> mem_ok s \<and> wm_timers s = [] \<and> report_pro_current s \<le> 7"

lemma programme_time_frame [simp]:
  "programme_time (ib\<lparr>left_time := x\<rparr>) = programme_time ib"
  "programme_time (ib\<lparr>work_state := y\<rparr>) = programme_time ib"
  "programme_time (ib\<lparr>work_switch := z\<rparr>) = programme_time ib"
  by (simp_all add: programme_time_def)

lemma programme_time_check [simp]:
  "programme_time (wm_left_time_valid_check ib) = programme_time ib"
  by (simp add: wm_left_time_valid_check_def)

lemma choose_ready:
  assumes "m \<in> set wm_modes" "work_state (wm_ib s) \<noteq> WS_WORKING" "\<not> wm_mutex_taken s" "mem_ok s"
    "wm_timers s = []" "report_pro_current s \<le> 7"
  shows "\<exists>t. wm_workmode_changed_by_ui (int_of_mode m) s = Inr t \<and> wash_ready m t \<and>
             dry_switch (wm_ib t) = dry_switch (wm_ib s)"
proof -
  have m: "mode_of_int (int_of_mode m) = m"
    using assms(1) by (auto simp: wm_modes_def mode_of_int_def)
  show ?thesis using assms
    by (simp add: wm_workmode_changed_by_ui_def m wm_washing_mode_set_handle_def Let_def
        wm_left_time_calculate_def wm_report_step wash_ready_def programme_time_mode
        wm_report_all_to_gui_def wm_defs)
qed

lemma start_washing:
  assumes "wash_ready m s" "m \<in> set wm_modes"
  shows "\<exists>t. wm_workswitch_changed_by_ui 1 s = Inr t \<and>
     washing (nat (programme_seconds m (dry_switch (wm_ib s)))) t \<and> work_state (wm_ib t) = WS_WORKING"
proof -
  define n where "n = programme_seconds m (dry_switch (wm_ib s))"
  have n: "0 < n" "n \<le> 3540"
    using programme_seconds_bounds [OF assms(2), of "dry_switch (wm_ib s)"] by (auto simp: n_def)
  let ?ib = "(wm_ib s)\<lparr>work_switch := True, left_time := of_int n\<rparr>"
  have chk: "wm_left_time_valid_check ?ib = ?ib"
    by (rule valid_check_seconds) (use n in simp_all)
  have st: "work_start_state (s\<lparr>wm_ib := (wm_ib s)\<lparr>work_switch := True\<rparr>\<rparr>) =
      s\<lparr>wm_ib := ?ib\<lparr>work_state := WS_WORKING\<rparr>\<rparr>"
    using assms(1) n chk
    by (simp add: work_start_state_def wm_left_time_calculate_def wash_ready_def n_def Let_def)
  have tl: "i32 (n * 1000) sdiv 1000 = n"
    using n mult_sdiv_cancel [of 1000 n] by (simp add: i32_id)
  have sec: "f_trunc (count2seconds (of_int n)) = n"
    using n by (simp add: count2seconds_of_int)
  show ?thesis
    using assms(1) n st
    by (simp add: wm_workswitch_changed_by_ui_def wm_work_switch_changed_def upd_ib_def c_true_def Let_def
        wm_s_timer_start_eq sec wash_ready_def wm_report_step washing_def new_timer_def tl
        WM_CBTIMER_PERIOD_MS_def wm_ui_handle_work_switch_on_def wm_defs flip: n_def)
qed

subsection \<open>Pausing\<close>

lemma pause_washing:
  assumes "washing n s" "work_state (wm_ib s) = WS_WORKING"
  shows "\<exists>t. wm_workswitch_changed_by_ui 0 s = Inr t \<and> wm_timers t = [] \<and>
     work_state (wm_ib t) = WS_PAUSE \<and> left_time (wm_ib t) = of_nat n \<and>
     \<not> wm_mutex_taken t \<and> report_pro_current t \<le> 7 \<and> mem_ok t = mem_ok s"
  using assms
  by (auto simp: wm_workswitch_changed_by_ui_def wm_work_switch_changed_def upd_ib_def c_true_def Let_def
      washing_def wm_s_timer_stop_def wm_report_step wm_ui_handle_work_switch_off_def wm_defs)

lemma resume_washing:
  assumes "wm_timers s = []" "work_state (wm_ib s) = WS_PAUSE" "left_time (wm_ib s) = of_nat n"
    "\<not> wm_mutex_taken s" "report_pro_current s \<le> 7" "mem_ok s" "0 < n" "n \<le> 16000"
  shows "\<exists>t. wm_workswitch_changed_by_ui 1 s = Inr t \<and> washing n t \<and> work_state (wm_ib t) = WS_WORKING"
proof -
  have st: "work_start_state (s\<lparr>wm_ib := (wm_ib s)\<lparr>work_switch := True\<rparr>\<rparr>) =
      s\<lparr>wm_ib := (wm_ib s)\<lparr>work_switch := True, work_state := WS_WORKING\<rparr>\<rparr>"
    using assms by (simp add: work_start_state_def Let_def)
  have tl: "i32 (int n * 1000) sdiv 1000 = int n"
    using assms mult_sdiv_cancel [of 1000 "int n"] by (simp add: i32_id)
  have sec: "f_trunc (count2seconds (of_nat n)) = int n"
    using assms count2seconds_of_int [of "int n"] f_trunc_of_int [of "int n"] by simp
  show ?thesis
    using assms st
    by (simp add: wm_workswitch_changed_by_ui_def wm_work_switch_changed_def upd_ib_def c_true_def Let_def
        wm_s_timer_start_eq sec wm_report_step washing_def new_timer_def tl
        WM_CBTIMER_PERIOD_MS_def wm_ui_handle_work_switch_on_def wm_defs)
qed

subsection \<open>The properties\<close>

text \<open>C1. A wash runs to its end. Whatever the machine was doing before, as long as it is not
  working and no timer runs: choosing one of the nine programmes on the GUI and switching the
  machine on starts a wash that keeps working through every second of the programme, and one tick
  after the last second the machine is finished and switched off, with no time left, no timer
  left running, the mutex free, and the GUI told that the machine stopped.\<close>

theorem wash_runs_to_its_end:
  assumes "m \<in> set wm_modes" "work_state (wm_ib s) \<noteq> WS_WORKING" "\<not> wm_mutex_taken s" "mem_ok s"
    "wm_timers s = []" "report_pro_current s \<le> 7"
    and n: "n = nat (programme_seconds m (dry_switch (wm_ib s)))"
  shows "\<exists>t1 t2 t3. wm_workmode_changed_by_ui (int_of_mode m) s = Inr t1 \<and>
     wm_workswitch_changed_by_ui 1 t1 = Inr t2 \<and>
     (\<forall>k \<le> n. \<exists>u. wm_ticks k t2 = Inr u \<and> work_state (wm_ib u) = WS_WORKING \<and>
                  left_time (wm_ib u) = of_nat (n - k)) \<and>
     wm_ticks (Suc n) t2 = Inr t3 \<and> work_state (wm_ib t3) = WS_FINISHED \<and> \<not> work_switch (wm_ib t3) \<and>
     left_time (wm_ib t3) = 0 \<and> wm_timers t3 = [] \<and> \<not> wm_second_timer_on t3 \<and>
     \<not> wm_mutex_taken t3 \<and> last (effects t3) = UpdateRunning 0"
proof -
  obtain t1 where t1: "wm_workmode_changed_by_ui (int_of_mode m) s = Inr t1" "wash_ready m t1"
    "dry_switch (wm_ib t1) = dry_switch (wm_ib s)"
    using choose_ready [OF assms(1-6)] by blast
  obtain t2 where t2: "wm_workswitch_changed_by_ui 1 t1 = Inr t2" "washing n t2"
    "work_state (wm_ib t2) = WS_WORKING"
    using start_washing [OF t1(2) assms(1)] by (auto simp: n t1(3))
  have "n \<le> 16000" using programme_seconds_bounds [OF assms(1), of "dry_switch (wm_ib s)"] unfolding n by linarith
  then have "\<forall>k \<le> n. \<exists>u. wm_ticks k t2 = Inr u \<and> work_state (wm_ib u) = WS_WORKING \<and>
                  left_time (wm_ib u) = of_nat (n - k)"
    using washing_goes_on [OF t2(2)] t2(3) by (fastforce simp: washing_def)
  moreover obtain t3 where "wm_ticks (Suc n) t2 = Inr t3" "work_state (wm_ib t3) = WS_FINISHED"
    "\<not> work_switch (wm_ib t3)" "left_time (wm_ib t3) = 0" "wm_timers t3 = []" "\<not> wm_second_timer_on t3"
    "\<not> wm_mutex_taken t3" "last (effects t3) = UpdateRunning 0"
    using washing_ends [OF t2(2) \<open>n \<le> 16000\<close>] by blast
  ultimately show ?thesis using t1(1) t2(1) by blast
qed

lemma wm_init_ready:
  "work_state (wm_ib (wm_init wm_static)) = WS_IDLE" "\<not> wm_mutex_taken (wm_init wm_static)"
  "mem_ok (wm_init wm_static)" "wm_timers (wm_init wm_static) = []"
  "report_pro_current (wm_init wm_static) = 7" "\<not> dry_switch (wm_ib (wm_init wm_static))"
  by (simp_all add: wm_init_def wm_static_def wm_ib_default_set_def wm_left_time_calculate_def Let_def
      ctx_zero_def wm_report_all_to_gui_def wm_defs wm_ib_static_def)

theorem wash_runs_to_its_end_witness:
  "\<exists>t1 t2 t3. wm_workmode_changed_by_ui 3 (wm_init wm_static) = Inr t1 \<and>
     wm_workswitch_changed_by_ui 1 t1 = Inr t2 \<and> wm_ticks 361 t2 = Inr t3 \<and>
     work_state (wm_ib t3) = WS_FINISHED"
proof -
  have n: "(360::nat) = nat (programme_seconds WM_WM_QUICK (dry_switch (wm_ib (wm_init wm_static))))"
    by (simp add: programme_seconds_def wm_init_ready)
  show ?thesis
    using wash_runs_to_its_end [of WM_WM_QUICK "wm_init wm_static" 360] n
    by (auto simp: wm_modes_def wm_init_ready simp del: wm_ticks.simps)
qed



text \<open>C8. Choosing a programme sets the remaining time to exactly the seconds of its soaking,
  washing, rinsing and spinning phases, plus nine minutes when drying is on, although the code
  computes in single-precision floating point.\<close>

theorem programme_durations:
  assumes "m \<in> set wm_modes" "work_state (wm_ib s) \<noteq> WS_WORKING"
  shows "fst (wm_washing_mode_set_handle m s) = 0 \<and>
     left_time (wm_ib (snd (wm_washing_mode_set_handle m s))) =
       of_int (60 * (programme_minutes m + (if dry_switch (wm_ib s) then 9 else 0)))"
  using mode_set_left_time [OF assms] assms(2)
  by (simp add: programme_seconds_def wm_washing_mode_set_handle_def Let_def)

theorem programme_durations_witness:
  "left_time (wm_ib (snd (wm_washing_mode_set_handle WM_WM_COTTON (wm_init wm_static)))) = 960"
  using programme_durations [of WM_WM_COTTON "wm_init wm_static"]
  by (simp add: wm_modes_def wm_init_ready)





text \<open>C10. A report to the cloud posts each of the seven reported properties once, in the order of
  the table, with its current value, one per acknowledgement of the cloud, and then stops; an
  eighth call posts nothing.\<close>

theorem report_posts_every_property_once:
  assumes "report_pro_current s = 7" "report_started s" "cloud_connected (g_wm_ctx s)" "mem_ok s"
  shows "\<exists>t. report_calls 7 s = Inr t \<and> report_calls 8 s = Inr t \<and>
     effects t = effects s @ map (\<lambda>p. LinkkitReport (prop_payload (wm_ib s) p)) report_properties \<and>
     \<not> report_started t \<and> report_pro_current t = 7 \<and> wm_ib t = wm_ib s"
proof -
  let ?t = "(emit (map (\<lambda>p. LinkkitReport (prop_payload (wm_ib s) p)) report_properties) s)
       \<lparr>report_started := False, report_pro_current := 7\<rparr>"
  have 7: "report_calls 7 s = Inr ?t" using report_cycle [OF assms] .
  have app: "report_calls (a + b) r = res_bind (report_calls a r) (report_calls b)" for a b r
    by (induction a arbitrary: r) (auto simp: res_bind_def split: sum.splits)
  have "report_calls (7 + 1) s = res_bind (report_calls 7 s) (report_calls 1)" by (rule app)
  then have "report_calls 8 s = Inr ?t" unfolding 7 by (simp add: wm_report_step report_step_def)
  with 7 show ?thesis by simp
qed

theorem report_posts_every_property_once_witness:
  "\<exists>t. report_calls 7 (wm_report_all_enable (wm_connected_event_handler (wm_init wm_static))) = Inr t \<and>
     \<not> report_started t"
  using report_posts_every_property_once
    [of "wm_report_all_enable (wm_connected_event_handler (wm_init wm_static))"]
  by (auto simp: wm_report_all_enable_def wm_connected_event_handler_def wm_init_ready)

text \<open>Starting a software timer leaves exactly one event with that name, carrying the new
  callbacks and the new number of ticks, stops no other timer, and arms the second timer.\<close>

theorem timer_start_replaces:
  assumes "wm_s_timer_start n cb pcb name s = Inr t" "mem_ok s" "distinct (timer_names s)"
    "wm_timers s = [] \<or> wm_second_timer_on s"
  shows "wm_s_timer_event_find k (wm_timers t) =
           (if k = name then Some (new_timer n cb pcb name) else wm_s_timer_event_find k (wm_timers s)) \<and>
         distinct (timer_names t) \<and> wm_second_timer_on t"
proof -
  have t: "t = s\<lparr>wm_second_timer_on := wm_timers s = [] \<or> wm_second_timer_on s,
           wm_timers := timer_put name (new_timer n cb pcb name) (wm_timers s)\<rparr>"
    using wm_s_timer_start_Inr [OF assms(1)] assms(2) by (simp add: timer_put_def)
  have "names_distinct (wm_timers s)" using assms(3) by (simp add: names_distinct_def timer_names_def)
  moreover have "timer_event_name (new_timer n cb pcb name) = name" by (simp add: new_timer_def)
  ultimately show ?thesis using assms(4) timers.lookup_put timers.inv_put
    by (auto simp: t timer_names_def names_distinct_def)
qed

theorem timer_start_replaces_witness:
  "\<exists>t. wm_s_timer_start 5 FinishTimeout FinishPeriodic ''finish_timer'' (wm_init wm_static) = Inr t \<and>
     wm_s_timer_event_find ''finish_timer'' (wm_timers t) =
       Some (new_timer 5 FinishTimeout FinishPeriodic ''finish_timer'')"
proof -
  obtain t where t: "wm_s_timer_start 5 FinishTimeout FinishPeriodic ''finish_timer'' (wm_init wm_static) = Inr t"
    by (simp add: wm_s_timer_start_eq wm_init_ready)
  show ?thesis using timer_start_replaces [OF t] t by (simp add: wm_init_ready timer_names_def)
qed

text \<open>C11. One tick of the second timer always returns, gives the mutex back, counts every
  running timer down by one and removes exactly those that had no second left; removing one reads
  the link of the node it has just freed.\<close>

theorem tick_counts_down:
  assumes "sys_inv s" "\<not> wm_mutex_taken s" "wm_timers s \<noteq> []"
  shows "\<exists>t. wm_s_timer_cb s = Inr t \<and> \<not> wm_mutex_taken t \<and> sys_inv t \<and>
     wm_timers t = map (\<lambda>w. w\<lparr>time_left := time_left w - 1\<rparr>) (filter (\<lambda>w. 0 < time_left w) (wm_timers s)) \<and>
     (read_after_free t \<longleftrightarrow> read_after_free s \<or> (\<exists>w \<in> set (wm_timers s). time_left w \<le> 0))"
proof -
  obtain u where u: "tick_events (wm_timers s) (s\<lparr>wm_mutex_taken := True\<rparr>) =
      Inr (map (\<lambda>w. w\<lparr>time_left := time_left w - 1\<rparr>) (filter (\<lambda>w. 0 < time_left w) (wm_timers s)), u)"
    "read_after_free u \<longleftrightarrow> read_after_free s \<or> (\<exists>w \<in> set (wm_timers s). time_left w \<le> 0)"
    using tick_events_ok [of "s\<lparr>wm_mutex_taken := True\<rparr>" "wm_timers s"] assms(1)
    by (auto simp: sys_inv_def)
  obtain t where t: "wm_s_timer_cb s = Inr t" "\<not> wm_mutex_taken t"
    "wm_timers t = map (\<lambda>w. w\<lparr>time_left := time_left w - 1\<rparr>) (filter (\<lambda>w. 0 < time_left w) (wm_timers s))"
    "read_after_free t = read_after_free u"
    using u(1) assms by (simp add: wm_s_timer_cb_def Let_def)
  with sys_inv_tick [OF t(1) assms(1)] u(2) show ?thesis by blast
qed

definition two_timers :: wm_state where
  "two_timers = (wm_init wm_static)\<lparr>wm_second_timer_on := True,
     wm_timers := [new_timer 0 CbNull PcbNull ''local_timer'', new_timer 7 CbNull PcbNull ''finish_timer'']\<rparr>"

theorem tick_counts_down_witness:
  "\<exists>t. wm_s_timer_cb two_timers = Inr t \<and> wm_timers t = [new_timer 7 CbNull PcbNull ''finish_timer''\<lparr>time_left := 6\<rparr>] \<and>
     read_after_free t"
proof -
  have "sys_inv two_timers"
    by (simp add: two_timers_def sys_inv_def timer_names_def new_timer_def wm_init_ready)
  moreover have "i32 7000 sdiv 1000 = 7" "i32 0 = 0" by code_simp+
  ultimately show ?thesis
    using tick_counts_down [of two_timers]
    by (auto simp: two_timers_def new_timer_def wm_init_ready WM_CBTIMER_PERIOD_MS_def)
qed

definition mutex_lost :: "wm_state \<Rightarrow> bool" where
  "mutex_lost s \<longleftrightarrow> wm_mutex_taken s \<and> (\<forall>n cb pcb name. wm_s_timer_start n cb pcb name s = Inl Blocked) \<and>
     (\<forall>name. wm_s_timer_stop name s = Inl Blocked) \<and> wm_s_timer_cb s = Inl Blocked"

lemma mutex_lost_iff: "mutex_lost s \<longleftrightarrow> wm_mutex_taken s"
  by (auto simp: mutex_lost_def wm_s_timer_start_def wm_s_timer_stop_def wm_s_timer_cb_def Let_def)

lemma late_tick_loses_mutex:
  "wm_timers s = [] \<Longrightarrow> \<not> wm_mutex_taken s \<Longrightarrow> \<exists>t. wm_s_timer_cb s = Inr t \<and> mutex_lost t"
  by (simp add: wm_s_timer_cb_def mutex_lost_iff Let_def)

definition wm_started :: wm_state where
  "wm_started = report_step ((wm_init wm_static)\<lparr>report_started := True\<rparr>)"

lemma wm_started_reachable: "wm_reachable (wm_started, False)"
proof -
  have z: "wm_static\<lparr>g_wm_ctx := ctx_zero\<rparr> = wm_static" by (simp add: wm_static_def)
  have c: "g_wm_ctx (wm_init wm_static)\<lparr>master_devid := 0\<rparr> = g_wm_ctx (wm_init wm_static)"
    by (simp add: wm_init_def wm_static_def wm_ib_default_set_def wm_left_time_calculate_def Let_def
      ctx_zero_def wm_report_all_to_gui_def wm_defs)
  have "wm_run_start 0 0 wm_static = (Inr wm_started, True)"
    by (simp add: wm_run_start_def z c Let_def wm_report_step wm_init_ready wm_started_def)
  then show ?thesis by (rule wm_reachable.start)
qed

text \<open>C12. The mutex of the timers can be lost for ever: a tick that was due before the list became
  empty takes the mutex and returns without giving it back, so the state below is reachable by
  switching the machine on and off around a tick. From then on every start, stop and tick
  blocks.\<close>

theorem timer_mutex_can_be_lost: "\<exists>s. wm_reachable (s, False) \<and> mutex_lost s"
proof -
  have ready: "work_state (wm_ib wm_started) \<noteq> WS_WORKING" "\<not> wm_mutex_taken wm_started" "mem_ok wm_started"
    "wm_timers wm_started = []" "report_pro_current wm_started \<le> 7"
    by (simp_all add: wm_started_def wm_init_ready)
  obtain a where a: "wm_workmode_changed_by_ui (int_of_mode WM_WM_QUICK) wm_started = Inr a" "wash_ready WM_WM_QUICK a"
    using choose_ready [of WM_WM_QUICK wm_started] ready by (auto simp: wm_modes_def)
  obtain b n where b: "wm_workswitch_changed_by_ui 1 a = Inr b" "washing n b" "work_state (wm_ib b) = WS_WORKING"
    using start_washing [OF a(2)] by (auto simp: wm_modes_def)
  obtain c where c: "wm_workswitch_changed_by_ui 0 b = Inr c" "wm_timers c = []" "\<not> wm_mutex_taken c"
    using pause_washing [OF b(2,3)] by blast
  obtain d where d: "wm_s_timer_cb c = Inr d" "mutex_lost d"
    using late_tick_loses_mutex [OF c(2,3)] by blast
  have ra: "wm_reachable (a, False)" using wm_step.gui_mode [OF a(1)] wm_started_reachable by (rule wm_reachable.step [rotated])
  have rb: "wm_reachable (b, False)" using wm_step.gui_run [OF b(1)] ra by (rule wm_reachable.step [rotated])
  have "wm_second_timer_on b"
    using wm_reachable_inv [OF rb] b(2) by (auto simp: sys_inv_def washing_def)
  then have "wm_reachable (b, True)" using wm_reachable.step [OF rb wm_step.tick_due] by blast
  then have "wm_reachable (c, True)" using wm_step.gui_run [OF c(1)] by (rule wm_reachable.step)
  then have "wm_reachable (d, False)" using wm_step.tick_run [OF d(1)] by (rule wm_reachable.step)
  with d(2) show ?thesis by blast
qed

text \<open>C13. Pausing a running wash and switching it on again goes on with the same remaining time;
  nothing of the wash is lost or repeated.\<close>

theorem pause_and_resume:
  assumes "washing n s" "work_state (wm_ib s) = WS_WORKING" "mem_ok s" "0 < n" "n \<le> 16000"
  shows "\<exists>t u. wm_workswitch_changed_by_ui 0 s = Inr t \<and> work_state (wm_ib t) = WS_PAUSE \<and>
     wm_timers t = [] \<and> wm_workswitch_changed_by_ui 1 t = Inr u \<and> washing n u \<and>
     work_state (wm_ib u) = WS_WORKING"
proof -
  obtain t where t: "wm_workswitch_changed_by_ui 0 s = Inr t" "wm_timers t = []"
     "work_state (wm_ib t) = WS_PAUSE" "left_time (wm_ib t) = of_nat n"
     "\<not> wm_mutex_taken t" "report_pro_current t \<le> 7" "mem_ok t"
    using pause_washing [OF assms(1,2)] assms(3) by blast
  with resume_washing [OF t(2-7) assms(4,5)] show ?thesis by blast
qed

definition washing_example :: wm_state where
  "washing_example = (wm_init wm_static)\<lparr>wm_ib := wm_ib_static\<lparr>work_state := WS_WORKING, left_time := 200\<rparr>,
     wm_timers := [\<lparr>time_set = 300, time_left = 200, cb_function = FinishTimeout,
       pcb_function = FinishPeriodic, timer_event_name = ''finish_timer''\<rparr>]\<rparr>"

theorem pause_and_resume_witness:
  "\<exists>t u. wm_workswitch_changed_by_ui 0 washing_example = Inr t \<and>
     wm_workswitch_changed_by_ui 1 t = Inr u \<and> washing 200 u"
proof -
  have "washing 200 washing_example"
    by (simp add: washing_def washing_example_def wm_init_ready)
  then show ?thesis
    using pause_and_resume [of 200 washing_example] by (auto simp: washing_example_def wm_init_ready)
qed

text \<open>C14. The addition service answers every request with two numbers by the complete JSON text of
  their 32-bit sum: the response buffer never cuts it off, and reading the number back gives the
  sum.\<close>

theorem service_response_complete:
  assumes "cJSON_Parse req = Some (CObject kvs)"
    "cJSON_GetObjectItem (Some (CObject kvs)) ''NumberA'' = Some (CNumber a x)"
    "cJSON_GetObjectItem (Some (CObject kvs)) ''NumberB'' = Some (CNumber b y)"
  shows "\<exists>r. wm_service_request_event_handler cJSON_Parse True service_id req = (0, Some r) \<and>
     r = ''{'' @ [CHR 0x22] @ ''Result'' @ [CHR 0x22] @ '': '' @ fmt_d (i32 (a + b)) @ ''}'' \<and>
     c_atoi (drop 11 r) = i32 (a + b)"
proof -
  have len: "length (fmt_d (i32 (a + b))) \<le> 11"
    using i32_range [of "a + b"] by (intro length_fmt_d) auto
  then have "fst (c_snprintf 25 (response_text (i32 (a + b)))) = response_text (i32 (a + b))"
    by (simp add: c_snprintf_def response_text_def)
  then have r: "wm_service_request_event_handler cJSON_Parse True service_id req =
      (0, Some (response_text (i32 (a + b))))"
    using assms by (simp add: wm_service_request_event_handler_def)
  have "c_atoi (drop 11 (response_text (i32 (a + b)))) = i32 (a + b)"
    using c_atoi_fmt_d_suffix [of "''}''" "i32 (a + b)"] by (simp add: response_text_def is_digit_def)
  then show ?thesis unfolding r by (simp add: response_text_def)
qed

theorem service_response_complete_witness:
  "\<exists>r. wm_service_request_event_handler
     (\<lambda>t. Some (CObject [(''NumberA'', CNumber 40 40), (''NumberB'', CNumber 2 2)])) True service_id ''x'' = (0, Some r) \<and>
     c_atoi (drop 11 r) = 42"
proof -
  have "i32 42 = 42" by (simp add: i32_id)
  then show ?thesis
    using service_response_complete
      [of "\<lambda>t. Some (CObject [(''NumberA'', CNumber 40 40), (''NumberB'', CNumber 2 2)])" "''x''"
          "[(''NumberA'', CNumber 40 40), (''NumberB'', CNumber 2 2)]" 40 40 2 2]
    by (auto simp: cJSON_GetObjectItem_def to_lower_def)
qed

text \<open>C15. Posting any single property writes its JSON text within the allocated buffer of 128
  bytes, whatever the values in the information block.\<close>

theorem single_post_in_bounds:
  assumes "p \<noteq> ALL_PRO" "cloud_connected (g_wm_ctx s)" "mem_ok s"
  shows "wm_property_post p s = Inr (emit [LinkkitReport
     (''{'' @ [CHR 0x22] @ wm_properties p @ [CHR 0x22] @ '': '' @ take 63 (property_value (wm_ib s) p @ ''}''))] s)"
  using wm_property_post_one [OF assms(1), of s] assms
  by (simp only: post_effects_def prop_payload_def build_one [OF assms(1)] simp_thms if_True)

theorem single_post_in_bounds_witness:
  "\<exists>t. wm_property_post WORK_SW_PRO (wm_connected_event_handler (wm_init wm_static)) = Inr t"
  using single_post_in_bounds [of WORK_SW_PRO "wm_connected_event_handler (wm_init wm_static)"]
  by (auto simp: wm_connected_event_handler_def wm_init_ready simp del: wm_property_post_simps)

text \<open>The buffer of the local timer is not cleared between the minute and the hour: after a
  minute of two digits, an hour of one digit is read with the second digit of the minute behind
  it, so ten times the hour too late.\<close>

theorem local_timer_hour_keeps_minute_digit:
  assumes "a < 10" "b < 10" "c < 10"
  shows "extract_time ([digit_char a, digit_char b] @ '' '' @ [digit_char c] @ '' '' @ rest) =
     Inr (60 * (10 * int a + int b) + 3600 * (10 * int c + int b))"
proof -
  have n: "digit_char d \<noteq> CHR '' ''" "digit_char d \<noteq> CHR ''*''" "digit_char d \<noteq> CHR 0x00" for d
    by (rule digit_char_neq; simp add: is_digit_def)+
  have at: "c_atoi [digit_char d, digit_char e] = 10 * int (d mod 10) + int (e mod 10)" for d e
  proof -
    have "c_atoi [digit_char d, digit_char e] = digits_val 0 [digit_char d, digit_char e]"
      by (rule c_atoi_digits) auto
    then show ?thesis by simp
  qed
  have c: "c_str (digit_char d # digit_char e # replicate 6 (CHR 0x00)) = [digit_char d, digit_char e]" for d e
    using n by (simp add: c_str_def numeral_eq_Suc)
  have f1: "copy_field (replicate 8 (CHR 0x00)) 0 (digit_char a # digit_char b # CHR '' '' # xs) =
      Inr (digit_char a # digit_char b # replicate 6 (CHR 0x00), CHR '' '' # xs)" for xs
    using n by (simp add: numeral_eq_Suc)
  have f2: "copy_field (digit_char a # digit_char b # replicate 6 (CHR 0x00)) 0 (digit_char c # CHR '' '' # xs) =
      Inr (digit_char c # digit_char b # replicate 6 (CHR 0x00), CHR '' '' # xs)" for xs
    using n by simp
  have "extract_time ([digit_char a, digit_char b] @ '' '' @ [digit_char c] @ '' '' @ rest) =
     Inr (i32 (i32 ((10 * int a + int b) * 60) + i32 (i32 ((10 * int c + int b) * 60) * 60)))"
    using assms n by (simp only: extract_time_def Let_def append.simps list.sel f1 f2 res_bind_simps
        prod.case c at mod_less if_False list.simps)
  also have "\<dots> = Inr (60 * (10 * int a + int b) + 3600 * (10 * int c + int b))"
    using assms by (simp add: i32_id)
  finally show ?thesis .
qed

theorem local_timer_hour_keeps_minute_digit_witness:
  "extract_time ''30 8 * * *'' = Inr (30 * 60 + 80 * 3600)"
proof -
  have "digit_char 3 = CHR ''3''" "digit_char 0 = CHR ''0''" "digit_char 8 = CHR ''8''" by code_simp+
  then show ?thesis using local_timer_hour_keeps_minute_digit [of 3 0 8 "''* * *''"] by simp
qed

subsection \<open>Deviations\<close>

lemma length_build_all:
  "ALL_PRO \<notin> set ps \<Longrightarrow> sum_list (map (\<lambda>p. length (wm_properties p)) ps) \<le> length (build_all ib ps)"
proof (induction ps)
  case (Cons p ps)
  have "length (build_all ib (p # ps)) = length (build_all ib [p]) + length (build_all ib ps)"
    by (auto split: option.splits)
  moreover have "length (wm_properties p) \<le> length (build_all ib [p])"
    using Cons.prems by (subst build_one) auto
  ultimately show ?case using Cons by simp
qed simp

text \<open>Posting all properties at once needs more than the 128 bytes allocated for the text.\<close>

lemma all_pro_overflows:
  assumes "cloud_connected (g_wm_ctx s)" "mem_ok s"
  shows "wm_property_post ALL_PRO s = Inl BadAccess"
proof -
  have "128 \<le> sum_list (map (\<lambda>p. length (wm_properties p)) wm_props)"
    by (simp add: wm_props_def)
  also have "\<dots> \<le> length (build_all (wm_ib s) wm_props)"
    by (rule length_build_all) (simp add: wm_props_def)
  finally show ?thesis using assms by (simp add: wm_property_post_def Let_def del: build_all.simps)
qed

text \<open>The local timer stores the requested washing mode in the work state; the washing mode stays,
  and no finish timer is started for a machine that then counts as working.\<close>

lemma local_timer_sets_work_state:
  "\<exists>t. wm_localtimer_timeout_cb a s = Inr t \<and> work_state (wm_ib t) = state_of_int (lt_wm a) \<and>
     washing_mode (wm_ib t) = washing_mode (wm_ib s) \<and> wm_timers t = wm_timers s"
  by (simp add: wm_localtimer_timeout_cb_def)

text \<open>Switching drying off when it is off takes nine minutes off the remaining time all the same,
  below zero for the quick programme.\<close>

lemma dry_off_twice:
  "left_time ib = 360 \<Longrightarrow> work_state ib \<noteq> WS_WORKING \<Longrightarrow> \<not> dry_switch ib \<Longrightarrow> wm_ib s = ib \<Longrightarrow>
   left_time (wm_ib (snd (wm_dry_switch_set_handle False s))) = - 180"
proof -
  assume a: "left_time ib = 360" "work_state ib \<noteq> WS_WORKING" "\<not> dry_switch ib" "wm_ib s = ib"
  have m: "f64 (- 180) = - 180" "f32 (- 180) = - 180"
    using f64_of_int [of "- 180"] f32_of_int [of "- 180"] by simp_all
  have "wm_left_time_valid_check (ib\<lparr>dry_switch := False, left_time := - 180\<rparr>) =
      ib\<lparr>dry_switch := False, left_time := - 180\<rparr>"
    by (rule valid_check_seconds [of _ "- 180"]) simp_all
  with a show ?thesis by (simp add: wm_dry_switch_set_handle_def Let_def m)
qed

end
