(* ===== verification/ByteBuf.thy ===== *)
theory ByteBuf
  imports Interfaces "HOL-Library.Monad_Syntax"
begin

unbundle bit_operations_syntax

text \<open>
  Reading and writing byte buffers through a moving pointer, as the packet code of the protocol
  stacks does. A pointer is a position in its buffer; an access outside the buffer is
  \<open>None\<close>. Plain \<open>char\<close> is unsigned, as on the compiler the firmware is built with.
\<close>

type_synonym wbuf = "bytes \<times> nat"

subsection \<open>Writing\<close>

definition wr :: "bytes \<Rightarrow> wbuf \<Rightarrow> wbuf option" where
  "wr bs w =
     (let (buf, p) = w in
      if p + length bs \<le> length buf
      then Some (take p buf @ bs @ drop (p + length bs) buf, p + length bs) else None)"

text \<open>Two writes are one write of both parts: serialisers become appends.\<close>

lemma wr_wr [simp]: "Option.bind (wr as w) (wr bs) = wr (as @ bs) w"
proof -
  obtain buf p where w: "w = (buf, p)" by (cases w)
  show ?thesis
  proof (cases "p + length as + length bs \<le> length buf")
    case True
    then have "drop (length bs + (p + length as)) buf = drop (p + (length as + length bs)) buf"
      by (simp add: ac_simps)
    moreover have "min (length buf) p = p" "min p (length buf) = p" using True by simp_all
    ultimately show ?thesis using True by (simp add: w wr_def add.assoc)
  next
    case False
    then show ?thesis by (cases "p + length as \<le> length buf") (simp_all add: w wr_def)
  qed
qed

lemma wr_bind [simp]:
  "Option.bind (wr as w) (\<lambda>w'. Option.bind (wr bs w') f) = Option.bind (wr (as @ bs) w) f"
proof -
  have "Option.bind (wr as w) (\<lambda>w'. Option.bind (wr bs w') f) = Option.bind (Option.bind (wr as w) (wr bs)) f"
    by (cases "wr as w") simp_all
  then show ?thesis by simp
qed

lemma wr_start: "length bs \<le> length buf \<Longrightarrow> wr bs (buf, 0) = Some (bs @ drop (length bs) buf, length bs)"
  by (simp add: wr_def)

lemma wr_nil [simp]: "wr [] (buf, 0) = Some (buf, 0)"
  by (simp add: wr_def)

text \<open>The effect of a write that has room.\<close>

definition put :: "bytes \<Rightarrow> wbuf \<Rightarrow> wbuf" where
  "put bs w = (take (snd w) (fst w) @ bs @ drop (snd w + length bs) (fst w), snd w + length bs)"

definition has_room :: "nat \<Rightarrow> wbuf \<Rightarrow> bool" where
  "has_room n w \<longleftrightarrow> snd w + n \<le> length (fst w)"

lemma wr_put: "has_room (length bs) w \<Longrightarrow> wr bs w = Some (put bs w)"
  by (cases w) (simp add: wr_def put_def has_room_def)

lemma snd_put [simp]: "snd (put bs w) = snd w + length bs"
  by (simp add: put_def)

lemma has_room_put: "has_room (length bs + n) w \<Longrightarrow> has_room n (put bs w)"
  by (simp add: has_room_def put_def)

lemma has_room_less: "has_room n w \<Longrightarrow> m \<le> n \<Longrightarrow> has_room m w"
  by (simp add: has_room_def)

lemma put_put: "has_room (length bs + length cs) w \<Longrightarrow> put cs (put bs w) = put (bs @ cs) w"
proof -
  assume r: "has_room (length bs + length cs) w"
  then have m: "min (length (fst w)) (snd w) = snd w" by (simp add: has_room_def)
  have d: "drop (length cs) (drop (snd w + length bs) (fst w)) = drop (snd w + length (bs @ cs)) (fst w)"
    by (simp add: ac_simps)
  show ?thesis using r m d by (simp add: put_def has_room_def add.assoc del: drop_drop)
qed

lemma put_nil: "has_room 0 w \<Longrightarrow> put [] w = w"
  by (cases w) (simp add: put_def has_room_def)

lemma put_start: "put bs (buf, 0) = (bs @ drop (length bs) buf, length bs)"
  by (simp add: put_def)

subsection \<open>Reading\<close>

definition rd :: "bytes \<Rightarrow> nat \<Rightarrow> u8 option" where
  "rd buf p = (if p < length buf then Some (buf ! p) else None)"

definition bslice :: "nat \<Rightarrow> nat \<Rightarrow> 'a list \<Rightarrow> 'a list" where
  "bslice p n xs = take n (drop p xs)"

lemma rd_append [simp]: "rd (xs @ y # ys) (length xs) = Some y"
  by (simp add: rd_def)

lemma rd_append_plus [simp]: "rd (xs @ ys) (length xs + n) = rd ys n"
  by (simp add: rd_def)

lemma rd_Cons_0 [simp]: "rd (y # ys) 0 = Some y"
  by (simp add: rd_def)

lemma rd_Cons_Suc [simp]: "rd (y # ys) (Suc n) = rd ys n"
  by (simp add: rd_def)

lemma rd_append_length: "rd (xs @ ys) (length xs) = rd ys 0"
  using rd_append_plus [of xs ys 0] by simp

lemma bslice_append [simp]: "bslice (length xs) (length ys) (xs @ ys @ zs) = ys"
  by (simp add: bslice_def)

lemma bslice_middle: "p = length xs \<Longrightarrow> n = length ys \<Longrightarrow> bslice p n (xs @ ys @ zs) = ys"
  by simp

lemma rd_bslice: "p + n \<le> length buf \<Longrightarrow> k < n \<Longrightarrow> rd (bslice p n buf) k = rd buf (p + k)"
  by (simp add: rd_def bslice_def)

subsection \<open>Sixteen bits in two bytes\<close>

definition be16 :: "int \<Rightarrow> bytes" where
  "be16 n = [word_of_int (n sdiv 256), word_of_int (n smod 256)]"

lemma length_be16 [simp]: "length (be16 n) = 2"
  by (simp add: be16_def)

lemma be16_value:
  assumes "0 \<le> n" "n < 65536"
  shows "256 * uint (word_of_int (n sdiv 256) :: u8) + uint (word_of_int (n smod 256) :: u8) = n"
  using assms by (simp add: sdiv_pos smod_pos uint_word_of_int take_bit_eq_mod)

subsection \<open>Thirty-two bits in bytes\<close>

lemma byte_of: "ucast (ucast (drop_bit k (d AND push_bit k (mask 8))) :: u8) = take_bit 8 (drop_bit k (d :: u32))"
  by (rule bit_word_eqI) (auto simp: bit_simps dest: bit_imp_le_length)

lemma byte_of0: "ucast (ucast (d AND mask 8) :: u8) = take_bit 8 (d :: u32)"
  by (rule bit_word_eqI) (auto simp: bit_simps)

lemma join2: "push_bit 8 (take_bit 8 (drop_bit 8 d)) OR take_bit 8 d = take_bit 16 (d :: u32)"
proof (rule bit_word_eqI)
  fix n
  show "bit (push_bit 8 (take_bit 8 (drop_bit 8 d)) OR take_bit 8 d) n = bit (take_bit 16 d) n"
  proof (cases "n < 8")
    case False
    then obtain j where "n = 8 + j" by (metis le_Suc_ex not_less)
    then show ?thesis by (auto simp: bit_simps)
  qed (auto simp: bit_simps)
qed

lemma join4: "((push_bit 24 (take_bit 8 (drop_bit 24 d)) OR push_bit 16 (take_bit 8 (drop_bit 16 d))) OR
   push_bit 8 (take_bit 8 (drop_bit 8 d))) OR take_bit 8 d = (d :: u32)"
proof (rule bit_word_eqI)
  fix n
  assume "n < LENGTH(32)"
  then have "n < 32" by simp
  then have "n < 8 \<or> (\<exists>j < 8. n = 8 + j) \<or> (\<exists>j < 8. n = 16 + j) \<or> (\<exists>j < 8. n = 24 + j)" by presburger
  then show "bit (((push_bit 24 (take_bit 8 (drop_bit 24 d)) OR push_bit 16 (take_bit 8 (drop_bit 16 d))) OR
   push_bit 8 (take_bit 8 (drop_bit 8 d))) OR take_bit 8 d) n = bit d n"
    by (elim disjE exE conjE) (auto simp: bit_simps)
qed

end
