(* ===== verification/MqttPacket.thy ===== *)
theory MqttPacket
  imports ByteBuf
begin

text \<open>
  The MQTT packet primitives (linkkit/mqtt/MQTTPacket.c and MQTTPacket.h): the remaining-length
  encoding, integers and strings, and the fixed header. A decoder's character source is a
  function on a source state; reading from a buffer is one instance.
\<close>

subsection \<open>The fixed header\<close>

datatype msgTypes =
    MQTT_CPT_RESERVED | CONNECT | CONNACK | PUBLISH | PUBACK | PUBREC | PUBREL | PUBCOMP
  | SUBSCRIBE | SUBACK | UNSUBSCRIBE | UNSUBACK | PINGREQ | PINGRESP | DISCONNECT

fun cpt :: "msgTypes \<Rightarrow> u8" where
  "cpt MQTT_CPT_RESERVED = 0" | "cpt CONNECT = 1" | "cpt CONNACK = 2" | "cpt PUBLISH = 3"
| "cpt PUBACK = 4" | "cpt PUBREC = 5" | "cpt PUBREL = 6" | "cpt PUBCOMP = 7"
| "cpt SUBSCRIBE = 8" | "cpt SUBACK = 9" | "cpt UNSUBSCRIBE = 10" | "cpt UNSUBACK = 11"
| "cpt PINGREQ = 12" | "cpt PINGRESP = 13" | "cpt DISCONNECT = 14"

definition MQTT_HEADER_GET_TYPE :: "u8 \<Rightarrow> u8" where
  "MQTT_HEADER_GET_TYPE h = drop_bit 4 (h AND 0xF0)"

definition MQTT_HEADER_GET_DUP :: "u8 \<Rightarrow> u8" where
  "MQTT_HEADER_GET_DUP h = drop_bit 3 (h AND 0x08)"

definition MQTT_HEADER_GET_QOS :: "u8 \<Rightarrow> u8" where
  "MQTT_HEADER_GET_QOS h = drop_bit 1 (h AND 0x06)"

definition MQTT_HEADER_GET_RETAIN :: "u8 \<Rightarrow> u8" where
  "MQTT_HEADER_GET_RETAIN h = h AND 0x01"

definition MQTT_HEADER_SET_TYPE :: "u8 \<Rightarrow> u8 \<Rightarrow> u8" where
  "MQTT_HEADER_SET_TYPE h t = h OR (push_bit 4 t AND 0xF0)"

definition MQTT_HEADER_SET_DUP :: "u8 \<Rightarrow> u8 \<Rightarrow> u8" where
  "MQTT_HEADER_SET_DUP h d = h OR (push_bit 3 d AND 0x08)"

definition MQTT_HEADER_SET_QOS :: "u8 \<Rightarrow> u8 \<Rightarrow> u8" where
  "MQTT_HEADER_SET_QOS h q = h OR (push_bit 1 q AND 0x06)"

definition MQTT_HEADER_SET_RETAIN :: "u8 \<Rightarrow> u8 \<Rightarrow> u8" where
  "MQTT_HEADER_SET_RETAIN h r = h OR (r AND 0x01)"

lemmas mqtt_header_defs [pkt_defs] =
  MQTT_HEADER_GET_TYPE_def MQTT_HEADER_GET_DUP_def MQTT_HEADER_GET_QOS_def
  MQTT_HEADER_GET_RETAIN_def MQTT_HEADER_SET_TYPE_def MQTT_HEADER_SET_DUP_def
  MQTT_HEADER_SET_QOS_def MQTT_HEADER_SET_RETAIN_def

text \<open>The header byte of a packet with the four fields.\<close>

definition mqtt_header :: "u8 \<Rightarrow> u8 \<Rightarrow> u8 \<Rightarrow> u8 \<Rightarrow> u8" where
  "mqtt_header t d q r =
     MQTT_HEADER_SET_RETAIN (MQTT_HEADER_SET_QOS (MQTT_HEADER_SET_DUP (MQTT_HEADER_SET_TYPE 0 t) d) q) r"

lemma set_retain_0 [simp]: "MQTT_HEADER_SET_RETAIN h 0 = h" "MQTT_HEADER_SET_QOS h 0 = h" "MQTT_HEADER_SET_DUP h 0 = h"
  by (simp_all add: pkt_defs)

text \<open>Each field reads back as its low bits.\<close>

lemma shift_mask: "m + k \<le> 8 \<Longrightarrow> drop_bit k (push_bit k (t :: u8)) AND mask m = t AND mask m"
  by (rule bit_word_eqI) (auto simp: bit_simps)
lemma mqtt_header_fields: "MQTT_HEADER_GET_TYPE (mqtt_header t d q r) = t AND 15" "MQTT_HEADER_GET_DUP (mqtt_header t d q r) = d AND 1"
   "MQTT_HEADER_GET_QOS (mqtt_header t d q r) = q AND 3"  "MQTT_HEADER_GET_RETAIN (mqtt_header t d q r) = r AND 1"
  using shift_mask [of 4 4 t] shift_mask [of 1 3 d] shift_mask [of 2 1 q]
  by (simp_all add: mqtt_header_def mqtt_header_defs bit.conj_disj_distrib2 and.assoc mask_eq_decr_exp)

subsection \<open>The remaining length\<close>

function MQTTPacket_encode :: "int \<Rightarrow> bytes" where
  "MQTTPacket_encode n =
     (let d = word_of_int (n smod 128); n' = n sdiv 128
      in if 0 < n' then (d OR 0x80) # MQTTPacket_encode n' else [d])"
  by pat_completeness auto
termination
  by (relation "measure nat") (auto simp: signed_divide_int_def sgn_if split: if_splits)

declare MQTTPacket_encode.simps [simp del]

text \<open>The loop of the decoder; \<open>k\<close> of the four allowed bytes may still be read.\<close>

fun decode_loop ::
    "('s \<Rightarrow> (int \<times> u8 \<times> 's) option) \<Rightarrow> nat \<Rightarrow> nat \<Rightarrow> int \<Rightarrow> int \<Rightarrow> 's \<Rightarrow> (nat \<times> int \<times> 's) option" where
  "decode_loop getcharfn 0 len value multiplier s = Some (Suc len, value, s)"
| "decode_loop getcharfn (Suc k) len value multiplier s =
     do { (rc, c, s') \<leftarrow> getcharfn s;
          if rc \<noteq> 1 then Some (Suc len, value, s')
          else let value' = value + uint (c AND 127) * multiplier in
               if c AND 128 \<noteq> 0 then decode_loop getcharfn k (Suc len) value' (multiplier * 128) s'
               else Some (Suc len, value', s') }"

definition MQTTPacket_decode :: "('s \<Rightarrow> (int \<times> u8 \<times> 's) option) \<Rightarrow> 's \<Rightarrow> (nat \<times> int \<times> 's) option" where
  "MQTTPacket_decode getcharfn s = decode_loop getcharfn 4 0 0 1 s"

definition bufchar :: "bytes \<Rightarrow> nat \<Rightarrow> (int \<times> u8 \<times> nat) option" where
  "bufchar buf p = do { c \<leftarrow> rd buf p; Some (1, c, Suc p) }"

text \<open>The number of bytes counted and the value, for the bytes from position \<open>p\<close>.\<close>

definition MQTTPacket_decodeBuf :: "bytes \<Rightarrow> nat \<Rightarrow> (nat \<times> int) option" where
  "MQTTPacket_decodeBuf buf p =
     do { (len, value, q) \<leftarrow> MQTTPacket_decode (bufchar buf) p; Some (len, value) }"

definition MQTTPacket_len :: "int \<Rightarrow> int" where
  "MQTTPacket_len rem_len =
     (let r = rem_len + 1 in
      if r < 128 then r + 1 else if r < 16384 then r + 2
      else if r < 2097151 then r + 3 else r + 4)"

subsection \<open>Integers and strings\<close>

definition readInt :: "bytes \<Rightarrow> nat \<Rightarrow> int option" where
  "readInt buf p = do { a \<leftarrow> rd buf p; b \<leftarrow> rd buf (Suc p); Some (256 * uint a + uint b) }"

definition readChar :: "bytes \<Rightarrow> nat \<Rightarrow> u8 option" where
  "readChar buf p = rd buf p"

definition writeChar :: "u8 \<Rightarrow> wbuf \<Rightarrow> wbuf option" where
  "writeChar c = wr [c]"

definition writeInt :: "int \<Rightarrow> wbuf \<Rightarrow> wbuf option" where
  "writeInt n w = do { w \<leftarrow> writeChar (word_of_int (n sdiv 256)) w; writeChar (word_of_int (n smod 256)) w }"

text \<open>A C string is the list of its characters before the final 0.\<close>

definition writeCString :: "bytes \<Rightarrow> wbuf \<Rightarrow> wbuf option" where
  "writeCString str w = do { w \<leftarrow> writeInt (int (length str)) w; wr str w }"

record MQTTString =
  cstring :: "bytes option"
  lenstring_len :: int
  lenstring_data :: "bytes option"

definition writeMQTTString :: "MQTTString \<Rightarrow> wbuf \<Rightarrow> wbuf option" where
  "writeMQTTString s w =
     (if 0 < lenstring_len s then
        do { w \<leftarrow> writeInt (lenstring_len s) w;
             d \<leftarrow> lenstring_data s;
             if int (length d) < lenstring_len s then None else wr (take (nat (lenstring_len s)) d) w }
      else case cstring s of Some str \<Rightarrow> writeCString str w | None \<Rightarrow> writeInt 0 w)"

definition MQTTstrlen :: "MQTTString \<Rightarrow> int" where
  "MQTTstrlen s = (case cstring s of Some str \<Rightarrow> int (length str) | None \<Rightarrow> lenstring_len s)"

text \<open>
  \<open>readMQTTLenString\<close>: the success flag, the length and start of the string, and the moved
  pointer. \<open>enddata\<close> is where the packet says it ends, inside the buffer or not.
\<close>

definition readMQTTLenString :: "bytes \<Rightarrow> nat \<Rightarrow> int \<Rightarrow> (bool \<times> int \<times> nat \<times> nat) option" where
  "readMQTTLenString buf p enddata =
     (if 1 < enddata - int p then
        do { len \<leftarrow> readInt buf p;
             if int (p + 2) + len \<le> enddata then Some (True, len, p + 2, p + 2 + nat len)
             else Some (False, len, 0, p + 2) }
      else Some (False, 0, 0, p))"

text \<open>Comparing a received string with a C string.\<close>

definition MQTTPacket_equals :: "MQTTString \<Rightarrow> bytes \<Rightarrow> bool option" where
  "MQTTPacket_equals a b =
     (case cstring a of
        Some str \<Rightarrow> Some (length str = length b \<and> str = b)
      | None \<Rightarrow>
          if lenstring_len a \<noteq> int (length b) then Some False
          else do { d \<leftarrow> lenstring_data a;
                    if length d < length b then None else Some (take (length b) d = b) })"

subsection \<open>Facts about the remaining length\<close>

definition enc_len :: "int \<Rightarrow> nat" where
  "enc_len n = (if n < 128 then 1 else if n < 16384 then 2 else if n < 2097152 then 3 else 4)"

lemma encode_step: "0 \<le> n \<Longrightarrow> MQTTPacket_encode n =
    (if n < 128 then [word_of_int n] else (word_of_int (n mod 128) OR 0x80) # MQTTPacket_encode (n div 128))"
  by (subst MQTTPacket_encode.simps) (auto simp: sdiv_pos smod_pos Let_def)

lemma length_encode:
  assumes "0 \<le> n" "n < 268435456" shows "length (MQTTPacket_encode n) = enc_len n"
proof -
  have 1: "length (MQTTPacket_encode n) = 1" if "0 \<le> n" "n < 128" for n
    using that by (simp add: encode_step)
  have 2: "length (MQTTPacket_encode n) = 2" if "128 \<le> n" "n < 16384" for n
    using that 1 [of "n div 128"] by (subst encode_step) auto
  have 3: "length (MQTTPacket_encode n) = 3" if "16384 \<le> n" "n < 2097152" for n
    using that 2 [of "n div 128"] by (subst encode_step) auto
  have 4: "length (MQTTPacket_encode n) = 4" if "2097152 \<le> n" "n < 268435456" for n
    using that 3 [of "n div 128"] by (subst encode_step) auto
  show ?thesis using assms 1 2 3 4 by (auto simp: enc_len_def)
qed

text \<open>The size computed in advance is always enough.\<close>

lemma packet_len_enough:
  "0 \<le> n \<Longrightarrow> n < 268435456 \<Longrightarrow> int (1 + length (MQTTPacket_encode n)) + n \<le> MQTTPacket_len n"
  by (simp add: length_encode enc_len_def MQTTPacket_len_def Let_def)

lemma low7: "(w :: u8) < 128 \<Longrightarrow> w AND 127 = w \<and> w AND 128 = 0"
proof -
  assume "w < 128"
  then have t: "take_bit 7 w = w"
    by (simp add: word_uint_eq_iff unsigned_take_bit_eq take_bit_int_eq_self word_less_def)
  have m: "(127 :: u8) = mask 7" by (simp add: mask_eq_decr_exp)
  have "w AND 127 = w" using t by (simp add: m take_bit_eq_mask)
  moreover have "w AND 128 = (w AND 127) AND 128" using calculation by simp
  then have "w AND 128 = w AND (127 AND 128)" by (simp only: and.assoc)
  ultimately show ?thesis by simp
qed

lemma high_bit:
  assumes "(w :: u8) < 128" shows "(w OR 128) AND 127 = w" "(w OR 128) AND 128 \<noteq> 0"
  using low7 [OF assms] by (simp_all add: bit.conj_disj_distrib2)

lemma bufchar_at [simp]: "bufchar (xs @ c # ys) (length xs) = Some (1, c, Suc (length xs))"
  by (simp add: bufchar_def)

lemma decode_encode_loop:
  "0 \<le> n \<Longrightarrow> n < 128 ^ k \<Longrightarrow> 0 < k \<Longrightarrow>
   decode_loop (bufchar (xs @ MQTTPacket_encode n @ ys)) k len v m (length xs) =
     Some (len + length (MQTTPacket_encode n), v + m * n, length xs + length (MQTTPacket_encode n))"
proof (induction k arbitrary: n xs len v m)
  case (Suc k)
  show ?case
  proof (cases "n < 128")
    case True
    have "(word_of_int n :: u8) < 128" using True Suc.prems
      by (simp add: word_less_def uint_word_of_int take_bit_eq_mod)
    with True Suc.prems show ?thesis
      by (simp add: encode_step low7 uint_word_of_int take_bit_eq_mod)
  next
    case False
    let ?d = "word_of_int (n mod 128) :: u8"
    have lt: "?d < 128" by (simp add: word_less_def uint_word_of_int take_bit_eq_mod)
    have ud: "uint ?d = n mod 128" by (simp add: uint_word_of_int take_bit_eq_mod)
    have k: "0 < k" using False Suc.prems by (cases k) auto
    have IH: "decode_loop (bufchar ((xs @ [?d OR 128]) @ MQTTPacket_encode (n div 128) @ ys)) k (Suc len)
        (v + (n mod 128) * m) (m * 128) (length (xs @ [?d OR 128])) =
      Some (Suc len + length (MQTTPacket_encode (n div 128)), v + (n mod 128) * m + (m * 128) * (n div 128),
        length (xs @ [?d OR 128]) + length (MQTTPacket_encode (n div 128)))"
      by (rule Suc.IH) (use Suc.prems k in auto)
    have "v + (n mod 128) * m + (m * 128) * (n div 128) = v + m * n"
      using mult_div_mod_eq [of 128 n] by (simp add: algebra_simps flip: distrib_left)
    then show ?thesis
      using False Suc.prems IH high_bit [OF lt]
      by (simp add: encode_step [of n] ud add.assoc)
  qed
qed simp

lemma decodeBuf_encode:
  assumes "0 \<le> n" "n < 268435456"
  shows "MQTTPacket_decodeBuf (xs @ MQTTPacket_encode n @ ys) (length xs) =
    Some (length (MQTTPacket_encode n), n)"
  using decode_encode_loop [of n 4 xs ys 0 0 1] assms
  by (simp add: MQTTPacket_decodeBuf_def MQTTPacket_decode_def)

end
