(* ===== verification/MqttSerialize.thy ===== *)
theory MqttSerialize
  imports MqttPacket
begin

text \<open>
  The MQTT serialisers (linkkit/mqtt/MQTTConnectClient.c, MQTTSerializePublish.c,
  MQTTSubscribeClient.c, MQTTUnsubscribeClient.c). A serialiser gets the buffer and the length
  the caller states for it and returns its return code and the buffer; a write outside the
  buffer is \<open>None\<close>.
\<close>

definition MQTTPACKET_BUFFER_TOO_SHORT :: int where
  "MQTTPACKET_BUFFER_TOO_SHORT = -2"

text \<open>The end of every serialiser: the return code is the distance the pointer has moved.\<close>

definition finish :: "wbuf \<Rightarrow> (int \<times> bytes) option" where
  "finish w = Some (int (snd w), fst w)"

subsection \<open>CONNECT\<close>

record MQTTPacket_willOptions =
  will_topicName :: MQTTString
  will_message :: MQTTString
  will_retained :: u8
  will_qos :: u8

record MQTTPacket_connectData =
  MQTTVersion :: u8
  clientID :: MQTTString
  keepAliveInterval :: u16
  cleansession :: u8
  willFlag :: u8
  will :: MQTTPacket_willOptions
  username :: MQTTString
  password :: MQTTString

text \<open>The test \<open>s.cstring || s.lenstring.data\<close>.\<close>

definition str_given :: "MQTTString \<Rightarrow> bool" where
  "str_given s \<longleftrightarrow> cstring s \<noteq> None \<or> lenstring_data s \<noteq> None"

definition MQTTSerialize_connectLength :: "MQTTPacket_connectData \<Rightarrow> int" where
  "MQTTSerialize_connectLength d =
     (let len = (if MQTTVersion d = 3 then 12 else if MQTTVersion d = 4 then 10 else 0);
          len = len + (MQTTstrlen (clientID d) + 2);
          len = (if willFlag d \<noteq> 0
                 then len + (MQTTstrlen (will_topicName (will d)) + 2 + MQTTstrlen (will_message (will d)) + 2) else len);
          len = (if str_given (username d) then len + (MQTTstrlen (username d) + 2) else len)
      in if str_given (password d) then len + (MQTTstrlen (password d) + 2) else len)"

definition connect_flags :: "MQTTPacket_connectData \<Rightarrow> u8" where
  "connect_flags d =
     (let f = (if cleansession d \<noteq> 0 then 0x02 else 0);
          f = f OR (if willFlag d \<noteq> 0 then 0x04 else 0);
          f = (if f AND 0x04 \<noteq> 0
               then (f OR push_bit 3 (will_qos (will d) AND 0x03)) OR (if will_retained (will d) \<noteq> 0 then 0x20 else 0)
               else f);
          f = (if str_given (username d) then f OR 0x80 else f)
      in if str_given (password d) then f OR 0x40 else f)"

definition MQTTSerialize_connect :: "bytes \<Rightarrow> int \<Rightarrow> MQTTPacket_connectData \<Rightarrow> (int \<times> bytes) option" where
  "MQTTSerialize_connect buf buflen d =
     (let len = MQTTSerialize_connectLength d in
      if buflen < MQTTPacket_len len then Some (MQTTPACKET_BUFFER_TOO_SHORT, buf)
      else
        do { w \<leftarrow> writeChar (MQTT_HEADER_SET_TYPE 0 (cpt CONNECT)) (buf, 0);
             w \<leftarrow> wr (MQTTPacket_encode len) w;
             w \<leftarrow> (if MQTTVersion d = 4
                   then do { w \<leftarrow> writeCString [0x4D, 0x51, 0x54, 0x54] w; writeChar 4 w }
                   else do { w \<leftarrow> writeCString [0x4D, 0x51, 0x49, 0x73, 0x64, 0x70] w; writeChar 3 w });
             w \<leftarrow> writeChar (connect_flags d) w;
             w \<leftarrow> writeInt (uint (keepAliveInterval d)) w;
             w \<leftarrow> writeMQTTString (clientID d) w;
             w \<leftarrow> (if willFlag d \<noteq> 0
                   then do { w \<leftarrow> writeMQTTString (will_topicName (will d)) w; writeMQTTString (will_message (will d)) w }
                   else Some w);
             w \<leftarrow> (if connect_flags d AND 0x80 \<noteq> 0 then writeMQTTString (username d) w else Some w);
             w \<leftarrow> (if connect_flags d AND 0x40 \<noteq> 0 then writeMQTTString (password d) w else Some w);
             finish w })"

subsection \<open>Packets without a body\<close>

definition MQTTSerialize_zero :: "bytes \<Rightarrow> int \<Rightarrow> u8 \<Rightarrow> (int \<times> bytes) option" where
  "MQTTSerialize_zero buf buflen packettype =
     (if buflen < 2 then Some (MQTTPACKET_BUFFER_TOO_SHORT, buf)
      else do { w \<leftarrow> writeChar (MQTT_HEADER_SET_TYPE 0 packettype) (buf, 0);
                w \<leftarrow> wr (MQTTPacket_encode 0) w;
                finish w })"

definition MQTTSerialize_disconnect :: "bytes \<Rightarrow> int \<Rightarrow> (int \<times> bytes) option" where
  "MQTTSerialize_disconnect buf buflen = MQTTSerialize_zero buf buflen (cpt DISCONNECT)"

definition MQTTSerialize_pingreq :: "bytes \<Rightarrow> int \<Rightarrow> (int \<times> bytes) option" where
  "MQTTSerialize_pingreq buf buflen = MQTTSerialize_zero buf buflen (cpt PINGREQ)"

subsection \<open>PUBLISH and acknowledgements\<close>

definition MQTTSerialize_publishLength :: "int \<Rightarrow> MQTTString \<Rightarrow> int \<Rightarrow> int" where
  "MQTTSerialize_publishLength qos topicName payloadlen =
     (let len = 2 + MQTTstrlen topicName + payloadlen in if 0 < qos then len + 2 else len)"

text \<open>The payload is the array the caller passes together with its stated length.\<close>

definition MQTTSerialize_publish ::
    "bytes \<Rightarrow> int \<Rightarrow> u8 \<Rightarrow> int \<Rightarrow> u8 \<Rightarrow> u16 \<Rightarrow> MQTTString \<Rightarrow> bytes \<Rightarrow> int \<Rightarrow> (int \<times> bytes) option" where
  "MQTTSerialize_publish buf buflen dup qos retained packetid topicName payload payloadlen =
     (let rem_len = MQTTSerialize_publishLength qos topicName payloadlen in
      if buflen < MQTTPacket_len rem_len then Some (MQTTPACKET_BUFFER_TOO_SHORT, buf)
      else
        do { w \<leftarrow> writeChar (mqtt_header (cpt PUBLISH) dup (word_of_int qos) retained) (buf, 0);
             w \<leftarrow> wr (MQTTPacket_encode rem_len) w;
             w \<leftarrow> writeMQTTString topicName w;
             w \<leftarrow> (if 0 < qos then writeInt (uint packetid) w else Some w);
             w \<leftarrow> (if int (length payload) < payloadlen then None else wr (take (nat payloadlen) payload) w);
             finish w })"

definition MQTTSerialize_ack :: "bytes \<Rightarrow> int \<Rightarrow> u8 \<Rightarrow> u8 \<Rightarrow> u16 \<Rightarrow> (int \<times> bytes) option" where
  "MQTTSerialize_ack buf buflen packettype dup packetid =
     (if buflen < 4 then Some (MQTTPACKET_BUFFER_TOO_SHORT, buf)
      else
        do { w \<leftarrow> writeChar (mqtt_header packettype dup (if packettype = cpt PUBREL then 1 else 0) 0) (buf, 0);
             w \<leftarrow> wr (MQTTPacket_encode 2) w;
             w \<leftarrow> writeInt (uint packetid) w;
             finish w })"

subsection \<open>SUBSCRIBE and UNSUBSCRIBE\<close>

text \<open>The arrays of \<open>count\<close> filters and requested qualities of service are lists.\<close>

definition MQTTSerialize_subscribeLength :: "MQTTString list \<Rightarrow> int" where
  "MQTTSerialize_subscribeLength fs = foldl (\<lambda>len f. len + (2 + MQTTstrlen f + 1)) 2 fs"

fun write_filters :: "(MQTTString \<times> int) list \<Rightarrow> wbuf \<Rightarrow> wbuf option" where
  "write_filters [] w = Some w"
| "write_filters ((f, q) # fs) w =
     do { w \<leftarrow> writeMQTTString f w; w \<leftarrow> writeChar (word_of_int q) w; write_filters fs w }"

definition MQTTSerialize_subscribe ::
    "bytes \<Rightarrow> int \<Rightarrow> u8 \<Rightarrow> u16 \<Rightarrow> (MQTTString \<times> int) list \<Rightarrow> (int \<times> bytes) option" where
  "MQTTSerialize_subscribe buf buflen dup packetid fs =
     (let rem_len = MQTTSerialize_subscribeLength (map fst fs) in
      if buflen < MQTTPacket_len rem_len then Some (MQTTPACKET_BUFFER_TOO_SHORT, buf)
      else
        do { w \<leftarrow> writeChar (mqtt_header (cpt SUBSCRIBE) dup 1 0) (buf, 0);
             w \<leftarrow> wr (MQTTPacket_encode rem_len) w;
             w \<leftarrow> writeInt (uint packetid) w;
             w \<leftarrow> write_filters fs w;
             finish w })"

definition MQTTSerialize_unsubscribeLength :: "MQTTString list \<Rightarrow> int" where
  "MQTTSerialize_unsubscribeLength fs = foldl (\<lambda>len f. len + (2 + MQTTstrlen f)) 2 fs"

fun write_topics :: "MQTTString list \<Rightarrow> wbuf \<Rightarrow> wbuf option" where
  "write_topics [] w = Some w"
| "write_topics (f # fs) w = do { w \<leftarrow> writeMQTTString f w; write_topics fs w }"

definition MQTTSerialize_unsubscribe ::
    "bytes \<Rightarrow> int \<Rightarrow> u8 \<Rightarrow> u16 \<Rightarrow> MQTTString list \<Rightarrow> (int \<times> bytes) option" where
  "MQTTSerialize_unsubscribe buf buflen dup packetid fs =
     (let rem_len = MQTTSerialize_unsubscribeLength fs in
      if buflen < MQTTPacket_len rem_len then Some (MQTTPACKET_BUFFER_TOO_SHORT, buf)
      else
        do { w \<leftarrow> writeChar (mqtt_header (cpt UNSUBSCRIBE) dup 1 0) (buf, 0);
             w \<leftarrow> wr (MQTTPacket_encode rem_len) w;
             w \<leftarrow> writeInt (uint packetid) w;
             w \<leftarrow> write_topics fs w;
             finish w })"

subsection \<open>What the writers write\<close>

text \<open>A string value stands for a byte string in exactly one of its two ways.\<close>

definition mstr :: "bytes \<Rightarrow> MQTTString \<Rightarrow> bool" where
  "mstr bs s \<longleftrightarrow> length bs < 65536 \<and>
     (cstring s = Some bs \<and> lenstring_len s = 0 \<or>
      cstring s = None \<and> lenstring_len s = int (length bs) \<and>
        (\<exists>d. lenstring_data s = Some d \<and> length bs \<le> length d \<and> take (length bs) d = bs))"

definition lp :: "bytes \<Rightarrow> bytes" where
  "lp bs = be16 (int (length bs)) @ bs"

lemma length_lp [simp]: "length (lp bs) = 2 + length bs"
  by (simp add: lp_def)

lemma writeInt_wr [simp]: "writeInt n = wr (be16 n)"
  by (simp add: fun_eq_iff writeInt_def writeChar_def be16_def)

lemma writeCString_wr [simp]: "writeCString str = wr (lp str)"
  by (simp add: fun_eq_iff writeCString_def lp_def)

lemma bind_ignore: "Option.bind x (\<lambda>w. Option.bind (Some d) (\<lambda>d. f d w)) = Option.bind x (f d)"
  by (cases x) simp_all

lemma writeMQTTString_wr: "mstr bs s \<Longrightarrow> writeMQTTString s = wr (lp bs)"
  by (auto simp: fun_eq_iff writeMQTTString_def mstr_def lp_def be16_def)

lemma MQTTstrlen_mstr: "mstr bs s \<Longrightarrow> MQTTstrlen s = int (length bs)"
  by (auto simp: MQTTstrlen_def mstr_def)

lemma str_given_mstr: "mstr bs s \<Longrightarrow> str_given s"
  by (auto simp: str_given_def mstr_def)

lemma writeChar_wr [simp]: "writeChar c = wr [c]"
  by (simp add: writeChar_def)

lemma finish_wr:
  assumes "length bs \<le> length buf"
  shows "Option.bind (wr bs (buf, 0)) finish = Some (int (length bs), bs @ drop (length bs) buf)"
  using wr_start [OF assms] by (simp add: finish_def)

text \<open>A packet: header byte, remaining length, body.\<close>

definition mqtt_packet :: "u8 \<Rightarrow> bytes \<Rightarrow> bytes" where
  "mqtt_packet h body = h # MQTTPacket_encode (int (length body)) @ body"

lemma length_mqtt_packet:
  "length body < 268435456 \<Longrightarrow> int (length (mqtt_packet h body)) \<le> MQTTPacket_len (int (length body))"
  using packet_len_enough [of "int (length body)"] by (simp add: mqtt_packet_def)

text \<open>The common end of the proofs: enough room was checked, so the packet is in the buffer.\<close>

lemma packet_written:
  assumes "MQTTPacket_len (int (length body)) \<le> int (length buf)" "length body < 268435456"
  shows "Option.bind (wr (mqtt_packet h body) (buf, 0)) finish =
     Some (int (length (mqtt_packet h body)), mqtt_packet h body @ drop (length (mqtt_packet h body)) buf)"
  using length_mqtt_packet [of body h] assms by (intro finish_wr) simp

subsection \<open>The packets\<close>

definition publish_body :: "int \<Rightarrow> u16 \<Rightarrow> bytes \<Rightarrow> bytes \<Rightarrow> bytes" where
  "publish_body qos packetid topic payload =
     lp topic @ (if 0 < qos then be16 (uint packetid) else []) @ payload"

lemma publishLength_body:
  "mstr topic s \<Longrightarrow>
   MQTTSerialize_publishLength qos s (int (length payload)) = int (length (publish_body qos packetid topic payload))"
  by (simp add: MQTTSerialize_publishLength_def publish_body_def MQTTstrlen_mstr)

lemma publish_written:
  assumes "mstr topic s" "length (publish_body qos packetid topic payload) < 268435456"
    "MQTTPacket_len (int (length (publish_body qos packetid topic payload))) \<le> int (length buf)"
  shows "MQTTSerialize_publish buf (int (length buf)) dup qos retained packetid s payload (int (length payload)) =
    (let pkt = mqtt_packet (mqtt_header (cpt PUBLISH) dup (word_of_int qos) retained)
                 (publish_body qos packetid topic payload)
     in Some (int (length pkt), pkt @ drop (length pkt) buf))"
  using packet_written [OF assms(3,2)] assms(1,3)
  by (auto simp: MQTTSerialize_publish_def publishLength_body [OF assms(1), of _ _ packetid]
      writeMQTTString_wr mqtt_packet_def publish_body_def Let_def)

definition subscribe_body :: "u16 \<Rightarrow> (bytes \<times> int) list \<Rightarrow> bytes" where
  "subscribe_body packetid fs = be16 (uint packetid) @ concat (map (\<lambda>(f, q). lp f @ [word_of_int q]) fs)"

definition unsubscribe_body :: "u16 \<Rightarrow> bytes list \<Rightarrow> bytes" where
  "unsubscribe_body packetid fs = be16 (uint packetid) @ concat (map lp fs)"

lemma write_filters_Cons:
  "write_filters ((s, q) # fs) =
     (\<lambda>w. Option.bind (writeMQTTString s w) (\<lambda>w. Option.bind (writeChar (word_of_int q) w) (write_filters fs)))"
  "write_topics (s # ss) = (\<lambda>w. Option.bind (writeMQTTString s w) (write_topics ss))"
  by (simp_all add: fun_eq_iff)

lemma write_filters_wr:
  "list_all2 (\<lambda>(f, q) (s, r). mstr f s \<and> q = r) fs ss \<Longrightarrow>
   Option.bind (wr bs w) (write_filters ss) =
     wr (bs @ concat (map (\<lambda>(f, q). lp f @ [word_of_int q]) fs)) w"
proof (induction fs ss arbitrary: bs rule: list_all2_induct)
  case Nil
  have "write_filters [] = Some" by (simp add: fun_eq_iff)
  then show ?case by (cases "wr bs w") simp_all
next
  case (Cons x xs y ys)
  obtain f q s where xy: "x = (f, q)" "y = (s, q)" "mstr f s" using Cons(1) by (cases x; cases y) auto
  have "Option.bind (wr bs w) (write_filters (y # ys)) =
      Option.bind (wr (bs @ lp f @ [word_of_int q]) w) (write_filters ys)"
    by (simp only: xy(1,2) write_filters_Cons writeMQTTString_wr [OF xy(3)] writeChar_wr wr_bind append_assoc)
  then show ?case using Cons.IH [of "bs @ lp f @ [word_of_int q]"] by (simp add: xy del: write_filters.simps)
qed

lemma write_topics_wr:
  "list_all2 mstr fs ss \<Longrightarrow>
   Option.bind (wr bs w) (write_topics ss) = wr (bs @ concat (map lp fs)) w"
proof (induction fs ss arbitrary: bs rule: list_all2_induct)
  case Nil
  have "write_topics [] = Some" by (simp add: fun_eq_iff)
  then show ?case by (cases "wr bs w") simp_all
next
  case (Cons f fs s ss)
  then show ?case using Cons.IH [of "bs @ lp f"]
    by (simp add: writeMQTTString_wr write_filters_Cons del: write_topics.simps)
qed

lemma foldl_plus: "foldl (\<lambda>len f. len + g f) (a :: int) xs = a + sum_list (map g xs)"
  by (induction xs arbitrary: a) simp_all

lemma subscribeLength_body:
  "list_all2 (\<lambda>(f, q) (s, r). mstr f s \<and> q = r) fs ss \<Longrightarrow>
   MQTTSerialize_subscribeLength (map fst ss) = int (length (subscribe_body packetid fs))"
  unfolding MQTTSerialize_subscribeLength_def subscribe_body_def foldl_plus
  by (induction fs ss rule: list_all2_induct) (auto simp: MQTTstrlen_mstr)

lemma unsubscribeLength_body:
  "list_all2 mstr fs ss \<Longrightarrow>
   MQTTSerialize_unsubscribeLength ss = int (length (unsubscribe_body packetid fs))"
  unfolding MQTTSerialize_unsubscribeLength_def unsubscribe_body_def foldl_plus
  by (induction fs ss rule: list_all2_induct) (auto simp: MQTTstrlen_mstr)

lemma bind_assoc_finish: "Option.bind x (\<lambda>w. Option.bind (f w) finish) = Option.bind (Option.bind x f) finish"
  by (cases x) simp_all

lemma subscribe_written:
  assumes "list_all2 (\<lambda>(f, q) (s, r). mstr f s \<and> q = r) fs ss"
    "length (subscribe_body packetid fs) < 268435456"
    "MQTTPacket_len (int (length (subscribe_body packetid fs))) \<le> int (length buf)"
  shows "MQTTSerialize_subscribe buf (int (length buf)) dup packetid ss =
    (let pkt = mqtt_packet (mqtt_header (cpt SUBSCRIBE) dup 1 0) (subscribe_body packetid fs)
     in Some (int (length pkt), pkt @ drop (length pkt) buf))"
  using packet_written [OF assms(3,2)] assms(3)
  by (simp add: MQTTSerialize_subscribe_def subscribeLength_body [OF assms(1), of packetid] bind_assoc_finish
      write_filters_wr [OF assms(1)] mqtt_packet_def subscribe_body_def Let_def)

lemma unsubscribe_written:
  assumes "list_all2 mstr fs ss" "length (unsubscribe_body packetid fs) < 268435456"
    "MQTTPacket_len (int (length (unsubscribe_body packetid fs))) \<le> int (length buf)"
  shows "MQTTSerialize_unsubscribe buf (int (length buf)) dup packetid ss =
    (let pkt = mqtt_packet (mqtt_header (cpt UNSUBSCRIBE) dup 1 0) (unsubscribe_body packetid fs)
     in Some (int (length pkt), pkt @ drop (length pkt) buf))"
  using packet_written [OF assms(3,2)] assms(3)
  by (simp add: MQTTSerialize_unsubscribe_def unsubscribeLength_body [OF assms(1), of packetid] bind_assoc_finish
      write_topics_wr [OF assms(1)] mqtt_packet_def unsubscribe_body_def Let_def)

lemma qbits: "(push_bit 3 (q::u8) AND 24) AND 128 = 0" "(push_bit 3 (q::u8) AND 24) AND 64 = 0"
  by (simp_all only: and.assoc) simp_all
lemma flags_user: "connect_flags d AND 128 \<noteq> 0 \<longleftrightarrow> str_given (username d)"
  by (simp add: connect_flags_def Let_def bit.conj_disj_distrib2 qbits)
lemma flags_password: "connect_flags d AND 64 \<noteq> 0 \<longleftrightarrow> str_given (password d)"
  by (simp add: connect_flags_def Let_def bit.conj_disj_distrib2 qbits)

text \<open>An optional string of the connect options.\<close>

definition opt_str :: "bytes option \<Rightarrow> MQTTString \<Rightarrow> bool" where
  "opt_str u s = (case u of None \<Rightarrow> \<not> str_given s | Some bs \<Rightarrow> mstr bs s)"

definition opt_lp :: "bytes option \<Rightarrow> bytes" where
  "opt_lp u = (case u of None \<Rightarrow> [] | Some bs \<Rightarrow> lp bs)"

definition connect_body ::
    "MQTTPacket_connectData \<Rightarrow> bytes \<Rightarrow> (bytes \<times> bytes) option \<Rightarrow> bytes option \<Rightarrow> bytes option \<Rightarrow> bytes" where
  "connect_body d cid wl user pw =
     (if MQTTVersion d = 4 then lp [0x4D, 0x51, 0x54, 0x54] @ [4]
      else lp [0x4D, 0x51, 0x49, 0x73, 0x64, 0x70] @ [3]) @
     [connect_flags d] @ be16 (uint (keepAliveInterval d)) @ lp cid @
     (case wl of None \<Rightarrow> [] | Some (topic, msg) \<Rightarrow> lp topic @ lp msg) @ opt_lp user @ opt_lp pw"

definition connect_strings ::
    "MQTTPacket_connectData \<Rightarrow> bytes \<Rightarrow> (bytes \<times> bytes) option \<Rightarrow> bytes option \<Rightarrow> bytes option \<Rightarrow> bool" where
  "connect_strings d cid wl user pw \<longleftrightarrow>
     (MQTTVersion d = 3 \<or> MQTTVersion d = 4) \<and> mstr cid (clientID d) \<and>
     (case wl of None \<Rightarrow> willFlag d = 0
      | Some (topic, msg) \<Rightarrow> willFlag d \<noteq> 0 \<and> mstr topic (will_topicName (will d)) \<and> mstr msg (will_message (will d))) \<and>
     opt_str user (username d) \<and> opt_str pw (password d)"

lemma opt_str_given: "opt_str u s \<Longrightarrow> str_given s \<longleftrightarrow> u \<noteq> None"
  by (auto simp: opt_str_def str_given_mstr split: option.splits)

lemma opt_write:
  "opt_str u s \<Longrightarrow> (if str_given s then writeMQTTString s w else Some w) = (case u of None \<Rightarrow> Some w | Some bs \<Rightarrow> wr (lp bs) w)"
  by (auto simp: opt_str_def str_given_mstr writeMQTTString_wr split: option.splits)

lemma connectLength_body:
  assumes "connect_strings d cid wl user pw"
  shows "MQTTSerialize_connectLength d = int (length (connect_body d cid wl user pw))"
  using assms
  by (auto simp: MQTTSerialize_connectLength_def connect_body_def connect_strings_def MQTTstrlen_mstr opt_lp_def
      opt_str_def str_given_mstr Let_def split: option.splits)

lemma connect_written:
  assumes "connect_strings d cid wl user pw" "length (connect_body d cid wl user pw) < 268435456"
    "MQTTPacket_len (int (length (connect_body d cid wl user pw))) \<le> int (length buf)"
  shows "MQTTSerialize_connect buf (int (length buf)) d =
    (let pkt = mqtt_packet (MQTT_HEADER_SET_TYPE 0 (cpt CONNECT)) (connect_body d cid wl user pw)
     in Some (int (length pkt), pkt @ drop (length pkt) buf))"
  using packet_written [OF assms(3,2), of "MQTT_HEADER_SET_TYPE 0 (cpt CONNECT)"] assms(1,3)
  by (cases wl; cases user; cases pw)
    (auto simp: MQTTSerialize_connect_def connectLength_body [OF assms(1)] flags_user flags_password
      connect_strings_def opt_str_def str_given_mstr writeMQTTString_wr mqtt_packet_def connect_body_def opt_lp_def Let_def)

lemma ack_written:
  assumes "4 \<le> length buf"
  shows "MQTTSerialize_ack buf (int (length buf)) t dup packetid =
    (let pkt = mqtt_packet (mqtt_header t dup (if t = cpt PUBREL then 1 else 0) 0) (be16 (uint packetid))
     in Some (int (length pkt), pkt @ drop (length pkt) buf))"
proof -
  have e: "MQTTPacket_encode 2 = [2]" by (simp add: encode_step)
  then show ?thesis
    using assms finish_wr [of "mqtt_packet (mqtt_header t dup (if t = cpt PUBREL then 1 else 0) 0) (be16 (uint packetid))" buf]
    by (simp add: MQTTSerialize_ack_def mqtt_packet_def Let_def)
qed

lemma zero_written:
  assumes "2 \<le> length buf"
  shows "MQTTSerialize_zero buf (int (length buf)) t =
     Some (2, [MQTT_HEADER_SET_TYPE 0 t, 0] @ drop 2 buf)"
proof -
  have e: "MQTTPacket_encode 0 = [0]" by (simp add: encode_step)
  then show ?thesis using assms finish_wr [of "[MQTT_HEADER_SET_TYPE 0 t, 0]" buf]
    by (simp add: MQTTSerialize_zero_def numeral_2_eq_2)
qed

end
