(* ===== verification/MqttDeserialize.thy ===== *)
theory MqttDeserialize
  imports MqttSerialize
begin

text \<open>
  The MQTT deserialisers (linkkit/mqtt/MQTTConnectClient.c, MQTTDeserializePublish.c,
  MQTTSubscribeClient.c, MQTTUnsubscribeClient.c). Each returns its return code and the output
  parameters it has assigned; reading outside the buffer is \<open>None\<close>. As in the code, the return
  code is first used for the size of the remaining length, and keeps it on the early exits after
  that.
\<close>

subsection \<open>The deserialisers\<close>

definition MQTTDeserialize_connack :: "bytes \<Rightarrow> (int \<times> (u8 \<times> u8) option) option" where
  "MQTTDeserialize_connack buf =
     do { h \<leftarrow> readChar buf 0;
          if MQTT_HEADER_GET_TYPE h \<noteq> cpt CONNACK then Some (0, None)
          else
            do { (rc, mylen) \<leftarrow> MQTTPacket_decodeBuf buf 1;
                 let cur = 1 + rc in
                 if mylen < 2 then Some (int rc, None)
                 else do { flags \<leftarrow> readChar buf cur;
                           c \<leftarrow> readChar buf (Suc cur);
                           Some (1, Some (drop_bit 7 flags, c)) } } }"

text \<open>The results of \<open>MQTTDeserialize_publish\<close>; data pointers are positions in the buffer.\<close>

record publish_data =
  pd_dup :: u8
  pd_qos :: u8
  pd_retained :: u8
  pd_packetid :: "int option"
  pd_topic_len :: int
  pd_topic :: nat
  pd_payloadlen :: int
  pd_payload :: nat

definition MQTTDeserialize_publish :: "bytes \<Rightarrow> (int \<times> publish_data option) option" where
  "MQTTDeserialize_publish buf =
     do { h \<leftarrow> readChar buf 0;
          if MQTT_HEADER_GET_TYPE h \<noteq> cpt PUBLISH then Some (0, None)
          else
            do { (rc, mylen) \<leftarrow> MQTTPacket_decodeBuf buf 1;
                 let cur = 1 + rc; enddata = int cur + mylen in
                 do { (ok, tlen, tpos, cur) \<leftarrow> readMQTTLenString buf cur enddata;
                      if \<not> ok \<or> enddata - int cur < 0 then Some (int rc, None)
                      else
                        let q = MQTT_HEADER_GET_QOS h in
                        do { (packetid, cur) \<leftarrow>
                               (if 0 < q then do { i \<leftarrow> readInt buf cur; Some (Some i, cur + 2) }
                                else Some (None, cur));
                             Some (1, Some \<lparr>pd_dup = MQTT_HEADER_GET_DUP h, pd_qos = q,
                                 pd_retained = MQTT_HEADER_GET_RETAIN h, pd_packetid = packetid,
                                 pd_topic_len = tlen, pd_topic = tpos,
                                 pd_payloadlen = enddata - int cur, pd_payload = cur\<rparr>) } } } }"

definition MQTTDeserialize_ack :: "bytes \<Rightarrow> (int \<times> u8 \<times> u8 \<times> int option) option" where
  "MQTTDeserialize_ack buf =
     do { h \<leftarrow> readChar buf 0;
          let dup = MQTT_HEADER_GET_DUP h; packettype = MQTT_HEADER_GET_TYPE h in
          do { (rc, mylen) \<leftarrow> MQTTPacket_decodeBuf buf 1;
               if mylen < 2 then Some (int rc, packettype, dup, None)
               else do { i \<leftarrow> readInt buf (1 + rc); Some (1, packettype, dup, Some i) } } }"

text \<open>The loop over the granted qualities of service, from \<open>cur\<close> to \<open>enddata\<close>.\<close>

fun read_qos :: "bytes \<Rightarrow> nat \<Rightarrow> nat \<Rightarrow> nat \<Rightarrow> nat \<Rightarrow> int list \<Rightarrow> (int \<times> int list) option" where
  "read_qos buf maxcount 0 count cur acc = Some (1, acc)"
| "read_qos buf maxcount (Suc left) count cur acc =
     (if maxcount \<le> count then Some (-1, acc)
      else do { c \<leftarrow> readChar buf cur;
                read_qos buf maxcount left (Suc count) (Suc cur) (acc @ [uint c]) })"

definition MQTTDeserialize_suback :: "nat \<Rightarrow> bytes \<Rightarrow> (int \<times> (int \<times> int list) option) option" where
  "MQTTDeserialize_suback maxcount buf =
     do { h \<leftarrow> readChar buf 0;
          if MQTT_HEADER_GET_TYPE h \<noteq> cpt SUBACK then Some (0, None)
          else
            do { (rc, mylen) \<leftarrow> MQTTPacket_decodeBuf buf 1;
                 let cur = 1 + rc in
                 if mylen < 2 then Some (int rc, None)
                 else do { i \<leftarrow> readInt buf cur;
                           (rc, qs) \<leftarrow> read_qos buf maxcount (nat (mylen - 2)) 0 (cur + 2) [];
                           Some (rc, Some (i, qs)) } } }"

definition MQTTDeserialize_unsuback :: "bytes \<Rightarrow> (int \<times> int option) option" where
  "MQTTDeserialize_unsuback buf =
     do { (rc, t, dup, i) \<leftarrow> MQTTDeserialize_ack buf;
          Some (if t = cpt UNSUBACK then 1 else rc, i) }"

subsection \<open>Reading a packet\<close>

lemma packet_header: "readChar (mqtt_packet h body @ r) 0 = Some h"
  by (simp add: readChar_def mqtt_packet_def)

text \<open>The position behind the remaining length.\<close>

definition body_pos :: "bytes \<Rightarrow> nat" where
  "body_pos body = 1 + length (MQTTPacket_encode (int (length body)))"

lemma packet_decode:
  "length body < 268435456 \<Longrightarrow>
   MQTTPacket_decodeBuf (mqtt_packet h body @ r) (Suc 0) =
     Some (length (MQTTPacket_encode (int (length body))), int (length body))"
  using decodeBuf_encode [of "int (length body)" "[h]" "body @ r"] by (simp add: mqtt_packet_def)

lemma rd_body:
  "rd (mqtt_packet h body @ r) (body_pos body + n) = rd (body @ r) n"
proof -
  have "mqtt_packet h body @ r = (h # MQTTPacket_encode (int (length body))) @ (body @ r)"
    by (simp add: mqtt_packet_def)
  moreover have "body_pos body = length (h # MQTTPacket_encode (int (length body)))"
    by (simp add: body_pos_def)
  ultimately show ?thesis by (simp only: rd_append_plus)
qed

lemma slice_body:
  "bslice (body_pos body + p) n (mqtt_packet h body @ r) = bslice p n (body @ r)"
  by (simp add: bslice_def mqtt_packet_def body_pos_def)

lemma readInt_be16:
  assumes "0 \<le> i" "i < 65536"
  shows "readInt (xs @ be16 i @ ys) (length xs) = Some i"
proof -
  have "rd (xs @ be16 i @ ys) (length xs) = Some (word_of_int (i sdiv 256))"
    "rd (xs @ be16 i @ ys) (Suc (length xs)) = Some (word_of_int (i smod 256))"
    using rd_append_plus [of xs "be16 i @ ys" 0] rd_append_plus [of xs "be16 i @ ys" 1]
    by (simp_all add: be16_def)
  then show ?thesis using be16_value [OF assms] by (simp add: readInt_def)
qed

lemma readInt_body:
  "readInt (mqtt_packet h body @ r) (body_pos body + n) = readInt (body @ r) n"
  using rd_body [of h body r n] rd_body [of h body r "Suc n"] by (simp add: readInt_def)

lemma readInt_be16_0: "0 \<le> i \<Longrightarrow> i < 65536 \<Longrightarrow> readInt (be16 i @ ys) 0 = Some i"
  using readInt_be16 [of i "[]" ys] by simp

lemma uint16_less: "uint (w :: u16) < 65536"
  using uint_lt2p [of w] by simp

end
