(* ===== verification/MqttProps.thy ===== *)
theory MqttProps
  imports MqttDeserialize
begin

text \<open>
  Properties of the MQTT packet code: round trips between the serialisers and deserialisers,
  the layout of the packets, and the places where the deserialisers accept too much.
\<close>

subsection \<open>The remaining length as a code\<close>

definition rem_len_ok :: "int \<Rightarrow> bool" where
  "rem_len_ok n \<longleftrightarrow> 0 \<le> n \<and> n < 268435456"

definition decode_rest :: "bytes \<Rightarrow> (int \<times> bytes) option" where
  "decode_rest bs = do { (len, n) \<leftarrow> MQTTPacket_decodeBuf bs 0; Some (n, drop len bs) }"

interpretation rem_len: codec rem_len_ok MQTTPacket_encode decode_rest
proof
  fix n r
  assume "rem_len_ok n"
  then show "decode_rest (MQTTPacket_encode n @ r) = Some (n, r)"
    using decodeBuf_encode [of n "[]" r] by (simp add: decode_rest_def rem_len_ok_def)
qed

text \<open>C25. The remaining length of an MQTT packet survives encoding and decoding for the whole range
  the protocol allows, takes between one and four bytes, and no encoding is a prefix of another, so
  a sequence of encoded lengths is read back as it was written.\<close>

theorem remaining_length_roundtrip:
  assumes "list_all (\<lambda>n. 0 \<le> n \<and> n < 268435456) ns"
  shows "dec_stream decode_rest (length ns) (concat (map MQTTPacket_encode ns) @ r) = Some (ns, r) \<and>
    (\<forall>n \<in> set ns. 1 \<le> length (MQTTPacket_encode n) \<and> length (MQTTPacket_encode n) \<le> 4)"
proof -
  have "list_all rem_len_ok ns" using assms by (simp add: rem_len_ok_def list_all_iff)
  then have "dec_stream decode_rest (length ns) (concat (map MQTTPacket_encode ns) @ r) = Some (ns, r)"
    by (rule rem_len.dec_enc_stream)
  moreover have "1 \<le> length (MQTTPacket_encode n) \<and> length (MQTTPacket_encode n) \<le> 4" if "n \<in> set ns" for n
    using that assms length_encode [of n] by (auto simp: list_all_iff enc_len_def)
  ultimately show ?thesis by blast
qed

theorem remaining_length_roundtrip_witness:
  "dec_stream decode_rest 3 (concat (map MQTTPacket_encode [0, 127, 200000]) @ [7]) = Some ([0, 127, 200000], [7])"
  using remaining_length_roundtrip [of "[0, 127, 200000]" "[7]"]
  by (simp add: numeral_3_eq_3 del: dec_stream.simps)

subsection \<open>PUBLISH\<close>

lemma readMQTTLenString_body:
  assumes "length bs < 65536" "int p + 2 + int (length bs) \<le> e"
    and at: "readInt buf p = Some (int (length bs))"
  shows "readMQTTLenString buf p e = Some (True, int (length bs), p + 2, p + 2 + length bs)"
  using assms by (simp add: readMQTTLenString_def)

lemma lp_append: "lp bs @ r = be16 (int (length bs)) @ bs @ r"
  by (simp add: lp_def)

lemma uint_pos: "(0 < uint (x :: u8)) = (x \<noteq> 0)"
  using unsigned_eq_0_iff [of x] uint_ge_0 [of x] by (simp add: less_le del: uint_ge_0)

lemma publish_read:
  assumes t: "length topic < 65536" and l: "length (publish_body (uint (q AND 3)) packetid topic payload) < 268435456"
  defines "body \<equiv> publish_body (uint (q AND 3)) packetid topic payload"
  shows "MQTTDeserialize_publish (mqtt_packet (mqtt_header (cpt PUBLISH) dup q ret) body @ r) =
    Some (1, Some \<lparr>pd_dup = dup AND 1, pd_qos = q AND 3, pd_retained = ret AND 1,
       pd_packetid = (if q AND 3 = 0 then None else Some (uint packetid)),
       pd_topic_len = int (length topic), pd_topic = body_pos body + 2,
       pd_payloadlen = int (length payload),
       pd_payload = body_pos body + 2 + length topic + (if q AND 3 = 0 then 0 else 2)\<rparr>)"
proof -
  define h where "h = mqtt_header (cpt PUBLISH) dup q ret"
  define buf where "buf = mqtt_packet h body @ r"
  have h: "MQTT_HEADER_GET_TYPE h = cpt PUBLISH" "MQTT_HEADER_GET_DUP h = dup AND 1"
    "MQTT_HEADER_GET_QOS h = q AND 3" "MQTT_HEADER_GET_RETAIN h = ret AND 1"
    by (simp_all add: h_def mqtt_header_fields)
  have h0: "readChar buf 0 = Some h" by (simp add: buf_def packet_header)
  have pos: "(0 < uint (q AND 3)) = (q AND 3 \<noteq> 0)" "(0 < q AND 3) = (q AND 3 \<noteq> 0)"
    by (simp_all add: uint_pos word_gt_0)
  have len: "length body = 2 + length topic + (if q AND 3 = 0 then 0 else 2) + length payload"
    by (simp add: body_def publish_body_def pos)
  have at: "readInt buf (body_pos body) = Some (int (length topic))"
    using readInt_body [of h body r 0] readInt_be16_0 [of "int (length topic)"] t
    by (simp add: buf_def body_def publish_body_def lp_def)
  have idp: "readInt buf (body_pos body + 2 + length topic) = Some (uint packetid)" if "q AND 3 \<noteq> 0"
  proof -
    have "body @ r = (lp topic) @ be16 (uint packetid) @ (payload @ r)"
      using that by (simp add: body_def publish_body_def pos)
    moreover have "readInt (lp topic @ be16 (uint packetid) @ (payload @ r)) (2 + length topic) = Some (uint packetid)"
      using readInt_be16 [of "uint packetid" "lp topic" "payload @ r"] uint16_less [of packetid] by simp
    ultimately show ?thesis by (simp only: buf_def readInt_body add.assoc)
  qed
  have dec: "MQTTPacket_decodeBuf buf 1 = Some (body_pos body - 1, int (length body))"
    using packet_decode [of body h r] l by (simp add: buf_def body_def body_pos_def)
  have cur: "1 + (body_pos body - 1) = body_pos body" by (simp add: body_pos_def)
  have str: "readMQTTLenString buf (body_pos body) (int (body_pos body) + int (length body)) =
      Some (True, int (length topic), body_pos body + 2, body_pos body + 2 + length topic)"
    by (rule readMQTTLenString_body [OF t _ at]) (simp add: len)
  show ?thesis
    unfolding h_def [symmetric] buf_def [symmetric] MQTTDeserialize_publish_def h0 bind.bind_lunit dec
      Let_def h prod.case cur str
    using idp by (cases "q AND 3 = 0") (simp_all add: pos len)
qed

text \<open>C26. Publishing is read back as it was sent: for every topic and payload that fit the buffer, the
  serialised PUBLISH packet lies at the start of the buffer with the rest untouched, and
  deserialising the buffer returns the duplicate and retain flags, the quality of service, the
  packet identifier when there is one, and pointers and lengths that select exactly the topic and
  the payload.\<close>

theorem publish_roundtrip:
  assumes "mstr topic s" "qos = uint (q AND 3)"
    and fits: "MQTTPacket_len (int (length (publish_body qos packetid topic payload))) \<le> int (length buf)"
    and small: "length (publish_body qos packetid topic payload) < 268435456"
  shows "\<exists>n out d.
     MQTTSerialize_publish buf (int (length buf)) dup qos ret packetid s payload (int (length payload)) = Some (int n, out) \<and>
     length out = length buf \<and> drop n out = drop n buf \<and>
     MQTTDeserialize_publish out = Some (1, Some d) \<and>
     pd_dup d = dup AND 1 \<and> pd_qos d = q AND 3 \<and> pd_retained d = ret AND 1 \<and>
     pd_packetid d = (if q AND 3 = 0 then None else Some (uint packetid)) \<and>
     bslice (pd_topic d) (nat (pd_topic_len d)) out = topic \<and>
     bslice (pd_payload d) (nat (pd_payloadlen d)) out = payload"
proof -
  define body where "body = publish_body qos packetid topic payload"
  define pkt where "pkt = mqtt_packet (mqtt_header (cpt PUBLISH) dup (word_of_int qos) ret) body"
  define out where "out = pkt @ drop (length pkt) buf"
  have w: "word_of_int qos = q AND 3" by (simp add: assms(2))
  have pos: "(0 < uint (q AND 3)) = (q AND 3 \<noteq> 0)" by (simp only: uint_pos)
  have ser: "MQTTSerialize_publish buf (int (length buf)) dup qos ret packetid s payload (int (length payload)) =
      Some (int (length pkt), out)"
    using publish_written [OF assms(1) small fits, of dup ret] by (simp add: pkt_def out_def body_def Let_def)
  have room: "length pkt \<le> length buf"
    using length_mqtt_packet [of body "mqtt_header (cpt PUBLISH) dup (word_of_int qos) ret"] small fits
    by (simp add: pkt_def body_def)
  have tl: "length topic < 65536" using assms(1) by (simp add: mstr_def)
  have qq: "(q AND 3) AND 3 = q AND 3" by (simp add: and.assoc)
  have "MQTTDeserialize_publish out = Some (1, Some \<lparr>pd_dup = dup AND 1, pd_qos = q AND 3, pd_retained = ret AND 1,
       pd_packetid = (if q AND 3 = 0 then None else Some (uint packetid)),
       pd_topic_len = int (length topic), pd_topic = body_pos body + 2,
       pd_payloadlen = int (length payload),
       pd_payload = body_pos body + 2 + length topic + (if q AND 3 = 0 then 0 else 2)\<rparr>)"
    using publish_read [OF tl, of "q AND 3" packetid payload dup ret "drop (length pkt) buf"] small
    by (simp add: out_def pkt_def body_def assms(2) qq w)
  moreover have "bslice (body_pos body + 2) (length topic) out = topic"
    using slice_body [of body 2 "length topic"] bslice_append [of "be16 (int (length topic))" topic]
    by (simp add: out_def pkt_def body_def publish_body_def lp_def)
  moreover have "bslice (body_pos body + (2 + length topic + (if q AND 3 = 0 then 0 else 2))) (length payload) out = payload"
  proof -
    have "body @ x = (lp topic @ (if 0 < qos then be16 (uint packetid) else [])) @ payload @ x" for x
      by (simp add: body_def publish_body_def)
    then show ?thesis unfolding out_def pkt_def slice_body
      by (simp only:) (rule bslice_middle, simp_all add: assms(2) pos)
  qed
  ultimately show ?thesis
    using ser room by (intro exI [of _ "length pkt"] exI [of _ out]) (simp add: out_def add.assoc)
qed


definition topic_example :: MQTTString where
  "topic_example = \<lparr>cstring = Some [0x61, 0x2F, 0x62], lenstring_len = 0, lenstring_data = None\<rparr>"

theorem publish_roundtrip_witness:
  "\<exists>n out d. MQTTSerialize_publish (replicate 40 0) 40 0 1 0 7 topic_example [1, 2, 3] 3 = Some (int n, out) \<and>
     MQTTDeserialize_publish out = Some (1, Some d) \<and> pd_packetid d = Some 7 \<and>
     bslice (pd_payload d) (nat (pd_payloadlen d)) out = [1, 2, 3]"
proof -
  have "mstr [0x61, 0x2F, 0x62] topic_example" by (simp add: mstr_def topic_example_def)
  moreover have "length (publish_body 1 7 [0x61, 0x2F, 0x62] [1, 2, 3]) = 10"
    by (simp add: publish_body_def)
  ultimately show ?thesis
    using publish_roundtrip [of "[0x61, 0x2F, 0x62]" topic_example 1 1 7 "[1, 2, 3]" "replicate 40 0" 0 0]
    by (auto simp: MQTTPacket_len_def)
qed

subsection \<open>CONNECT, SUBSCRIBE and UNSUBSCRIBE\<close>

text \<open>The CONNECT packet has the layout of the protocol: with enough room it consists of the
  header byte, the exact remaining length, the protocol name and level, the flags (whose user name
  and password bits say whether those strings follow), the keep-alive interval in two bytes, and
  the given strings with their two-byte lengths in order; the rest of the buffer is untouched, and
  with too little room nothing is written.\<close>

theorem connect_layout:
  assumes "connect_strings d cid wl user pw" "length (connect_body d cid wl user pw) < 268435456"
  shows "MQTTSerialize_connect buf (int (length buf)) d =
    (if int (length buf) < MQTTPacket_len (int (length (connect_body d cid wl user pw)))
     then Some (MQTTPACKET_BUFFER_TOO_SHORT, buf)
     else let pkt = mqtt_packet 0x10 (connect_body d cid wl user pw)
          in Some (int (length pkt), pkt @ drop (length pkt) buf)) \<and>
    (connect_flags d AND 128 \<noteq> 0 \<longleftrightarrow> user \<noteq> None) \<and> (connect_flags d AND 64 \<noteq> 0 \<longleftrightarrow> pw \<noteq> None)"
proof -
  have h: "MQTT_HEADER_SET_TYPE 0 (cpt CONNECT) = 0x10" by (simp add: pkt_defs)
  have "(connect_flags d AND 128 \<noteq> 0 \<longleftrightarrow> user \<noteq> None)" "(connect_flags d AND 64 \<noteq> 0 \<longleftrightarrow> pw \<noteq> None)"
    using assms(1) opt_str_given by (auto simp: flags_user flags_password connect_strings_def)
  then show ?thesis
    using connect_written [OF assms, of buf] connectLength_body [OF assms(1)] h
    by (auto simp: MQTTSerialize_connect_def Let_def)
qed

definition connect_example :: MQTTPacket_connectData where
  "connect_example = \<lparr>MQTTVersion = 4, clientID = topic_example, keepAliveInterval = 60, cleansession = 1,
     willFlag = 0, will = \<lparr>will_topicName = topic_example, will_message = topic_example, will_retained = 0, will_qos = 0\<rparr>,
     username = topic_example, password = \<lparr>cstring = None, lenstring_len = 0, lenstring_data = None\<rparr>\<rparr>"

theorem connect_layout_witness:
  "MQTTSerialize_connect (replicate 30 0) 30 connect_example =
     Some (22, [0x10, 20, 0, 4, 0x4D, 0x51, 0x54, 0x54, 4, 0x82, 0, 60, 0, 3, 0x61, 0x2F, 0x62,
                0, 3, 0x61, 0x2F, 0x62] @ replicate 8 0)"
proof -
  have s: "connect_strings connect_example [0x61, 0x2F, 0x62] None (Some [0x61, 0x2F, 0x62]) None"
    by (simp add: connect_strings_def connect_example_def topic_example_def mstr_def opt_str_def str_given_def)
  have f: "connect_flags connect_example = 0x82"
    by (simp add: connect_flags_def connect_example_def topic_example_def str_given_def)
  have b: "connect_body connect_example [0x61, 0x2F, 0x62] None (Some [0x61, 0x2F, 0x62]) None =
      [0, 4, 0x4D, 0x51, 0x54, 0x54, 4, 0x82, 0, 60, 0, 3, 0x61, 0x2F, 0x62, 0, 3, 0x61, 0x2F, 0x62]"
    by (simp add: connect_body_def f lp_def be16_def opt_lp_def sdiv_pos smod_pos) (simp add: connect_example_def)
  have e: "MQTTPacket_encode 20 = [20]" by (simp add: encode_step)
  show ?thesis
    using connect_layout [OF s, of "replicate 30 0"]
    by (simp add: b mqtt_packet_def e MQTTPacket_len_def Let_def)
qed

text \<open>SUBSCRIBE and UNSUBSCRIBE packets carry the packet identifier and every topic filter once, in
  order, each behind its two-byte length and, for SUBSCRIBE, followed by the requested quality of
  service, under a remaining length that is exactly the body's; with too little room nothing is
  written.\<close>

theorem subscribe_layout:
  assumes "list_all2 (\<lambda>(f, q) (s, r). mstr f s \<and> q = r) fs ss" "list_all2 mstr gs us"
    "length (subscribe_body packetid fs) < 268435456" "length (unsubscribe_body packetid gs) < 268435456"
  shows "MQTTSerialize_subscribe buf (int (length buf)) dup packetid ss =
      (if int (length buf) < MQTTPacket_len (int (length (subscribe_body packetid fs)))
       then Some (MQTTPACKET_BUFFER_TOO_SHORT, buf)
       else let pkt = mqtt_packet (mqtt_header (cpt SUBSCRIBE) dup 1 0) (subscribe_body packetid fs)
            in Some (int (length pkt), pkt @ drop (length pkt) buf)) \<and>
    MQTTSerialize_unsubscribe buf (int (length buf)) dup packetid us =
      (if int (length buf) < MQTTPacket_len (int (length (unsubscribe_body packetid gs)))
       then Some (MQTTPACKET_BUFFER_TOO_SHORT, buf)
       else let pkt = mqtt_packet (mqtt_header (cpt UNSUBSCRIBE) dup 1 0) (unsubscribe_body packetid gs)
            in Some (int (length pkt), pkt @ drop (length pkt) buf))"
proof (rule conjI)
  show "MQTTSerialize_subscribe buf (int (length buf)) dup packetid ss =
      (if int (length buf) < MQTTPacket_len (int (length (subscribe_body packetid fs)))
       then Some (MQTTPACKET_BUFFER_TOO_SHORT, buf)
       else let pkt = mqtt_packet (mqtt_header (cpt SUBSCRIBE) dup 1 0) (subscribe_body packetid fs)
            in Some (int (length pkt), pkt @ drop (length pkt) buf))"
    using subscribe_written [OF assms(1,3), of buf dup]
    by (auto simp: MQTTSerialize_subscribe_def subscribeLength_body [OF assms(1), of packetid] Let_def)
  show "MQTTSerialize_unsubscribe buf (int (length buf)) dup packetid us =
      (if int (length buf) < MQTTPacket_len (int (length (unsubscribe_body packetid gs)))
       then Some (MQTTPACKET_BUFFER_TOO_SHORT, buf)
       else let pkt = mqtt_packet (mqtt_header (cpt UNSUBSCRIBE) dup 1 0) (unsubscribe_body packetid gs)
            in Some (int (length pkt), pkt @ drop (length pkt) buf))"
    using unsubscribe_written [OF assms(2,4), of buf dup]
    by (auto simp: MQTTSerialize_unsubscribe_def unsubscribeLength_body [OF assms(2), of packetid] Let_def)
qed

theorem subscribe_layout_witness:
  "MQTTSerialize_subscribe (replicate 12 0) 12 0 9 [(topic_example, 1)] =
     Some (10, [0x82, 8, 0, 9, 0, 3, 0x61, 0x2F, 0x62, 1, 0, 0])"
proof -
  have m: "mstr [0x61, 0x2F, 0x62] topic_example" by (simp add: mstr_def topic_example_def)
  have e: "MQTTPacket_encode 8 = [8]" by (simp add: encode_step)
  show ?thesis
    using subscribe_layout [of "[([0x61, 0x2F, 0x62], 1)]" "[(topic_example, 1)]" "[]" "[]" 9 "replicate 12 0" 0] m
    by (simp add: subscribe_body_def unsubscribe_body_def mqtt_packet_def e MQTTPacket_len_def Let_def lp_def be16_def
        sdiv_pos smod_pos mqtt_header_def mqtt_header_defs) (simp add: numeral_2_eq_2)
qed

subsection \<open>Acknowledgements\<close>

text \<open>An acknowledgement is read back with its packet type, duplicate flag and packet
  identifier.\<close>

theorem ack_roundtrip:
  assumes "4 \<le> length buf"
  shows "\<exists>out. MQTTSerialize_ack buf (int (length buf)) (cpt t) dup packetid = Some (4, out) \<and> drop 4 out = drop 4 buf \<and>
     MQTTDeserialize_ack out = Some (1, cpt t, dup AND 1, Some (uint packetid))"
proof -
  define q :: u8 where "q = (if cpt t = cpt PUBREL then 1 else 0)"
  define h where "h = mqtt_header (cpt t) dup q 0"
  have e: "MQTTPacket_encode 2 = [2]" by (simp add: encode_step)
  have t: "cpt t AND 15 = cpt t" by (cases t) simp_all
  have h: "MQTT_HEADER_GET_TYPE h = cpt t" "MQTT_HEADER_GET_DUP h = dup AND 1"
    by (simp_all add: h_def mqtt_header_fields t)
  let ?out = "mqtt_packet h (be16 (uint packetid)) @ drop 4 buf"
  have len: "length (mqtt_packet g (be16 (uint packetid))) = 4" for g
    by (simp add: mqtt_packet_def e)
  have ser: "MQTTSerialize_ack buf (int (length buf)) (cpt t) dup packetid = Some (4, ?out)"
    using ack_written [OF assms, of "cpt t" dup packetid] unfolding h_def q_def Let_def len by simp
  have "MQTTPacket_decodeBuf ?out 1 = Some (1, 2)"
    using packet_decode [of "be16 (uint packetid)" h "drop 4 buf"] by (simp add: e)
  moreover have "readInt ?out 2 = Some (uint packetid)"
    using readInt_body [of h "be16 (uint packetid)" "drop 4 buf" 0] readInt_be16_0 [of "uint packetid"] uint16_less [of packetid]
    by (simp add: body_pos_def e flip: numeral_2_eq_2)
  ultimately have "MQTTDeserialize_ack ?out = Some (1, cpt t, dup AND 1, Some (uint packetid))"
    by (simp add: MQTTDeserialize_ack_def packet_header h Let_def flip: numeral_2_eq_2)
  then show ?thesis using ser len by (intro exI [of _ ?out]) simp
qed

theorem ack_roundtrip_witness:
  "\<exists>out. MQTTSerialize_ack [0, 0, 0, 0, 5] 5 4 0 1000 = Some (4, out) \<and> drop 4 out = [5] \<and>
     MQTTDeserialize_ack out = Some (1, 4, 0, Some 1000)"
  using ack_roundtrip [of "[0, 0, 0, 0, 5]" PUBACK 0 1000] by simp

text \<open>C27. Acknowledgements that are too short are accepted: when the remaining length is 0 or 1, the
  return code still holds the size of the remaining length, so the call reports success although
  no packet identifier, no return code and no quality of service has been read.\<close>

theorem short_ack_reported_as_success:
  assumes "m < 2"
  shows "MQTTDeserialize_ack (h # m # r) = Some (1, MQTT_HEADER_GET_TYPE h, MQTT_HEADER_GET_DUP h, None) \<and>
     MQTTDeserialize_connack (0x20 # m # r) = Some (1, None) \<and>
     MQTTDeserialize_suback n (0x90 # m # r) = Some (1, None)"
proof -
  have m: "m AND 127 = m" "m AND 128 = 0" using low7 [of m] assms by (auto simp: word_less_def)
  have u: "uint m < 2" using assms by (simp add: word_less_def)
  have d: "MQTTPacket_decodeBuf (g # m # r) (Suc 0) = Some (1, uint m)" for g
    using bufchar_at [of "[g]" m r] by (simp add: MQTTPacket_decodeBuf_def MQTTPacket_decode_def numeral_eq_Suc m)
  show ?thesis using u
    by (simp add: MQTTDeserialize_ack_def MQTTDeserialize_connack_def MQTTDeserialize_suback_def readChar_def d
        mqtt_header_defs Let_def)
qed

theorem short_ack_reported_as_success_witness:
  "MQTTDeserialize_ack [0x40, 0] = Some (1, 4, 0, None)"
  using short_ack_reported_as_success [of 0 "0x40" "[]" 0] by (simp add: mqtt_header_defs)

lemma read_qos_append:
  "read_qos (xs @ qs @ ys) maxcount (length qs) count (length xs) acc =
     (if count + length qs \<le> maxcount \<or> qs = [] then Some (1, acc @ map uint qs)
      else Some (-1, acc @ map uint (take (maxcount - count) qs)))"
proof (induction qs arbitrary: xs count acc)
  case (Cons q qs)
  have r: "readChar (xs @ q # qs @ ys) (length xs) = Some q" by (simp add: readChar_def)
  show ?case
  proof (cases "maxcount \<le> count")
    case False
    then have "read_qos (xs @ (q # qs) @ ys) maxcount (length (q # qs)) count (length xs) acc =
        read_qos ((xs @ [q]) @ qs @ ys) maxcount (length qs) (Suc count) (length (xs @ [q])) (acc @ [uint q])"
      by (simp add: r)
    moreover have "maxcount - count = Suc (maxcount - Suc count)" using False by simp
    ultimately show ?thesis using Cons.IH [of "xs @ [q]" "Suc count" "acc @ [uint q]"] False by auto
  qed simp
qed simp

text \<open>A SUBACK with at most \<open>maxcount\<close> return codes is read back completely; with more, the
  call returns -1 and has stored exactly the first \<open>maxcount\<close>.\<close>

theorem suback_read:
  fixes packetid :: u16
  assumes "qs \<noteq> []" "length qs < 65536"
  shows "MQTTDeserialize_suback maxcount (mqtt_packet 0x90 (be16 (uint packetid) @ qs) @ r) =
    (if length qs \<le> maxcount then Some (1, Some (uint packetid, map uint qs))
     else Some (-1, Some (uint packetid, map uint (take maxcount qs))))"
proof -
  define body where "body = be16 (uint packetid) @ qs"
  define buf where "buf = mqtt_packet 0x90 body @ r"
  have h0: "readChar buf 0 = Some 0x90" by (simp add: buf_def packet_header)
  have h: "MQTT_HEADER_GET_TYPE 0x90 = cpt SUBACK" by (simp add: mqtt_header_defs)
  have dec: "MQTTPacket_decodeBuf buf 1 = Some (body_pos body - 1, int (length body))"
    using packet_decode [of body "0x90" r] assms by (simp add: buf_def body_def body_pos_def)
  have cur: "1 + (body_pos body - 1) = body_pos body" by (simp add: body_pos_def)
  have i: "readInt buf (body_pos body) = Some (uint packetid)"
    using readInt_body [of "0x90" body r 0] readInt_be16_0 [of "uint packetid"] uint16_less [of packetid]
    by (simp add: buf_def body_def)
  let ?pre = "0x90 # MQTTPacket_encode (int (length body)) @ be16 (uint packetid)"
  have b: "buf = ?pre @ qs @ r" "body_pos body + 2 = length ?pre"
    by (simp_all add: buf_def body_def mqtt_packet_def body_pos_def)
  have q: "read_qos buf maxcount (length qs) 0 (body_pos body + 2) [] =
      (if length qs \<le> maxcount then Some (1, map uint qs) else Some (-1, map uint (take maxcount qs)))"
    unfolding b using read_qos_append [of ?pre qs r maxcount 0 "[]"] assms by simp
  have n: "nat (int (length body) - 2) = length qs" "(int (length body) < 2) = False" by (simp_all add: body_def)
  show ?thesis
    unfolding body_def [symmetric] buf_def [symmetric] MQTTDeserialize_suback_def h0 bind.bind_lunit dec
      Let_def h prod.case cur i n q
    by simp
qed

theorem suback_read_witness:
  "MQTTDeserialize_suback 1 (mqtt_packet 0x90 (be16 (uint (5 :: u16)) @ [0, 1])) = Some (-1, Some (5, [0]))"
  using suback_read [of "[0, 1]" 1 5 "[]"] by simp

text \<open>The session-present flag of the server is never seen: the flag is bit 0 of the
  acknowledge flags on the wire, but the bit field selects bit 7, so a CONNACK announcing a present
  session is reported without one.\<close>

theorem connack_session_flag_missed:
  "MQTTDeserialize_connack [0x20, 2, 1, c] = Some (1, Some (0, c))"
proof -
  have d: "MQTTPacket_decodeBuf [0x20, 2, 1, c] (Suc 0) = Some (1, 2)"
    using bufchar_at [of "[0x20]" 2 "[1, c]"] by (simp add: MQTTPacket_decodeBuf_def MQTTPacket_decode_def numeral_eq_Suc)
  have b: "drop_bit 7 (1 :: u8) = 0" by simp
  have r: "rd [0x20, 2, 1, c] 2 = Some 1" "rd [0x20, 2, 1, c] 3 = Some c" by (simp_all add: rd_def)
  show ?thesis
    using r by (simp add: MQTTDeserialize_connack_def readChar_def d b mqtt_header_defs Let_def flip: numeral_2_eq_2)
qed

end
