(* ===== verification/MqttTopic.thy ===== *)
theory MqttTopic
  imports Prelude
begin

text \<open>
  Topics of the MQTT client (linkkit/mqtt/iotx_mqtt_client.c) and the tokeniser they are checked
  with (linkkit/infra/infra_string.c). A C string is the list of its characters.
\<close>

abbreviation (input) SUCCESS_RETURN :: int where "SUCCESS_RETURN \<equiv> 0"
abbreviation (input) FAIL_RETURN :: int where "FAIL_RETURN \<equiv> -1"

subsection \<open>Matching a topic against a filter\<close>

text \<open>
  The walk over the filter and the name; the two unread suffixes are returned. A \<open>+\<close> skips up to
  the next separator, a \<open>#\<close> to the end of the name.
\<close>

fun topic_loop :: "string \<Rightarrow> string \<Rightarrow> string \<times> string" where
  "topic_loop [] ns = ([], ns)"
| "topic_loop (f # fs) [] = (f # fs, [])"
| "topic_loop (f # fs) (n # ns) =
     (if n = CHR ''/'' \<and> f \<noteq> CHR ''/'' then (f # fs, n # ns)
      else if f \<noteq> CHR ''+'' \<and> f \<noteq> CHR ''#'' \<and> f \<noteq> n then (f # fs, n # ns)
      else if f = CHR ''+'' then topic_loop fs (dropWhile (\<lambda>c. c \<noteq> CHR ''/'') ns)
      else if f = CHR ''#'' then topic_loop fs []
      else topic_loop fs ns)"

definition iotx_mc_is_topic_matched :: "string \<Rightarrow> string \<Rightarrow> bool" where
  "iotx_mc_is_topic_matched topicFilter topicName = (topic_loop topicFilter topicName = ([], []))"

subsection \<open>The tokeniser\<close>

text \<open>
  \<open>infra_strtok\<close> for a delimiter of one character, the way it is called. \<open>tok\<close> is the text
  between the target and the position, \<open>only\<close> the flag \<open>only_delim\<close>; the results are the token
  and the position kept for the next call.
\<close>

fun strtok_loop :: "char \<Rightarrow> bool \<Rightarrow> string \<Rightarrow> string \<Rightarrow> string option \<times> string" where
  "strtok_loop delim only tok [] = (Some tok, [])"
| "strtok_loop delim only tok (c # cs) =
     (if c \<noteq> delim then strtok_loop delim False (tok @ [c]) cs
      else if cs = [] then (if only then None else Some tok, [])
      else if tok = [] then strtok_loop delim only [] cs
      else (Some tok, cs))"

definition infra_strtok :: "char \<Rightarrow> string option \<Rightarrow> string option \<Rightarrow> string option \<times> string option" where
  "infra_strtok delim str pos =
     (case (case str of None \<Rightarrow> pos | Some s \<Rightarrow> Some s) of
        None \<Rightarrow> (None, None)
      | Some p \<Rightarrow>
          if length p \<le> 1 then (None, Some p)
          else let (tok, p') = strtok_loop delim True [] p in (tok, Some p'))"

subsection \<open>Checking a topic\<close>

datatype iotx_mc_topic_type = TOPIC_NAME_TYPE | TOPIC_FILTER_TYPE

definition char_code :: "char \<Rightarrow> nat" where
  "char_code c = of_char c"

fun check_chars :: "nat \<Rightarrow> iotx_mc_topic_type \<Rightarrow> string \<Rightarrow> int" where
  "check_chars len typ [] = SUCCESS_RETURN"
| "check_chars len typ (c # cs) =
     (if (typ = TOPIC_FILTER_TYPE \<longrightarrow> len \<noteq> 1) \<and> (c = CHR ''+'' \<or> c = CHR ''#'') then FAIL_RETURN
      else if char_code c < 32 \<or> 127 \<le> char_code c then FAIL_RETURN
      else check_chars len typ cs)"

definition iotx_mc_check_rule :: "string option \<Rightarrow> iotx_mc_topic_type \<Rightarrow> int" where
  "iotx_mc_check_rule iterm typ =
     (case iterm of None \<Rightarrow> FAIL_RETURN | Some s \<Rightarrow> check_chars (length s) typ s)"

lemma strtok_loop_shorter: "length (snd (strtok_loop d only tok p)) \<le> length p"
  by (induction d only tok p rule: strtok_loop.induct) auto

lemma strtok_loop_less: "p \<noteq> [] \<Longrightarrow> length (snd (strtok_loop d only tok p)) < length p"
proof (cases p)
  case (Cons c cs)
  then show ?thesis
    using strtok_loop_shorter [of d False "tok @ [c]" cs] strtok_loop_shorter [of d only "[]" cs] by auto
qed simp

lemma infra_strtok_less:
  "infra_strtok d None (Some p) = (Some t, Some p') \<Longrightarrow> length p' < length p"
  using strtok_loop_less [of p d True "[]"]
  by (cases "p = []") (auto simp: infra_strtok_def split: if_splits prod.splits)

text \<open>The loop over the following tokens; \<open>seen\<close> is the flag \<open>mask\<close>, set behind a \<open>#\<close>.\<close>

function check_tokens :: "iotx_mc_topic_type \<Rightarrow> bool \<Rightarrow> string \<Rightarrow> int" where
  "check_tokens typ seen pos =
     (case infra_strtok (CHR ''/'') None (Some pos) of
        (Some iterm, Some pos') \<Rightarrow>
          if seen then FAIL_RETURN
          else if iotx_mc_check_rule (Some iterm) typ \<noteq> SUCCESS_RETURN then FAIL_RETURN
          else check_tokens typ (iterm \<noteq> [] \<and> hd iterm = CHR ''#'') pos'
      | _ \<Rightarrow> SUCCESS_RETURN)"
  by pat_completeness auto
termination
  by (relation "measure (\<lambda>(typ, seen, pos). length pos)") (auto dest!: sym [THEN infra_strtok_less])

declare check_tokens.simps [simp del]

definition CONFIG_MQTT_TOPIC_MAXLEN :: nat where
  "CONFIG_MQTT_TOPIC_MAXLEN = 128"

definition iotx_mc_check_topic :: "string \<Rightarrow> iotx_mc_topic_type \<Rightarrow> int" where
  "iotx_mc_check_topic topicName typ =
     (if topicName = [] \<or> hd topicName \<noteq> CHR ''/'' then FAIL_RETURN
      else if CONFIG_MQTT_TOPIC_MAXLEN < length topicName then FAIL_RETURN
      else
        let topicString = take (CONFIG_MQTT_TOPIC_MAXLEN - 1) topicName;
            (iterm, pos) = infra_strtok (CHR ''/'') (Some topicString) None
        in if iotx_mc_check_rule iterm typ \<noteq> SUCCESS_RETURN then FAIL_RETURN
           else case pos of None \<Rightarrow> SUCCESS_RETURN | Some p \<Rightarrow> check_tokens typ False p)"

subsection \<open>Matching by levels\<close>

text \<open>The meaning of a filter, level by level.\<close>

fun level_match :: "string list \<Rightarrow> string list \<Rightarrow> bool" where
  "level_match [] [] = True"
| "level_match (f # fs) (n # ns) =
     (if f = ''#'' then fs = [] else (f = ''+'' \<or> f = n) \<and> level_match fs ns)"
| "level_match _ _ = False"

text \<open>A topic from its levels, each behind a separator.\<close>

fun topic_of :: "string list \<Rightarrow> string" where
  "topic_of [] = []"
| "topic_of (l # ls) = CHR ''/'' # l @ topic_of ls"

definition name_level :: "string \<Rightarrow> bool" where
  "name_level l \<longleftrightarrow> l \<noteq> [] \<and> CHR ''/'' \<notin> set l"

definition filter_level :: "string \<Rightarrow> bool" where
  "filter_level l \<longleftrightarrow> l = ''+'' \<or> l = ''#'' \<or>
     CHR ''/'' \<notin> set l \<and> CHR ''+'' \<notin> set l \<and> CHR ''#'' \<notin> set l"

text \<open>A level without wildcards is compared character by character.\<close>

lemma topic_of_head: "topic_of ls = [] \<or> hd (topic_of ls) = CHR ''/''"
  by (cases ls) simp_all

lemma topic_loop_stop:
  "f \<noteq> CHR ''/'' \<Longrightarrow> n = CHR ''/'' \<Longrightarrow> topic_loop (f # fs) (n # ns) = (f # fs, n # ns)"
  by simp

lemma literal_level:
  assumes "CHR ''/'' \<notin> set f" "CHR ''+'' \<notin> set f" "CHR ''#'' \<notin> set f" "CHR ''/'' \<notin> set n"
    "fs = [] \<or> hd fs = CHR ''/''" "ns = [] \<or> hd ns = CHR ''/''"
  shows "topic_loop (f @ fs) (n @ ns) = ([], []) \<longleftrightarrow> f = n \<and> topic_loop fs ns = ([], [])"
  using assms
proof (induction f arbitrary: n)
  case Nil
  show ?case
  proof (cases n)
    case (Cons c cs)
    then have c: "c \<noteq> CHR ''/''" using Nil.prems by auto
    show ?thesis using Nil.prems c by (cases fs) (auto simp: Cons)
  qed simp
next
  case (Cons a f)
  show ?case
  proof (cases n)
    case Nil
    then show ?thesis using Cons.prems by (cases ns) auto
  next
    case (Cons b bs)
    have ab: "a \<noteq> CHR ''/''" "a \<noteq> CHR ''+''" "a \<noteq> CHR ''#''" "b \<noteq> CHR ''/''"
      using Cons.prems Cons by auto
    have "topic_loop (f @ fs) (bs @ ns) = ([], []) \<longleftrightarrow> f = bs \<and> topic_loop fs ns = ([], [])"
      using Cons.prems Cons by (intro Cons.IH) auto
    then show ?thesis using ab by (auto simp: Cons)
  qed
qed

lemma dropWhile_level:
  "CHR ''/'' \<notin> set l \<Longrightarrow> ns = [] \<or> hd ns = CHR ''/'' \<Longrightarrow> dropWhile (\<lambda>c. c \<noteq> CHR ''/'') (l @ ns) = ns"
  by (induction l) (cases ns, auto)

lemma topic_loop_nil: "topic_loop fs [] = ([], []) \<longleftrightarrow> fs = []"
  by (cases fs) simp_all

text \<open>C28. Topic matching agrees with the level-by-level meaning of filters: for a filter whose levels
  are literals, \<open>+\<close> or a last \<open>#\<close>, and a topic name without empty levels, the character walk
  matches exactly when every level matches, \<open>+\<close> standing for one level and \<open>#\<close> for one or more.\<close>

theorem topic_match_by_levels:
  assumes "list_all filter_level fs" "list_all name_level ns" "''#'' \<notin> set (butlast fs)"
  shows "iotx_mc_is_topic_matched (topic_of fs) (topic_of ns) \<longleftrightarrow> level_match fs ns"
proof -
  have "topic_loop (topic_of fs) (topic_of ns) = ([], []) \<longleftrightarrow> level_match fs ns"
    using assms
  proof (induction fs ns rule: level_match.induct)
    case (2 f fs n ns)
    have n: "CHR ''/'' \<notin> set n" "n \<noteq> []" using "2.prems"(2) by (auto simp: name_level_def)
    have hf: "topic_of fs = [] \<or> hd (topic_of fs) = CHR ''/''" and hn: "topic_of ns = [] \<or> hd (topic_of ns) = CHR ''/''"
      by (rule topic_of_head)+
    have tl: "''#'' \<notin> set (butlast fs)" using "2.prems"(3) by (cases fs) auto
    obtain c cs where c: "n = c # cs" using n by (cases n) auto
    have cc: "c \<noteq> CHR ''/''" "CHR ''/'' \<notin> set cs" using n c by auto
    show ?case
    proof (cases "f = ''#''")
      case True
      have "fs = []" using True "2.prems"(3) by (cases fs) auto
      then show ?thesis using True cc by (simp add: c)
    next
      case False
      have IH: "topic_loop (topic_of fs) (topic_of ns) = ([], []) \<longleftrightarrow> level_match fs ns"
        using "2.IH" [OF False] "2.prems" tl by simp
      show ?thesis
      proof (cases "f = ''+''")
        case True
        then show ?thesis using cc IH dropWhile_level [OF cc(2) hn] by (simp add: c)
      next
        case nplus: False
        then have lit: "CHR ''/'' \<notin> set f" "CHR ''+'' \<notin> set f" "CHR ''#'' \<notin> set f"
          using "2.prems"(1) False by (auto simp: filter_level_def)
        show ?thesis
          using literal_level [OF lit n(1) hf hn] IH False nplus by simp
      qed
    qed
  qed auto
  then show ?thesis by (simp add: iotx_mc_is_topic_matched_def)
qed

theorem topic_match_by_levels_witness:
  "iotx_mc_is_topic_matched (topic_of [''a'', ''+'', ''#'']) (topic_of [''a'', ''bc'', ''d'', ''e''])"
  using topic_match_by_levels [of "[''a'', ''+'', ''#'']" "[''a'', ''bc'', ''d'', ''e'']"]
  by (simp add: filter_level_def name_level_def)

text \<open>What the tokeniser passes over: the separators, the token, and the rest.\<close>

lemma strtok_loop_split:
  "strtok_loop d only tok p = (Some t, q) \<Longrightarrow> d \<notin> set tok \<Longrightarrow>
   \<exists>ds u. tok @ p = ds @ t @ u @ q \<and> set ds \<subseteq> {d} \<and> set u \<subseteq> {d} \<and> d \<notin> set t"
proof (induction d only tok p arbitrary: t q rule: strtok_loop.induct)
  case (1 d only tok)
  then show ?case by (intro exI [of _ "[]"]) auto
next
  case (2 d only tok c cs)
  consider (other) "c \<noteq> d" | (last) "c = d" "cs = []" | (skip) "c = d" "cs \<noteq> []" "tok = []"
    | (stop) "c = d" "cs \<noteq> []" "tok \<noteq> []" by blast
  then show ?case
  proof cases
    case other
    then have "\<exists>ds u. (tok @ [c]) @ cs = ds @ t @ u @ q \<and> set ds \<subseteq> {d} \<and> set u \<subseteq> {d} \<and> d \<notin> set t"
      using 2 by (intro "2.IH"(1)) auto
    then show ?thesis by simp
  next
    case last
    then show ?thesis using "2.prems"
      by (intro exI [of _ "[]"] exI [of _ "[d]"]) (auto split: if_splits)
  next
    case skip
    then have "\<exists>ds u. [] @ cs = ds @ t @ u @ q \<and> set ds \<subseteq> {d} \<and> set u \<subseteq> {d} \<and> d \<notin> set t"
      using 2 by (intro "2.IH"(2)) auto
    then obtain ds u where "[] @ cs = ds @ t @ u @ q" "set ds \<subseteq> {d}" "set u \<subseteq> {d}" "d \<notin> set t"
      by blast
    then show ?thesis using skip by (intro exI [of _ "d # ds"] exI [of _ u]) auto
  next
    case stop
    then show ?thesis using "2.prems" by (intro exI [of _ "[]"] exI [of _ "[d]"]) auto
  qed
qed

definition plain_char :: "char \<Rightarrow> bool" where
  "plain_char c \<longleftrightarrow> c \<noteq> CHR ''+'' \<and> c \<noteq> CHR ''#'' \<and> 32 \<le> char_code c \<and> char_code c < 127"

lemma check_chars_name: "check_chars n TOPIC_NAME_TYPE s = SUCCESS_RETURN \<longleftrightarrow> list_all plain_char s"
  by (induction n TOPIC_NAME_TYPE s rule: check_chars.induct) (auto simp: plain_char_def)

lemma plain_slash: "plain_char (CHR ''/'')"
  by (simp add: plain_char_def char_code_def)

lemma strtok_None_short:
  "infra_strtok d None (Some p) = (None, q) \<Longrightarrow> length p \<le> 1 \<or> set p \<subseteq> {d}"
proof -
  have "fst (strtok_loop d only tok p) = None \<Longrightarrow> only \<and> set p \<subseteq> {d}" for only tok p
    by (induction d only tok p rule: strtok_loop.induct) (auto split: if_splits)
  then show "infra_strtok d None (Some p) = (None, q) \<Longrightarrow> ?thesis"
    by (auto simp: infra_strtok_def split: if_splits prod.splits) (metis fst_conv subsetD singletonD)
qed

lemma butlast_plain: "list_all plain_char (butlast p) \<Longrightarrow> list_all plain_char s \<Longrightarrow> list_all plain_char (butlast (s @ p))"
  by (cases "p = []") (auto simp: butlast_append list_all_iff dest: in_set_butlastD)

lemma check_tokens_name:
  "check_tokens TOPIC_NAME_TYPE seen p = SUCCESS_RETURN \<Longrightarrow> \<not> seen \<Longrightarrow> list_all plain_char (butlast p)"
proof (induction "TOPIC_NAME_TYPE" seen p rule: check_tokens.induct)
  case (1 seen p)
  obtain tok q where tq: "infra_strtok (CHR ''/'') None (Some p) = (tok, q)" by fastforce
  show ?case
  proof (cases tok)
    case None
    then have "length p \<le> 1 \<or> set p \<subseteq> {CHR ''/''}" using strtok_None_short tq by blast
    then show ?thesis
    proof
      assume "length p \<le> 1"
      then have "butlast p = []" by (cases p) auto
      then show ?thesis by simp
    next
      assume "set p \<subseteq> {CHR ''/''}"
      then show ?thesis using plain_slash by (auto simp: list_all_iff dest!: in_set_butlastD)
    qed
  next
    case (Some t)
    then obtain q' where q: "q = Some q'" and sl: "strtok_loop (CHR ''/'') True [] p = (Some t, q')"
      using tq by (auto simp: infra_strtok_def split: if_splits prod.splits)
    obtain ds u where s: "p = ds @ t @ u @ q'" "set ds \<subseteq> {CHR ''/''}" "set u \<subseteq> {CHR ''/''}"
      using strtok_loop_split [OF sl] by auto
    have r: "iotx_mc_check_rule (Some t) TOPIC_NAME_TYPE = SUCCESS_RETURN"
      and n: "check_tokens TOPIC_NAME_TYPE (t \<noteq> [] \<and> hd t = CHR ''#'') q' = SUCCESS_RETURN"
      using "1.prems" by (subst (asm) check_tokens.simps, simp add: tq Some q split: if_splits)+
    have pt: "list_all plain_char t" using r by (simp add: iotx_mc_check_rule_def check_chars_name)
    then have "\<not> (t \<noteq> [] \<and> hd t = CHR ''#'')" by (cases t) (auto simp: plain_char_def)
    then have "list_all plain_char (butlast q')"
      using "1.hyps" [of "Some t" "Some q'" t q'] tq Some q "1.prems"(2) r n by auto
    moreover have "list_all plain_char (ds @ t @ u)"
      using s pt plain_slash by (auto simp: list_all_iff)
    ultimately show ?thesis using butlast_plain [of q' "ds @ t @ u"] s(1) by simp
  qed
qed

text \<open>A topic name that passes the check before publishing starts with a separator, is at most 128
  characters long, and every character but possibly the last is printable and no wildcard. The last
  character escapes the check when it is a level of its own, because the tokeniser drops a final
  token of one character: topic names ending in a wildcard level pass.\<close>

theorem topic_name_checked:
  assumes "iotx_mc_check_topic name TOPIC_NAME_TYPE = SUCCESS_RETURN"
  shows "hd name = CHR ''/'' \<and> length name \<le> 128 \<and>
     list_all plain_char (butlast (take 127 name)) \<and>
     iotx_mc_check_topic ''/ab/#'' TOPIC_NAME_TYPE = SUCCESS_RETURN"
proof -
  have n: "name \<noteq> []" "hd name = CHR ''/''" "length name \<le> 128"
    using assms by (auto simp: iotx_mc_check_topic_def CONFIG_MQTT_TOPIC_MAXLEN_def split: if_splits)
  let ?p = "take 127 name"
  obtain tok pos where tp: "infra_strtok (CHR ''/'') (Some ?p) None = (tok, pos)" by fastforce
  have r: "iotx_mc_check_rule tok TOPIC_NAME_TYPE = SUCCESS_RETURN"
    and c: "(case pos of None \<Rightarrow> SUCCESS_RETURN | Some p \<Rightarrow> check_tokens TOPIC_NAME_TYPE False p) = SUCCESS_RETURN"
    using assms tp by (auto simp: iotx_mc_check_topic_def CONFIG_MQTT_TOPIC_MAXLEN_def Let_def split: if_splits)
  obtain t q where t: "tok = Some t" "pos = Some q" "strtok_loop (CHR ''/'') True [] ?p = (Some t, q)"
    using r tp by (cases tok) (auto simp: iotx_mc_check_rule_def infra_strtok_def split: if_splits prod.splits)
  obtain ds u where s: "?p = ds @ t @ u @ q" "set ds \<subseteq> {CHR ''/''}" "set u \<subseteq> {CHR ''/''}"
    using strtok_loop_split [OF t(3)] by auto
  have "list_all plain_char t" using r t by (simp add: iotx_mc_check_rule_def check_chars_name)
  then have "list_all plain_char (ds @ t @ u)" using s plain_slash by (auto simp: list_all_iff)
  moreover have "list_all plain_char (butlast q)" using c t check_tokens_name [of False q] by simp
  ultimately have b: "list_all plain_char (butlast ?p)"
    using butlast_plain [of q "ds @ t @ u"] by (simp add: s(1))
  have "iotx_mc_check_topic ''/ab/#'' TOPIC_NAME_TYPE = SUCCESS_RETURN"
    by (simp add: iotx_mc_check_topic_def CONFIG_MQTT_TOPIC_MAXLEN_def infra_strtok_def iotx_mc_check_rule_def
        char_code_def) (simp add: check_tokens.simps infra_strtok_def)
  with n b show ?thesis by simp
qed

theorem topic_name_checked_witness:
  "list_all plain_char (butlast ''/sys/dev'')"
proof -
  have "iotx_mc_check_topic ''/sys/dev'' TOPIC_NAME_TYPE = SUCCESS_RETURN"
    by (simp add: iotx_mc_check_topic_def CONFIG_MQTT_TOPIC_MAXLEN_def infra_strtok_def iotx_mc_check_rule_def
        char_code_def) (simp add: check_tokens.simps infra_strtok_def iotx_mc_check_rule_def char_code_def)
  from topic_name_checked [OF this] show ?thesis by simp
qed

end
