(* ===== verification/CoapPacket.thy ===== *)
theory CoapPacket
  imports ByteBuf
begin

text \<open>
  CoAP messages of the local server (linkkit/coap_server/CoAPPacket): the message structure and
  its setters (CoAPMessage_common.c), serialising (CoAPSerialize_common.c) and deserialising
  (CoAPDeserialize_common.c). The value of an option is the bytes its pointer points at. The
  option array holds twelve options and the token eight bytes; storing past them, like any access
  outside a buffer, is \<open>None\<close>.
\<close>

abbreviation (input) COAP_MSG_MAX_TOKEN_LEN :: nat where "COAP_MSG_MAX_TOKEN_LEN \<equiv> 8"
abbreviation (input) COAP_MSG_MAX_OPTION_NUM :: nat where "COAP_MSG_MAX_OPTION_NUM \<equiv> 12"
abbreviation (input) COAP_SUCCESS :: int where "COAP_SUCCESS \<equiv> 0"
abbreviation (input) COAP_ERROR_INVALID_PARAM :: int where "COAP_ERROR_INVALID_PARAM \<equiv> 257"
abbreviation (input) COAP_ERROR_NULL :: int where "COAP_ERROR_NULL \<equiv> 258"
abbreviation (input) COAP_ERROR_MALLOC :: int where "COAP_ERROR_MALLOC \<equiv> 259"
abbreviation (input) COAP_ERROR_INVALID_LENGTH :: int where "COAP_ERROR_INVALID_LENGTH \<equiv> 260"
abbreviation (input) COAP_ERROR_NOT_FOUND :: int where "COAP_ERROR_NOT_FOUND \<equiv> 263"

subsection \<open>Messages\<close>

record CoAPMsgOption =
  opt_num :: u16
  opt_len :: u16
  opt_val :: bytes

record CoAPMessage =
  msg_version :: u8
  msg_type :: u8
  tokenlen :: u8
  msg_code :: u8
  msgid :: u16
  token :: bytes
  options :: "CoAPMsgOption list"
  optdelta :: u8
  payloadlen :: u16
  payload :: bytes
  msg_handler :: nat
  user :: nat
  keep :: int

definition CoAPMessage_init :: CoAPMessage where
  "CoAPMessage_init =
     \<lparr>msg_version = 1, msg_type = 2, tokenlen = 0, msg_code = 0, msgid = 0, token = replicate 8 0,
      options = [], optdelta = 0, payloadlen = 0, payload = [], msg_handler = 0, user = 0, keep = 0\<rparr>"

text \<open>\<open>mem\<close> says whether the allocation succeeds.\<close>

definition CoAPStrOption_add :: "bool \<Rightarrow> u16 \<Rightarrow> bytes \<Rightarrow> CoAPMessage \<Rightarrow> int \<times> CoAPMessage" where
  "CoAPStrOption_add mem optnum data m =
     (if COAP_MSG_MAX_OPTION_NUM \<le> length (options m) then (COAP_ERROR_INVALID_PARAM, m)
      else if \<not> mem then (COAP_ERROR_MALLOC, m)
      else (COAP_SUCCESS,
            m\<lparr>options := options m @ [\<lparr>opt_num = optnum - ucast (optdelta m), opt_len = of_nat (length data), opt_val = data\<rparr>],
              optdelta := ucast optnum\<rparr>))"

text \<open>The bytes of an unsigned option, most significant first.\<close>

definition uint_bytes :: "u32 \<Rightarrow> bytes" where
  "uint_bytes d =
     (if d = 0 then [] else if d \<le> 255 then [ucast d]
      else if d \<le> 65535 then [ucast (drop_bit 8 (d AND 0xFF00)), ucast (d AND 0x00FF)]
      else [ucast (drop_bit 24 (d AND 0xFF000000)), ucast (drop_bit 16 (d AND 0x00FF0000)),
            ucast (drop_bit 8 (d AND 0x0000FF00)), ucast (d AND 0x000000FF)])"

text \<open>A failed allocation is not reported: the option then has its length and a null value.\<close>

definition CoAPUintOption_add :: "bool \<Rightarrow> u16 \<Rightarrow> u32 \<Rightarrow> CoAPMessage \<Rightarrow> int \<times> CoAPMessage" where
  "CoAPUintOption_add mem optnum d m =
     (if COAP_MSG_MAX_OPTION_NUM \<le> length (options m) then (COAP_ERROR_INVALID_PARAM, m)
      else (COAP_SUCCESS,
            m\<lparr>options := options m @ [\<lparr>opt_num = optnum - ucast (optdelta m),
                   opt_len = of_nat (length (uint_bytes d)), opt_val = (if mem then uint_bytes d else [])\<rparr>],
              optdelta := ucast optnum\<rparr>))"

fun find_option :: "u16 \<Rightarrow> CoAPMsgOption list \<Rightarrow> CoAPMsgOption option" where
  "find_option n [] = None"
| "find_option n (opt # opts) = (if opt_num opt = n then Some opt else find_option n opts)"

text \<open>The code, and the bytes copied to the caller's buffer of \<open>datalen\<close> bytes.\<close>

definition CoAPStrOption_get :: "CoAPMessage \<Rightarrow> u16 \<Rightarrow> u16 \<Rightarrow> (int \<times> bytes) option" where
  "CoAPStrOption_get m optnum datalen =
     (case find_option optnum (options m) of
        None \<Rightarrow> Some (COAP_ERROR_NOT_FOUND, [])
      | Some opt \<Rightarrow>
          if opt_len opt \<le> datalen then
            (if length (opt_val opt) < unat (opt_len opt) then None
             else Some (COAP_SUCCESS, take (unat (opt_len opt)) (opt_val opt)))
          else Some (COAP_ERROR_INVALID_LENGTH, []))"

text \<open>The value read is combined with what \<open>*data\<close> held before.\<close>

definition or_bytes :: "u32 \<Rightarrow> bytes \<Rightarrow> u32" where
  "or_bytes d bs =
     (case bs of
        [a] \<Rightarrow> d OR ucast a
      | [a, b] \<Rightarrow> (d OR push_bit 8 (ucast a)) OR ucast b
      | [a, b, c] \<Rightarrow> ((d OR push_bit 16 (ucast a)) OR push_bit 8 (ucast b)) OR ucast c
      | [a, b, c, e] \<Rightarrow> (((d OR push_bit 24 (ucast a)) OR push_bit 16 (ucast b)) OR push_bit 8 (ucast c)) OR ucast e
      | _ \<Rightarrow> 0)"

definition CoAPUintOption_get :: "CoAPMessage \<Rightarrow> u16 \<Rightarrow> u32 \<Rightarrow> (int \<times> u32) option" where
  "CoAPUintOption_get m optnum d =
     (case find_option optnum (options m) of
        None \<Rightarrow> Some (COAP_ERROR_NOT_FOUND, d)
      | Some opt \<Rightarrow>
          if opt_len opt \<in> {1, 2, 3, 4} \<and> length (opt_val opt) < unat (opt_len opt) then None
          else Some (COAP_SUCCESS,
                     or_bytes d (if opt_len opt \<in> {1, 2, 3, 4} then take (unat (opt_len opt)) (opt_val opt) else [])))"

definition CoAPOption_present :: "CoAPMessage \<Rightarrow> u16 \<Rightarrow> int" where
  "CoAPOption_present m optnum =
     (if find_option optnum (options m) = None then COAP_ERROR_NOT_FOUND else COAP_SUCCESS)"

definition CoAPMessageId_set :: "u16 \<Rightarrow> CoAPMessage \<Rightarrow> int \<times> CoAPMessage" where
  "CoAPMessageId_set i m = (COAP_SUCCESS, m\<lparr>msgid := i\<rparr>)"

definition CoAPMessageType_set :: "u8 \<Rightarrow> CoAPMessage \<Rightarrow> int \<times> CoAPMessage" where
  "CoAPMessageType_set t m =
     (if t \<noteq> 0 \<and> t \<noteq> 1 \<and> t \<noteq> 2 \<and> t \<noteq> 3 then (COAP_ERROR_INVALID_PARAM, m)
      else (COAP_SUCCESS, m\<lparr>msg_type := t\<rparr>))"

definition CoAPMessageCode_set :: "u8 \<Rightarrow> CoAPMessage \<Rightarrow> int \<times> CoAPMessage" where
  "CoAPMessageCode_set c m = (COAP_SUCCESS, m\<lparr>msg_code := c\<rparr>)"

definition CoAPMessageToken_set :: "bytes \<Rightarrow> CoAPMessage \<Rightarrow> int \<times> CoAPMessage" where
  "CoAPMessageToken_set tk m =
     (if COAP_MSG_MAX_TOKEN_LEN < length tk then (COAP_ERROR_INVALID_LENGTH, m)
      else (COAP_SUCCESS, m\<lparr>token := tk @ drop (length tk) (token m), tokenlen := of_nat (length tk)\<rparr>))"

text \<open>\<open>user\<close> is the address of the caller's data, 0 the null pointer.\<close>

definition CoAPMessageUserData_set :: "nat \<Rightarrow> CoAPMessage \<Rightarrow> int \<times> CoAPMessage" where
  "CoAPMessageUserData_set u m =
     (if u = 0 then (COAP_ERROR_NULL, m) else (COAP_SUCCESS, m\<lparr>user := u\<rparr>))"

definition CoAPMessageKeep_Set :: "int \<Rightarrow> CoAPMessage \<Rightarrow> int \<times> CoAPMessage" where
  "CoAPMessageKeep_Set k m = (if k < 0 then (COAP_ERROR_NULL, m) else (COAP_SUCCESS, m\<lparr>keep := k\<rparr>))"

text \<open>\<open>msg_handler\<close> is a callback, 0 the null pointer (server/CoAPMessage.c).\<close>

definition CoAPMessageHandler_set :: "nat \<Rightarrow> CoAPMessage \<Rightarrow> int \<times> CoAPMessage" where
  "CoAPMessageHandler_set h m = (COAP_SUCCESS, m\<lparr>msg_handler := h\<rparr>)"

definition CoAPMessage_destory :: "CoAPMessage \<Rightarrow> int \<times> CoAPMessage" where
  "CoAPMessage_destory m = (COAP_SUCCESS, m\<lparr>options := map (opt_val_update (\<lambda>_. [])) (options m)\<rparr>)"

definition CoAPMessagePayload_set :: "bytes \<Rightarrow> CoAPMessage \<Rightarrow> int \<times> CoAPMessage" where
  "CoAPMessagePayload_set p m = (COAP_SUCCESS, m\<lparr>payload := p, payloadlen := of_nat (length p)\<rparr>)"

subsection \<open>Serialising\<close>

definition header_bytes :: "CoAPMessage \<Rightarrow> bytes" where
  "header_bytes m =
     [(push_bit 6 (msg_version m AND 0x3) OR push_bit 4 (msg_type m AND 0x3)) OR (tokenlen m AND 0x0F),
      msg_code m, ucast (drop_bit 8 (msgid m AND 0xFF00)), ucast (msgid m AND 0x00FF)]"

text \<open>Each part gets the room left and returns the number of bytes written, 0 for none.\<close>

definition CoAPSerialize_Header :: "CoAPMessage \<Rightarrow> wbuf \<Rightarrow> nat \<Rightarrow> (nat \<times> wbuf) option" where
  "CoAPSerialize_Header m w buflen =
     (if buflen < 4 then Some (0, w) else do { w \<leftarrow> wr (header_bytes m) w; Some (4, w) })"

definition CoAPSerialize_Token :: "CoAPMessage \<Rightarrow> wbuf \<Rightarrow> nat \<Rightarrow> (nat \<times> wbuf) option" where
  "CoAPSerialize_Token m w buflen =
     (let n = unat (tokenlen m) in
      if buflen < n then Some (0, w)
      else if length (token m) < n then None
      else do { w \<leftarrow> wr (take n (token m)) w; Some (n, w) })"

definition option_nibble :: "u16 \<Rightarrow> u8" where
  "option_nibble n = (if 269 \<le> n then 14 else if 13 \<le> n then 13 else ucast n)"

definition option_ext :: "u16 \<Rightarrow> bytes" where
  "option_ext n =
     (if 269 \<le> n then [ucast (drop_bit 8 ((n - 269) AND 0xFF00)), ucast ((n - 269) AND 0x00FF)]
      else if 13 \<le> n then [ucast (n - 13)] else [])"

definition CoAPSerialize_Option :: "CoAPMsgOption \<Rightarrow> wbuf \<Rightarrow> (nat \<times> wbuf) option" where
  "CoAPSerialize_Option opt w =
     do { w1 \<leftarrow> wr ([push_bit 4 (option_nibble (opt_num opt)) OR (option_nibble (opt_len opt) AND 0x0F)]
                     @ option_ext (opt_num opt) @ option_ext (opt_len opt)) w;
          w2 \<leftarrow> (if length (opt_val opt) < unat (opt_len opt) then None
                  else wr (take (unat (opt_len opt)) (opt_val opt)) w1);
          Some ((snd w2 - snd w) mod 65536, w2) }"

fun CoAPSerialize_Options :: "CoAPMsgOption list \<Rightarrow> nat \<Rightarrow> wbuf \<Rightarrow> (nat \<times> wbuf) option" where
  "CoAPSerialize_Options [] count w = Some (count, w)"
| "CoAPSerialize_Options (opt # opts) count w =
     do { (len, w') \<leftarrow> CoAPSerialize_Option opt w;
          if 0 < len then CoAPSerialize_Options opts ((count + len) mod 65536) w' else Some (0, w') }"

definition CoAPSerialize_OptionLen :: "CoAPMsgOption \<Rightarrow> nat" where
  "CoAPSerialize_OptionLen opt =
     (1 + (if 269 \<le> opt_num opt then 2 else if 13 \<le> opt_num opt then 1 else 0)
        + (if 269 \<le> opt_len opt then 2 else if 13 \<le> opt_len opt then 1 else 0)
        + unat (opt_len opt)) mod 65536"

fun CoAPSerialize_OptionsLen :: "CoAPMsgOption list \<Rightarrow> nat \<Rightarrow> nat" where
  "CoAPSerialize_OptionsLen [] count = count"
| "CoAPSerialize_OptionsLen (opt # opts) count =
     (if 0 < CoAPSerialize_OptionLen opt
      then CoAPSerialize_OptionsLen opts ((count + CoAPSerialize_OptionLen opt) mod 65536) else 0)"

text \<open>The null payload pointer is the empty list.\<close>

definition CoAPSerialize_Payload :: "CoAPMessage \<Rightarrow> wbuf \<Rightarrow> nat \<Rightarrow> (nat \<times> wbuf) option" where
  "CoAPSerialize_Payload m w buflen =
     (let n = unat (payloadlen m) in
      if buflen < n + 1 then Some (0, w)
      else if 0 < n \<and> payload m \<noteq> [] then
        (if length (payload m) < n then None
         else do { w \<leftarrow> wr (0xFF # take n (payload m)) w; Some ((n + 1) mod 65536, w) })
      else Some (0, w))"

definition CoAPSerialize_MessageLength :: "CoAPMessage \<Rightarrow> nat" where
  "CoAPSerialize_MessageLength m =
     (let n = (4 + unat (tokenlen m) + CoAPSerialize_OptionsLen (options m) 0) mod 65536
      in if 0 < payloadlen m then (n + unat (payloadlen m) + 1) mod 65536 else n)"

text \<open>\<open>remlen\<close> is an unsigned short: it wraps when more is written than was left.\<close>

definition CoAPSerialize_Message :: "CoAPMessage \<Rightarrow> bytes \<Rightarrow> nat \<Rightarrow> (int \<times> bytes) option" where
  "CoAPSerialize_Message m buf buflen =
     (let rem = (\<lambda>r c. (r + 65536 - c) mod 65536) in
      do { (c1, w) \<leftarrow> CoAPSerialize_Header m (buf, 0) buflen;
           (c2, w) \<leftarrow> CoAPSerialize_Token m w (rem buflen c1);
           (c3, w) \<leftarrow> CoAPSerialize_Options (options m) 0 w;
           (c4, w) \<leftarrow> CoAPSerialize_Payload m w (rem (rem (rem buflen c1) c2) c3);
           Some (int buflen - int (rem (rem (rem (rem buflen c1) c2) c3) c4), fst w) })"

subsection \<open>Deserialising\<close>

definition ext_value :: "bytes \<Rightarrow> nat \<Rightarrow> u8 \<Rightarrow> (u16 \<times> nat) option" where
  "ext_value buf q nib =
     (if nib = 13 then do { a \<leftarrow> rd buf q; Some (13 + ucast a, q + 1) }
      else if nib = 14 then do { a \<leftarrow> rd buf q; b \<leftarrow> rd buf (q + 1);
                                 Some (269 + push_bit 8 (ucast a) + ucast b, q + 2) }
      else Some (ucast nib, q))"

text \<open>The option at \<open>p\<close>, with the option number so far, and the bytes it takes.\<close>

definition CoAPDeserialize_Option :: "bytes \<Rightarrow> nat \<Rightarrow> u16 \<Rightarrow> (CoAPMsgOption \<times> u16 \<times> nat) option" where
  "CoAPDeserialize_Option buf p predelta =
     do { b \<leftarrow> rd buf p;
          (d, q) \<leftarrow> ext_value buf (p + 1) (drop_bit 4 (b AND 0xF0));
          (len, q) \<leftarrow> ext_value buf q (b AND 0x0F);
          Some (\<lparr>opt_num = predelta + d, opt_len = len, opt_val = drop q buf\<rparr>, predelta + d,
                q - p + unat len) }"

text \<open>
  The loop over the options; \<open>k\<close> slots of the array are left. A message with more options is
  stored past the array.
\<close>

fun CoAPDeserialize_Options ::
    "bytes \<Rightarrow> int \<Rightarrow> nat \<Rightarrow> nat \<Rightarrow> int \<Rightarrow> u16 \<Rightarrow> CoAPMsgOption list \<Rightarrow> (CoAPMsgOption list \<times> nat) option" where
  "CoAPDeserialize_Options buf buflen 0 p count pre acc =
     (if count < buflen
      then do { c \<leftarrow> rd buf p; if c \<noteq> 0xFF then None else Some (acc, p) }
      else Some (acc, p))"
| "CoAPDeserialize_Options buf buflen (Suc k) p count pre acc =
     (if count < buflen
      then do { c \<leftarrow> rd buf p;
                if c \<noteq> 0xFF
                then do { (opt, pre, n) \<leftarrow> CoAPDeserialize_Option buf p pre;
                          let len = n mod 65536 in
                          CoAPDeserialize_Options buf buflen k (p + len) (count + int len) pre (acc @ [opt]) }
                else Some (acc, p) }
      else Some (acc, p))"

text \<open>Each part starts at \<open>p\<close> of the receive buffer and returns the bytes it took.\<close>

definition CoAPDeserialize_Header :: "CoAPMessage \<Rightarrow> bytes \<Rightarrow> nat \<Rightarrow> (nat \<times> CoAPMessage) option" where
  "CoAPDeserialize_Header m buf p =
     do { b0 \<leftarrow> rd buf p; b1 \<leftarrow> rd buf (p + 1); b2 \<leftarrow> rd buf (p + 2); b3 \<leftarrow> rd buf (p + 3);
          Some (4, m\<lparr>msg_version := drop_bit 6 b0 AND 0x03, msg_type := drop_bit 4 b0 AND 0x03,
                    tokenlen := b0 AND 0x0F, msg_code := b1,
                    msgid := push_bit 8 (ucast b2) + ucast b3\<rparr>) }"

definition CoAPDeserialize_Token :: "CoAPMessage \<Rightarrow> bytes \<Rightarrow> nat \<Rightarrow> (nat \<times> CoAPMessage) option" where
  "CoAPDeserialize_Token m buf p =
     (let n = unat (tokenlen m) in
      if COAP_MSG_MAX_TOKEN_LEN < n \<or> length buf < p + n then None
      else Some (n, m\<lparr>token := take n (drop p buf) @ drop n (token m)\<rparr>))"

definition CoAPDeserialize_Payload :: "CoAPMessage \<Rightarrow> bytes \<Rightarrow> nat \<Rightarrow> int \<Rightarrow> (int \<times> CoAPMessage) option" where
  "CoAPDeserialize_Payload m buf p buflen =
     do { c \<leftarrow> rd buf p;
          if c = 0xFF
          then Some (buflen, m\<lparr>payloadlen := word_of_int (buflen - 1), payload := drop (p + 1) buf\<rparr>)
          else Some (0, m) }"

text \<open>\<open>buf\<close> is the receive buffer, \<open>buflen\<close> the length of the datagram in it.\<close>

definition CoAPDeserialize_Message :: "CoAPMessage \<Rightarrow> bytes \<Rightarrow> int \<Rightarrow> (int \<times> CoAPMessage) option" where
  "CoAPDeserialize_Message m buf buflen =
     (if buflen < 4 then Some (COAP_ERROR_INVALID_LENGTH, m)
      else
        do { (c1, m) \<leftarrow> CoAPDeserialize_Header m buf 0;
             (c2, m) \<leftarrow> CoAPDeserialize_Token m buf c1;
             (opts, p) \<leftarrow> CoAPDeserialize_Options buf (buflen - int c1 - int c2) COAP_MSG_MAX_OPTION_NUM (c1 + c2) 0 0 [];
             (_, m) \<leftarrow> CoAPDeserialize_Payload (m\<lparr>options := opts\<rparr>) buf p (buflen - int p);
             Some (COAP_SUCCESS, m) })"

lemmas deserialize_parts = CoAPDeserialize_Header_def CoAPDeserialize_Token_def CoAPDeserialize_Payload_def

subsection \<open>One option\<close>

lemma nibble_cases:
  obtains (small) "n < 13" "option_nibble n = ucast n" "option_ext n = []"
  | (byte) "13 \<le> n" "n < 269" "option_nibble n = 13" "option_ext n = [ucast (n - 13)]"
  | (short) "269 \<le> n" "option_nibble n = 14"
      "option_ext n = [ucast (drop_bit 8 ((n - 269) AND 0xFF00)), ucast ((n - 269) AND 0x00FF)]"
proof (cases "269 \<le> n")
  case True
  then show ?thesis by (intro short) (simp_all add: option_nibble_def option_ext_def)
next
  case False
  then show ?thesis
    by (cases "13 \<le> n") (auto intro: small byte simp: option_nibble_def option_ext_def)
qed

lemma join_bytes16: "push_bit 8 (ucast (ucast (drop_bit 8 ((x :: u16) AND 0xFF00)) :: u8)) + ucast (ucast (x AND 0x00FF) :: u8) = x"
proof -
  let ?h = "push_bit 8 (ucast (ucast (drop_bit 8 (x AND 0xFF00)) :: u8)) :: u16"
  let ?l = "ucast (ucast (x AND 0x00FF) :: u8) :: u16"
  have m: "(0xFF00 :: u16) = push_bit 8 (mask 8)" "(0x00FF :: u16) = mask 8" by (simp_all add: mask_eq_decr_exp)
  have "?h + ?l = ?h OR ?l"
    by (rule disjunctive_add) (auto simp: bit_simps m)
  also have "\<dots> = x"
    unfolding m by (rule bit_word_eqI) (auto simp: bit_simps)
  finally show ?thesis .
qed

lemma ucast_u8_u16_less: "(n :: u16) < 256 \<Longrightarrow> ucast (ucast n :: u8) = n"
  by (simp add: word_uint_eq_iff unsigned_ucast_eq unsigned_take_bit_eq word_less_def take_bit_int_eq_self)

lemma ext_value_option_ext:
  "ext_value (xs @ option_ext n @ ys) (length xs) (option_nibble n) = Some (n, length xs + length (option_ext n))"
proof (cases n rule: nibble_cases)
  case small
  have "n < 256" by (rule order.strict_trans [OF small(1)]) simp
  then have u: "ucast (ucast n :: u8) = n" by (rule ucast_u8_u16_less)
  moreover have "ucast n \<noteq> (13 :: u8)" "ucast n \<noteq> (14 :: u8)" using u small(1) by auto
  ultimately show ?thesis using small by (simp add: ext_value_def)
next
  case byte
  have "n - 13 < 256"
    using byte(1,2) by (simp add: word_less_nat_alt word_le_nat_alt unat_sub)
  then have "ucast (ucast (n - 13) :: u8) = n - 13" by (rule ucast_u8_u16_less)
  with byte show ?thesis by (simp add: ext_value_def)
next
  case short
  then show ?thesis using join_bytes16 [of "n - 269"] rd_append_plus [of xs _ 1]
    by (simp add: ext_value_def add.assoc)
qed

lemma nibble_less: "option_nibble n < 15"
proof (cases n rule: nibble_cases)
  case small
  have "unat n < 13" using small(1) by (simp add: word_less_nat_alt)
  then have "unat (ucast n :: u8) < 13" by (simp add: unsigned_ucast_eq take_bit_nat_eq_self)
  then show ?thesis using small by (simp add: word_less_nat_alt)
qed simp_all

lemma bits_of_nibble: "(a :: u8) < 16 \<Longrightarrow> bit a k \<Longrightarrow> k < 4"
proof -
  assume "a < 16" "bit a k"
  then have "take_bit 4 a = a"
    by (simp add: word_uint_eq_iff unsigned_take_bit_eq word_less_def take_bit_int_eq_self)
  then have "bit (take_bit 4 a) k" using \<open>bit a k\<close> by simp
  then show ?thesis by (simp add: bit_simps)
qed

lemma nibbles_split:
  assumes "a < 15" "b < 15"
  shows "drop_bit 4 ((push_bit 4 a OR (b AND 0x0F)) AND 0xF0) = (a :: u8)" "(push_bit 4 a OR (b AND 0x0F)) AND 0x0F = (b :: u8)"
    "push_bit 4 a OR (b AND 0x0F) \<noteq> 0xFF"
proof -
  have "a < 16" "b < 16" using assms by (auto intro: order.strict_trans)
  then have ab: "bit a k \<Longrightarrow> k < 4" "bit b k \<Longrightarrow> k < 4" for k using bits_of_nibble by blast+
  have m: "(0xF0 :: u8) = push_bit 4 (mask 4)" "(0x0F :: u8) = mask 4" by (simp_all add: mask_eq_decr_exp)
  show 1: "drop_bit 4 ((push_bit 4 a OR (b AND 0x0F)) AND 0xF0) = a"
    unfolding m by (rule bit_word_eqI) (auto simp: bit_simps dest: ab)
  show "(push_bit 4 a OR (b AND 0x0F)) AND 0x0F = b"
    unfolding m by (rule bit_word_eqI) (auto simp: bit_simps dest: ab)
  show "push_bit 4 a OR (b AND 0x0F) \<noteq> 0xFF"
  proof
    assume "push_bit 4 a OR (b AND 0x0F) = 0xFF"
    with 1 have "a = 15" by simp
    with assms show False by simp
  qed
qed

subsection \<open>Whole messages\<close>

definition option_bytes :: "CoAPMsgOption \<Rightarrow> bytes" where
  "option_bytes opt =
     [push_bit 4 (option_nibble (opt_num opt)) OR (option_nibble (opt_len opt) AND 0x0F)]
     @ option_ext (opt_num opt) @ option_ext (opt_len opt) @ take (unat (opt_len opt)) (opt_val opt)"

definition opt_ok :: "CoAPMsgOption \<Rightarrow> bool" where
  "opt_ok opt \<longleftrightarrow> unat (opt_len opt) \<le> length (opt_val opt)"

definition options_bytes :: "CoAPMsgOption list \<Rightarrow> bytes" where
  "options_bytes opts = concat (map option_bytes opts)"

lemma options_bytes_simps [simp]:
  "options_bytes [] = []" "options_bytes (opt # opts) = option_bytes opt @ options_bytes opts"
  by (simp_all add: options_bytes_def)

lemma option_bytes_pos: "0 < length (option_bytes opt)"
  by (simp add: option_bytes_def)

lemma serialize_option:
  assumes "opt_ok opt" "has_room (length (option_bytes opt)) w"
  shows "CoAPSerialize_Option opt w = Some (length (option_bytes opt) mod 65536, put (option_bytes opt) w)"
proof -
  let ?h = "[push_bit 4 (option_nibble (opt_num opt)) OR (option_nibble (opt_len opt) AND 0x0F)]
     @ option_ext (opt_num opt) @ option_ext (opt_len opt)"
  let ?v = "take (unat (opt_len opt)) (opt_val opt)"
  have b: "option_bytes opt = ?h @ ?v" by (simp add: option_bytes_def)
  have r: "has_room (length ?h + length ?v) w" using assms(2) by (simp add: b add.assoc)
  then have 1: "wr ?h w = Some (put ?h w)" by (intro wr_put) (erule has_room_less, simp)
  have 2: "wr ?v (put ?h w) = Some (put (option_bytes opt) w)"
    using r by (simp add: wr_put has_room_put put_put b)
  have v: "\<not> length (opt_val opt) < unat (opt_len opt)" using assms(1) by (simp add: opt_ok_def)
  show ?thesis unfolding CoAPSerialize_Option_def 1 bind.bind_lunit if_not_P [OF v] 2 by simp
qed

lemma serialize_options:
  assumes "list_all opt_ok opts" "has_room (length (options_bytes opts)) w" "c + length (options_bytes opts) < 65536"
  shows "CoAPSerialize_Options opts c w = Some (c + length (options_bytes opts), put (options_bytes opts) w)"
  using assms
proof (induction opts arbitrary: c w)
  case Nil
  then show ?case by (simp add: put_nil)
next
  case (Cons opt opts)
  have "has_room (length (option_bytes opt)) w" using Cons.prems(2) by (auto intro: has_room_less)
  then have s: "CoAPSerialize_Option opt w = Some (length (option_bytes opt), put (option_bytes opt) w)"
    using serialize_option [of opt w] Cons.prems by simp
  have "CoAPSerialize_Options opts (c + length (option_bytes opt)) (put (option_bytes opt) w) =
      Some (c + length (option_bytes opt) + length (options_bytes opts), put (options_bytes opts) (put (option_bytes opt) w))"
    using Cons.prems by (intro Cons.IH) (auto intro!: has_room_put)
  then show ?case using s Cons.prems option_bytes_pos [of opt] by (simp add: put_put add.assoc)
qed

lemma option_len: "opt_ok opt \<Longrightarrow> CoAPSerialize_OptionLen opt = length (option_bytes opt) mod 65536"
  by (auto simp: CoAPSerialize_OptionLen_def option_bytes_def option_ext_def opt_ok_def)

lemma options_len:
  "list_all opt_ok opts \<Longrightarrow> c + length (options_bytes opts) < 65536 \<Longrightarrow>
   CoAPSerialize_OptionsLen opts c = c + length (options_bytes opts)"
proof (induction opts arbitrary: c)
  case (Cons opt opts)
  then show ?case using option_len [of opt] option_bytes_pos [of opt] by (simp add: add.assoc)
qed simp

definition payload_bytes :: "CoAPMessage \<Rightarrow> bytes" where
  "payload_bytes m = (if payloadlen m = 0 then [] else 0xFF # take (unat (payloadlen m)) (payload m))"

definition message_bytes :: "CoAPMessage \<Rightarrow> bytes" where
  "message_bytes m = header_bytes m @ take (unat (tokenlen m)) (token m) @ options_bytes (options m) @ payload_bytes m"

definition msg_ok :: "CoAPMessage \<Rightarrow> bool" where
  "msg_ok m \<longleftrightarrow> msg_version m < 4 \<and> msg_type m < 4 \<and> tokenlen m \<le> 8 \<and> length (token m) = 8 \<and>
     length (options m) \<le> 12 \<and> list_all opt_ok (options m) \<and> unat (payloadlen m) \<le> length (payload m) \<and>
     length (message_bytes m) < 65536"

lemma message_length:
  assumes "msg_ok m" shows "CoAPSerialize_MessageLength m = length (message_bytes m)"
proof -
  have t: "unat (tokenlen m) \<le> 8" using assms by (simp add: msg_ok_def word_le_nat_alt)
  have "length (message_bytes m) = 4 + unat (tokenlen m) + length (options_bytes (options m)) +
      (if payloadlen m = 0 then 0 else 1 + unat (payloadlen m))"
    using assms t by (simp add: message_bytes_def header_bytes_def payload_bytes_def msg_ok_def)
  moreover have "0 < payloadlen m \<longleftrightarrow> payloadlen m \<noteq> 0" by (simp add: word_gt_0)
  ultimately show ?thesis
    using assms options_len [of "options m" 0] by (auto simp: CoAPSerialize_MessageLength_def msg_ok_def Let_def)
qed

lemma rem_wrap:
  assumes "c \<le> r" "r < (65536 :: nat)" shows "(r + 65536 - c) mod 65536 = r - c"
proof -
  have e: "r + 65536 - c = (r - c) + 65536" using assms(1) by simp
  have "r - c < 65536" using assms(2) by simp
  then show ?thesis unfolding e mod_add_self2 by (rule mod_less)
qed

lemma message_written:
  assumes "msg_ok m" "length (message_bytes m) \<le> length buf" "length buf < 65536"
  shows "CoAPSerialize_Message m buf (length buf) =
     Some (int (length (message_bytes m)), message_bytes m @ drop (length (message_bytes m)) buf)"
proof -
  let ?h = "header_bytes m" and ?t = "take (unat (tokenlen m)) (token m)"
    and ?o = "options_bytes (options m)" and ?p = "payload_bytes m"
  let ?w0 = "(buf, 0) :: wbuf"
  have t: "unat (tokenlen m) \<le> 8" "length ?t = unat (tokenlen m)"
    using assms(1) by (simp_all add: msg_ok_def word_le_nat_alt)
  have h: "length ?h = 4" by (simp add: header_bytes_def)
  have pl: "length ?p = (if payloadlen m = 0 then 0 else unat (payloadlen m) + 1)"
    using assms(1) by (simp add: payload_bytes_def msg_ok_def)
  have L: "length (message_bytes m) = 4 + unat (tokenlen m) + length ?o + length ?p"
    using t by (simp add: message_bytes_def h)
  have room: "has_room (length ?h + (length ?t + (length ?o + length ?p))) ?w0"
    using assms(2) t h by (simp add: has_room_def L)
  have r1: "has_room (length ?h) ?w0" using room by (rule has_room_less) simp
  have r2: "has_room (length ?t + (length ?o + length ?p)) (put ?h ?w0)" using room by (rule has_room_put)
  have r2': "has_room (length ?t) (put ?h ?w0)" using r2 by (rule has_room_less) simp
  have r3: "has_room (length ?o + length ?p) (put ?t (put ?h ?w0))" using r2 by (rule has_room_put)
  have r3': "has_room (length ?o) (put ?t (put ?h ?w0))" using r3 by (rule has_room_less) simp
  have r4: "has_room (length ?p) (put ?o (put ?t (put ?h ?w0)))" using r3 by (rule has_room_put)
  have H: "CoAPSerialize_Header m ?w0 (length buf) = Some (4, put ?h ?w0)"
    using assms(2) L wr_put [OF r1] by (simp add: CoAPSerialize_Header_def)
  have m1: "(length buf + 65536 - 4) mod 65536 = length buf - 4"
    using assms(2,3) L by (intro rem_wrap) simp_all
  have T: "CoAPSerialize_Token m (put ?h ?w0) (length buf - 4) = Some (unat (tokenlen m), put ?t (put ?h ?w0))"
    using assms(1,2) L t wr_put [OF r2'] by (simp add: CoAPSerialize_Token_def msg_ok_def Let_def)
  have O: "CoAPSerialize_Options (options m) 0 (put ?t (put ?h ?w0)) = Some (length ?o, put ?o (put ?t (put ?h ?w0)))"
    using serialize_options [OF _ r3', of 0] assms L by (simp add: msg_ok_def)
  let ?rem = "length buf - 4 - unat (tokenlen m) - length ?o"
  have P: "CoAPSerialize_Payload m (put ?o (put ?t (put ?h ?w0))) ?rem =
      Some (length ?p, put ?p (put ?o (put ?t (put ?h ?w0))))"
  proof (cases "payloadlen m = 0")
    case True
    then have "?p = []" by (simp add: payload_bytes_def)
    with r4 True show ?thesis by (simp add: CoAPSerialize_Payload_def put_nil)
  next
    case False
    have "0 < unat (payloadlen m)" using False by (simp add: unat_gt_0)
    moreover have "unat (payloadlen m) + 1 \<le> ?rem" using assms(2) L pl False by simp
    moreover have "wr ?p (put ?o (put ?t (put ?h ?w0))) = Some (put ?p (put ?o (put ?t (put ?h ?w0))))"
      using r4 by (rule wr_put)
    moreover have "payload m \<noteq> []" using assms(1) False by (auto simp: msg_ok_def unat_eq_0)
    ultimately show ?thesis using assms L pl False
      by (simp add: CoAPSerialize_Payload_def Let_def payload_bytes_def msg_ok_def)
  qed
  have m2: "(length buf - 4 + 65536 - unat (tokenlen m)) mod 65536 = length buf - 4 - unat (tokenlen m)"
    "(length buf - 4 - unat (tokenlen m) + 65536 - length ?o) mod 65536 = ?rem"
    "(?rem + 65536 - length ?p) mod 65536 = ?rem - length ?p"
    using assms(2,3) L by (intro rem_wrap; simp)+
  have all: "put ?p (put ?o (put ?t (put ?h ?w0))) = put (message_bytes m) ?w0"
    using room r2 r3 by (simp add: put_put message_bytes_def has_room_less)
  show ?thesis
    unfolding CoAPSerialize_Message_def Let_def H bind.bind_lunit prod.case m1 T m2(1) O m2(2) P m2(3) all
    using assms(2) L by (simp add: put_start)
qed

end
