(* ===== verification/HashStream.thy ===== *)
theory HashStream
  imports ByteBuf
begin

text \<open>
  What the hash functions of linkkit/infra (infra_md5.c, infra_sha1.c, infra_sha256.c) share: the
  context, the update that collects a message in blocks of 64 bytes, and the padding of the last
  block. The three files repeat this code with another compression function, which is the
  parameter \<open>P\<close> here. A message is the list of its bytes; its length is below \<open>2 ^ 32\<close>, the range
  of \<open>ilen\<close>.
\<close>

subsection \<open>Words and bytes\<close>

definition GET_UINT32_BE :: "bytes \<Rightarrow> nat \<Rightarrow> u32" where
  "GET_UINT32_BE b i =
     ((push_bit 24 (ucast (b ! i)) OR push_bit 16 (ucast (b ! (i + 1))))
       OR push_bit 8 (ucast (b ! (i + 2)))) OR ucast (b ! (i + 3))"

definition PUT_UINT32_BE :: "u32 \<Rightarrow> bytes" where
  "PUT_UINT32_BE n = [ucast (drop_bit 24 n), ucast (drop_bit 16 n), ucast (drop_bit 8 n), ucast n]"

definition IOT_MD5_GET_UINT32_LE :: "bytes \<Rightarrow> nat \<Rightarrow> u32" where
  "IOT_MD5_GET_UINT32_LE b i =
     ((ucast (b ! i) OR push_bit 8 (ucast (b ! (i + 1))))
       OR push_bit 16 (ucast (b ! (i + 2)))) OR push_bit 24 (ucast (b ! (i + 3)))"

definition IOT_MD5_PUT_UINT32_LE :: "u32 \<Rightarrow> bytes" where
  "IOT_MD5_PUT_UINT32_LE n =
     [ucast (n AND 0xFF), ucast (drop_bit 8 n AND 0xFF), ucast (drop_bit 16 n AND 0xFF), ucast (drop_bit 24 n AND 0xFF)]"

lemma length_put [simp]: "length (PUT_UINT32_BE n) = 4" "length (IOT_MD5_PUT_UINT32_LE n) = 4"
  by (simp_all add: PUT_UINT32_BE_def IOT_MD5_PUT_UINT32_LE_def)

subsection \<open>The context and the update\<close>

record hash_ctx =
  total0 :: u32
  total1 :: u32
  hstate :: "u32 list"
  hbuffer :: bytes

text \<open>The loop over the whole blocks of the input: the new state and the bytes left over.\<close>

fun hash_blocks :: "(u32 list \<Rightarrow> bytes \<Rightarrow> u32 list) \<Rightarrow> u32 list \<Rightarrow> bytes \<Rightarrow> u32 list \<times> bytes" where
  "hash_blocks P st input =
     (if 64 \<le> length input then hash_blocks P (P st (take 64 input)) (drop 64 input)
      else (st, input))"

declare hash_blocks.simps [simp del]

definition hash_update ::
    "(u32 list \<Rightarrow> bytes \<Rightarrow> u32 list) \<Rightarrow> bytes \<Rightarrow> 'a hash_ctx_scheme \<Rightarrow> 'a hash_ctx_scheme" where
  "hash_update P input ctx =
     (if input = [] then ctx
      else
        let ilen = word_of_nat (length input);
            left = unat (total0 ctx AND 0x3F);
            fill = 64 - left;
            t0 = total0 ctx + ilen;
            t1 = (if t0 < ilen then total1 ctx + 1 else total1 ctx);
            full = (left \<noteq> 0 \<and> fill \<le> length input);
            buf = (if full then take left (hbuffer ctx) @ take fill input else hbuffer ctx);
            st = (if full then P (hstate ctx) buf else hstate ctx);
            left' = (if full then 0 else left);
            (st', rest) = hash_blocks P st (if full then drop fill input else input)
        in ctx\<lparr>total0 := t0, total1 := t1, hstate := st',
               hbuffer := (if rest = [] then buf
                           else take left' buf @ rest @ drop (left' + length rest) buf)\<rparr>)"

text \<open>\<open>msglen\<close> lays out the two halves of the length in bits, high and low.\<close>

definition hash_finish ::
    "(u32 list \<Rightarrow> bytes \<Rightarrow> u32 list) \<Rightarrow> (u32 \<Rightarrow> u32 \<Rightarrow> bytes) \<Rightarrow> 'a hash_ctx_scheme \<Rightarrow> 'a hash_ctx_scheme" where
  "hash_finish P msglen ctx =
     (let high = drop_bit 29 (total0 ctx) OR push_bit 3 (total1 ctx);
          low = push_bit 3 (total0 ctx);
          last = unat (total0 ctx AND 0x3F);
          padn = (if last < 56 then 56 - last else 120 - last)
      in hash_update P (msglen high low) (hash_update P (take padn (0x80 # replicate 63 0)) ctx))"

text \<open>The key of an HMAC, filled up with zeros to 64 bytes and combined with a constant.\<close>

definition key_pad :: "u8 \<Rightarrow> bytes \<Rightarrow> bytes" where
  "key_pad c key = map (\<lambda>b. b XOR c) (key @ replicate (64 - length key) 0)"

text \<open>The hexadecimal digits of a byte (\<open>utils_hb2hex\<close>), high digit first.\<close>

definition utils_hb2hex :: "u8 \<Rightarrow> u8" where
  "utils_hb2hex hb = (let h = hb AND 0xF in if h < 10 then 0x30 + h else h - 10 + 0x61)"

definition hex_digest :: "bytes \<Rightarrow> bytes" where
  "hex_digest out = concat (map (\<lambda>b. [utils_hb2hex (drop_bit 4 b), utils_hb2hex b]) out)"

subsection \<open>Blocks of a message\<close>

lemma hash_blocks_short: "length xs < 64 \<Longrightarrow> hash_blocks P st xs = (st, xs)"
  by (subst hash_blocks.simps) simp

lemma hash_blocks_step: "64 \<le> length xs \<Longrightarrow> hash_blocks P st xs = hash_blocks P (P st (take 64 xs)) (drop 64 xs)"
  by (subst hash_blocks.simps) simp

lemma hash_blocks_append:
  "hash_blocks P st (xs @ ys) = (let (s, r) = hash_blocks P st xs in hash_blocks P s (r @ ys))"
proof (induction P st xs rule: hash_blocks.induct)
  case (1 P st xs)
  show ?case
  proof (cases "64 \<le> length xs")
    case True
    then show ?thesis using 1 by (simp add: hash_blocks_step [of xs] hash_blocks_step [of "xs @ ys"])
  next
    case False
    then show ?thesis by (simp add: hash_blocks_short)
  qed
qed

lemma hash_blocks_rest: "length (snd (hash_blocks P st xs)) = length xs mod 64"
proof (induction P st xs rule: hash_blocks.induct)
  case (1 P st xs)
  then show ?case
    by (cases "64 \<le> length xs") (simp_all add: hash_blocks_step [of xs] hash_blocks_short le_mod_geq)
qed

subsection \<open>What a context represents\<close>

definition hash_repr :: "(u32 list \<Rightarrow> bytes \<Rightarrow> u32 list) \<Rightarrow> u32 list \<Rightarrow> bytes \<Rightarrow> 'a hash_ctx_scheme \<Rightarrow> bool" where
  "hash_repr P iv m ctx \<longleftrightarrow>
     total0 ctx = word_of_nat (length m) \<and> total1 ctx = word_of_nat (length m div 2 ^ 32) \<and>
     length (hbuffer ctx) = 64 \<and>
     hstate ctx = fst (hash_blocks P iv m) \<and>
     take (length m mod 64) (hbuffer ctx) = snd (hash_blocks P iv m)"

lemma and_63: "unat ((w :: u32) AND 0x3F) = unat w mod 64"
proof -
  have "(0x3F :: u32) = mask 6" by (simp add: mask_eq_decr_exp)
  then have "w AND 0x3F = take_bit 6 w" by (simp only: take_bit_eq_mask)
  then show ?thesis by (simp add: unsigned_take_bit_eq take_bit_nat_def)
qed

lemma left_of_length: "unat (word_of_nat n AND 0x3F :: u32) = n mod 64"
  by (simp add: and_63 unsigned_of_nat take_bit_nat_def mod_mod_cancel)

lemma carry:
  assumes "x < 2 ^ 32"
  shows "(word_of_nat n + word_of_nat x < (word_of_nat x :: u32)) = (2 ^ 32 \<le> n mod 2 ^ 32 + x)"
    "(n + x) div 2 ^ 32 = n div 2 ^ 32 + (if 2 ^ 32 \<le> n mod 2 ^ 32 + x then 1 else 0)"
proof -
  let ?M = "2 ^ 32 :: nat"
  have u: "unat (word_of_nat n + word_of_nat x :: u32) = (n mod ?M + x) mod ?M" "unat (word_of_nat x :: u32) = x"
    using assms by (simp_all add: unat_word_ariths unsigned_of_nat take_bit_nat_def mod_simps)
  have m: "n mod ?M < ?M" by simp
  show "(word_of_nat n + word_of_nat x < (word_of_nat x :: u32)) = (?M \<le> n mod ?M + x)"
  proof (cases "?M \<le> n mod ?M + x")
    case True
    then have "(n mod ?M + x) mod ?M = n mod ?M + x - ?M" using assms m by (simp add: le_mod_geq)
    then show ?thesis using True m by (simp add: word_less_nat_alt u del: unat_of_nat)
  next
    case False
    then show ?thesis by (simp add: word_less_nat_alt u del: unat_of_nat)
  qed
  have "(n + x) div ?M = (n div ?M * ?M + (n mod ?M + x)) div ?M" by simp
  also have "\<dots> = n div ?M + (n mod ?M + x) div ?M" 
    by (rule div_mult_self3) simp
  also have "(n mod ?M + x) div ?M = (if ?M \<le> n mod ?M + x then 1 else 0)"
    using assms m by (auto simp: div_eq_0_iff le_div_geq)
  finally show "(n + x) div ?M = n div ?M + (if ?M \<le> n mod ?M + x then 1 else 0)" .
qed

lemma hash_blocks_split: "length xs = 64 \<Longrightarrow> hash_blocks P st (xs @ ys) = hash_blocks P (P st xs) ys"
  by (simp add: hash_blocks_step)

lemma hash_update_repr:
  assumes r: "hash_repr P iv m ctx" and x: "length x < 2 ^ 32"
  shows "hash_repr P iv (m @ x) (hash_update P x ctx)"
proof (cases "x = []")
  case True
  then show ?thesis using r by (simp add: hash_update_def)
next
  case False
  obtain s t where b: "hash_blocks P iv m = (s, t)" by fastforce
  let ?n = "length m" and ?left = "length m mod 64"
  have t: "length t = ?left" using hash_blocks_rest [of P iv m] by (simp add: b)
  have c: "total0 ctx = word_of_nat ?n" "total1 ctx = word_of_nat (?n div 2 ^ 32)" "length (hbuffer ctx) = 64"
    "hstate ctx = s" "take ?left (hbuffer ctx) = t"
    using r by (simp_all add: hash_repr_def b)
  let ?full = "?left \<noteq> 0 \<and> 64 - ?left \<le> length x"
  define buf where "buf = (if ?full then t @ take (64 - ?left) x else hbuffer ctx)"
  define st where "st = (if ?full then P s buf else s)"
  define inp where "inp = (if ?full then drop (64 - ?left) x else x)"
  define left' where "left' = (if ?full then 0 else ?left)"
  obtain st' rest where b': "hash_blocks P st inp = (st', rest)" by fastforce
  have blen: "length buf = 64" using t c(3) by (simp add: buf_def)
  have upd: "hash_update P x ctx = ctx\<lparr>total0 := word_of_nat (?n + length x), total1 := word_of_nat ((?n + length x) div 2 ^ 32),
      hstate := st', hbuffer := (if rest = [] then buf else take left' buf @ rest @ drop (left' + length rest) buf)\<rparr>"
  proof -
    have t0: "word_of_nat ?n + word_of_nat (length x) = (word_of_nat (?n + length x) :: u32)" by simp
    have t1: "(if word_of_nat (?n + length x) < (word_of_nat (length x) :: u32)
        then word_of_nat (?n div 2 ^ 32) + 1 else word_of_nat (?n div 2 ^ 32)) = (word_of_nat ((?n + length x) div 2 ^ 32) :: u32)"
      unfolding t0 [symmetric] carry [OF x] by simp
    show ?thesis
      unfolding hash_update_def Let_def left_of_length c if_not_P [OF False] t1 t0
        buf_def [symmetric] st_def [symmetric] inp_def [symmetric] left'_def [symmetric] b' prod.case
      by (rule refl)
  qed
  have mx: "hash_blocks P iv (m @ x) = hash_blocks P s (t @ x)" using hash_blocks_append [of P iv m x] by (simp add: b)
  have main: "hash_blocks P iv (m @ x) = (st', take ((?n + length x) mod 64)
      (if rest = [] then buf else take left' buf @ rest @ drop (left' + length rest) buf))"
  proof (cases "?full \<or> ?left = 0")
    case True
    have all: "hash_blocks P iv (m @ x) = (st', rest)"
    proof (cases ?full)
      case full: True
      have "t @ x = buf @ inp" using full by (simp add: buf_def inp_def)
      moreover have "st = P s buf" using full by (simp add: st_def)
      ultimately show ?thesis using b' hash_blocks_split [OF blen, of P s inp] by (simp add: mx)
    next
      case False
      then have "t = []" using True t by auto
      moreover have "inp = x" "st = s" using False by (simp_all only: inp_def st_def if_False)
      ultimately show ?thesis using b' by (simp add: mx)
    qed
    have "left' = 0" using True by (auto simp: left'_def)
    moreover have lr: "(?n + length x) mod 64 = length rest" using hash_blocks_rest [of P iv "m @ x"] by (simp add: all)
    ultimately show ?thesis unfolding lr using all by simp
  next
    case False
    then have nf: "\<not> ?full" "?left \<noteq> 0" "length x < 64 - ?left" by auto
    have e: "inp = x" "st = s" "buf = hbuffer ctx" "left' = ?left"
      using nf(1) by (simp_all only: inp_def st_def buf_def left'_def if_False)
    have sh: "length x < 64" using nf by simp
    have rx: "rest = x" "st' = s" using b' sh by (simp_all add: e hash_blocks_short)
    have "hash_blocks P iv (m @ x) = (s, t @ x)"
      using nf t by (simp add: mx hash_blocks_short)
    moreover have "(?n + length x) mod 64 = length (t @ x)"
      using hash_blocks_rest [of P iv "m @ x"] calculation by simp
    ultimately show ?thesis using \<open>x \<noteq> []\<close> c(5) by (simp add: rx e)
  qed
  have "length (if rest = [] then buf else take left' buf @ rest @ drop (left' + length rest) buf) = 64"
  proof -
    have "left' + length rest \<le> 64"
    proof (cases "?full \<or> ?left = 0")
      case True
      have "length rest < 64" using hash_blocks_rest [of P st inp] by (simp add: b')
      moreover have "left' = 0" using True by (auto simp: left'_def)
      ultimately show ?thesis by simp
    next
      case False
      then have nf: "\<not> ?full" "length x < 64 - ?left" by auto
      have "inp = x" using nf(1) by (simp only: inp_def if_False)
      moreover have "left' = ?left" using nf(1) by (simp only: left'_def if_False)
      ultimately show ?thesis using nf b' by (simp add: hash_blocks_short)
    qed
    then show ?thesis using blen by simp
  qed
  then show ?thesis unfolding hash_repr_def upd using main by simp
qed

text \<open>Any way of cutting a message into pieces leads to a context that represents the whole.\<close>

lemma hash_updates_repr:
  "hash_repr P iv m ctx \<Longrightarrow> list_all (\<lambda>x. length x < 2 ^ 32) xs \<Longrightarrow>
   hash_repr P iv (m @ concat xs) (fold (hash_update P) xs ctx)"
  by (induction xs arbitrary: m ctx) (simp_all add: hash_update_repr flip: append_assoc)

subsection \<open>The padding of the standards\<close>

text \<open>
  The message, the bit 1, as many zeros as are needed, and the length in bits: the last block is
  then full.
\<close>

definition padded :: "(u32 \<Rightarrow> u32 \<Rightarrow> bytes) \<Rightarrow> bytes \<Rightarrow> bytes" where
  "padded msglen m =
     m @ [0x80] @ replicate ((119 - length m mod 64) mod 64) 0 @
     msglen (word_of_nat (8 * length m div 2 ^ 32)) (word_of_nat (8 * length m))"

lemma padded_full: "(\<And>h l. length (msglen h l) = 8) \<Longrightarrow> length (padded msglen m) mod 64 = 0"
proof -
  assume a: "\<And>h l. length (msglen h l) = 8"
  let ?l = "length m mod 64"
  have "length (padded msglen m) mod 64 = (length m + (9 + (119 - ?l) mod 64)) mod 64"
    using a by (simp add: padded_def)
  also have "\<dots> = (?l + (9 + (119 - ?l) mod 64)) mod 64" by (simp add: mod_add_left_eq)
  also have "\<dots> = (?l + (9 + (119 - ?l))) mod 64" by (metis mod_add_right_eq)
  also have "?l + (9 + (119 - ?l)) = 128"
  proof -
    have "?l < 64" by simp
    then show ?thesis by linarith
  qed
  finally show ?thesis by simp
qed

lemma length_in_bits:
  "drop_bit 29 (word_of_nat n) OR push_bit 3 (word_of_nat (n div 2 ^ 32)) = (word_of_nat (8 * n div 2 ^ 32) :: u32)"
  "push_bit 3 (word_of_nat n) = (word_of_nat (8 * n) :: u32)"
proof -
  have e: "8 * n div 2 ^ 32 = drop_bit 29 n" "n div 2 ^ 32 = drop_bit 32 n"
    by (simp_all add: drop_bit_eq_div)
  show "drop_bit 29 (word_of_nat n) OR push_bit 3 (word_of_nat (n div 2 ^ 32)) = (word_of_nat (8 * n div 2 ^ 32) :: u32)"
    unfolding e by (rule bit_word_eqI) (auto simp: bit_simps bit_of_nat_iff_bit ac_simps)
  show "push_bit 3 (word_of_nat n) = (word_of_nat (8 * n) :: u32)"
    by (simp add: push_bit_eq_mult)
qed

lemma hash_finish_padded:
  assumes r: "hash_repr P iv m ctx" and l: "\<And>h l. length (msglen h l) = 8"
  shows "hstate (hash_finish P msglen ctx) = fst (hash_blocks P iv (padded msglen m))"
proof -
  let ?l = "length m mod 64"
  have t: "total0 ctx = word_of_nat (length m)" "total1 ctx = word_of_nat (length m div 2 ^ 32)"
    using r by (simp_all add: hash_repr_def)
  have less: "?l < 64" by simp
  have pd: "take (if ?l < 56 then 56 - ?l else 120 - ?l) (0x80 # replicate 63 0) =
      [0x80] @ replicate ((119 - ?l) mod 64) (0 :: u8)"
  proof (cases "?l < 56")
    case True
    then have "(119 - ?l) mod 64 = 55 - ?l" by (simp add: le_mod_geq)
    moreover have "56 - ?l = Suc (55 - ?l)" "55 - ?l \<le> 63" using True by linarith+
    ultimately show ?thesis using True by (simp add: min_def)
  next
    case False
    then have "(119 - ?l) mod 64 = 119 - ?l" by simp
    moreover have "120 - ?l = Suc (119 - ?l)" "119 - ?l \<le> 63" using less False by linarith+
    ultimately show ?thesis using False by (simp add: min_def)
  qed
  have p: "length ([0x80] @ replicate ((119 - ?l) mod 64) (0 :: u8)) < 2 ^ 32" by (simp add: less_imp_le_nat trans_less_add1)
  let ?len = "msglen (word_of_nat (8 * length m div 2 ^ 32)) (word_of_nat (8 * length m))"
  have fin: "hash_finish P msglen ctx = hash_update P ?len
      (hash_update P ([0x80] @ replicate ((119 - ?l) mod 64) 0) ctx)"
    unfolding hash_finish_def Let_def t left_of_length pd length_in_bits(1) unfolding length_in_bits(2) ..
  have "hash_repr P iv (padded msglen m) (hash_finish P msglen ctx)"
    using hash_update_repr [OF hash_update_repr [OF r p], of ?len] l by (simp add: fin padded_def)
  then show ?thesis by (simp add: hash_repr_def)
qed

text \<open>The digest of a message: all blocks of the padded message, one after the other.\<close>

definition hash_spec :: "(u32 list \<Rightarrow> bytes \<Rightarrow> u32 list) \<Rightarrow> (u32 \<Rightarrow> u32 \<Rightarrow> bytes) \<Rightarrow> u32 list \<Rightarrow> bytes \<Rightarrow> u32 list" where
  "hash_spec P msglen iv m = fst (hash_blocks P iv (padded msglen m))"

subsection \<open>Hash functions as an interface\<close>

text \<open>
  What a keyed hash relies on: starting, updating piece by piece and finishing gives the digest of
  the concatenated pieces.
\<close>

locale incremental_hash =
  fixes starts :: "'c"
    and update :: "bytes \<Rightarrow> 'c \<Rightarrow> 'c"
    and finish :: "'c \<Rightarrow> bytes"
    and digest :: "bytes \<Rightarrow> bytes"
    and size_out :: nat
  assumes pieces: "list_all (\<lambda>x. length x < 2 ^ 32) xs \<Longrightarrow> finish (fold update xs starts) = digest (concat xs)"
    and digest_length: "length (digest m) = size_out"
    and size_small: "size_out < 2 ^ 32"
begin

lemma cut_irrelevant:
  "list_all (\<lambda>x. length x < 2 ^ 32) xs \<Longrightarrow> list_all (\<lambda>x. length x < 2 ^ 32) ys \<Longrightarrow> concat xs = concat ys \<Longrightarrow>
   finish (fold update xs starts) = finish (fold update ys starts)"
  by (simp add: pieces)

lemma one_shot: "length m < 2 ^ 32 \<Longrightarrow> finish (update m starts) = digest m"
  using pieces [of "[m]"] by simp

text \<open>The two passes of an HMAC.\<close>

lemma hmac:
  "length key \<le> 64 \<Longrightarrow> length msg < 2 ^ 32 \<Longrightarrow>
   finish (update (finish (update msg (update (key_pad i key) starts))) (update (key_pad j key) starts)) =
   digest (key_pad j key @ digest (key_pad i key @ msg))"
  using pieces [of "[key_pad i key, msg]"] pieces [of "[key_pad j key, digest (key_pad i key @ msg)]"]
    digest_length size_small
  by (simp add: key_pad_def)

end

end
