(* ===== verification/Hashes.thy ===== *)
theory Hashes
  imports HashStream
begin

text \<open>
  The hash functions of linkkit/infra: MD5 (infra_md5.c), SHA-1 (infra_sha1.c) and SHA-256
  (infra_sha256.c, compiled with \<open>INFRA_SHA256_SMALLER\<close>), with their HMACs. The compression
  functions are written out; contexts, updates and padding are those of HashStream. A digest of a
  missing pointer argument is not modelled: the functions return without touching their output
  then, as they do for a key longer than a block.
\<close>

text \<open>The macro \<open>S\<close>: rotation to the left.\<close>

definition S_rot :: "u32 \<Rightarrow> nat \<Rightarrow> u32" where
  "S_rot x n = push_bit n x OR drop_bit (32 - n) (x AND 0xFFFFFFFF)"

subsection \<open>MD5\<close>

type_synonym iot_md5_context = hash_ctx

definition utils_md5_init :: iot_md5_context where
  "utils_md5_init = \<lparr>total0 = 0, total1 = 0, hstate = replicate 4 0, hbuffer = replicate 64 0\<rparr>"

definition utils_md5_starts :: "iot_md5_context \<Rightarrow> iot_md5_context" where
  "utils_md5_starts ctx =
     ctx\<lparr>total0 := 0, total1 := 0, hstate := [0x67452301, 0xEFCDAB89, 0x98BADCFE, 0x10325476]\<rparr>"

text \<open>The arguments k, s and t of the four rounds of 16 steps.\<close>

definition md5_round1 :: "(nat \<times> nat \<times> u32) list" where
  "md5_round1 =
     [(0, 7, 0xD76AA478), (1, 12, 0xE8C7B756), (2, 17, 0x242070DB), (3, 22, 0xC1BDCEEE),
      (4, 7, 0xF57C0FAF), (5, 12, 0x4787C62A), (6, 17, 0xA8304613), (7, 22, 0xFD469501),
      (8, 7, 0x698098D8), (9, 12, 0x8B44F7AF), (10, 17, 0xFFFF5BB1), (11, 22, 0x895CD7BE),
      (12, 7, 0x6B901122), (13, 12, 0xFD987193), (14, 17, 0xA679438E), (15, 22, 0x49B40821)]"

definition md5_round2 :: "(nat \<times> nat \<times> u32) list" where
  "md5_round2 =
     [(1, 5, 0xF61E2562), (6, 9, 0xC040B340), (11, 14, 0x265E5A51), (0, 20, 0xE9B6C7AA),
      (5, 5, 0xD62F105D), (10, 9, 0x02441453), (15, 14, 0xD8A1E681), (4, 20, 0xE7D3FBC8),
      (9, 5, 0x21E1CDE6), (14, 9, 0xC33707D6), (3, 14, 0xF4D50D87), (8, 20, 0x455A14ED),
      (13, 5, 0xA9E3E905), (2, 9, 0xFCEFA3F8), (7, 14, 0x676F02D9), (12, 20, 0x8D2A4C8A)]"

definition md5_round3 :: "(nat \<times> nat \<times> u32) list" where
  "md5_round3 =
     [(5, 4, 0xFFFA3942), (8, 11, 0x8771F681), (11, 16, 0x6D9D6122), (14, 23, 0xFDE5380C),
      (1, 4, 0xA4BEEA44), (4, 11, 0x4BDECFA9), (7, 16, 0xF6BB4B60), (10, 23, 0xBEBFBC70),
      (13, 4, 0x289B7EC6), (0, 11, 0xEAA127FA), (3, 16, 0xD4EF3085), (6, 23, 0x04881D05),
      (9, 4, 0xD9D4D039), (12, 11, 0xE6DB99E5), (15, 16, 0x1FA27CF8), (2, 23, 0xC4AC5665)]"

definition md5_round4 :: "(nat \<times> nat \<times> u32) list" where
  "md5_round4 =
     [(0, 6, 0xF4292244), (7, 10, 0x432AFF97), (14, 15, 0xAB9423A7), (5, 21, 0xFC93A039),
      (12, 6, 0x655B59C3), (3, 10, 0x8F0CCC92), (10, 15, 0xFFEFF47D), (1, 21, 0x85845DD1),
      (8, 6, 0x6FA87E4F), (15, 10, 0xFE2CE6E0), (6, 15, 0xA3014314), (13, 21, 0x4E0811A1),
      (4, 6, 0xF7537E82), (11, 10, 0xBD3AF235), (2, 15, 0x2AD7D2BB), (9, 21, 0xEB86D391)]"

text \<open>
  One step of a round: the call changes its first register, and the next call has the registers
  moved on by one.
\<close>

fun md5_step ::
    "(u32 \<Rightarrow> u32 \<Rightarrow> u32 \<Rightarrow> u32) \<Rightarrow> u32 list \<Rightarrow> nat \<times> nat \<times> u32 \<Rightarrow> u32 \<times> u32 \<times> u32 \<times> u32 \<Rightarrow> u32 \<times> u32 \<times> u32 \<times> u32" where
  "md5_step F X (k, s, t) (a, b, c, d) = (d, S_rot (a + (F b c d + X ! k + t)) s + b, b, c)"

definition md5_words :: "bytes \<Rightarrow> u32 list" where
  "md5_words data = map (\<lambda>i. IOT_MD5_GET_UINT32_LE data (4 * i)) [0..<16]"

definition utils_md5_process :: "u32 list \<Rightarrow> bytes \<Rightarrow> u32 list" where
  "utils_md5_process st data =
     (let X = md5_words data;
          r = (st ! 0, st ! 1, st ! 2, st ! 3);
          r = fold (md5_step (\<lambda>x y z. z XOR (x AND (y XOR z))) X) md5_round1 r;
          r = fold (md5_step (\<lambda>x y z. y XOR (z AND (x XOR y))) X) md5_round2 r;
          r = fold (md5_step (\<lambda>x y z. (x XOR y) XOR z) X) md5_round3 r;
          (a, b, c, d) = fold (md5_step (\<lambda>x y z. y XOR (x OR NOT z)) X) md5_round4 r
      in [st ! 0 + a, st ! 1 + b, st ! 2 + c, st ! 3 + d])"

definition utils_md5_update :: "bytes \<Rightarrow> iot_md5_context \<Rightarrow> iot_md5_context" where
  "utils_md5_update = hash_update utils_md5_process"

definition md5_msglen :: "u32 \<Rightarrow> u32 \<Rightarrow> bytes" where
  "md5_msglen high low = IOT_MD5_PUT_UINT32_LE low @ IOT_MD5_PUT_UINT32_LE high"

definition utils_md5_finish :: "iot_md5_context \<Rightarrow> bytes" where
  "utils_md5_finish ctx =
     (let st = hstate (hash_finish utils_md5_process md5_msglen ctx)
      in concat (map IOT_MD5_PUT_UINT32_LE [st ! 0, st ! 1, st ! 2, st ! 3]))"

definition utils_md5 :: "bytes \<Rightarrow> bytes" where
  "utils_md5 input = utils_md5_finish (utils_md5_update input (utils_md5_starts utils_md5_init))"

text \<open>\<open>digest\<close> is the output buffer before the call; its first 32 bytes are replaced.\<close>

definition utils_hmac_md5 :: "bytes \<Rightarrow> bytes \<Rightarrow> bytes \<Rightarrow> bytes" where
  "utils_hmac_md5 msg digest key =
     (if 64 < length key then digest
      else
        let c = utils_md5_update (key_pad 0x36 key) (utils_md5_starts utils_md5_init);
            out = utils_md5_finish (utils_md5_update msg c);
            c = utils_md5_update (key_pad 0x5c key) (utils_md5_starts utils_md5_init);
            out = utils_md5_finish (utils_md5_update out c)
        in hex_digest out @ drop 32 digest)"

subsection \<open>SHA-1\<close>

type_synonym iot_sha1_context = hash_ctx

definition utils_sha1_init :: iot_sha1_context where
  "utils_sha1_init = \<lparr>total0 = 0, total1 = 0, hstate = replicate 5 0, hbuffer = replicate 64 0\<rparr>"

definition utils_sha1_starts :: "iot_sha1_context \<Rightarrow> iot_sha1_context" where
  "utils_sha1_starts ctx =
     ctx\<lparr>total0 := 0, total1 := 0,
         hstate := [0x67452301, 0xEFCDAB89, 0x98BADCFE, 0x10325476, 0xC3D2E1F0]\<rparr>"

text \<open>The macro \<open>R\<close>: the sixteen words are a ring that the schedule overwrites.\<close>

definition sha1_R :: "u32 list \<Rightarrow> nat \<Rightarrow> u32 list \<times> u32" where
  "sha1_R W t =
     (let temp = ((W ! ((t - 3) mod 16) XOR W ! ((t - 8) mod 16)) XOR W ! ((t - 14) mod 16)) XOR W ! (t mod 16);
          w = S_rot temp 1
      in (W[t mod 16 := w], w))"

fun sha1_step ::
    "(u32 \<Rightarrow> u32 \<Rightarrow> u32 \<Rightarrow> u32) \<Rightarrow> u32 \<Rightarrow> nat \<Rightarrow>
     u32 list \<times> u32 \<times> u32 \<times> u32 \<times> u32 \<times> u32 \<Rightarrow> u32 list \<times> u32 \<times> u32 \<times> u32 \<times> u32 \<times> u32" where
  "sha1_step F K t (W, a, b, c, d, e) =
     (let (W', x) = (if t < 16 then (W, W ! t) else sha1_R W t)
      in (W', e + (S_rot a 5 + F b c d + K + x), a, S_rot b 30, c, d))"

definition sha1_words :: "bytes \<Rightarrow> u32 list" where
  "sha1_words data = map (\<lambda>i. GET_UINT32_BE data (4 * i)) [0..<16]"

definition utils_sha1_process :: "u32 list \<Rightarrow> bytes \<Rightarrow> u32 list" where
  "utils_sha1_process st data =
     (let r = (sha1_words data, st ! 0, st ! 1, st ! 2, st ! 3, st ! 4);
          r = fold (sha1_step (\<lambda>x y z. z XOR (x AND (y XOR z))) 0x5A827999) [0..<20] r;
          r = fold (sha1_step (\<lambda>x y z. (x XOR y) XOR z) 0x6ED9EBA1) [20..<40] r;
          r = fold (sha1_step (\<lambda>x y z. (x AND y) OR (z AND (x OR y))) 0x8F1BBCDC) [40..<60] r;
          (W, a, b, c, d, e) = fold (sha1_step (\<lambda>x y z. (x XOR y) XOR z) 0xCA62C1D6) [60..<80] r
      in [st ! 0 + a, st ! 1 + b, st ! 2 + c, st ! 3 + d, st ! 4 + e])"

definition utils_sha1_update :: "bytes \<Rightarrow> iot_sha1_context \<Rightarrow> iot_sha1_context" where
  "utils_sha1_update = hash_update utils_sha1_process"

definition be_msglen :: "u32 \<Rightarrow> u32 \<Rightarrow> bytes" where
  "be_msglen high low = PUT_UINT32_BE high @ PUT_UINT32_BE low"

definition utils_sha1_finish :: "iot_sha1_context \<Rightarrow> bytes" where
  "utils_sha1_finish ctx =
     (let st = hstate (hash_finish utils_sha1_process be_msglen ctx)
      in concat (map PUT_UINT32_BE [st ! 0, st ! 1, st ! 2, st ! 3, st ! 4]))"

definition utils_sha1 :: "bytes \<Rightarrow> bytes" where
  "utils_sha1 input = utils_sha1_finish (utils_sha1_update input (utils_sha1_starts utils_sha1_init))"

definition hmac_sha1_out :: "bytes \<Rightarrow> bytes \<Rightarrow> bytes" where
  "hmac_sha1_out msg key =
     (let c = utils_sha1_update (key_pad 0x36 key) (utils_sha1_starts utils_sha1_init);
          out = utils_sha1_finish (utils_sha1_update msg c);
          c = utils_sha1_update (key_pad 0x5c key) (utils_sha1_starts utils_sha1_init)
      in utils_sha1_finish (utils_sha1_update out c))"

definition utils_hmac_sha1 :: "bytes \<Rightarrow> bytes \<Rightarrow> bytes \<Rightarrow> bytes" where
  "utils_hmac_sha1 msg digest key =
     (if 64 < length key then digest else hex_digest (hmac_sha1_out msg key) @ drop 40 digest)"

text \<open>Despite its name, this one copies the digest without converting it to digits.\<close>

definition utils_hmac_sha1_hex :: "bytes \<Rightarrow> bytes \<Rightarrow> bytes \<Rightarrow> bytes" where
  "utils_hmac_sha1_hex msg digest key =
     (if 64 < length key then digest else hmac_sha1_out msg key @ drop 20 digest)"

subsection \<open>SHA-256\<close>

record iot_sha256_context = hash_ctx +
  is224 :: int

definition utils_sha256_init :: iot_sha256_context where
  "utils_sha256_init =
     \<lparr>total0 = 0, total1 = 0, hstate = replicate 8 0, hbuffer = replicate 64 0, is224 = 0\<rparr>"

definition utils_sha256_starts :: "iot_sha256_context \<Rightarrow> iot_sha256_context" where
  "utils_sha256_starts ctx =
     ctx\<lparr>total0 := 0, total1 := 0,
         hstate := [0x6A09E667, 0xBB67AE85, 0x3C6EF372, 0xA54FF53A, 0x510E527F, 0x9B05688C, 0x1F83D9AB, 0x5BE0CD19],
         is224 := 0\<rparr>"

definition K_tab :: "u32 list" where
  "K_tab =
     [0x428A2F98, 0x71374491, 0xB5C0FBCF, 0xE9B5DBA5,
      0x3956C25B, 0x59F111F1, 0x923F82A4, 0xAB1C5ED5,
      0xD807AA98, 0x12835B01, 0x243185BE, 0x550C7DC3,
      0x72BE5D74, 0x80DEB1FE, 0x9BDC06A7, 0xC19BF174,
      0xE49B69C1, 0xEFBE4786, 0x0FC19DC6, 0x240CA1CC,
      0x2DE92C6F, 0x4A7484AA, 0x5CB0A9DC, 0x76F988DA,
      0x983E5152, 0xA831C66D, 0xB00327C8, 0xBF597FC7,
      0xC6E00BF3, 0xD5A79147, 0x06CA6351, 0x14292967,
      0x27B70A85, 0x2E1B2138, 0x4D2C6DFC, 0x53380D13,
      0x650A7354, 0x766A0ABB, 0x81C2C92E, 0x92722C85,
      0xA2BFE8A1, 0xA81A664B, 0xC24B8B70, 0xC76C51A3,
      0xD192E819, 0xD6990624, 0xF40E3585, 0x106AA070,
      0x19A4C116, 0x1E376C08, 0x2748774C, 0x34B0BCB5,
      0x391C0CB3, 0x4ED8AA4A, 0x5B9CCA4F, 0x682E6FF3,
      0x748F82EE, 0x78A5636F, 0x84C87814, 0x8CC70208,
      0x90BEFFFA, 0xA4506CEB, 0xBEF9A3F7, 0xC67178F2]"

definition SHR :: "u32 \<Rightarrow> nat \<Rightarrow> u32" where
  "SHR x n = drop_bit n (x AND 0xFFFFFFFF)"

definition ROTR :: "u32 \<Rightarrow> nat \<Rightarrow> u32" where
  "ROTR x n = SHR x n OR push_bit (32 - n) x"

definition S0 :: "u32 \<Rightarrow> u32" where "S0 x = (ROTR x 7 XOR ROTR x 18) XOR SHR x 3"
definition S1 :: "u32 \<Rightarrow> u32" where "S1 x = (ROTR x 17 XOR ROTR x 19) XOR SHR x 10"
definition S2 :: "u32 \<Rightarrow> u32" where "S2 x = (ROTR x 2 XOR ROTR x 13) XOR ROTR x 22"
definition S3 :: "u32 \<Rightarrow> u32" where "S3 x = (ROTR x 6 XOR ROTR x 11) XOR ROTR x 25"

definition F0 :: "u32 \<Rightarrow> u32 \<Rightarrow> u32 \<Rightarrow> u32" where "F0 x y z = (x AND y) OR (z AND (x OR y))"
definition F1 :: "u32 \<Rightarrow> u32 \<Rightarrow> u32 \<Rightarrow> u32" where "F1 x y z = z XOR (x AND (y XOR z))"

type_synonym regs8 = "u32 \<times> u32 \<times> u32 \<times> u32 \<times> u32 \<times> u32 \<times> u32 \<times> u32"

text \<open>The macro \<open>P\<close> on \<open>A[0]\<close> to \<open>A[7]\<close>, and the rotation of the array behind it.\<close>

fun sha256_P :: "u32 \<Rightarrow> u32 \<Rightarrow> regs8 \<Rightarrow> regs8" where
  "sha256_P k x (a, b, c, d, e, f, g, h) =
     (let temp1 = h + S3 e + F1 e f g + k + x;
          temp2 = S2 a + F0 a b c
      in (temp1 + temp2, a, b, c, d + temp1, e, f, g))"

text \<open>The array \<open>W\<close> up to the words already computed.\<close>

fun sha256_step :: "bytes \<Rightarrow> nat \<Rightarrow> u32 list \<times> regs8 \<Rightarrow> u32 list \<times> regs8" where
  "sha256_step data i (W, A) =
     (let w = (if i < 16 then GET_UINT32_BE data (4 * i)
               else S1 (W ! (i - 2)) + W ! (i - 7) + S0 (W ! (i - 15)) + W ! (i - 16))
      in (W @ [w], sha256_P (K_tab ! i) w A))"

definition utils_sha256_process :: "u32 list \<Rightarrow> bytes \<Rightarrow> u32 list" where
  "utils_sha256_process st data =
     (let (W, a, b, c, d, e, f, g, h) =
            fold (sha256_step data) [0..<64]
              ([], st ! 0, st ! 1, st ! 2, st ! 3, st ! 4, st ! 5, st ! 6, st ! 7)
      in [st ! 0 + a, st ! 1 + b, st ! 2 + c, st ! 3 + d, st ! 4 + e, st ! 5 + f, st ! 6 + g, st ! 7 + h])"

definition utils_sha256_update :: "bytes \<Rightarrow> iot_sha256_context \<Rightarrow> iot_sha256_context" where
  "utils_sha256_update = hash_update utils_sha256_process"

definition utils_sha256_finish :: "iot_sha256_context \<Rightarrow> bytes" where
  "utils_sha256_finish ctx =
     (let c = hash_finish utils_sha256_process be_msglen ctx; st = hstate c
      in concat (map PUT_UINT32_BE [st ! 0, st ! 1, st ! 2, st ! 3, st ! 4, st ! 5, st ! 6])
         @ (if is224 c = 0 then PUT_UINT32_BE (st ! 7) else []))"

definition utils_sha256 :: "bytes \<Rightarrow> bytes" where
  "utils_sha256 input =
     utils_sha256_finish (utils_sha256_update input (utils_sha256_starts utils_sha256_init))"

definition utils_hmac_sha256 :: "bytes \<Rightarrow> bytes \<Rightarrow> bytes \<Rightarrow> bytes" where
  "utils_hmac_sha256 msg key output =
     (if 64 < length key then output
      else
        let c = utils_sha256_update (key_pad 0x36 key) (utils_sha256_starts utils_sha256_init);
            out = utils_sha256_finish (utils_sha256_update msg c);
            c = utils_sha256_update (key_pad 0x5c key) (utils_sha256_starts utils_sha256_init)
        in utils_sha256_finish (utils_sha256_update out c))"

end
