(* ===== verification/CoapContext.thy ===== *)
theory CoapContext
  imports CoapPacket CFormat Hashes
begin

text \<open>
  The context of the CoAP server (linkkit/coap_server/server): its lists, its surroundings, the
  addresses it talks to (CoAPPlatform.c, CoAPNetwork.c) and its resources (CoAPResource.c).

  What the server asks of its surroundings is a parameter: the record \<open>coap_env\<close> answers the n-th
  call with whether an allocation succeeds, with the return code of a socket write, with the uptime,
  with what a socket read gives, and with the contents of an uninitialised variable. Every call
  advances \<open>coap_calls\<close>. What leaves the server, its datagrams and its callbacks, is appended to
  \<open>coap_trace\<close>; a callback is an output, a number that is 0 for the null pointer. The mutexes, which
  only order the threads, are left out. A text is its bytes up to the NUL. \<open>None\<close> is an access
  outside a buffer.
\<close>

unbundle bit_operations_syntax

type_synonym u64 = "64 word"

subsection \<open>Addresses\<close>

record NetworkAddr =
  net_addr :: string
  net_port :: u16

definition is_xdigit :: "char \<Rightarrow> bool" where
  "is_xdigit c \<longleftrightarrow> is_digit c \<or> 97 \<le> (of_char c :: nat) \<and> (of_char c :: nat) \<le> 102 \<or>
     65 \<le> (of_char c :: nat) \<and> (of_char c :: nat) \<le> 70"

definition is_lower :: "char \<Rightarrow> bool" where
  "is_lower c \<longleftrightarrow> 97 \<le> (of_char c :: nat) \<and> (of_char c :: nat) \<le> 122"

fun aton_number :: "nat \<Rightarrow> u32 \<Rightarrow> string \<Rightarrow> u32 \<times> string" where
  "aton_number base v [] = (v, [])"
| "aton_number base v (c # cs) =
     (if is_digit c then aton_number base (v * of_nat base + of_nat (of_char c - 48)) cs
      else if base = 16 \<and> is_xdigit c
      then aton_number base (push_bit 4 v OR of_nat (of_char c + 10 - (if is_lower c then 97 else 65))) cs
      else (v, c # cs))"

text \<open>One part of an address, with its base: 0x is hexadecimal, 0 octal.\<close>

definition aton_part :: "string \<Rightarrow> (u32 \<times> string) option" where
  "aton_part s =
     (case s of
        [] \<Rightarrow> None
      | c # cs \<Rightarrow>
          if \<not> is_digit c then None
          else if c = CHR ''0'' then
            (case cs of
               x # xs \<Rightarrow> if x = CHR ''x'' \<or> x = CHR ''X'' then Some (aton_number 16 0 xs) else Some (aton_number 8 0 cs)
             | [] \<Rightarrow> Some (aton_number 8 0 cs))
          else Some (aton_number 10 0 s))"

text \<open>The parts before the last one, the last one, and what follows; \<open>k\<close> more dots are allowed.\<close>

fun aton_parts :: "nat \<Rightarrow> string \<Rightarrow> (u32 list \<times> u32 \<times> string) option" where
  "aton_parts 0 s =
     do { (v, rest) \<leftarrow> aton_part s;
          if rest \<noteq> [] \<and> hd rest = CHR ''.'' then None else Some ([], v, rest) }"
| "aton_parts (Suc k) s =
     do { (v, rest) \<leftarrow> aton_part s;
          if rest \<noteq> [] \<and> hd rest = CHR ''.''
          then do { (ps, w, r) \<leftarrow> aton_parts k (tl rest); Some (v # ps, w, r) }
          else Some ([], v, rest) }"

definition platform_aton :: "string \<Rightarrow> u32" where
  "platform_aton ip_str =
     (case aton_parts 3 ip_str of
        None \<Rightarrow> 0
      | Some (ps, v, rest) \<Rightarrow>
          if rest \<noteq> [] \<and> \<not> is_space (hd rest) then 0
          else (case ps of
                  [] \<Rightarrow> v
                | [a] \<Rightarrow> if 0xffffff < v then 0 else v OR push_bit 24 a
                | [a, b] \<Rightarrow> if 0xffff < v then 0 else v OR (push_bit 24 a OR push_bit 16 b)
                | [a, b, c] \<Rightarrow> if 0xff < v then 0 else v OR ((push_bit 24 a OR push_bit 16 b) OR push_bit 8 c)
                | _ \<Rightarrow> v))"

definition platform_is_multicast :: "string \<Rightarrow> bool" where
  "platform_is_multicast ip_str =
     (let addr_in = platform_aton ip_str in 0xE00000FF < addr_in \<and> addr_in \<le> 0xEFFFFFFF)"

subsection \<open>The context\<close>

datatype keep_state = NOKEEP | KEEPING

datatype CoAPReqResult = COAP_REQUEST_SUCCESS | COAP_RECV_RESP_TIMEOUT | COAP_RECV_RESP_SUC

datatype path_type_t = PATH_NORMAL | PATH_FILTER

record CoAPSendNode =
  sn_type :: u8
  sn_code :: u8
  sn_msgid :: u16
  sn_tokenlen :: u8
  retrans_count :: u8
  sn_token :: bytes
  timeout :: u64
  timeout_val :: u16
  msglen :: u32
  sn_handler :: nat
  sn_remote :: NetworkAddr
  sn_user :: nat
  sn_message :: bytes
  acked :: bool
  sn_keep :: keep_state

text \<open>
  Resources are only ever appended to their list, so their position stands for their address.
\<close>

record CoAPResource =
  permission :: u16
  res_callback :: nat
  res_ctype :: u32
  maxage :: u32
  res_path :: bytes
  filter_path :: bytes
  path_type :: path_type_t

record CoapObserver =
  ob_remote :: NetworkAddr
  ob_token :: bytes
  ob_tokenlen :: u8
  ob_ctype :: u8
  p_resource_of_interest :: nat
  observer_sequence_num :: u32
  ob_msg_type :: u8

record CoAPObservable =
  oc_remote :: NetworkAddr
  oc_token :: bytes
  oc_tokenlen :: u8
  oc_callback :: nat
  max_age :: u32
  oc_userdata :: nat

record 'a CoAPList =
  entries :: "'a list"
  list_count :: u8
  maxcount :: u8

datatype coap_event =
    NetWrite NetworkAddr bytes
  | SendHandler nat CoAPReqResult nat NetworkAddr "CoAPMessage option"
  | ResourceCallback nat bytes NetworkAddr CoAPMessage

record CoAPIntContext =
  message_id :: u16
  sendlist :: "CoAPSendNode CoAPList"
  obsserver :: "CoapObserver CoAPList"
  obsclient :: "CoAPObservable CoAPList"
  resource :: "CoAPResource CoAPList"
  waittime :: u32
  appdata :: nat
  coap_calls :: nat
  coap_trace :: "coap_event list"

record coap_env =
  env_mem :: "nat \<Rightarrow> bool"
  env_sent :: "nat \<Rightarrow> int"
  env_now :: "nat \<Rightarrow> u64"
  env_recv :: "nat \<Rightarrow> (NetworkAddr \<times> bytes) + int"
  env_stack :: "nat \<Rightarrow> u32"

definition ask :: "(nat \<Rightarrow> 'a) \<Rightarrow> CoAPIntContext \<Rightarrow> 'a \<times> CoAPIntContext" where
  "ask f s = (f (coap_calls s), s\<lparr>coap_calls := coap_calls s + 1\<rparr>)"

definition emit :: "coap_event \<Rightarrow> CoAPIntContext \<Rightarrow> CoAPIntContext" where
  "emit ev s = s\<lparr>coap_trace := coap_trace s @ [ev]\<rparr>"

text \<open>A callback is made if it is not null.\<close>

definition call_back :: "nat \<Rightarrow> CoAPReqResult \<Rightarrow> nat \<Rightarrow> NetworkAddr \<Rightarrow> CoAPMessage option \<Rightarrow> CoAPIntContext \<Rightarrow> CoAPIntContext" where
  "call_back h r u remote m s = (if h = 0 then s else emit (SendHandler h r u remote m) s)"

subsection \<open>Lists\<close>

definition empty_list :: "u8 \<Rightarrow> 'a CoAPList" where
  "empty_list maxc = \<lparr>entries = [], list_count = 0, maxcount = maxc\<rparr>"

definition list_add_tail :: "'a \<Rightarrow> 'a CoAPList \<Rightarrow> 'a CoAPList" where
  "list_add_tail x l = l\<lparr>entries := entries l @ [x], list_count := list_count l + 1\<rparr>"

text \<open>Every element that satisfies a condition is removed, or only the first one.\<close>

definition remove_all :: "('a \<Rightarrow> bool) \<Rightarrow> 'a CoAPList \<Rightarrow> 'a CoAPList" where
  "remove_all P l =
     l\<lparr>entries := filter (\<lambda>x. \<not> P x) (entries l), list_count := list_count l - of_nat (length (filter P (entries l)))\<rparr>"

fun remove_first :: "('a \<Rightarrow> bool) \<Rightarrow> 'a list \<Rightarrow> 'a list" where
  "remove_first P [] = []"
| "remove_first P (x # xs) = (if P x then xs else x # remove_first P xs)"

definition remove_one :: "('a \<Rightarrow> bool) \<Rightarrow> 'a CoAPList \<Rightarrow> 'a CoAPList" where
  "remove_one P l =
     (case find P (entries l) of
        None \<Rightarrow> l
      | Some _ \<Rightarrow> l\<lparr>entries := remove_first P (entries l), list_count := list_count l - 1\<rparr>)"

fun update_first :: "('a \<Rightarrow> bool) \<Rightarrow> ('a \<Rightarrow> 'a) \<Rightarrow> 'a list \<Rightarrow> 'a list" where
  "update_first P f [] = []"
| "update_first P f (x # xs) = (if P x then f x # xs else x # update_first P f xs)"

definition list_full :: "'a CoAPList \<Rightarrow> bool" where
  "list_full l \<longleftrightarrow> maxcount l \<le> list_count l"

end
