(* ===== verification/CoapResource.thy ===== *)
theory CoapResource
  imports CoapContext
begin

text \<open>
  The resources of the CoAP server (linkkit/coap_server/server/CoAPResource.c). A normal path is
  kept as the first five bytes of its MD5 digest, a path with a wildcard as its text.
\<close>

abbreviation (input) COAP_MSG_MAX_PATH_LEN :: nat where "COAP_MSG_MAX_PATH_LEN \<equiv> 128"
abbreviation (input) COAP_PATH_DEFAULT_SUM_LEN :: nat where "COAP_PATH_DEFAULT_SUM_LEN \<equiv> 5"
abbreviation (input) COAP_ERROR_DATA_SIZE :: int where "COAP_ERROR_DATA_SIZE \<equiv> 261"
abbreviation (input) COAP_ERROR_UNSUPPORTED :: int where "COAP_ERROR_UNSUPPORTED \<equiv> 269"

text \<open>The buffer holds five bytes and is zero before.\<close>

definition CoAPPathMD5_sum :: "bytes \<Rightarrow> bytes" where
  "CoAPPathMD5_sum path =
     (if path = [] then replicate COAP_PATH_DEFAULT_SUM_LEN 0
      else take COAP_PATH_DEFAULT_SUM_LEN (utils_md5 path))"

definition CoAPResource_init :: "u8 \<Rightarrow> CoAPIntContext \<Rightarrow> CoAPIntContext" where
  "CoAPResource_init res_maxcount s = s\<lparr>resource := empty_list res_maxcount\<rparr>"

definition CoAPResource_deinit :: "CoAPIntContext \<Rightarrow> CoAPIntContext" where
  "CoAPResource_deinit s = s\<lparr>resource := empty_list 0\<rparr>"

definition CoAPResource_create ::
    "coap_env \<Rightarrow> bytes \<Rightarrow> path_type_t \<Rightarrow> u16 \<Rightarrow> u32 \<Rightarrow> u32 \<Rightarrow> nat \<Rightarrow> CoAPIntContext \<Rightarrow>
     CoAPResource option \<times> CoAPIntContext" where
  "CoAPResource_create e path ptype perm ctype age callback s =
     (if COAP_MSG_MAX_PATH_LEN \<le> length path then (None, s)
      else
        let (mem, s) = ask (env_mem e) s in
        if \<not> mem then (None, s)
        else if ptype = PATH_NORMAL
        then (Some \<lparr>permission = perm, res_callback = callback, res_ctype = ctype, maxage = age,
                    res_path = CoAPPathMD5_sum path, filter_path = [], path_type = PATH_NORMAL\<rparr>, s)
        else
          let (mem, s) = ask (env_mem e) s in
          if \<not> mem then (None, s)
          else (Some \<lparr>permission = perm, res_callback = callback, res_ctype = ctype, maxage = age,
                      res_path = replicate COAP_PATH_DEFAULT_SUM_LEN 0, filter_path = path, path_type = PATH_FILTER\<rparr>, s))"

definition has_wildcard :: "bytes \<Rightarrow> bool" where
  "has_wildcard path \<longleftrightarrow> (\<exists>i < length path. take 2 (drop i path) = [0x2F, 0x23])"

text \<open>
  The search for a resource with the same path: it gives the resources, one of them rewritten if it
  was found, and the text of \<open>path\<close> afterwards. Of two wildcard paths of one length the one in the
  list is copied over the caller's and the result of \<open>strncpy\<close>, never 0, compared with 0.
\<close>

fun find_registered ::
    "path_type_t \<Rightarrow> bytes \<Rightarrow> (CoAPResource \<Rightarrow> CoAPResource) \<Rightarrow> bytes \<Rightarrow> CoAPResource list \<Rightarrow>
     CoAPResource list option \<times> bytes" where
  "find_registered ptype path_calc f path [] = (None, path)"
| "find_registered ptype path_calc f path (node # ns) =
     (if ptype = PATH_NORMAL \<and> path_type node = PATH_NORMAL \<and> res_path node = path_calc then (Some (f node # ns), path)
      else
        let path = (if ptype = PATH_FILTER \<and> path_type node = PATH_FILTER \<and> length path = length (filter_path node)
                    then filter_path node else path);
            (found, path) = find_registered ptype path_calc f path ns
        in (map_option ((#) node) found, path))"

definition CoAPResource_register ::
    "coap_env \<Rightarrow> bytes \<Rightarrow> u16 \<Rightarrow> u32 \<Rightarrow> u32 \<Rightarrow> nat \<Rightarrow> CoAPIntContext \<Rightarrow> int \<times> CoAPIntContext" where
  "CoAPResource_register e path perm ctype age callback s =
     (if list_full (resource s) then (COAP_ERROR_DATA_SIZE, s)
      else
        let ptype = (if has_wildcard path then PATH_FILTER else PATH_NORMAL);
            (found, path) = find_registered ptype (CoAPPathMD5_sum path)
              (\<lambda>node. node\<lparr>res_callback := callback, res_ctype := ctype, maxage := age, permission := perm\<rparr>)
              path (entries (resource s))
        in case found of
             Some ns \<Rightarrow> (COAP_SUCCESS, s\<lparr>resource := (resource s)\<lparr>entries := ns\<rparr>\<rparr>)
           | None \<Rightarrow>
               (let (newnode, s) = CoAPResource_create e path ptype perm ctype age callback s in
                case newnode of
                  Some node \<Rightarrow> (COAP_SUCCESS, s\<lparr>resource := list_add_tail node (resource s)\<rparr>)
                | None \<Rightarrow> (COAP_SUCCESS, s)))"

definition CoAPResource_unregister :: "bytes \<Rightarrow> CoAPIntContext \<Rightarrow> int \<times> CoAPIntContext" where
  "CoAPResource_unregister path s = (COAP_ERROR_UNSUPPORTED, s)"

definition serves :: "bytes \<Rightarrow> CoAPResource \<Rightarrow> bool" where
  "serves path node \<longleftrightarrow>
     CoAPPathMD5_sum path = res_path node \<or>
     path_type node = PATH_FILTER \<and> 0 < length (filter_path node) \<and>
       take (length (filter_path node) - 1) path = take (length (filter_path node) - 1) (filter_path node)"

text \<open>The position of the first resource that serves a path.\<close>

fun first_index :: "('a \<Rightarrow> bool) \<Rightarrow> 'a list \<Rightarrow> nat option" where
  "first_index P [] = None"
| "first_index P (x # xs) = (if P x then Some 0 else map_option Suc (first_index P xs))"

definition CoAPResourceByPath_get :: "bytes \<Rightarrow> CoAPIntContext \<Rightarrow> nat option" where
  "CoAPResourceByPath_get path s = first_index (serves path) (entries (resource s))"

end
