(* ===== verification/CoapObserve.thy ===== *)
theory CoapObserve
  imports CoapResource
begin

text \<open>
  Observing (linkkit/coap_server/server/CoAPObserve.c): the clients that observe our resources, and
  the resources of others that we observe. Notifying, which sends messages, is in CoapServer.
\<close>

abbreviation (input) COAP_ERROR_OBJ_ALREADY_EXIST :: int where "COAP_ERROR_OBJ_ALREADY_EXIST \<equiv> 270"
abbreviation (input) COAP_OPTION_OBSERVE :: u16 where "COAP_OPTION_OBSERVE \<equiv> 6"
abbreviation (input) COAP_OPTION_URI_PATH :: u16 where "COAP_OPTION_URI_PATH \<equiv> 11"
abbreviation (input) COAP_OPTION_CONTENT_FORMAT :: u16 where "COAP_OPTION_CONTENT_FORMAT \<equiv> 12"
abbreviation (input) COAP_OPTION_MAXAGE :: u16 where "COAP_OPTION_MAXAGE \<equiv> 14"
abbreviation (input) COAP_OPTION_ACCEPT :: u16 where "COAP_OPTION_ACCEPT \<equiv> 17"
abbreviation (input) COAP_CT_APP_JSON :: u32 where "COAP_CT_APP_JSON \<equiv> 50"
abbreviation (input) COAP_MSG_CODE_GET :: u8 where "COAP_MSG_CODE_GET \<equiv> 1"

text \<open>A token of a node is the first bytes of a message's, in an array of eight.\<close>

definition stored_token :: "CoAPMessage \<Rightarrow> bytes" where
  "stored_token m = take (unat (tokenlen m)) (token m) @ replicate (8 - unat (tokenlen m)) 0"

definition same_token :: "u8 \<Rightarrow> bytes \<Rightarrow> CoAPMessage \<Rightarrow> bool" where
  "same_token n tk m \<longleftrightarrow> n \<noteq> 0 \<and> n = tokenlen m \<and> take (unat n) tk = take (unat n) (token m)"

subsection \<open>Observers of our resources\<close>

definition CoAPObsServer_init :: "u8 \<Rightarrow> CoAPIntContext \<Rightarrow> CoAPIntContext" where
  "CoAPObsServer_init obs_maxcount s = s\<lparr>obsserver := empty_list obs_maxcount\<rparr>"

definition CoAPObsServer_deinit :: "CoAPIntContext \<Rightarrow> CoAPIntContext" where
  "CoAPObsServer_deinit s = s\<lparr>obsserver := empty_list 0\<rparr>"

definition observes :: "nat \<Rightarrow> NetworkAddr \<Rightarrow> CoapObserver \<Rightarrow> bool" where
  "observes res remote node \<longleftrightarrow> p_resource_of_interest node = res \<and> ob_remote node = remote"

text \<open>\<open>observe\<close> is not initialised before the option is combined with it.\<close>

definition CoAPObsServer_add ::
    "coap_env \<Rightarrow> bytes \<Rightarrow> NetworkAddr \<Rightarrow> CoAPMessage \<Rightarrow> CoAPIntContext \<Rightarrow> (int \<times> CoAPIntContext) option" where
  "CoAPObsServer_add e path remote request s =
     (let res = CoAPResourceByPath_get path s;
          (observe0, s) = ask (env_stack e) s
      in do { (ret, observe) \<leftarrow> CoAPUintOption_get request COAP_OPTION_OBSERVE observe0;
              case res of
                None \<Rightarrow> Some (COAP_ERROR_NOT_FOUND, s)
              | Some res \<Rightarrow>
                  if ret \<noteq> COAP_SUCCESS \<or> observe \<noteq> 0 then Some (COAP_ERROR_NOT_FOUND, s)
                  else if list_ex (observes res remote) (entries (obsserver s))
                  then Some (COAP_ERROR_OBJ_ALREADY_EXIST,
                             s\<lparr>obsserver := (obsserver s)\<lparr>entries := update_first (observes res remote)
                                 (\<lambda>node. node\<lparr>ob_token := take (unat (tokenlen request)) (token request)
                                              @ drop (unat (tokenlen request)) (ob_token node),
                                            ob_tokenlen := tokenlen request\<rparr>) (entries (obsserver s))\<rparr>\<rparr>)
                  else
                    let (mem, s) = ask (env_mem e) s in
                    if \<not> mem then Some (COAP_ERROR_MALLOC, s)
                    else do { (_, accept) \<leftarrow> CoAPUintOption_get request COAP_OPTION_ACCEPT 0;
                              let obs = \<lparr>ob_remote = remote, ob_token = stored_token request,
                                         ob_tokenlen = tokenlen request,
                                         ob_ctype = ucast (if accept = 0 then COAP_CT_APP_JSON else accept),
                                         p_resource_of_interest = res, observer_sequence_num = 0,
                                         ob_msg_type = msg_type request\<rparr>
                              in if list_full (obsserver s) then Some (COAP_ERROR_DATA_SIZE, s)
                                 else Some (COAP_SUCCESS, s\<lparr>obsserver := list_add_tail obs (obsserver s)\<rparr>) } })"

definition CoapObsServer_delete :: "NetworkAddr \<Rightarrow> nat \<Rightarrow> CoAPIntContext \<Rightarrow> CoAPIntContext" where
  "CoapObsServer_delete remote res s = s\<lparr>obsserver := remove_one (observes res remote) (obsserver s)\<rparr>"

definition CoapObsServerAll_delete :: "NetworkAddr \<Rightarrow> CoAPIntContext \<Rightarrow> CoAPIntContext" where
  "CoapObsServerAll_delete remote s = s\<lparr>obsserver := remove_all (\<lambda>node. ob_remote node = remote) (obsserver s)\<rparr>"

subsection \<open>Resources we observe\<close>

definition CoAPObsClient_init :: "u8 \<Rightarrow> CoAPIntContext \<Rightarrow> CoAPIntContext" where
  "CoAPObsClient_init obs_maxcount s = s\<lparr>obsclient := empty_list obs_maxcount\<rparr>"

definition CoAPObsClient_deinit :: "CoAPIntContext \<Rightarrow> CoAPIntContext" where
  "CoAPObsClient_deinit s = s\<lparr>obsclient := empty_list 0\<rparr>"

definition awaits :: "CoAPMessage \<Rightarrow> CoAPObservable \<Rightarrow> bool" where
  "awaits m node \<longleftrightarrow> same_token (oc_tokenlen node) (oc_token node) m"

text \<open>A later notification: its age is combined with the one before.\<close>

definition observed_again :: "NetworkAddr \<Rightarrow> CoAPMessage \<Rightarrow> CoAPIntContext \<Rightarrow> CoAPIntContext option" where
  "observed_again remote m s =
     (case find (awaits m) (entries (obsclient s)) of
        None \<Rightarrow> Some s
      | Some node \<Rightarrow>
          do { (_, age) \<leftarrow> CoAPUintOption_get m COAP_OPTION_MAXAGE (max_age node);
               let s = s\<lparr>obsclient := (obsclient s)\<lparr>entries :=
                           update_first (awaits m) (\<lambda>node. node\<lparr>max_age := age\<rparr>) (entries (obsclient s))\<rparr>\<rparr>
               in Some (call_back (oc_callback node) COAP_REQUEST_SUCCESS (oc_userdata node) remote (Some m) s) })"

definition observed_first ::
    "coap_env \<Rightarrow> NetworkAddr \<Rightarrow> CoAPMessage \<Rightarrow> CoAPSendNode \<Rightarrow> CoAPIntContext \<Rightarrow> CoAPIntContext option" where
  "observed_first e remote m sendnode s =
     (if list_ex (awaits m) (entries (obsclient s)) \<or> list_full (obsclient s) then Some s
      else
        let (mem, s) = ask (env_mem e) s in
        if \<not> mem then Some s
        else do { (_, age) \<leftarrow> CoAPUintOption_get m COAP_OPTION_MAXAGE 0;
                  Some (s\<lparr>obsclient := list_add_tail
                    \<lparr>oc_remote = remote, oc_token = stored_token m, oc_tokenlen = tokenlen m,
                     oc_callback = sn_handler sendnode, max_age = age, oc_userdata = sn_user sendnode\<rparr> (obsclient s)\<rparr>) })"

definition CoAPObsClient_add ::
    "coap_env \<Rightarrow> CoAPMessage \<Rightarrow> NetworkAddr \<Rightarrow> CoAPSendNode option \<Rightarrow> CoAPIntContext \<Rightarrow> CoAPIntContext option" where
  "CoAPObsClient_add e m remote sendnode s =
     (if CoAPOption_present m COAP_OPTION_OBSERVE = COAP_SUCCESS
      then (case sendnode of None \<Rightarrow> observed_again remote m s | Some node \<Rightarrow> observed_first e remote m node s)
      else Some (s\<lparr>obsclient := remove_one (awaits m) (obsclient s)\<rparr>))"

definition CoAPObsClient_delete :: "CoAPMessage \<Rightarrow> CoAPIntContext \<Rightarrow> CoAPIntContext option" where
  "CoAPObsClient_delete m s =
     (if msg_code m = COAP_MSG_CODE_GET \<and> CoAPOption_present m COAP_OPTION_OBSERVE = COAP_SUCCESS
      then do { (ret, observe_option) \<leftarrow> CoAPUintOption_get m COAP_OPTION_OBSERVE 0;
                Some (if ret = COAP_SUCCESS \<and> observe_option = 1
                      then s\<lparr>obsclient := remove_one (awaits m) (obsclient s)\<rparr> else s) }
      else Some s)"

end
