(* ===== verification/CoapExchange.thy ===== *)
theory CoapExchange
  imports CoapObserve
begin

text \<open>
  The exchange of messages (linkkit/coap_server/server/CoAPMessage.c): sending, the list of sent
  requests with its retransmission and time-outs, and the handling of received messages.
\<close>

unbundle bit_operations_syntax

abbreviation (input) COAP_MSG_MAX_PDU_LEN :: nat where "COAP_MSG_MAX_PDU_LEN \<equiv> 1280"
abbreviation (input) COAP_MAX_RETRY_COUNT :: u8 where "COAP_MAX_RETRY_COUNT \<equiv> 8"
abbreviation (input) COAP_ACK_TIMEOUT :: nat where "COAP_ACK_TIMEOUT \<equiv> 600"
abbreviation (input) COAP_ACK_RANDOM_FACTOR :: nat where "COAP_ACK_RANDOM_FACTOR \<equiv> 1"
abbreviation (input) COAP_ERROR_WRITE_FAILED :: int where "COAP_ERROR_WRITE_FAILED \<equiv> 266"
abbreviation (input) COAP_MESSAGE_TYPE_CON :: u8 where "COAP_MESSAGE_TYPE_CON \<equiv> 0"
abbreviation (input) COAP_MESSAGE_TYPE_NON :: u8 where "COAP_MESSAGE_TYPE_NON \<equiv> 1"
abbreviation (input) COAP_MESSAGE_TYPE_ACK :: u8 where "COAP_MESSAGE_TYPE_ACK \<equiv> 2"
abbreviation (input) COAP_MESSAGE_TYPE_RST :: u8 where "COAP_MESSAGE_TYPE_RST \<equiv> 3"
abbreviation (input) COAP_MSG_CODE_EMPTY_MESSAGE :: u8 where "COAP_MSG_CODE_EMPTY_MESSAGE \<equiv> 0"
abbreviation (input) COAP_MSG_CODE_POST :: u8 where "COAP_MSG_CODE_POST \<equiv> 2"
abbreviation (input) COAP_MSG_CODE_205_CONTENT :: u8 where "COAP_MSG_CODE_205_CONTENT \<equiv> 0x45"
abbreviation (input) COAP_MSG_CODE_404_NOT_FOUND :: u8 where "COAP_MSG_CODE_404_NOT_FOUND \<equiv> 0x84"
abbreviation (input) COAP_MSG_CODE_405_METHOD_NOT_ALLOWED :: u8 where "COAP_MSG_CODE_405_METHOD_NOT_ALLOWED \<equiv> 0x85"

subsection \<open>Kinds of messages\<close>

definition COAPAckMsg :: "u8 \<Rightarrow> u8 \<Rightarrow> bool" where
  "COAPAckMsg typ code \<longleftrightarrow> code = COAP_MSG_CODE_EMPTY_MESSAGE \<and> typ = COAP_MESSAGE_TYPE_ACK"

definition CoAPRespMsg :: "u8 \<Rightarrow> bool" where
  "CoAPRespMsg code \<longleftrightarrow> 0x40 \<le> code \<and> code < 0xc0"

definition CoAPPingMsg :: "u8 \<Rightarrow> u8 \<Rightarrow> bool" where
  "CoAPPingMsg typ code \<longleftrightarrow> code = COAP_MSG_CODE_EMPTY_MESSAGE \<and> typ = COAP_MESSAGE_TYPE_CON"

definition CoAPResetMsg :: "u8 \<Rightarrow> bool" where
  "CoAPResetMsg typ \<longleftrightarrow> typ = COAP_MESSAGE_TYPE_RST"

definition CoAPCONRespMsg :: "u8 \<Rightarrow> u8 \<Rightarrow> bool" where
  "CoAPCONRespMsg typ code \<longleftrightarrow> code = COAP_MSG_CODE_205_CONTENT \<and> typ = COAP_MESSAGE_TYPE_CON"

definition CoAPReqMsg :: "u8 \<Rightarrow> bool" where
  "CoAPReqMsg code \<longleftrightarrow> 1 \<le> code \<and> code < 32"

subsection \<open>Sending\<close>

definition CoAPMessageId_gen :: "CoAPIntContext \<Rightarrow> u16 \<times> CoAPIntContext" where
  "CoAPMessageId_gen s =
     (if message_id s = 65535 then (1, s\<lparr>message_id := 1\<rparr>)
      else (message_id s, s\<lparr>message_id := message_id s + 1\<rparr>))"

definition CoAPMessageList_add ::
    "coap_env \<Rightarrow> NetworkAddr \<Rightarrow> CoAPMessage \<Rightarrow> bytes \<Rightarrow> u32 \<Rightarrow> CoAPIntContext \<Rightarrow> int \<times> CoAPIntContext" where
  "CoAPMessageList_add e remote m buffer len s =
     (let (mem, s) = ask (env_mem e) s in
      if \<not> mem then (COAP_ERROR_NULL, s)
      else
        let (tick, s) = ask (env_now e) s;
            tv = of_nat (COAP_ACK_TIMEOUT * COAP_ACK_RANDOM_FACTOR) :: u16;
            con = (msg_type m = COAP_MESSAGE_TYPE_CON);
            node = \<lparr>sn_type = msg_type m, sn_code = msg_code m, sn_msgid = msgid m, sn_tokenlen = tokenlen m,
                    retrans_count = (if con then COAP_MAX_RETRY_COUNT else 0), sn_token = stored_token m,
                    timeout = (if con then ucast tv + tick else ucast tv * 4 + tick), timeout_val = tv,
                    msglen = len, sn_handler = msg_handler m, sn_remote = remote, sn_user = user m,
                    sn_message = buffer, acked = False,
                    sn_keep = (if platform_is_multicast (net_addr remote) \<or> keep m = 1 then KEEPING else NOKEEP)\<rparr>
        in if list_full (sendlist s) then (COAP_ERROR_DATA_SIZE, s)
           else (COAP_SUCCESS, s\<lparr>sendlist := list_add_tail node (sendlist s)\<rparr>))"

text \<open>The trace of a message reads its content format.\<close>

definition CoAPMessage_dump :: "CoAPMessage \<Rightarrow> unit option" where
  "CoAPMessage_dump m = map_option (\<lambda>_. ()) (CoAPUintOption_get m COAP_OPTION_CONTENT_FORMAT 0)"

definition CoAPNetwork_write :: "coap_env \<Rightarrow> NetworkAddr \<Rightarrow> bytes \<Rightarrow> CoAPIntContext \<Rightarrow> int \<times> CoAPIntContext" where
  "CoAPNetwork_write e remote data s = ask (env_sent e) (emit (NetWrite remote data) s)"

definition CoAPMessage_send ::
    "coap_env \<Rightarrow> NetworkAddr \<Rightarrow> CoAPMessage \<Rightarrow> CoAPIntContext \<Rightarrow> (int \<times> CoAPIntContext) option" where
  "CoAPMessage_send e remote m s =
     (let len = CoAPSerialize_MessageLength m in
      if COAP_MSG_MAX_PDU_LEN < len then Some (COAP_ERROR_DATA_SIZE, s)
      else
        let (mem, s) = ask (env_mem e) s in
        if \<not> mem then Some (COAP_ERROR_NULL, s)
        else do {
          (n, buff) \<leftarrow> CoAPSerialize_Message m (replicate len 0) len;
          s \<leftarrow> CoAPObsClient_delete m s;
          let msglen = word_of_int n :: u16;
              (readlen, s) = CoAPNetwork_write e remote (take (unat msglen) buff) s
          in if msglen \<noteq> word_of_int readlen then Some (COAP_ERROR_WRITE_FAILED, s)
             else
               let (ret, s) = (if CoAPReqMsg (msg_code m) \<or> CoAPCONRespMsg (msg_type m) (msg_code m)
                               then CoAPMessageList_add e remote m buff (ucast msglen) s else (COAP_SUCCESS, s))
               in if ret \<noteq> COAP_SUCCESS then Some (ret, s)
                  else do { _ \<leftarrow> CoAPMessage_dump m; Some (COAP_SUCCESS, s) } })"

definition CoAPMessage_cancel :: "CoAPMessage \<Rightarrow> CoAPIntContext \<Rightarrow> int \<times> CoAPIntContext" where
  "CoAPMessage_cancel m s =
     (COAP_SUCCESS, s\<lparr>sendlist := remove_all (\<lambda>node. sn_msgid node = msgid m) (sendlist s)\<rparr>)"

definition CoAPMessageId_cancel :: "u16 \<Rightarrow> CoAPIntContext \<Rightarrow> int \<times> CoAPIntContext" where
  "CoAPMessageId_cancel i s = (COAP_SUCCESS, s\<lparr>sendlist := remove_all (\<lambda>node. sn_msgid node = i) (sendlist s)\<rparr>)"

subsection \<open>Acknowledgements and errors\<close>

text \<open>The first message with the identifier is marked; an answer of ours is also removed.\<close>

definition CoAPAckMessage_handle :: "CoAPMessage \<Rightarrow> CoAPIntContext \<Rightarrow> CoAPIntContext" where
  "CoAPAckMessage_handle m s =
     (let same = (\<lambda>node. sn_msgid node = msgid m) in
      case find same (entries (sendlist s)) of
        None \<Rightarrow> s
      | Some node \<Rightarrow>
          let s = (if CoAPRespMsg (sn_code node) then s\<lparr>sendlist := remove_one same (sendlist s)\<rparr>
                   else s\<lparr>sendlist := (sendlist s)\<lparr>entries :=
                            update_first same (\<lambda>node. node\<lparr>acked := True\<rparr>) (entries (sendlist s))\<rparr>\<rparr>)
          in call_back (sn_handler node) COAP_RECV_RESP_SUC (sn_user node) (sn_remote node) None s)"

definition CoAPAckMessage_send :: "coap_env \<Rightarrow> NetworkAddr \<Rightarrow> u16 \<Rightarrow> CoAPIntContext \<Rightarrow> (int \<times> CoAPIntContext) option" where
  "CoAPAckMessage_send e remote i s = CoAPMessage_send e remote (snd (CoAPMessageId_set i CoAPMessage_init)) s"

definition CoAPRestMessage_send :: "coap_env \<Rightarrow> NetworkAddr \<Rightarrow> u16 \<Rightarrow> CoAPIntContext \<Rightarrow> (int \<times> CoAPIntContext) option" where
  "CoAPRestMessage_send e remote i s =
     CoAPMessage_send e remote
       (snd (CoAPMessageId_set i (snd (CoAPMessageType_set COAP_MESSAGE_TYPE_RST CoAPMessage_init)))) s"

definition CoAPErrRespMessage_send ::
    "coap_env \<Rightarrow> NetworkAddr \<Rightarrow> CoAPMessage \<Rightarrow> u8 \<Rightarrow> CoAPIntContext \<Rightarrow> (int \<times> CoAPIntContext) option" where
  "CoAPErrRespMessage_send e remote m err_code s =
     (let response = snd (CoAPMessageCode_set err_code CoAPMessage_init);
          response = snd (CoAPMessageId_set (msgid m) response);
          response = snd (CoAPMessageToken_set (take (unat (tokenlen m)) (token m)) response);
          response = snd (CoAPMessageType_set
            (if msg_type m = COAP_MESSAGE_TYPE_CON then COAP_MESSAGE_TYPE_ACK else msg_type m) response)
      in CoAPMessage_send e remote response s)"

subsection \<open>Responses\<close>

definition answers :: "CoAPMessage \<Rightarrow> CoAPSendNode \<Rightarrow> bool" where
  "answers m node \<longleftrightarrow> same_token (sn_tokenlen node) (sn_token node) m"

definition CoAPRespMessage_handle ::
    "coap_env \<Rightarrow> NetworkAddr \<Rightarrow> CoAPMessage \<Rightarrow> CoAPIntContext \<Rightarrow> (int \<times> CoAPIntContext) option" where
  "CoAPRespMessage_handle e remote m s =
     do { s \<leftarrow> (if msg_type m = COAP_MESSAGE_TYPE_CON
                  then map_option snd (CoAPAckMessage_send e remote (msgid m) s) else Some s);
          s \<leftarrow> (case find (answers m) (entries (sendlist s)) of
                   Some node \<Rightarrow>
                     let s = (if sn_keep node = NOKEEP
                              then s\<lparr>sendlist := remove_one (answers m) (sendlist s)\<rparr> else s);
                         m = m\<lparr>user := sn_user node\<rparr>
                     in if sn_handler node = 0 then Some s
                        else do { s \<leftarrow> CoAPObsClient_add e m remote (Some node) s;
                                  Some (call_back (sn_handler node) COAP_REQUEST_SUCCESS (user m) remote (Some m) s) }
                 | None \<Rightarrow> CoAPObsClient_add e m remote None s);
          Some (COAP_ERROR_NOT_FOUND, s) }"

subsection \<open>Requests\<close>

definition CoAPRequestMessage_ack_send :: "coap_env \<Rightarrow> NetworkAddr \<Rightarrow> u16 \<Rightarrow> CoAPIntContext \<Rightarrow> (int \<times> CoAPIntContext) option" where
  "CoAPRequestMessage_ack_send e remote i s = CoAPMessage_send e remote (snd (CoAPMessageId_set i CoAPMessage_init)) s"

text \<open>\<open>strncpy\<close> of n bytes pads with zeros after a NUL.\<close>

definition strncpy_bytes :: "nat \<Rightarrow> bytes \<Rightarrow> bytes option" where
  "strncpy_bytes n src =
     (let t = takeWhile (\<lambda>x. x \<noteq> 0) (take n src)
      in if length t = length src \<and> length t < n then None else Some (t @ replicate (n - length t) 0))"

text \<open>
  The path in a buffer of 128 bytes, of which \<open>acc\<close> are written: an option is added when the bytes
  so far and its own are at most 127, although the slash takes one more.
\<close>

fun request_path :: "bytes \<Rightarrow> CoAPMsgOption list \<Rightarrow> bytes option" where
  "request_path acc [] = Some acc"
| "request_path acc (opt # opts) =
     (if opt_num opt = COAP_OPTION_URI_PATH \<and> length acc + unat (opt_len opt) \<le> COAP_MSG_MAX_PATH_LEN - 1
      then do { v \<leftarrow> strncpy_bytes (unat (opt_len opt)) (opt_val opt); request_path (acc @ [0x2F] @ v) opts }
      else request_path acc opts)"

text \<open>A text that fills its buffer without a NUL is read on past it.\<close>

definition path_text :: "bytes \<Rightarrow> bytes option" where
  "path_text buf =
     (let t = takeWhile (\<lambda>x. x \<noteq> 0) buf in if length t < COAP_MSG_MAX_PATH_LEN then Some t else None)"

definition CoAPRequestMessage_handle ::
    "coap_env \<Rightarrow> NetworkAddr \<Rightarrow> CoAPMessage \<Rightarrow> CoAPIntContext \<Rightarrow> (int \<times> CoAPIntContext) option" where
  "CoAPRequestMessage_handle e remote m s =
     do { buf \<leftarrow> request_path [] (options m);
          path \<leftarrow> path_text buf;
          case CoAPResourceByPath_get path s of
            None \<Rightarrow> CoAPErrRespMessage_send e remote m COAP_MSG_CODE_404_NOT_FOUND s
          | Some i \<Rightarrow>
              let res = entries (resource s) ! i in
              if res_callback res = 0
              then CoAPErrRespMessage_send e remote m COAP_MSG_CODE_405_METHOD_NOT_ALLOWED s
              else if \<not> bit (permission res) (unat (msg_code m) - 1)
              then CoAPErrRespMessage_send e remote m COAP_MSG_CODE_405_METHOD_NOT_ALLOWED s
              else
                do { s \<leftarrow> (if msg_type m = COAP_MESSAGE_TYPE_CON
                             then map_option snd (CoAPRequestMessage_ack_send e remote (msgid m) s) else Some s);
                     Some (COAP_SUCCESS, emit (ResourceCallback (res_callback res) path remote m) s) } }"

subsection \<open>Receiving\<close>

definition zero_message :: CoAPMessage where
  "zero_message = CoAPMessage_init\<lparr>msg_version := 0, msg_type := 0\<rparr>"

text \<open>The result of deserialising is not looked at.\<close>

definition CoAPMessage_handle ::
    "coap_env \<Rightarrow> NetworkAddr \<Rightarrow> bytes \<Rightarrow> int \<Rightarrow> CoAPIntContext \<Rightarrow> CoAPIntContext option" where
  "CoAPMessage_handle e remote buf datalen s =
     do { (ret, m) \<leftarrow> CoAPDeserialize_Message zero_message buf datalen;
          _ \<leftarrow> CoAPMessage_dump m;
          if COAPAckMsg (msg_type m) (msg_code m) \<or> CoAPResetMsg (msg_type m) then Some (CoAPAckMessage_handle m s)
          else if CoAPRespMsg (msg_code m) then map_option snd (CoAPRespMessage_handle e remote m s)
          else if CoAPPingMsg (msg_type m) (msg_code m) then map_option snd (CoAPRestMessage_send e remote (msgid m) s)
          else if CoAPReqMsg (msg_code m) then map_option snd (CoAPRequestMessage_handle e remote m s)
          else Some s }"

text \<open>The length read, the sender (empty when nothing was), and the receive buffer.\<close>

definition CoAPNetwork_read :: "coap_env \<Rightarrow> CoAPIntContext \<Rightarrow> int \<times> NetworkAddr \<times> bytes \<times> CoAPIntContext" where
  "CoAPNetwork_read e s =
     (let (r, s) = ask (env_recv e) s;
          nobody = \<lparr>net_addr = [], net_port = 0\<rparr>;
          zeros = replicate COAP_MSG_MAX_PDU_LEN 0
      in case r of
           Inl (remote, data) \<Rightarrow>
             if data = [] then (-1, nobody, zeros, s)
             else (let d = take COAP_MSG_MAX_PDU_LEN data
                   in (int (length d), remote, d @ replicate (COAP_MSG_MAX_PDU_LEN - length d) 0, s))
         | Inr code \<Rightarrow> (min 0 code, nobody, zeros, s))"

partial_function (option) CoAPMessage_process ::
    "coap_env \<Rightarrow> string \<Rightarrow> CoAPIntContext \<Rightarrow> (int \<times> CoAPIntContext) option" where
  [code]: "CoAPMessage_process e ip_addr s =
     (let (len, remote, buf, s) = CoAPNetwork_read e s in
      if ip_addr = net_addr remote then CoAPMessage_process e ip_addr s
      else if 0 < len
      then Option.bind (CoAPMessage_handle e remote buf len s) (CoAPMessage_process e ip_addr)
      else Some (len, s))"

subsection \<open>Time-outs and retransmission\<close>

definition gives_up :: "u64 \<Rightarrow> CoAPSendNode \<Rightarrow> bool" where
  "gives_up tick node \<longleftrightarrow> sn_keep node = NOKEEP \<and> \<not> 0 < retrans_count node \<and> \<not> tick \<le> timeout node"

lemma remove_first_shorter: "find P xs = Some x \<Longrightarrow> length (remove_first P xs) < length xs"
  by (induction xs) (auto split: if_splits)

text \<open>The loop ends because every round removes a message.\<close>

function check_timeout_loop :: "u64 \<Rightarrow> CoAPIntContext \<Rightarrow> CoAPIntContext" where
  "check_timeout_loop tick s =
     (case find (gives_up tick) (entries (sendlist s)) of
        None \<Rightarrow> s
      | Some node \<Rightarrow>
          let s = s\<lparr>sendlist := remove_one (gives_up tick) (sendlist s)\<rparr>;
              s = CoapObsServerAll_delete (sn_remote node) s
          in check_timeout_loop tick
               (call_back (sn_handler node) COAP_RECV_RESP_TIMEOUT (sn_user node) (sn_remote node) None s))"
  by pat_completeness auto
termination
  by (relation "measure (\<lambda>(tick, s). length (entries (sendlist s)))")
    (auto simp: remove_one_def CoapObsServerAll_delete_def call_back_def emit_def remove_first_shorter)

declare check_timeout_loop.simps [simp del]

definition Check_timeout :: "coap_env \<Rightarrow> CoAPIntContext \<Rightarrow> CoAPIntContext" where
  "Check_timeout e s = (let (tick, s) = ask (env_now e) s in check_timeout_loop tick s)"

definition resend_due :: "u64 \<Rightarrow> CoAPSendNode \<Rightarrow> bool" where
  "resend_due tick node \<longleftrightarrow> \<not> tick < timeout node \<and> 0 < retrans_count node"

definition retransmitted :: "u64 \<Rightarrow> CoAPSendNode \<Rightarrow> CoAPSendNode" where
  "retransmitted tick node =
     (let tv = of_nat (unat (timeout_val node) * 3 div 2) :: u16; rc = retrans_count node - 1
      in node\<lparr>timeout_val := tv, retrans_count := rc,
              timeout := (if rc = 0 then tick + of_nat COAP_ACK_TIMEOUT else tick + ucast tv)\<rparr>)"

fun resend_all :: "coap_env \<Rightarrow> u64 \<Rightarrow> CoAPSendNode list \<Rightarrow> CoAPIntContext \<Rightarrow> CoAPSendNode list \<times> CoAPIntContext" where
  "resend_all e tick [] s = ([], s)"
| "resend_all e tick (node # ns) s =
     (if resend_due tick node
      then let s = (if acked node then s
                    else snd (CoAPNetwork_write e (sn_remote node) (take (unat (msglen node)) (sn_message node)) s));
               (ns', s) = resend_all e tick ns s
           in (retransmitted tick node # ns', s)
      else let (ns', s) = resend_all e tick ns s in (node # ns', s))"

definition Retansmit :: "coap_env \<Rightarrow> CoAPIntContext \<Rightarrow> CoAPIntContext" where
  "Retansmit e s =
     (let (tick, s) = ask (env_now e) s;
          (ns, s) = resend_all e tick (entries (sendlist s)) s
      in s\<lparr>sendlist := (sendlist s)\<lparr>entries := ns\<rparr>\<rparr>)"

definition CoAPMessage_cycle :: "coap_env \<Rightarrow> string \<Rightarrow> CoAPIntContext \<Rightarrow> (int \<times> CoAPIntContext) option" where
  "CoAPMessage_cycle e ip_addr s =
     do { (res, s) \<leftarrow> CoAPMessage_process e ip_addr s; Some (res, Check_timeout e (Retansmit e s)) }"

end
