(* ===== verification/CoapServer.thy ===== *)
theory CoapServer
  imports CoapExchange
begin

text \<open>
  The CoAP server as its users see it (linkkit/coap_server/server/CoAPServer.c, CoAPExport.c, and
  the notifications of CoAPObserve.c): creating and freeing the context, registering, sending
  requests and responses.
\<close>

unbundle bit_operations_syntax

subsection \<open>Notifying observers\<close>

text \<open>\<open>encrypt\<close> is the callback that encrypts a payload, with its return code and the result.\<close>

type_synonym encrypt = "bytes \<Rightarrow> int \<times> bytes"

definition notification :: "coap_env \<Rightarrow> CoapObserver \<Rightarrow> CoAPResource \<Rightarrow> u16 \<Rightarrow> CoAPIntContext \<Rightarrow> CoAPMessage \<times> CoAPIntContext" where
  "notification e node res i s =
     (let m = snd (CoAPMessageType_set (ob_msg_type node) CoAPMessage_init);
          m = snd (CoAPMessageCode_set COAP_MSG_CODE_205_CONTENT m);
          m = snd (CoAPMessageId_set i m);
          m = snd (CoAPMessageHandler_set 0 m);
          m = snd (CoAPMessageUserData_set (Suc (p_resource_of_interest node)) m);
          m = snd (CoAPMessageToken_set (take (unat (ob_tokenlen node)) (ob_token node)) m);
          (mem1, s) = ask (env_mem e) s;
          m = snd (CoAPUintOption_add mem1 COAP_OPTION_OBSERVE (observer_sequence_num node) m);
          (mem2, s) = ask (env_mem e) s;
          m = snd (CoAPUintOption_add mem2 COAP_OPTION_CONTENT_FORMAT (ucast (ob_ctype node)) m);
          (mem3, s) = ask (env_mem e) s
      in (snd (CoAPUintOption_add mem3 COAP_OPTION_MAXAGE (maxage res) m), s))"

definition notify_payload :: "encrypt option \<Rightarrow> bytes \<Rightarrow> CoAPMessage \<Rightarrow> CoAPMessage" where
  "notify_payload handler data m =
     (case handler of
        None \<Rightarrow> snd (CoAPMessagePayload_set data m)
      | Some f \<Rightarrow> (let (ret, dest) = f data in
                    if ret = COAP_SUCCESS then snd (CoAPMessagePayload_set dest m) else m))"

text \<open>The loop over the observers; it gives the code of the last message and the observers afterwards.\<close>

fun notify_loop ::
    "coap_env \<Rightarrow> nat \<Rightarrow> CoAPResource \<Rightarrow> bytes \<Rightarrow> encrypt option \<Rightarrow> int \<Rightarrow> CoapObserver list \<Rightarrow> CoAPIntContext \<Rightarrow>
     (int \<times> CoapObserver list \<times> CoAPIntContext) option" where
  "notify_loop e i res data handler ret [] s = Some (ret, [], s)"
| "notify_loop e i res data handler ret (node # ns) s =
     (if p_resource_of_interest node \<noteq> i
      then do { (ret, ns', s) \<leftarrow> notify_loop e i res data handler ret ns s; Some (ret, node # ns', s) }
      else
        let (mid, s) = CoAPMessageId_gen s;
            (m, s) = notification e node res mid s
        in do { (ret, s) \<leftarrow> CoAPMessage_send e (ob_remote node) (notify_payload handler data m) s;
                (ret, ns', s) \<leftarrow> notify_loop e i res data handler ret ns s;
                Some (ret, node\<lparr>observer_sequence_num := observer_sequence_num node + 1\<rparr> # ns', s) })"

definition CoAPObsServer_notify ::
    "coap_env \<Rightarrow> bytes \<Rightarrow> bytes \<Rightarrow> encrypt option \<Rightarrow> CoAPIntContext \<Rightarrow> (int \<times> CoAPIntContext) option" where
  "CoAPObsServer_notify e path data handler s =
     (case CoAPResourceByPath_get path s of
        None \<Rightarrow> Some (COAP_SUCCESS, s)
      | Some i \<Rightarrow>
          do { (ret, ns, s) \<leftarrow> notify_loop e i (entries (resource s) ! i) data handler COAP_SUCCESS
                                 (entries (obsserver s)) s;
               Some (ret, s\<lparr>obsserver := (obsserver s)\<lparr>entries := ns\<rparr>\<rparr>) })"

subsection \<open>The context\<close>

record CoAPInitParam =
  send_maxcount :: u8
  obs_maxcount :: u8
  param_port :: u16
  param_group :: string
  param_waittime :: u32
  param_appdata :: nat
  res_maxcount :: u8

text \<open>
  \<open>parts\<close> says which of the steps that can fail succeed: allocating the context, allocating the
  receive buffer, creating the mutex, opening the socket.
\<close>

definition CoAPContext_create :: "bool list \<Rightarrow> CoAPInitParam \<Rightarrow> CoAPIntContext option" where
  "CoAPContext_create parts param =
     (if list_all id parts
      then
        let s = \<lparr>message_id = 1, sendlist = empty_list (if send_maxcount param \<noteq> 0 then send_maxcount param else 8),
                 obsserver = empty_list 0, obsclient = empty_list 0, resource = empty_list 0,
                 waittime = (if param_waittime param = 0 then 2000 else param_waittime param),
                 appdata = param_appdata param, coap_calls = 0, coap_trace = []\<rparr>;
            s = CoAPResource_init (if res_maxcount param = 0 then 8 else res_maxcount param) s;
            obs = (if obs_maxcount param = 0 then 8 else obs_maxcount param);
            s = CoAPObsServer_init obs s
        in Some (CoAPObsClient_init obs s)
      else None)"

definition CoAPContextAppdata_get :: "CoAPIntContext option \<Rightarrow> nat" where
  "CoAPContextAppdata_get context = (case context of None \<Rightarrow> 0 | Some s \<Rightarrow> appdata s)"

subsection \<open>The server\<close>

record coap_server =
  g_context :: "CoAPIntContext option"
  token_value :: u32

definition server_param :: CoAPInitParam where
  "server_param = \<lparr>send_maxcount = 16, obs_maxcount = 16, param_port = 5683, param_group = ''224.0.1.187'',
     param_waittime = 50, param_appdata = 0, res_maxcount = 255\<rparr>"

text \<open>\<open>tools\<close> says whether the semaphore and the mutex of the server's task can be made.\<close>

definition CoAPServer_init :: "bool \<Rightarrow> bool list \<Rightarrow> coap_server \<Rightarrow> coap_server" where
  "CoAPServer_init tools parts g =
     (if g_context g \<noteq> None then g
      else if \<not> tools then g
      else g\<lparr>g_context := CoAPContext_create parts server_param\<rparr>)"

definition CoAPServer_deinit :: "coap_server \<Rightarrow> coap_server" where
  "CoAPServer_deinit g = g\<lparr>g_context := None\<rparr>"

definition CoAPServer_register :: "coap_env \<Rightarrow> bytes \<Rightarrow> nat \<Rightarrow> coap_server \<Rightarrow> int \<times> coap_server" where
  "CoAPServer_register e uri callback g =
     (case g_context g of
        None \<Rightarrow> (COAP_ERROR_INVALID_PARAM, g)
      | Some s \<Rightarrow> (let (ret, s) = CoAPResource_register e uri 0x0001 COAP_CT_APP_JSON 60 callback s
                    in (ret, g\<lparr>g_context := Some s\<rparr>)))"

definition CoAPServerToken_get :: "coap_server \<Rightarrow> bytes \<times> coap_server" where
  "CoAPServerToken_get g =
     (let v = token_value g in
      ([ucast (v AND 0x00FF), ucast (drop_bit 8 (v AND 0xFF00)), ucast (drop_bit 16 (v AND 0xFF0000)),
        ucast (drop_bit 24 (v AND 0xFF000000))], g\<lparr>token_value := v + 1\<rparr>))"

text \<open>
  The path of a request as options, one for every part between slashes. \<open>pstr\<close> is the part so far;
  the text has less than 128 bytes. An allocation is
  asked for each option; what the numbers of the calls are has no meaning.
\<close>

definition add_path_option :: "coap_env \<Rightarrow> bytes \<Rightarrow> CoAPMessage \<times> CoAPIntContext \<Rightarrow> CoAPMessage \<times> CoAPIntContext" where
  "add_path_option e part ms =
     (let (m, s) = ms;
          (mem, s) = ask (env_mem e) s
      in (snd (CoAPStrOption_add mem COAP_OPTION_URI_PATH part m), s))"

fun path_loop :: "coap_env \<Rightarrow> bytes \<Rightarrow> bytes \<Rightarrow> CoAPMessage \<times> CoAPIntContext \<Rightarrow> CoAPMessage \<times> CoAPIntContext" where
  "path_loop e pstr [] ms = ms"
| "path_loop e pstr (c # cs) ms =
     (let ms = (if c = 0x2F \<and> pstr \<noteq> [] then add_path_option e pstr ms else ms);
          pstr = (if c = 0x2F then [] else pstr @ [c]);
          ms = (if cs = [] \<and> pstr \<noteq> [] then add_path_option e pstr ms else ms)
      in path_loop e pstr cs ms)"

definition CoAPServerPath_2_option :: "coap_env \<Rightarrow> bytes \<Rightarrow> CoAPMessage \<times> CoAPIntContext \<Rightarrow> int \<times> CoAPMessage \<times> CoAPIntContext" where
  "CoAPServerPath_2_option e uri ms =
     (if COAP_MSG_MAX_PATH_LEN \<le> length uri then (COAP_ERROR_INVALID_LENGTH, ms)
      else (COAP_SUCCESS, path_loop e [] uri ms))"

text \<open>The result also has the identifier of the message.\<close>

definition CoAPServerMultiCast_send ::
    "coap_env \<Rightarrow> NetworkAddr \<Rightarrow> bytes \<Rightarrow> bytes \<Rightarrow> nat \<Rightarrow> coap_server \<Rightarrow> (int \<times> u16 option \<times> coap_server) option" where
  "CoAPServerMultiCast_send e remote uri buff callback g =
     (case g_context g of
        None \<Rightarrow> Some (COAP_ERROR_INVALID_PARAM, None, g)
      | Some s \<Rightarrow>
          let m = snd (CoAPMessageType_set COAP_MESSAGE_TYPE_NON CoAPMessage_init);
              m = snd (CoAPMessageCode_set COAP_MSG_CODE_POST m);
              (i, s) = CoAPMessageId_gen s;
              m = snd (CoAPMessageId_set i m);
              (tk, g) = CoAPServerToken_get g;
              m = snd (CoAPMessageToken_set tk m);
              m = snd (CoAPMessageHandler_set callback m);
              m = snd (CoAPMessageKeep_Set 1 m);
              (_, m, s) = CoAPServerPath_2_option e uri (m, s);
              (mem, s) = ask (env_mem e) s;
              m = snd (CoAPUintOption_add mem COAP_OPTION_CONTENT_FORMAT COAP_CT_APP_JSON m);
              m = snd (CoAPMessagePayload_set buff m)
          in do { (ret, s) \<leftarrow> CoAPMessage_send e remote m s;
                  Some (ret, Some i, g\<lparr>g_context := Some s\<rparr>) })"

text \<open>Here too \<open>observe\<close> is combined with the option, but from 0.\<close>

definition CoAPServerResp_send ::
    "coap_env \<Rightarrow> NetworkAddr \<Rightarrow> bytes \<Rightarrow> CoAPMessage \<Rightarrow> bytes \<Rightarrow> nat \<Rightarrow> bool \<Rightarrow> coap_server \<Rightarrow>
     (int \<times> u16 option \<times> coap_server) option" where
  "CoAPServerResp_send e remote buff request paths callback qos g =
     (case g_context g of
        None \<Rightarrow> Some (COAP_ERROR_INVALID_PARAM, None, g)
      | Some s \<Rightarrow>
          let m = snd (CoAPMessageType_set (if \<not> qos then COAP_MESSAGE_TYPE_NON else COAP_MESSAGE_TYPE_CON) CoAPMessage_init);
              m = snd (CoAPMessageCode_set COAP_MSG_CODE_205_CONTENT m);
              m = snd (CoAPMessageId_set (msgid request) m);
              m = snd (CoAPMessageToken_set (take (unat (tokenlen request)) (token request)) m);
              m = snd (CoAPMessageHandler_set callback m)
          in do { (ret, observe) \<leftarrow> CoAPUintOption_get request COAP_OPTION_OBSERVE 0;
                  (m, s) \<leftarrow> (if ret = COAP_SUCCESS \<and> observe = 0
                              then do { (_, s) \<leftarrow> CoAPObsServer_add e paths remote request s;
                                        let (mem, s) = ask (env_mem e) s
                                        in Some (snd (CoAPUintOption_add mem COAP_OPTION_OBSERVE 0 m), s) }
                              else Some (m, s));
                  let (mem, s) = ask (env_mem e) s;
                      m = snd (CoAPUintOption_add mem COAP_OPTION_CONTENT_FORMAT COAP_CT_APP_JSON m);
                      m = snd (CoAPMessagePayload_set buff m)
                  in do { (ret, s) \<leftarrow> CoAPMessage_send e remote m s;
                          Some (ret, Some (msgid m), g\<lparr>g_context := Some s\<rparr>) } })"

end
