(* ===== verification/CoapRetry.thy ===== *)
theory CoapRetry
  imports CoapServer "HOL-Library.Multiset"
begin

text \<open>
  Retransmission. While nothing is received, the datagrams and time-outs still owed to the messages
  of the send list and those already made add up to the same, and the work left in every message
  shrinks with the clock.
\<close>

subsection \<open>One round\<close>

definition resent :: "u64 \<Rightarrow> CoAPSendNode \<Rightarrow> CoAPSendNode" where
  "resent tick node = (if resend_due tick node then retransmitted tick node else node)"

definition sent_again :: "CoAPSendNode \<Rightarrow> coap_event" where
  "sent_again node = NetWrite (sn_remote node) (take (unat (msglen node)) (sn_message node))"

definition given_up :: "CoAPSendNode \<Rightarrow> coap_event list" where
  "given_up node = (if sn_handler node = 0 then [] else
     [SendHandler (sn_handler node) COAP_RECV_RESP_TIMEOUT (sn_user node) (sn_remote node) None])"

lemma resend_all_effect:
  "\<exists>c. resend_all e tick ns s = (map (resent tick) ns, s\<lparr>coap_calls := c, coap_trace := coap_trace s @
     map sent_again (filter (\<lambda>node. resend_due tick node \<and> \<not> acked node) ns)\<rparr>) \<and>
   coap_calls s \<le> c \<and> c \<le> coap_calls s + length ns"
proof (induction ns arbitrary: s)
  case Nil
  show ?case by (intro exI [of _ "coap_calls s"]) simp
next
  case (Cons node ns)
  define u where "u = (if resend_due tick node \<and> \<not> acked node
    then snd (CoAPNetwork_write e (sn_remote node) (take (unat (msglen node)) (sn_message node)) s) else s)"
  have "u = s\<lparr>coap_calls := coap_calls u, coap_trace := coap_trace s @
      (if resend_due tick node \<and> \<not> acked node then [sent_again node] else [])\<rparr>"
    "coap_calls s \<le> coap_calls u" "coap_calls u \<le> Suc (coap_calls s)"
    by (auto simp: u_def CoAPNetwork_write_def ask_def emit_def sent_again_def)
  then obtain d where u: "u = s\<lparr>coap_calls := d, coap_trace := coap_trace s @
      (if resend_due tick node \<and> \<not> acked node then [sent_again node] else [])\<rparr>"
    "coap_calls s \<le> d" "d \<le> Suc (coap_calls s)" by blast
  obtain c where c: "resend_all e tick ns u = (map (resent tick) ns, u\<lparr>coap_calls := c, coap_trace := coap_trace u @
     map sent_again (filter (\<lambda>node. resend_due tick node \<and> \<not> acked node) ns)\<rparr>)"
    "coap_calls u \<le> c" "c \<le> coap_calls u + length ns" using Cons.IH by blast
  have "resend_all e tick (node # ns) s = (resent tick node # fst (resend_all e tick ns u), snd (resend_all e tick ns u))"
    by (auto simp: u_def resent_def Let_def split_beta)
  then show ?case using c u by (intro exI [of _ c]) auto
qed

lemma remove_first_find:
  "find P xs = Some x \<Longrightarrow> filter P xs = x # filter P (remove_first P xs)"
  "find P xs = Some x \<Longrightarrow> filter (\<lambda>y. \<not> P y) (remove_first P xs) = filter (\<lambda>y. \<not> P y) xs"
  by (induction xs) (auto split: if_splits)

lemma check_timeout_effect:
  "\<exists>ob. check_timeout_loop tick s = s\<lparr>
     sendlist := (sendlist s)\<lparr>entries := filter (\<lambda>node. \<not> gives_up tick node) (entries (sendlist s)),
       list_count := list_count (sendlist s) - of_nat (length (filter (gives_up tick) (entries (sendlist s))))\<rparr>,
     obsserver := ob,
     coap_trace := coap_trace s @ concat (map given_up (filter (gives_up tick) (entries (sendlist s))))\<rparr>"
proof (induction tick s rule: check_timeout_loop.induct)
  case (1 tick s)
  show ?case
  proof (cases "find (gives_up tick) (entries (sendlist s))")
    case None
    then have "filter (gives_up tick) (entries (sendlist s)) = []"
      "filter (\<lambda>node. \<not> gives_up tick node) (entries (sendlist s)) = entries (sendlist s)"
      by (auto simp: find_None_iff filter_empty_conv filter_id_conv)
    then show ?thesis using None by (intro exI [of _ "obsserver s"]) (simp add: check_timeout_loop.simps)
  next
    case (Some node)
    let ?l = "remove_one (gives_up tick) (sendlist s)"
    let ?t = "call_back (sn_handler node) COAP_RECV_RESP_TIMEOUT (sn_user node) (sn_remote node) None
        (CoapObsServerAll_delete (sn_remote node) (s\<lparr>sendlist := ?l\<rparr>))"
    have t: "sendlist ?t = ?l" "coap_trace ?t = coap_trace s @ given_up node"
      "\<exists>ob. ?t = s\<lparr>sendlist := ?l, obsserver := ob, coap_trace := coap_trace ?t\<rparr>"
      by (auto simp: call_back_def emit_def CoapObsServerAll_delete_def given_up_def)
    have "check_timeout_loop tick s = check_timeout_loop tick ?t"
      using Some by (subst check_timeout_loop.simps) (simp add: Let_def)
    moreover obtain ob where "check_timeout_loop tick ?t = ?t\<lparr>
       sendlist := (sendlist ?t)\<lparr>entries := filter (\<lambda>node. \<not> gives_up tick node) (entries (sendlist ?t)),
         list_count := list_count (sendlist ?t) - of_nat (length (filter (gives_up tick) (entries (sendlist ?t))))\<rparr>,
       obsserver := ob,
       coap_trace := coap_trace ?t @ concat (map given_up (filter (gives_up tick) (entries (sendlist ?t))))\<rparr>"
      using 1 [OF Some refl refl] by blast
    ultimately show ?thesis
      using t remove_first_find [OF Some] Some by (intro exI [of _ ob]) (auto simp: remove_one_def)
  qed
qed


text \<open>One round of both, at two readings of the clock.\<close>

definition due_writes :: "u64 \<Rightarrow> CoAPSendNode list \<Rightarrow> coap_event list" where
  "due_writes tick ns = map sent_again (filter (\<lambda>node. resend_due tick node \<and> \<not> acked node) ns)"

definition due_timeouts :: "u64 \<Rightarrow> CoAPSendNode list \<Rightarrow> coap_event list" where
  "due_timeouts tick ns = concat (map given_up (filter (gives_up tick) ns))"

definition round_entries :: "u64 \<Rightarrow> u64 \<Rightarrow> CoAPSendNode list \<Rightarrow> CoAPSendNode list" where
  "round_entries t1 t2 ns = filter (\<lambda>node. \<not> gives_up t2 node) (map (resent t1) ns)"

lemma round_effect:
  assumes "Check_timeout e (Retansmit e s) = s'"
  shows "\<exists>c. coap_calls s < c \<and> c \<le> coap_calls s + Suc (length (entries (sendlist s))) \<and> coap_calls s' = Suc c \<and>
    entries (sendlist s') = round_entries (env_now e (coap_calls s)) (env_now e c) (entries (sendlist s)) \<and>
    coap_trace s' = coap_trace s @ due_writes (env_now e (coap_calls s)) (entries (sendlist s)) @
      due_timeouts (env_now e c) (map (resent (env_now e (coap_calls s))) (entries (sendlist s)))"
proof -
  let ?t1 = "env_now e (coap_calls s)" and ?ns = "entries (sendlist s)"
  let ?s1 = "s\<lparr>coap_calls := coap_calls s + 1\<rparr>"
  obtain c where c: "resend_all e ?t1 ?ns ?s1 = (map (resent ?t1) ?ns, ?s1\<lparr>coap_calls := c, coap_trace := coap_trace ?s1 @
     map sent_again (filter (\<lambda>node. resend_due ?t1 node \<and> \<not> acked node) ?ns)\<rparr>)"
    "coap_calls ?s1 \<le> c" "c \<le> coap_calls ?s1 + length ?ns" using resend_all_effect by blast
  let ?u = "s\<lparr>coap_trace := coap_trace s @ due_writes ?t1 ?ns,
      sendlist := (sendlist s)\<lparr>entries := map (resent ?t1) ?ns\<rparr>, coap_calls := c + 1\<rparr>"
  have "s' = check_timeout_loop (env_now e c) ?u"
    using assms c(1) by (auto simp: Check_timeout_def Retansmit_def ask_def due_writes_def)
  moreover obtain ob where "check_timeout_loop (env_now e c) ?u = ?u\<lparr>
     sendlist := (sendlist ?u)\<lparr>entries := filter (\<lambda>node. \<not> gives_up (env_now e c) node) (entries (sendlist ?u)),
       list_count := list_count (sendlist ?u) - of_nat (length (filter (gives_up (env_now e c)) (entries (sendlist ?u))))\<rparr>,
     obsserver := ob,
     coap_trace := coap_trace ?u @ concat (map given_up (filter (gives_up (env_now e c)) (entries (sendlist ?u))))\<rparr>"
    using check_timeout_effect by blast
  ultimately show ?thesis
    using c(2,3) by (intro exI [of _ c]) (simp add: round_entries_def due_timeouts_def)
qed

subsection \<open>What is still owed\<close>

text \<open>A message that waits is sent once for each retry left, unless it is acknowledged, and given up.\<close>

definition owed :: "CoAPSendNode \<Rightarrow> coap_event multiset" where
  "owed node = replicate_mset (if acked node then 0 else unat (retrans_count node)) (sent_again node) +
     (if sn_keep node = NOKEEP then mset (given_up node) else {#})"

lemma owed_resent:
  "owed node = (if resend_due t node \<and> \<not> acked node then {#sent_again node#} else {#}) + owed (resent t node)"
proof (cases "resend_due t node")
  case True
  then have "unat (retrans_count node) = Suc (unat (retrans_count node - 1))"
    using unat_minus_one [of "retrans_count node"] by (simp add: resend_due_def unat_gt_0 word_gt_0)
  moreover have "sent_again (resent t node) = sent_again node" "given_up (resent t node) = given_up node"
    "sn_keep (resent t node) = sn_keep node" "acked (resent t node) = acked node"
    "retrans_count (resent t node) = retrans_count node - 1"
    using True by (simp_all add: resent_def retransmitted_def sent_again_def given_up_def Let_def)
  ultimately show ?thesis using True by (simp add: owed_def)
qed (simp add: resent_def)

lemma owed_given_up: "gives_up t node \<Longrightarrow> owed node = mset (given_up node)"
  by (simp add: owed_def gives_up_def word_gt_0)

definition owed_all :: "CoAPSendNode list \<Rightarrow> coap_event multiset" where
  "owed_all ns = sum_list (map owed ns)"

lemma round_cons:
  "due_writes t (node # ns) = (if resend_due t node \<and> \<not> acked node then [sent_again node] else []) @ due_writes t ns"
  "due_timeouts t (node # ns) = (if gives_up t node then given_up node else []) @ due_timeouts t ns"
  "round_entries t1 t2 (node # ns) =
     (if gives_up t2 (resent t1 node) then [] else [resent t1 node]) @ round_entries t1 t2 ns"
  "owed_all (node # ns) = owed node + owed_all ns"
  by (simp_all add: due_writes_def due_timeouts_def round_entries_def owed_all_def)

lemma round_nil: "due_writes t [] = []" "due_timeouts t [] = []" "round_entries t1 t2 [] = []" "owed_all [] = {#}"
  by (simp_all add: due_writes_def due_timeouts_def round_entries_def owed_all_def)

lemma owed_round:
  "mset (due_writes t1 ns) + mset (due_timeouts t2 (map (resent t1) ns)) + owed_all (round_entries t1 t2 ns) = owed_all ns"
proof (induction ns)
  case (Cons node ns)
  have "owed (resent t1 node) = (if gives_up t2 (resent t1 node) then mset (given_up (resent t1 node)) else owed (resent t1 node))"
    by (simp add: owed_given_up)
  then have "mset (due_writes t1 (node # ns)) + mset (due_timeouts t2 (map (resent t1) (node # ns))) +
      owed_all (round_entries t1 t2 (node # ns)) =
      owed node + (mset (due_writes t1 ns) + mset (due_timeouts t2 (map (resent t1) ns)) + owed_all (round_entries t1 t2 ns))"
    using owed_resent [of node t1] by (auto simp: round_cons round_nil ac_simps)
  then show ?case unfolding Cons.IH round_cons(4) .
qed (simp add: round_nil)

subsection \<open>The work that is left\<close>

text \<open>The n-th interval, in milliseconds; each is half as long again as the one before.\<close>

fun backoff :: "nat \<Rightarrow> nat" where
  "backoff 0 = COAP_ACK_TIMEOUT"
| "backoff (Suc n) = backoff n * 3 div 2"

lemma backoff_values:
  "backoff (0) = 600"
  "backoff (Suc 0) = 900"
  "backoff (Suc (Suc 0)) = 1350"
  "backoff (Suc (Suc (Suc 0))) = 2025"
  "backoff (Suc (Suc (Suc (Suc 0)))) = 3037"
  "backoff (Suc (Suc (Suc (Suc (Suc 0))))) = 4555"
  "backoff (Suc (Suc (Suc (Suc (Suc (Suc 0)))))) = 6832"
  "backoff (Suc (Suc (Suc (Suc (Suc (Suc (Suc 0))))))) = 10248"
  "backoff (Suc (Suc (Suc (Suc (Suc (Suc (Suc (Suc 0)))))))) = 15372"
  by simp_all

lemma backoff_bound:
  assumes "n \<le> 8" shows "backoff n \<le> 15372"
proof -
  have "n = 0 \<or> n = Suc 0 \<or> n = Suc (Suc 0) \<or> n = Suc (Suc (Suc 0)) \<or> n = Suc (Suc (Suc (Suc 0))) \<or> n = Suc (Suc (Suc (Suc (Suc 0)))) \<or> n = Suc (Suc (Suc (Suc (Suc (Suc 0))))) \<or> n = Suc (Suc (Suc (Suc (Suc (Suc (Suc 0)))))) \<or> n = Suc (Suc (Suc (Suc (Suc (Suc (Suc (Suc 0)))))))"
    using assms by arith
  then show ?thesis by (elim disjE) (simp_all add: backoff_values del: backoff.simps(2))
qed

definition node_timing :: "CoAPSendNode \<Rightarrow> bool" where
  "node_timing node \<longleftrightarrow> retrans_count node \<le> 8 \<and>
     (0 < retrans_count node \<longrightarrow> unat (timeout_val node) = backoff (8 - unat (retrans_count node)))"

lemma retransmitted_timing:
  assumes "node_timing node" "0 < retrans_count node"
  shows "unat (retrans_count (retransmitted t node)) = unat (retrans_count node) - 1"
    "unat (timeout_val (retransmitted t node)) = backoff (8 - unat (retrans_count (retransmitted t node)))"
    "node_timing (retransmitted t node)"
    "\<exists>x \<le> 15372. timeout (retransmitted t node) = t + of_nat x"
proof -
  let ?r = "unat (retrans_count node)"
  have r: "0 < ?r" "?r \<le> 8" using assms by (simp_all add: node_timing_def word_gt_0 unat_gt_0 word_le_nat_alt)
  show c: "unat (retrans_count (retransmitted t node)) = ?r - 1"
    using assms(2) by (simp add: retransmitted_def Let_def word_gt_0 unat_minus_one)
  have b: "backoff (8 - ?r) * 3 div 2 = backoff (8 - (?r - 1))"
    using r by (metis Suc_diff_Suc Suc_diff_le Suc_pred' backoff.simps(2) diff_Suc_Suc)
  have "backoff (8 - (?r - 1)) \<le> 15372" by (rule backoff_bound) simp
  moreover have tv: "timeout_val (retransmitted t node) = of_nat (backoff (8 - (?r - 1)))"
    using assms b by (simp add: retransmitted_def Let_def node_timing_def)
  ultimately show u: "unat (timeout_val (retransmitted t node)) = backoff (8 - unat (retrans_count (retransmitted t node)))"
    by (simp add: c unat_of_nat)
  show "node_timing (retransmitted t node)" using r c u by (simp add: node_timing_def word_le_nat_alt)
  have "ucast (timeout_val (retransmitted t node)) = (of_nat (backoff (8 - (?r - 1))) :: u64)"
    using u c by (metis of_nat_unat)
  then have "timeout (retransmitted t node) = t + of_nat COAP_ACK_TIMEOUT \<or>
      timeout (retransmitted t node) = t + of_nat (backoff (8 - (?r - 1)))"
    by (auto simp: retransmitted_def Let_def)
  then show "\<exists>x \<le> 15372. timeout (retransmitted t node) = t + of_nat x"
    using \<open>backoff (8 - (?r - 1)) \<le> 15372\<close> by (metis backoff.simps(1) backoff_bound zero_le)
qed

definition work :: "nat \<Rightarrow> CoAPSendNode \<Rightarrow> nat" where
  "work T node = unat (retrans_count node) * 15373 + (unat (timeout node) - T)"

definition stays :: "CoAPSendNode \<Rightarrow> bool" where
  "stays node \<longleftrightarrow> sn_keep node = KEEPING \<and> retrans_count node = 0"

lemma stays_round: "stays node \<Longrightarrow> resent t node = node \<and> \<not> gives_up u node"
  by (simp add: stays_def resent_def resend_due_def gives_up_def)

lemma resent_timing: "node_timing node \<Longrightarrow> node_timing (resent t node)"
  using retransmitted_timing(3) by (auto simp: resent_def resend_due_def)

lemma work_shrinks:
  fixes t1 t2 :: u64
  assumes "node_timing node" "T \<le> unat t1" "unat t1 \<le> unat t2" "unat t1 < 2 ^ 63"
    and "\<not> gives_up t2 (resent t1 node)"
  shows "stays (resent t1 node) \<or> work (unat t2) (resent t1 node) \<le> work T node - (if T < unat t1 then 1 else 0) \<and>
    (T < unat t1 \<longrightarrow> 0 < work T node)"
proof (cases "resend_due t1 node")
  case True
  then have rc: "0 < retrans_count node" "unat (retrans_count node) = Suc (unat (retrans_count node) - 1)"
    by (simp_all add: resend_due_def word_gt_0 unat_gt_0)
  obtain x where x: "x \<le> 15372" "timeout (retransmitted t1 node) = t1 + of_nat x"
    using retransmitted_timing(4) [OF assms(1) rc(1)] by blast
  have "unat t1 + unat (of_nat x :: u64) < 2 ^ LENGTH(64)" using assms(4) x(1) by (simp add: unat_of_nat)
  then have "unat (t1 + of_nat x) = unat t1 + x" using unat_add_lem [of t1 "of_nat x"] x(1) by (simp add: unat_of_nat)
  then have "work (unat t2) (resent t1 node) \<le> (unat (retrans_count node) - 1) * 15373 + 15372"
    using x assms(3) True retransmitted_timing(1) [OF assms(1) rc(1)] by (simp add: work_def resent_def)
  moreover have "unat (retrans_count node) * 15373 \<le> work T node" by (simp add: work_def)
  ultimately show ?thesis using rc(2) by (simp split: nat_diff_split)
next
  case False
  then have n: "resent t1 node = node" by (simp add: resent_def)
  consider (wait) "unat t1 < unat (timeout node)" | (spent) "retrans_count node = 0" "unat (timeout node) \<le> unat t1"
    using False by (cases "t1 < timeout node") (auto simp: resend_due_def word_less_nat_alt [of t1] word_gt_0)
  then show ?thesis
  proof cases
    case wait
    then show ?thesis using assms(2,3) by (auto simp: n work_def)
  next
    case spent
    then show ?thesis
      using assms(2,3,5) by (cases "sn_keep node") (auto simp: n stays_def gives_up_def work_def word_le_nat_alt)
  qed
qed

subsection \<open>Cycles without messages\<close>

definition silent :: "coap_env \<Rightarrow> nat \<Rightarrow> nat \<Rightarrow> bool" where
  "silent e lo hi \<longleftrightarrow> (\<forall>k. lo \<le> k \<longrightarrow> k < hi \<longrightarrow> (\<exists>code. env_recv e k = Inr code))"

text \<open>The clock never goes back, and moves on at least once within two calls.\<close>

definition clock_runs :: "coap_env \<Rightarrow> nat \<Rightarrow> nat \<Rightarrow> bool" where
  "clock_runs e lo hi \<longleftrightarrow> (\<forall>k. lo \<le> k \<longrightarrow> k < hi \<longrightarrow> unat (env_now e k) \<le> unat (env_now e (Suc k)) \<and>
     unat (env_now e k) < unat (env_now e (k + 2)) \<and> unat (env_now e k) < 2 ^ 63)"

fun cycles :: "coap_env \<Rightarrow> string \<Rightarrow> nat \<Rightarrow> CoAPIntContext \<Rightarrow> CoAPIntContext option" where
  "cycles e ip 0 s = Some s"
| "cycles e ip (Suc n) s = Option.bind (CoAPMessage_cycle e ip s) (\<lambda>(res, s). cycles e ip n s)"

lemma silent_cycle:
  assumes "env_recv e (coap_calls s) = Inr code" "ip \<noteq> []"
  shows "CoAPMessage_cycle e ip s =
    Some (min 0 code, Check_timeout e (Retansmit e (s\<lparr>coap_calls := Suc (coap_calls s)\<rparr>)))"
proof -
  have "\<not> 0 < min 0 code" by simp
  then have "CoAPMessage_process e ip s = Some (min 0 code, s\<lparr>coap_calls := Suc (coap_calls s)\<rparr>)"
    using assms by (subst CoAPMessage_process.simps) (simp add: CoAPNetwork_read_def ask_def)
  then show ?thesis by (simp add: CoAPMessage_cycle_def)
qed

lemma clock_runs_mono:
  assumes "clock_runs e lo hi" "lo \<le> i" "i \<le> j" "j \<le> hi"
  shows "unat (env_now e i) \<le> unat (env_now e j)"
  using assms(3,4)
proof (induction j rule: dec_induct)
  case (step n)
  then have "unat (env_now e n) \<le> unat (env_now e (Suc n))"
    using assms(1,2) by (simp add: clock_runs_def)
  then show ?case using step by simp
qed simp

text \<open>The messages, with the work left in each at the time of the last reading.\<close>

definition waiting :: "nat \<Rightarrow> nat \<Rightarrow> CoAPSendNode list \<Rightarrow> bool" where
  "waiting T n ns \<longleftrightarrow> (\<forall>node\<in>set ns. node_timing node \<and> (stays node \<or> work T node \<le> n))"

lemma waiting_round:
  assumes "waiting T n ns" "T \<le> unat t1" "unat t1 \<le> unat t2" "unat t1 < 2 ^ 63"
  shows "waiting (unat t2) (n - (if T < unat t1 then 1 else 0)) (round_entries t1 t2 ns)"
    "T < unat t1 \<Longrightarrow> n = 0 \<Longrightarrow> \<forall>node\<in>set (round_entries t1 t2 ns). stays node"
proof -
  have key: "node_timing (resent t1 node) \<and> (stays (resent t1 node) \<or>
      work (unat t2) (resent t1 node) \<le> n - (if T < unat t1 then 1 else 0) \<and> (T < unat t1 \<longrightarrow> 0 < n))"
    if "node \<in> set ns" "\<not> gives_up t2 (resent t1 node)" for node
  proof -
    have o: "node_timing node" "stays node \<or> work T node \<le> n" using assms(1) that(1) by (auto simp: waiting_def)
    show ?thesis
    proof (cases "stays node")
      case True
      then show ?thesis using stays_round [of node t1 t2] o by simp
    next
      case False
      then show ?thesis
        using work_shrinks [OF o(1) assms(2-4) that(2)] resent_timing [OF o(1)] o(2) by (auto split: if_splits)
    qed
  qed
  have "\<forall>x\<in>set (round_entries t1 t2 ns). node_timing x \<and> (stays x \<or>
      work (unat t2) x \<le> n - (if T < unat t1 then 1 else 0) \<and> (T < unat t1 \<longrightarrow> 0 < n))"
    unfolding round_entries_def using key by (simp only: set_filter set_map) blast
  then show "waiting (unat t2) (n - (if T < unat t1 then 1 else 0)) (round_entries t1 t2 ns)"
    "T < unat t1 \<Longrightarrow> n = 0 \<Longrightarrow> \<forall>node\<in>set (round_entries t1 t2 ns). stays node"
    unfolding waiting_def by blast+
qed

lemma quiet_cycle:
  assumes "silent e lo hi" "clock_runs e lo hi" "ip \<noteq> []" "lo \<le> coap_calls s"
    and "coap_calls s + (length (entries (sendlist s)) + 3) \<le> hi"
    and "waiting T n (entries (sendlist s))" "T \<le> unat (env_now e (Suc (coap_calls s)))"
  shows "\<exists>res s' T'. CoAPMessage_cycle e ip s = Some (res, s') \<and>
    waiting T' (n - (if T < unat (env_now e (Suc (coap_calls s))) then 1 else 0)) (entries (sendlist s')) \<and>
    (T < unat (env_now e (Suc (coap_calls s))) \<longrightarrow> n = 0 \<longrightarrow> (\<forall>node\<in>set (entries (sendlist s')). stays node)) \<and>
    T' < unat (env_now e (Suc (coap_calls s'))) \<and>
    coap_calls s \<le> coap_calls s' \<and> coap_calls s' \<le> coap_calls s + (length (entries (sendlist s)) + 3) \<and>
    length (entries (sendlist s')) \<le> length (entries (sendlist s)) \<and>
    mset (coap_trace s') + owed_all (entries (sendlist s')) = mset (coap_trace s) + owed_all (entries (sendlist s))"
proof -
  let ?u = "s\<lparr>coap_calls := Suc (coap_calls s)\<rparr>"
  let ?ns = "entries (sendlist s)" and ?t1 = "env_now e (Suc (coap_calls s))"
  obtain code where "env_recv e (coap_calls s) = Inr code"
    using assms(1,4,5) by (auto simp: silent_def)
  from silent_cycle [OF this assms(3)]
  have cyc: "CoAPMessage_cycle e ip s = Some (min 0 code, Check_timeout e (Retansmit e ?u))" .
  obtain c where c: "coap_calls ?u < c" "c \<le> coap_calls ?u + Suc (length (entries (sendlist ?u)))"
      "coap_calls (Check_timeout e (Retansmit e ?u)) = Suc c"
      "entries (sendlist (Check_timeout e (Retansmit e ?u))) = round_entries (env_now e (coap_calls ?u)) (env_now e c) (entries (sendlist ?u))"
      "coap_trace (Check_timeout e (Retansmit e ?u)) = coap_trace ?u @ due_writes (env_now e (coap_calls ?u)) (entries (sendlist ?u)) @
      due_timeouts (env_now e c) (map (resent (env_now e (coap_calls ?u))) (entries (sendlist ?u)))"
    using round_effect [OF refl] by blast
  have r: "lo \<le> c" "c < hi" "lo \<le> Suc (coap_calls s)" "Suc (coap_calls s) < hi" using c(1,2) assms(4,5) by simp_all
  have t: "unat ?t1 \<le> unat (env_now e c)" using c(1) r by (intro clock_runs_mono [OF assms(2)]) simp_all
  have b: "unat ?t1 < 2 ^ 63" "unat (env_now e c) < unat (env_now e (c + 2))"
    using assms(2) r by (simp_all add: clock_runs_def)
  have e: "entries (sendlist (Check_timeout e (Retansmit e ?u))) = round_entries ?t1 (env_now e c) ?ns"
    using c(4) by simp
  have "length (round_entries ?t1 (env_now e c) ?ns) \<le> length ?ns"
    unfolding round_entries_def by (metis length_filter_le length_map)
  moreover have "mset (coap_trace (Check_timeout e (Retansmit e ?u))) + owed_all (round_entries ?t1 (env_now e c) ?ns) =
      mset (coap_trace s) + owed_all ?ns"
    using owed_round [of ?t1 ?ns "env_now e c"] by (simp add: c(5) ac_simps)
  moreover note waiting_round [OF assms(6,7) t b(1)]
  ultimately show ?thesis
    unfolding cyc using c(1-3) b(2)
    by (intro exI [of _ "min 0 code"] exI [of _ "Check_timeout e (Retansmit e ?u)"] exI [of _ "unat (env_now e c)"])
      (simp add: e)
qed

lemma quiet_run:
  assumes "silent e lo hi" "clock_runs e lo hi" "ip \<noteq> []"
  shows "lo \<le> coap_calls s \<Longrightarrow> coap_calls s + Suc n * (length (entries (sendlist s)) + 3) \<le> hi \<Longrightarrow>
    waiting T n (entries (sendlist s)) \<Longrightarrow> T < unat (env_now e (Suc (coap_calls s))) \<Longrightarrow>
    \<exists>s'. cycles e ip (Suc n) s = Some s' \<and> (\<forall>node\<in>set (entries (sendlist s')). stays node) \<and>
      mset (coap_trace s') + owed_all (entries (sendlist s')) = mset (coap_trace s) + owed_all (entries (sendlist s))"
proof (induction n arbitrary: s T)
  case 0
  then show ?case using quiet_cycle [OF assms, of s T 0] by fastforce
next
  case (Suc n)
  let ?L = "length (entries (sendlist s)) + 3"
  have room: "coap_calls s + ?L + Suc n * ?L \<le> hi" using Suc.prems(2) by simp
  then obtain res s1 T1 where s1: "CoAPMessage_cycle e ip s = Some (res, s1)" "waiting T1 n (entries (sendlist s1))"
      "T1 < unat (env_now e (Suc (coap_calls s1)))" "coap_calls s \<le> coap_calls s1" "coap_calls s1 \<le> coap_calls s + ?L"
      "length (entries (sendlist s1)) \<le> length (entries (sendlist s))"
      "mset (coap_trace s1) + owed_all (entries (sendlist s1)) = mset (coap_trace s) + owed_all (entries (sendlist s))"
    using quiet_cycle [OF assms, of s T "Suc n"] Suc.prems by auto
  have "Suc n * (length (entries (sendlist s1)) + 3) \<le> Suc n * ?L" using s1(6) by (intro mult_le_mono) simp_all
  then have "coap_calls s1 + Suc n * (length (entries (sendlist s1)) + 3) \<le> hi" using s1(5) room by linarith
  from Suc.IH [OF _ this s1(2,3)] show ?case using s1(1,4,7) Suc.prems(1) by auto
qed

end
