(* ===== verification/CoapInv.thy ===== *)
theory CoapInv
  imports CoapRetry
begin

text \<open>
  The invariant of the context of the CoAP server, and that every operation keeps it.
\<close>

subsection \<open>Lists\<close>

definition list_ok :: "'a CoAPList \<Rightarrow> bool" where
  "list_ok l \<longleftrightarrow> unat (list_count l) = length (entries l) \<and> list_count l \<le> maxcount l"

lemma list_ok_length: "list_ok l \<Longrightarrow> length (entries l) \<le> unat (maxcount l)"
  unfolding list_ok_def by (metis word_le_nat_alt)

lemma list_ok_empty [simp]: "list_ok (empty_list m)"
  by (simp add: list_ok_def empty_list_def)

lemma list_ok_add:
  assumes "list_ok l" "\<not> list_full l" shows "list_ok (list_add_tail x l)"
proof -
  have lt: "list_count l < maxcount l" using assms(2) by (simp add: list_full_def)
  have "unat (maxcount l) < 256" using unsigned_less [of "maxcount l"] by simp
  then have "unat (list_count l) + unat (1 :: u8) < 2 ^ LENGTH(8)" using lt by (simp add: word_less_nat_alt)
  then have "unat (list_count l + 1) = unat (list_count l) + 1" using unat_add_lem [of "list_count l" 1] by simp
  then show ?thesis using assms(1) lt by (simp add: list_ok_def list_add_tail_def word_less_nat_alt word_le_nat_alt)
qed

lemma add_tail_length [simp]: "length (entries (list_add_tail x l)) = Suc (length (entries l))"
  by (simp add: list_add_tail_def)

lemma list_ok_shrink:
  assumes "list_ok l" "length xs + n = length (entries l)"
  shows "list_ok (l\<lparr>entries := xs, list_count := list_count l - of_nat n\<rparr>)"
proof -
  have n: "n \<le> unat (list_count l)" using assms by (simp add: list_ok_def)
  moreover have "unat (list_count l) < 256" using unsigned_less [of "list_count l"] by simp
  ultimately have "n < 256" by simp
  then have u: "unat (of_nat n :: u8) = n" by (simp add: unat_of_nat)
  then have "unat (list_count l - of_nat n) = unat (list_count l) - n" using n by (simp add: unat_sub word_le_nat_alt)
  moreover have "length (entries l) - n = length xs" "length (entries l) - n \<le> length (entries l)" using assms(2) by simp_all
  ultimately show ?thesis using assms(1) by (auto simp: list_ok_def word_le_nat_alt)
qed

lemma list_ok_remove_all: "list_ok l \<Longrightarrow> list_ok (remove_all P l)"
proof -
  assume "list_ok l"
  moreover have "length (filter (\<lambda>x. \<not> P x) (entries l)) + length (filter P (entries l)) = length (entries l)"
    using sum_length_filter_compl [of P "entries l"] by simp
  ultimately show ?thesis unfolding remove_all_def by (rule list_ok_shrink)
qed

lemma remove_first_length: "find P xs = Some x \<Longrightarrow> length (remove_first P xs) + 1 = length xs"
  by (induction xs) (auto split: if_splits)

lemma remove_first_set: "set (remove_first P xs) \<subseteq> set xs"
  by (induction xs) auto

lemma list_ok_remove_one: "list_ok l \<Longrightarrow> list_ok (remove_one P l)"
proof (cases "find P (entries l)")
  case (Some x)
  assume "list_ok l"
  from list_ok_shrink [OF this remove_first_length [OF Some]] Some show ?thesis by (simp add: remove_one_def)
qed (simp add: remove_one_def)

lemma update_first_length [simp]: "length (update_first P f xs) = length xs"
  by (induction xs) auto

lemma list_ok_entries: "list_ok l \<Longrightarrow> length xs = length (entries l) \<Longrightarrow> list_ok (l\<lparr>entries := xs\<rparr>)"
  by (simp add: list_ok_def)

text \<open>What holds of every element of a list stays true when elements are removed or updated.\<close>

definition every :: "('a \<Rightarrow> bool) \<Rightarrow> 'a CoAPList \<Rightarrow> bool" where
  "every Q l \<longleftrightarrow> (\<forall>x\<in>set (entries l). Q x)"

lemma every_empty [simp]: "every Q (empty_list m)"
  by (simp add: every_def empty_list_def)

lemma every_add: "every Q l \<Longrightarrow> Q x \<Longrightarrow> every Q (list_add_tail x l)"
  by (auto simp: every_def list_add_tail_def)

lemma every_remove_all: "every Q l \<Longrightarrow> every Q (remove_all P l)"
  by (auto simp: every_def remove_all_def)

lemma every_remove_one: "every Q l \<Longrightarrow> every Q (remove_one P l)"
  using remove_first_set by (fastforce simp: every_def remove_one_def split: option.splits)

lemma every_update_first:
  "every Q l \<Longrightarrow> (\<And>x. Q x \<Longrightarrow> Q (f x)) \<Longrightarrow> every Q (l\<lparr>entries := update_first P f (entries l)\<rparr>)"
proof -
  assume a: "every Q l" "\<And>x. Q x \<Longrightarrow> Q (f x)"
  have "\<forall>x\<in>set xs. Q x \<Longrightarrow> \<forall>x\<in>set (update_first P f xs). Q x" for xs
    by (induction xs) (auto simp: a(2))
  with a(1) show ?thesis by (simp add: every_def)
qed

lemmas list_keeps = list_ok_remove_all list_ok_remove_one list_ok_entries every_remove_all every_remove_one every_update_first

lemma kept_bounds [simp]:
  "maxcount (list_add_tail x l) = maxcount l" "maxcount (remove_all P l) = maxcount l"
  "maxcount (remove_one P l) = maxcount l"
  by (auto simp: list_add_tail_def remove_all_def remove_one_def split: option.splits)

subsection \<open>The invariant\<close>

definition node_ok :: "CoAPSendNode \<Rightarrow> bool" where
  "node_ok node \<longleftrightarrow> node_timing node \<and> sn_tokenlen node \<le> 8 \<and> length (sn_token node) = 8 \<and>
     unat (msglen node) \<le> length (sn_message node) \<and> length (sn_message node) \<le> 1280"

definition observer_ok :: "nat \<Rightarrow> CoapObserver \<Rightarrow> bool" where
  "observer_ok n ob \<longleftrightarrow> p_resource_of_interest ob < n \<and> ob_tokenlen ob \<le> 8 \<and> length (ob_token ob) = 8"

definition observable_ok :: "CoAPObservable \<Rightarrow> bool" where
  "observable_ok oc \<longleftrightarrow> oc_tokenlen oc \<le> 8 \<and> length (oc_token oc) = 8"

definition resource_ok :: "CoAPResource \<Rightarrow> bool" where
  "resource_ok r \<longleftrightarrow> (path_type r = PATH_FILTER \<longrightarrow> length (filter_path r) < 128 \<and> res_path r = replicate 5 0)"

definition coap_ok :: "CoAPIntContext \<Rightarrow> bool" where
  "coap_ok s \<longleftrightarrow> message_id s \<noteq> 0 \<and>
     list_ok (sendlist s) \<and> every node_ok (sendlist s) \<and>
     list_ok (obsserver s) \<and> every (observer_ok (length (entries (resource s)))) (obsserver s) \<and>
     list_ok (obsclient s) \<and> every observable_ok (obsclient s) \<and>
     list_ok (resource s) \<and> every resource_ok (resource s)"

text \<open>The bounds of the lists never change, and resources stay where they are.\<close>

definition extends :: "CoAPIntContext \<Rightarrow> CoAPIntContext \<Rightarrow> bool" where
  "extends s s' \<longleftrightarrow> maxcount (sendlist s') = maxcount (sendlist s) \<and> maxcount (obsserver s') = maxcount (obsserver s) \<and>
     maxcount (obsclient s') = maxcount (obsclient s) \<and> maxcount (resource s') = maxcount (resource s) \<and>
     length (entries (resource s)) \<le> length (entries (resource s'))"

lemma extends_refl [simp]: "extends s s"
  by (simp add: extends_def)

lemma extends_trans: "extends s t \<Longrightarrow> extends t u \<Longrightarrow> extends s u"
  by (simp add: extends_def)

definition good_step :: "CoAPIntContext \<Rightarrow> CoAPIntContext \<Rightarrow> bool" where
  "good_step s s' \<longleftrightarrow> (coap_ok s \<longrightarrow> coap_ok s') \<and> extends s s' \<and> resource s' = resource s"

lemma good_refl [simp, intro]: "good_step s s"
  by (simp add: good_step_def)

lemma good_trans [trans]: "good_step s t \<Longrightarrow> good_step t u \<Longrightarrow> good_step s u"
  by (auto simp: good_step_def intro: extends_trans)

lemma good_calls: "good_step s (s\<lparr>coap_calls := n\<rparr>)" "good_step s (emit ev s)" "good_step s (call_back h r u remote m s)"
  by (auto simp: good_step_def coap_ok_def extends_def emit_def call_back_def)

lemma good_ask: "ask f s = (x, s') \<Longrightarrow> good_step s s'"
  by (auto simp: ask_def good_calls)

lemma every_mono: "every P l \<Longrightarrow> (\<And>x. P x \<Longrightarrow> Q x) \<Longrightarrow> every Q l"
  by (auto simp: every_def)

subsection \<open>Serialising stays within its buffer\<close>

lemma wr_advances:
  assumes "wr bs w = Some w'"
  shows "snd w' = snd w + length bs" "length (fst w') = length (fst w)" "snd w' \<le> length (fst w)"
  using assms by (auto simp: wr_def Let_def split: prod.splits if_splits)

definition advances :: "wbuf \<Rightarrow> nat \<Rightarrow> wbuf \<Rightarrow> bool" where
  "advances w n w' \<longleftrightarrow> snd w + n \<le> snd w' \<and> length (fst w') = length (fst w) \<and>
     (snd w \<le> length (fst w) \<longrightarrow> snd w' \<le> length (fst w'))"

lemma advances_zero [simp]: "advances w 0 w"
  by (simp add: advances_def)

lemma wr_advances_by: "wr bs w = Some w' \<Longrightarrow> n \<le> length bs \<Longrightarrow> advances w n w'"
  using wr_advances [of bs w w'] by (simp add: advances_def)

lemma header_advances: "CoAPSerialize_Header m w n = Some (c, w') \<Longrightarrow> advances w c w'"
  by (auto simp: CoAPSerialize_Header_def header_bytes_def split: if_splits Option.bind_splits intro: wr_advances_by)

lemma token_advances: "CoAPSerialize_Token m w n = Some (c, w') \<Longrightarrow> advances w c w'"
  by (auto simp: CoAPSerialize_Token_def Let_def split: if_splits Option.bind_splits intro!: wr_advances_by)

lemma mod_le_Suc: "Suc n mod k \<le> Suc (n :: nat)"
  by simp

lemma payload_advances: "CoAPSerialize_Payload m w n = Some (c, w') \<Longrightarrow> advances w c w'"
  by (auto simp: CoAPSerialize_Payload_def Let_def split: if_splits Option.bind_splits intro!: wr_advances_by mod_le_Suc)

lemma option_advances:
  assumes "CoAPSerialize_Option opt w = Some (c, w')" shows "advances w c w'"
proof -
  obtain as w1 bs where w: "wr as w = Some w1" "wr bs w1 = Some w'" "c = (snd w' - snd w) mod 65536"
    using assms by (auto simp: CoAPSerialize_Option_def split: if_splits Option.bind_splits)
  have "c \<le> snd w' - snd w" by (simp add: w(3))
  then show ?thesis using wr_advances [OF w(1)] wr_advances [OF w(2)] by (simp add: advances_def)
qed

lemma options_advance:
  "CoAPSerialize_Options opts c w = Some (c', w') \<Longrightarrow> \<exists>n. advances w n w' \<and> c' \<le> c + n"
proof (induction opts c w rule: CoAPSerialize_Options.induct)
  case (1 c w)
  then show ?case by (intro exI [of _ 0]) simp
next
  case (2 opt opts c w)
  obtain len w1 where o: "CoAPSerialize_Option opt w = Some (len, w1)"
    using 2(2) by (auto split: Option.bind_splits)
  note a = option_advances [OF o]
  show ?case
  proof (cases "0 < len")
    case True
    then have "CoAPSerialize_Options opts ((c + len) mod 65536) w1 = Some (c', w')" using 2(2) o by simp
    from 2(1) [OF o refl True this] obtain n where n: "advances w1 n w'" "c' \<le> (c + len) mod 65536 + n" by blast
    have "(c + len) mod 65536 \<le> c + len" by simp
    then show ?thesis using a n by (intro exI [of _ "len + n"]) (auto simp: advances_def)
  next
    case False
    then show ?thesis using 2(2) o a by (intro exI [of _ 0]) auto
  qed
qed

lemma serialize_length:
  assumes "CoAPSerialize_Message m buf (length buf) = Some (n, out)" "length buf < 65536"
  shows "0 \<le> n" "n \<le> int (length buf)" "length out = length buf"
proof -
  let ?rem = "\<lambda>r c. (r + 65536 - c) mod 65536 :: nat"
  obtain c1 w1 where h: "CoAPSerialize_Header m (buf, 0) (length buf) = Some (c1, w1)"
    using assms(1) unfolding CoAPSerialize_Message_def Let_def by (cases "CoAPSerialize_Header m (buf, 0) (length buf)") auto
  define r1 where "r1 = ?rem (length buf) c1"
  obtain c2 w2 where t: "CoAPSerialize_Token m w1 r1 = Some (c2, w2)"
    using assms(1) unfolding CoAPSerialize_Message_def Let_def h bind.bind_lunit prod.case r1_def [symmetric]
    by (cases "CoAPSerialize_Token m w1 r1") auto
  define r2 where "r2 = ?rem r1 c2"
  obtain c3 w3 where o: "CoAPSerialize_Options (options m) 0 w2 = Some (c3, w3)"
    using assms(1) unfolding CoAPSerialize_Message_def Let_def h bind.bind_lunit prod.case r1_def [symmetric] t
    by (cases "CoAPSerialize_Options (options m) 0 w2") auto
  define r3 where "r3 = ?rem r2 c3"
  obtain c4 w4 where p: "CoAPSerialize_Payload m w3 r3 = Some (c4, w4)"
    using assms(1) unfolding CoAPSerialize_Message_def Let_def h bind.bind_lunit prod.case r1_def [symmetric] t r2_def [symmetric] o r3_def [symmetric]
    by (cases "CoAPSerialize_Payload m w3 r3") auto
  have r: "n = int (length buf) - int (?rem r3 c4)" "out = fst w4"
    using assms(1) unfolding CoAPSerialize_Message_def Let_def h bind.bind_lunit prod.case r1_def [symmetric] t r2_def [symmetric] o r3_def [symmetric] p
    by simp_all
  obtain k where k: "advances w2 k w3" "c3 \<le> k" using options_advance [OF o] by auto
  note a = header_advances [OF h] token_advances [OF t] k(1) payload_advances [OF p]
  then show "length out = length buf" by (simp add: r(2) advances_def)
  have sum: "c1 + c2 + c3 + c4 \<le> length buf" using a k(2) by (auto simp: advances_def)
  have "r1 = length buf - c1" unfolding r1_def using sum assms(2) by (intro rem_wrap) simp_all
  moreover have "r2 = length buf - c1 - c2" unfolding r2_def calculation using sum assms(2) by (intro rem_wrap) simp_all
  moreover have "r3 = length buf - c1 - c2 - c3" unfolding r3_def calculation using sum assms(2) by (intro rem_wrap) simp_all
  ultimately have "?rem r3 c4 = length buf - c1 - c2 - c3 - c4" using sum assms(2) rem_wrap [of c4 r3] by simp
  then show "0 \<le> n" "n \<le> int (length buf)" using sum by (simp_all add: r(1))
qed

subsection \<open>Every operation\<close>

definition msg_wf :: "CoAPMessage \<Rightarrow> bool" where
  "msg_wf m \<longleftrightarrow> length (token m) = 8"

lemma stored_token_length: "msg_wf m \<Longrightarrow> tokenlen m \<le> 8 \<Longrightarrow> length (stored_token m) = 8"
  by (simp add: msg_wf_def stored_token_def word_le_nat_alt)

lemma coap_ok_lists:
  assumes "coap_ok s"
  shows "list_ok l \<Longrightarrow> every node_ok l \<Longrightarrow> coap_ok (s\<lparr>sendlist := l\<rparr>)"
    "list_ok k \<Longrightarrow> every (observer_ok (length (entries (resource s)))) k \<Longrightarrow> coap_ok (s\<lparr>obsserver := k\<rparr>)"
    "list_ok j \<Longrightarrow> every observable_ok j \<Longrightarrow> coap_ok (s\<lparr>obsclient := j\<rparr>)"
  using assms by (simp_all add: coap_ok_def)

lemma coap_ok_parts:
  assumes "coap_ok s"
  shows "list_ok (sendlist s)" "every node_ok (sendlist s)" "list_ok (obsserver s)"
    "every (observer_ok (length (entries (resource s)))) (obsserver s)" "list_ok (obsclient s)"
    "every observable_ok (obsclient s)" "list_ok (resource s)" "every resource_ok (resource s)" "message_id s \<noteq> 0"
  using assms by (simp_all add: coap_ok_def)

lemma good_sendlist:
  "(list_ok (sendlist s) \<Longrightarrow> every node_ok (sendlist s) \<Longrightarrow> list_ok l \<and> every node_ok l) \<Longrightarrow>
   maxcount l = maxcount (sendlist s) \<Longrightarrow> good_step s (s\<lparr>sendlist := l\<rparr>)"
  by (simp add: good_step_def extends_def coap_ok_def)

lemma good_obsserver:
  "(list_ok (obsserver s) \<Longrightarrow> every (observer_ok (length (entries (resource s)))) (obsserver s) \<Longrightarrow>
     list_ok l \<and> every (observer_ok (length (entries (resource s)))) l) \<Longrightarrow>
   maxcount l = maxcount (obsserver s) \<Longrightarrow> good_step s (s\<lparr>obsserver := l\<rparr>)"
  by (simp add: good_step_def extends_def coap_ok_def)

lemma good_obsclient:
  "(list_ok (obsclient s) \<Longrightarrow> every observable_ok (obsclient s) \<Longrightarrow> list_ok l \<and> every observable_ok l) \<Longrightarrow>
   maxcount l = maxcount (obsclient s) \<Longrightarrow> good_step s (s\<lparr>obsclient := l\<rparr>)"
  by (simp add: good_step_def extends_def coap_ok_def)

lemmas good_removals =
  good_sendlist [of s "remove_one P (sendlist s)" for s P] good_sendlist [of s "remove_all P (sendlist s)" for s P]
  good_obsserver [of s "remove_one P (obsserver s)" for s P] good_obsserver [of s "remove_all P (obsserver s)" for s P]
  good_obsclient [of s "remove_one P (obsclient s)" for s P]

lemma good_remove:
  "good_step s (s\<lparr>sendlist := remove_one P (sendlist s)\<rparr>)" "good_step s (s\<lparr>sendlist := remove_all P (sendlist s)\<rparr>)"
  "good_step s (s\<lparr>obsserver := remove_one R (obsserver s)\<rparr>)" "good_step s (s\<lparr>obsserver := remove_all R (obsserver s)\<rparr>)"
  "good_step s (s\<lparr>obsclient := remove_one Q (obsclient s)\<rparr>)"
  by (rule good_removals; simp add: list_keeps)+

lemma good_id: "CoAPMessageId_gen s = (i, s') \<Longrightarrow> good_step s s' \<and> (coap_ok s \<longrightarrow> i \<noteq> 0)"
proof -
  have "m + 1 \<noteq> 0" if "m \<noteq> 65535" for m :: u16
  proof
    assume "m + 1 = 0"
    then have "m = - 1" by (simp add: eq_neg_iff_add_eq_0)
    with that show False by simp
  qed
  then show "CoAPMessageId_gen s = (i, s') \<Longrightarrow> good_step s s' \<and> (coap_ok s \<longrightarrow> i \<noteq> 0)"
    by (auto simp: CoAPMessageId_gen_def good_step_def extends_def coap_ok_def split: if_splits)
qed

lemma good_list_add:
  assumes "CoAPMessageList_add e remote m buf len s = (ret, s')" "msg_wf m" "tokenlen m \<le> 8"
    "unat len \<le> length buf" "length buf \<le> 1280"
  shows "good_step s s'"
proof -
  have t: "length (stored_token m) = 8" using assms(2,3) by (rule stored_token_length)
  show ?thesis
    using assms t
    by (auto simp: CoAPMessageList_add_def ask_def Let_def good_calls node_ok_def node_timing_def backoff_values(1)
        intro!: good_trans [OF good_calls(1) good_sendlist] list_ok_add every_add split: if_splits)
qed

lemma good_client_delete: "CoAPObsClient_delete m s = Some s' \<Longrightarrow> good_step s s'"
  by (auto simp: CoAPObsClient_delete_def good_remove split: if_splits Option.bind_splits)

lemma good_client_add:
  assumes "CoAPObsClient_add e m remote node s = Some s'" "msg_wf m" "tokenlen m \<le> 8"
  shows "good_step s s'"
proof (cases "CoAPOption_present m COAP_OPTION_OBSERVE = COAP_SUCCESS")
  case False
  then show ?thesis using assms(1) by (auto simp: CoAPObsClient_add_def good_remove)
next
  case True
  show ?thesis
  proof (cases node)
    case None
    then have "observed_again remote m s = Some s'" using assms(1) True by (simp add: CoAPObsClient_add_def)
    then show ?thesis
      by (auto simp: observed_again_def Let_def split: option.splits Option.bind_splits
          intro!: good_trans [OF good_obsclient good_calls(3)] list_keeps simp: observable_ok_def)
  next
    case (Some n)
    then have "observed_first e remote m n s = Some s'" using assms(1) True by (simp add: CoAPObsClient_add_def)
    then show ?thesis
      using stored_token_length [OF assms(2,3)] assms(3)
      by (auto simp: observed_first_def ask_def Let_def good_calls observable_ok_def split: if_splits Option.bind_splits
          intro!: good_trans [OF good_calls(1) good_obsclient] list_ok_add every_add)
  qed
qed

text \<open>The ways sending can go.\<close>

lemma send_cases:
  assumes "CoAPMessage_send e remote m s = Some (ret, s')"
  obtains (early) "s' = s \<or> s' = s\<lparr>coap_calls := Suc (coap_calls s)\<rparr>"
  | (written) n buff s1 readlen s2 where
      "CoAPSerialize_Message m (replicate (CoAPSerialize_MessageLength m) 0) (CoAPSerialize_MessageLength m) = Some (n, buff)"
      "CoAPSerialize_MessageLength m \<le> 1280"
      "CoAPObsClient_delete m (s\<lparr>coap_calls := Suc (coap_calls s)\<rparr>) = Some s1"
      "CoAPNetwork_write e remote (take (unat (word_of_int n :: u16)) buff) s1 = (readlen, s2)"
      "s' = s2 \<or> s' = snd (CoAPMessageList_add e remote m buff (ucast (word_of_int n :: u16)) s2)"
proof (cases "1280 < CoAPSerialize_MessageLength m \<or> \<not> env_mem e (coap_calls s)")
  case True
  then show ?thesis using assms early by (auto simp: CoAPMessage_send_def ask_def Let_def split: if_splits)
next
  case False
  let ?len = "CoAPSerialize_MessageLength m"
  obtain n buff s1 where b: "CoAPSerialize_Message m (replicate ?len 0) ?len = Some (n, buff)"
      "CoAPObsClient_delete m (s\<lparr>coap_calls := Suc (coap_calls s)\<rparr>) = Some s1"
    using assms False by (auto simp: CoAPMessage_send_def ask_def Let_def split: Option.bind_splits)
  define x where "x = (word_of_int n :: u16)"
  obtain readlen s2 where w: "CoAPNetwork_write e remote (take (unat x) buff) s1 = (readlen, s2)"
    by (cases "CoAPNetwork_write e remote (take (unat x) buff) s1")
  obtain ret3 s3 where a: "CoAPMessageList_add e remote m buff (ucast x) s2 = (ret3, s3)"
    by (cases "CoAPMessageList_add e remote m buff (ucast x) s2")
  have "x = word_of_int readlen \<Longrightarrow> CoAPMessageList_add e remote m buff (ucast (word_of_int readlen :: u16)) s2 = (ret3, s3)"
    using a by simp
  then have "s' = s2 \<or> s' = s3"
    using assms False by (auto simp: CoAPMessage_send_def ask_def Let_def b x_def [symmetric] w a split: if_splits Option.bind_splits)
  then show ?thesis using written [OF b(1) _ b(2)] w a False by (auto simp: x_def)
qed

lemma good_send:
  assumes "CoAPMessage_send e remote m s = Some (ret, s')" "msg_wf m" "tokenlen m \<le> 8"
  shows "good_step s s'"
  using assms(1)
proof (cases rule: send_cases)
  case early
  then show ?thesis using good_calls(1) by auto
next
  case (written n buff s1 readlen s2)
  let ?len = "CoAPSerialize_MessageLength m"
  note l = serialize_length [of m "replicate ?len 0", simplified, OF written(1)]
  obtain k where k: "n = int k" using l(1) written(2) nonneg_int_cases by auto
  have n: "unat (word_of_int n :: u16) \<le> length buff" "length buff \<le> 1280"
    using l written(2) by (simp_all add: k unat_of_nat)
  have g2: "good_step s s2"
    using good_trans [OF good_trans [OF good_calls(1) good_client_delete [OF written(3)]] good_trans [OF good_calls(2) good_calls(1)]] written(4)
    by (auto simp: CoAPNetwork_write_def ask_def)
  have "unat (ucast (word_of_int n :: u16) :: u32) \<le> unat (word_of_int n :: u16)"
    by (simp add: unsigned_ucast_eq unsigned_take_bit_eq take_bit_nat_less_eq_self)
  then have "unat (ucast (word_of_int n :: u16) :: u32) \<le> length buff" using n(1) by simp
  from good_list_add [OF prod.collapse [symmetric] assms(2,3) this n(2)] g2 good_trans written(5) show ?thesis by blast
qed

lemma init_wf: "msg_wf CoAPMessage_init" "tokenlen CoAPMessage_init = 0"
  by (simp_all add: msg_wf_def CoAPMessage_init_def)

lemma good_cancel: "CoAPMessage_cancel m s = (ret, s') \<Longrightarrow> good_step s s'" "CoAPMessageId_cancel i s = (ret, s') \<Longrightarrow> good_step s s'"
  by (auto simp: CoAPMessage_cancel_def CoAPMessageId_cancel_def good_remove)

lemma good_ack: "good_step s (CoAPAckMessage_handle m s)"
  by (auto simp: CoAPAckMessage_handle_def Let_def good_remove split: option.splits
      intro!: good_trans [OF good_remove(1) good_calls(3)] good_trans [OF good_sendlist good_calls(3)] list_keeps)
    (auto simp: node_ok_def node_timing_def)

lemma good_ack_send:
  "CoAPAckMessage_send e remote i s = Some (ret, s') \<Longrightarrow> good_step s s'"
  "CoAPRestMessage_send e remote i s = Some (ret, s') \<Longrightarrow> good_step s s'"
  "CoAPRequestMessage_ack_send e remote i s = Some (ret, s') \<Longrightarrow> good_step s s'"
  by (auto simp: CoAPAckMessage_send_def CoAPRestMessage_send_def CoAPRequestMessage_ack_send_def CoAPMessageId_set_def
      CoAPMessageType_set_def msg_wf_def CoAPMessage_init_def elim!: good_send)

lemma token_set_wf:
  "msg_wf m \<Longrightarrow> tokenlen m \<le> 8 \<Longrightarrow> msg_wf (snd (CoAPMessageToken_set tk m)) \<and> tokenlen (snd (CoAPMessageToken_set tk m)) \<le> 8"
  by (auto simp: CoAPMessageToken_set_def msg_wf_def word_le_nat_alt unat_of_nat)

lemma good_err_resp: "CoAPErrRespMessage_send e remote m code s = Some (ret, s') \<Longrightarrow> good_step s s'"
proof -
  let ?tk = "take (unat (tokenlen m)) (token m)" and ?b = "snd (CoAPMessageId_set (msgid m) (snd (CoAPMessageCode_set code CoAPMessage_init)))"
  have b: "msg_wf ?b" "tokenlen ?b \<le> 8"
    by (simp_all add: CoAPMessageId_set_def CoAPMessageCode_set_def msg_wf_def CoAPMessage_init_def)
  have t: "msg_wf (snd (CoAPMessageType_set t x)) = msg_wf x" "tokenlen (snd (CoAPMessageType_set t x)) = tokenlen x" for t x
    by (simp_all add: CoAPMessageType_set_def msg_wf_def)
  assume "CoAPErrRespMessage_send e remote m code s = Some (ret, s')"
  then show "good_step s s'"
    unfolding CoAPErrRespMessage_send_def Let_def
    by (rule good_send) (use token_set_wf [OF b, of ?tk] in \<open>simp_all add: t\<close>)
qed

lemma good_resp:
  assumes "CoAPRespMessage_handle e remote m s = Some (ret, s')" "msg_wf m" "tokenlen m \<le> 8"
  shows "good_step s s'"
proof -
  obtain s1 where s1: "(if msg_type m = COAP_MESSAGE_TYPE_CON
                  then map_option snd (CoAPAckMessage_send e remote (msgid m) s) else Some s) = Some s1"
    using assms(1) by (auto simp: CoAPRespMessage_handle_def split: Option.bind_splits)
  then have g1: "good_step s s1" using good_ack_send(1) by (auto split: if_splits)
  show ?thesis
  proof (cases "find (answers m) (entries (sendlist s1))")
    case None
    then have "CoAPObsClient_add e m remote None s1 = Some s'"
      using assms(1) s1 by (auto simp: CoAPRespMessage_handle_def split: Option.bind_splits)
    from good_client_add [OF this assms(2,3)] g1 show ?thesis by (rule good_trans [rotated])
  next
    case (Some node)
    define s2 where "s2 = (if sn_keep node = NOKEEP then s1\<lparr>sendlist := remove_one (answers m) (sendlist s1)\<rparr> else s1)"
    have g2: "good_step s s2" using good_trans [OF g1 good_remove(1)] g1 by (simp add: s2_def)
    let ?m = "m\<lparr>user := sn_user node\<rparr>"
    have m: "msg_wf ?m" "tokenlen ?m \<le> 8" using assms(2,3) by (simp_all add: msg_wf_def)
    show ?thesis
    proof (cases "sn_handler node = 0")
      case True
      then have "s' = s2" using assms(1) s1 Some by (auto simp: CoAPRespMessage_handle_def s2_def Let_def split: Option.bind_splits)
      then show ?thesis using g2 by simp
    next
      case False
      obtain s3 where s3: "CoAPObsClient_add e ?m remote (Some node) s2 = Some s3"
          "s' = call_back (sn_handler node) COAP_REQUEST_SUCCESS (sn_user node) remote (Some ?m) s3"
        using assms(1) s1 Some False
        by (auto simp: CoAPRespMessage_handle_def s2_def [symmetric] Let_def split: Option.bind_splits)
      show ?thesis
        unfolding s3(2) by (rule good_trans [OF good_trans [OF g2 good_client_add [OF s3(1) m]] good_calls(3)])
    qed
  qed
qed

lemma good_request: "CoAPRequestMessage_handle e remote m s = Some (ret, s') \<Longrightarrow> good_step s s'"
  by (auto simp: CoAPRequestMessage_handle_def Let_def split: Option.bind_splits option.splits if_splits
      dest: good_err_resp good_ack_send(3) intro: good_calls intro!: good_trans [OF _ good_calls(2)])

lemma received_wf:
  assumes "CoAPDeserialize_Message zero_message buf len = Some (ret, m)"
  shows "msg_wf m" "tokenlen m \<le> 8"
  using assms
  by (auto simp: CoAPDeserialize_Message_def deserialize_parts zero_message_def CoAPMessage_init_def msg_wf_def Let_def
      word_le_nat_alt split: if_splits Option.bind_splits)

lemma good_handle: "CoAPMessage_handle e remote buf len s = Some s' \<Longrightarrow> good_step s s'"
proof -
  assume h: "CoAPMessage_handle e remote buf len s = Some s'"
  then obtain ret m where d: "CoAPDeserialize_Message zero_message buf len = Some (ret, m)"
    by (auto simp: CoAPMessage_handle_def split: Option.bind_splits)
  show ?thesis
    using h good_resp [OF _ received_wf [OF d], of e remote s] good_ack_send(2) [of e remote "msgid m" s] good_request [of e remote m s]
    by (auto simp: CoAPMessage_handle_def d good_ack split: Option.bind_splits if_splits)
qed

lemma node_ok_resent: "node_ok node \<Longrightarrow> node_ok (resent t node)"
  using resent_timing [of node t] by (auto simp: node_ok_def resent_def retransmitted_def Let_def)

lemma good_retransmit: "good_step s (Retansmit e s)"
proof -
  let ?t = "env_now e (coap_calls s)" and ?s = "s\<lparr>coap_calls := Suc (coap_calls s)\<rparr>"
  obtain c where c: "resend_all e ?t (entries (sendlist s)) ?s = (map (resent ?t) (entries (sendlist s)),
      ?s\<lparr>coap_calls := c, coap_trace := coap_trace ?s @
        map sent_again (filter (\<lambda>node. resend_due ?t node \<and> \<not> acked node) (entries (sendlist s)))\<rparr>)"
    using resend_all_effect by blast
  have r: "Retansmit e s = s\<lparr>coap_calls := c, coap_trace := coap_trace s @
        map sent_again (filter (\<lambda>node. resend_due ?t node \<and> \<not> acked node) (entries (sendlist s))),
        sendlist := (sendlist s)\<lparr>entries := map (resent ?t) (entries (sendlist s))\<rparr>\<rparr>"
    using c by (simp add: Retansmit_def ask_def)
  have "every node_ok (sendlist s) \<Longrightarrow> every node_ok ((sendlist s)\<lparr>entries := map (resent ?t) (entries (sendlist s))\<rparr>)"
    by (auto simp: every_def node_ok_resent)
  then show ?thesis unfolding r good_step_def extends_def coap_ok_def by (simp add: list_ok_entries)
qed

lemma good_timeout_loop: "good_step s (check_timeout_loop tick s)"
proof (induction tick s rule: check_timeout_loop.induct)
  case (1 tick s)
  show ?case
  proof (cases "find (gives_up tick) (entries (sendlist s))")
    case None
    then show ?thesis by (simp add: check_timeout_loop.simps)
  next
    case (Some node)
    let ?u = "CoapObsServerAll_delete (sn_remote node) (s\<lparr>sendlist := remove_one (gives_up tick) (sendlist s)\<rparr>)"
    have "good_step s ?u"
      using good_trans [OF good_remove(1) good_remove(4)] by (simp add: CoapObsServerAll_delete_def)
    from good_trans [OF good_trans [OF this good_calls(3)] 1 [OF Some refl refl]] Some show ?thesis
      by (subst check_timeout_loop.simps) (simp add: Let_def)
  qed
qed

lemma good_check_timeout: "good_step s (Check_timeout e s)"
  using good_trans [OF good_calls(1) good_timeout_loop] by (simp add: Check_timeout_def ask_def)

lemma good_obs_delete: "good_step s (CoapObsServer_delete remote i s)" "good_step s (CoapObsServerAll_delete remote s)"
  by (simp_all add: CoapObsServer_delete_def CoapObsServerAll_delete_def good_remove)

lemma first_index_less: "first_index P xs = Some i \<Longrightarrow> i < length xs \<and> P (xs ! i)"
  by (induction xs arbitrary: i) (auto split: if_splits)

lemma good_obs_add:
  assumes "CoAPObsServer_add e path remote m s = Some (ret, s')" "msg_wf m" "tokenlen m \<le> 8"
  shows "good_step s s'"
proof (cases "CoAPResourceByPath_get path s")
  case None
  then show ?thesis using assms(1) by (auto simp: CoAPObsServer_add_def ask_def good_calls split: Option.bind_splits)
next
  case (Some i)
  then have "i < length (entries (resource s))" by (simp add: CoAPResourceByPath_get_def first_index_less)
  with assms Some stored_token_length [OF assms(2,3)] show ?thesis
    by (auto simp: CoAPObsServer_add_def ask_def Let_def good_calls split: Option.bind_splits if_splits
        intro!: good_trans [OF good_calls(1) good_obsserver] list_ok_add every_add list_keeps)
      (auto simp: observer_ok_def msg_wf_def word_le_nat_alt)
qed

text \<open>Sending leaves the observers alone.\<close>

lemma send_observers:
  assumes "CoAPMessage_send e remote m s = Some (ret, s')" shows "obsserver s' = obsserver s"
  using assms
proof (cases rule: send_cases)
  case (written n buff s1 readlen s2)
  have "obsserver s1 = obsserver s"
    using written(3) by (auto simp: CoAPObsClient_delete_def split: if_splits Option.bind_splits)
  moreover have "obsserver s2 = obsserver s1"
    using written(4) by (auto simp: CoAPNetwork_write_def ask_def emit_def)
  moreover have "obsserver (snd (CoAPMessageList_add e remote m bs k u)) = obsserver u" for bs k u
    by (simp add: CoAPMessageList_add_def ask_def Let_def)
  ultimately show ?thesis using written(5) by auto
qed auto

lemma option_add_wf:
  "msg_wf m \<and> tokenlen m \<le> 8 \<Longrightarrow> msg_wf (snd (CoAPUintOption_add mem n d m)) \<and> tokenlen (snd (CoAPUintOption_add mem n d m)) \<le> 8"
  "msg_wf m \<and> tokenlen m \<le> 8 \<Longrightarrow> msg_wf (snd (CoAPStrOption_add mem n bs m)) \<and> tokenlen (snd (CoAPStrOption_add mem n bs m)) \<le> 8"
  "msg_wf m \<and> tokenlen m \<le> 8 \<Longrightarrow> msg_wf (snd (CoAPMessagePayload_set bs m)) \<and> tokenlen (snd (CoAPMessagePayload_set bs m)) \<le> 8"
  "msg_wf m \<and> tokenlen m \<le> 8 \<Longrightarrow> msg_wf (snd (CoAPMessageToken_set bs m)) \<and> tokenlen (snd (CoAPMessageToken_set bs m)) \<le> 8"
  by (auto simp: CoAPUintOption_add_def CoAPStrOption_add_def CoAPMessagePayload_set_def msg_wf_def token_set_wf [unfolded msg_wf_def])

lemma setters_wf [simp]:
  "msg_wf (snd (CoAPMessageType_set t m)) = msg_wf m" "tokenlen (snd (CoAPMessageType_set t m)) = tokenlen m"
  "msg_wf (snd (CoAPMessageCode_set c m)) = msg_wf m" "tokenlen (snd (CoAPMessageCode_set c m)) = tokenlen m"
  "msg_wf (snd (CoAPMessageId_set i m)) = msg_wf m" "tokenlen (snd (CoAPMessageId_set i m)) = tokenlen m"
  "msg_wf (snd (CoAPMessageHandler_set h m)) = msg_wf m" "tokenlen (snd (CoAPMessageHandler_set h m)) = tokenlen m"
  "msg_wf (snd (CoAPMessageUserData_set u m)) = msg_wf m" "tokenlen (snd (CoAPMessageUserData_set u m)) = tokenlen m"
  "msg_wf (snd (CoAPMessageKeep_Set k m)) = msg_wf m" "tokenlen (snd (CoAPMessageKeep_Set k m)) = tokenlen m"
  by (auto simp: CoAPMessageType_set_def CoAPMessageCode_set_def CoAPMessageId_set_def CoAPMessageHandler_set_def
      CoAPMessageUserData_set_def CoAPMessageKeep_Set_def msg_wf_def)

lemma good_notification:
  assumes "notification e node res i s = (m, s')"
  shows "good_step s s'" "msg_wf m \<and> tokenlen m \<le> 8" "obsserver s' = obsserver s"
proof -
  have i: "msg_wf CoAPMessage_init \<and> tokenlen CoAPMessage_init \<le> 8" by (simp add: init_wf)
  show "good_step s s'" "obsserver s' = obsserver s" using assms by (auto simp: notification_def ask_def Let_def good_calls)
  show "msg_wf m \<and> tokenlen m \<le> 8"
    using assms unfolding notification_def ask_def Let_def prod.case prod.inject
    by (elim conjE) (hypsubst, intro option_add_wf, simp add: init_wf)
qed

lemma notify_payload_wf: "msg_wf m \<and> tokenlen m \<le> 8 \<Longrightarrow> msg_wf (notify_payload f bs m) \<and> tokenlen (notify_payload f bs m) \<le> 8"
  using option_add_wf(3) by (auto simp: notify_payload_def split: option.splits prod.splits)

lemma good_notify_loop:
  "notify_loop e i res data f ret ns s = Some (ret', ns', s') \<Longrightarrow>
   good_step s s' \<and> obsserver s' = obsserver s \<and> length ns' = length ns \<and>
   (\<forall>n. (\<forall>x\<in>set ns. observer_ok n x) \<longrightarrow> (\<forall>x\<in>set ns'. observer_ok n x))"
proof (induction ns arbitrary: s ret ns')
  case (Cons node ns)
  show ?case
  proof (cases "p_resource_of_interest node = i")
    case False
    then show ?thesis using Cons.prems by (auto split: Option.bind_splits dest!: Cons.IH)
  next
    case True
    obtain mid s1 where g: "CoAPMessageId_gen s = (mid, s1)" by (cases "CoAPMessageId_gen s")
    obtain m s2 where n: "notification e node res mid s1 = (m, s2)" by (cases "notification e node res mid s1")
    obtain r3 s3 where d: "CoAPMessage_send e (ob_remote node) (notify_payload f data m) s2 = Some (r3, s3)"
      using Cons.prems True g n by (auto split: Option.bind_splits)
    obtain ns1 where l: "notify_loop e i res data f r3 ns s3 = Some (ret', ns1, s')"
        "ns' = node\<lparr>observer_sequence_num := observer_sequence_num node + 1\<rparr> # ns1"
      using Cons.prems True g n d by (auto split: Option.bind_splits)
    have wf: "msg_wf (notify_payload f data m)" "tokenlen (notify_payload f data m) \<le> 8"
      using notify_payload_wf [OF good_notification(2) [OF n]] by auto
    have g3: "good_step s s3"
      using good_trans [OF good_trans [OF conjunct1 [OF good_id [OF g]] good_notification(1) [OF n]] good_send [OF d wf]] .
    moreover have "obsserver s3 = obsserver s"
      using send_observers [OF d] good_notification(3) [OF n] g by (auto simp: CoAPMessageId_gen_def split: if_splits)
    moreover have "good_step s s'" using good_trans [OF g3 conjunct1 [OF Cons.IH [OF l(1)]]] .
    moreover have "observer_ok k (node\<lparr>observer_sequence_num := j\<rparr>) = observer_ok k node" for k j
      by (simp add: observer_ok_def)
    ultimately show ?thesis using Cons.IH [OF l(1)] by (simp add: l(2))
  qed
qed auto

lemma good_notify:
  assumes "CoAPObsServer_notify e path data f s = Some (ret, s')" shows "good_step s s'"
proof (cases "CoAPResourceByPath_get path s")
  case None
  then show ?thesis using assms by (simp add: CoAPObsServer_notify_def)
next
  case (Some i)
  obtain ns s1 where l: "notify_loop e i (entries (resource s) ! i) data f COAP_SUCCESS (entries (obsserver s)) s = Some (ret, ns, s1)"
      "s' = s1\<lparr>obsserver := (obsserver s1)\<lparr>entries := ns\<rparr>\<rparr>"
    using assms Some by (auto simp: CoAPObsServer_notify_def split: Option.bind_splits)
  note g = good_notify_loop [OF l(1)]
  have "good_step s1 s'"
    unfolding l(2) using g by (intro good_obsserver) (auto simp: list_ok_entries every_def)
  with g show ?thesis using good_trans by blast
qed

subsection \<open>Registering\<close>

lemma found_length: "find_registered ptype calc f path ns = (Some ns', path') \<Longrightarrow> length ns' = length ns"
  by (induction ptype calc f path ns arbitrary: ns' path' rule: find_registered.induct)
    (auto simp: Let_def split: if_splits prod.splits)

lemma found_registered:
  "find_registered ptype calc f path ns = (Some ns', path') \<Longrightarrow> (\<And>x. resource_ok x \<Longrightarrow> resource_ok (f x)) \<Longrightarrow>
   (\<forall>x\<in>set ns. resource_ok x) \<Longrightarrow> \<forall>x\<in>set ns'. resource_ok x"
  by (induction ptype calc f path ns arbitrary: ns' path' rule: find_registered.induct)
    (auto simp: Let_def split: if_splits prod.splits)

lemma created_ok: "CoAPResource_create e path ptype perm ctype age cb s = (Some r, s') \<Longrightarrow> resource_ok r"
  by (auto simp: CoAPResource_create_def ask_def resource_ok_def Let_def split: if_splits)

lemma created_good: "CoAPResource_create e path ptype perm ctype age cb s = (r, s') \<Longrightarrow> good_step s s'"
  by (auto simp: CoAPResource_create_def ask_def good_calls Let_def split: if_splits)

definition coap_grows :: "CoAPIntContext \<Rightarrow> CoAPIntContext \<Rightarrow> bool" where
  "coap_grows s s' \<longleftrightarrow> (coap_ok s \<longrightarrow> coap_ok s') \<and> extends s s'"

lemma good_grows: "good_step s s' \<Longrightarrow> coap_grows s s'"
  by (simp add: good_step_def coap_grows_def)

lemma grows_trans: "coap_grows s t \<Longrightarrow> coap_grows t u \<Longrightarrow> coap_grows s u"
  by (auto simp: coap_grows_def intro: extends_trans)

lemma grows_resource:
  assumes "list_ok (resource s) \<Longrightarrow> every resource_ok (resource s) \<Longrightarrow> list_ok l \<and> every resource_ok l"
    and "maxcount l = maxcount (resource s)" "length (entries (resource s)) \<le> length (entries l)"
  shows "coap_grows s (s\<lparr>resource := l\<rparr>)"
proof -
  have "every (observer_ok (length (entries (resource s)))) (obsserver s) \<Longrightarrow> every (observer_ok (length (entries l))) (obsserver s)"
    using assms(3) by (auto simp: every_def observer_ok_def)
  with assms show ?thesis by (simp add: coap_grows_def coap_ok_def extends_def)
qed

lemma register_grows:
  assumes "CoAPResource_register e path perm ctype age cb s = (ret, s')" shows "coap_grows s s'"
proof (cases "list_full (resource s)")
  case True
  then show ?thesis using assms by (simp add: CoAPResource_register_def good_grows)
next
  case False
  define ptype where "ptype = (if has_wildcard path then PATH_FILTER else PATH_NORMAL)"
  define f where "f = (\<lambda>node. node\<lparr>res_callback := cb, res_ctype := ctype, maxage := age, permission := perm\<rparr> :: CoAPResource)"
  have f: "resource_ok x \<Longrightarrow> resource_ok (f x)" for x by (simp add: resource_ok_def f_def)
  obtain found path' where fd: "find_registered ptype (CoAPPathMD5_sum path) f path (entries (resource s)) = (found, path')"
    by (cases "find_registered ptype (CoAPPathMD5_sum path) f path (entries (resource s))")
  show ?thesis
  proof (cases found)
    case (Some ns)
    then have s': "s' = s\<lparr>resource := (resource s)\<lparr>entries := ns\<rparr>\<rparr>"
      using assms False fd by (simp add: CoAPResource_register_def ptype_def f_def Let_def)
    have "every resource_ok (resource s) \<Longrightarrow> every resource_ok ((resource s)\<lparr>entries := ns\<rparr>)"
      using found_registered [OF fd [unfolded Some] f] by (auto simp: every_def)
    then show ?thesis
      unfolding s' using found_length [OF fd [unfolded Some]] by (intro grows_resource) (auto simp: list_ok_entries)
  next
    case None
    obtain r s1 where c: "CoAPResource_create e path' ptype perm ctype age cb s = (r, s1)"
      by (cases "CoAPResource_create e path' ptype perm ctype age cb s")
    have s': "s' = (case r of Some node \<Rightarrow> s1\<lparr>resource := list_add_tail node (resource s1)\<rparr> | None \<Rightarrow> s1)"
      using assms False fd None c by (auto simp: CoAPResource_register_def ptype_def f_def Let_def split: option.splits)
    have "\<not> list_full (resource s1)" using created_good [OF c] False by (simp add: good_step_def)
    then have "coap_grows s1 s'" unfolding s'
      using created_ok c by (auto split: option.splits intro!: grows_resource list_ok_add every_add simp: good_grows)
    then show ?thesis using grows_trans [OF good_grows [OF created_good [OF c]]] by blast
  qed
qed

subsection \<open>Steps of the server\<close>

text \<open>
  The calls of the server and the parts of its cycle, each in a surrounding of its own; a request
  that is answered is one that was received.
\<close>

inductive server_step :: "coap_server \<Rightarrow> coap_server \<Rightarrow> bool" where
  step_init: "server_step g (CoAPServer_init tools parts g)"
| step_deinit: "server_step g (CoAPServer_deinit g)"
| step_register: "CoAPServer_register e uri cb g = (ret, g') \<Longrightarrow> server_step g g'"
| step_multicast: "CoAPServerMultiCast_send e remote uri buf cb g = Some (ret, i, g') \<Longrightarrow> server_step g g'"
| step_respond: "CoAPServerResp_send e remote buf req path cb qos g = Some (ret, i, g') \<Longrightarrow>
    CoAPDeserialize_Message zero_message dgram len = Some (ret', req) \<Longrightarrow> server_step g g'"
| step_notify: "g_context g = Some s \<Longrightarrow> CoAPObsServer_notify e path buf f s = Some (ret, s') \<Longrightarrow>
    server_step g (g\<lparr>g_context := Some s'\<rparr>)"
| step_cancel: "g_context g = Some s \<Longrightarrow> CoAPMessageId_cancel i s = (ret, s') \<Longrightarrow> server_step g (g\<lparr>g_context := Some s'\<rparr>)"
| step_unobserve: "g_context g = Some s \<Longrightarrow> server_step g (g\<lparr>g_context := Some (CoapObsServer_delete remote i s)\<rparr>)"
| step_received: "g_context g = Some s \<Longrightarrow> CoAPMessage_handle e remote buf len s = Some s' \<Longrightarrow>
    server_step g (g\<lparr>g_context := Some s'\<rparr>)"
| step_retransmit: "g_context g = Some s \<Longrightarrow> server_step g (g\<lparr>g_context := Some (Retansmit e s)\<rparr>)"
| step_timeouts: "g_context g = Some s \<Longrightarrow> server_step g (g\<lparr>g_context := Some (Check_timeout e s)\<rparr>)"

inductive_cases server_stepE: "server_step g g'"

definition server_ok :: "coap_server \<Rightarrow> bool" where
  "server_ok g \<longleftrightarrow> (\<forall>s. g_context g = Some s \<longrightarrow> coap_ok s \<and> maxcount (sendlist s) = 16 \<and> maxcount (obsserver s) = 16 \<and>
     maxcount (obsclient s) = 16 \<and> maxcount (resource s) = 255)"

lemma server_ok_grows:
  "server_ok g \<Longrightarrow> g_context g = Some s \<Longrightarrow> coap_grows s s' \<Longrightarrow> g_context g' = Some s' \<Longrightarrow> server_ok g'"
  by (simp add: server_ok_def coap_grows_def extends_def)

lemma path_loop_good:
  "path_loop e pstr cs (m, s) = (m', s') \<Longrightarrow> msg_wf m \<and> tokenlen m \<le> 8 \<Longrightarrow> good_step s s' \<and> msg_wf m' \<and> tokenlen m' \<le> 8"
proof (induction cs arbitrary: pstr m s)
  case (Cons c cs)
  have add: "good_step s (snd (add_path_option e part (m, s))) \<and> msg_wf (fst (add_path_option e part (m, s))) \<and>
      tokenlen (fst (add_path_option e part (m, s))) \<le> 8" if "msg_wf m \<and> tokenlen m \<le> 8" for part m s
    using option_add_wf(2) [OF that] by (simp add: add_path_option_def ask_def good_calls)
  define ms where "ms = (if c = 0x2F \<and> pstr \<noteq> [] then add_path_option e pstr (m, s) else (m, s))"
  define pstr' where "pstr' = (if c = 0x2F then [] else pstr @ [c])"
  define ms' where "ms' = (if cs = [] \<and> pstr' \<noteq> [] then add_path_option e pstr' ms else ms)"
  have 1: "good_step s (snd ms)" "msg_wf (fst ms) \<and> tokenlen (fst ms) \<le> 8"
    using add [OF Cons.prems(2)] Cons.prems(2) by (simp_all add: ms_def)
  have 2: "good_step s (snd ms')" "msg_wf (fst ms') \<and> tokenlen (fst ms') \<le> 8"
    using 1 add [OF 1(2), of "snd ms" pstr'] good_trans [OF 1(1), of "snd (add_path_option e pstr' ms)"] by (auto simp: ms'_def)
  have "path_loop e pstr (c # cs) (m, s) = path_loop e pstr' cs ms'"
    by (simp only: path_loop.simps Let_def ms_def pstr'_def ms'_def)
  then have "path_loop e pstr' cs (fst ms', snd ms') = (m', s')" using Cons.prems(1) by simp
  from Cons.IH [OF this 2(2)] 2(1) show ?case using good_trans by blast
qed auto

lemma multicast_ok:
  assumes "server_ok g" "CoAPServerMultiCast_send e remote uri buf cb g = Some (ret, i, g')"
  shows "server_ok g'"
proof (cases "g_context g")
  case None
  then show ?thesis using assms by (simp add: CoAPServerMultiCast_send_def)
next
  case (Some s)
  obtain mid s1 where g: "CoAPMessageId_gen s = (mid, s1)" by (cases "CoAPMessageId_gen s")
  obtain tk g1 where tk: "CoAPServerToken_get g = (tk, g1)" by (cases "CoAPServerToken_get g")
  define m where "m = snd (CoAPMessageKeep_Set 1 (snd (CoAPMessageHandler_set cb (snd (CoAPMessageToken_set tk
     (snd (CoAPMessageId_set mid (snd (CoAPMessageCode_set COAP_MSG_CODE_POST (snd (CoAPMessageType_set COAP_MESSAGE_TYPE_NON CoAPMessage_init)))))))))))"
  have "msg_wf (snd (CoAPMessageToken_set tk (snd (CoAPMessageId_set mid (snd (CoAPMessageCode_set COAP_MSG_CODE_POST
      (snd (CoAPMessageType_set COAP_MESSAGE_TYPE_NON CoAPMessage_init)))))))) \<and> tokenlen (snd (CoAPMessageToken_set tk
      (snd (CoAPMessageId_set mid (snd (CoAPMessageCode_set COAP_MSG_CODE_POST
      (snd (CoAPMessageType_set COAP_MESSAGE_TYPE_NON CoAPMessage_init)))))))) \<le> 8"
    by (intro option_add_wf(4)) (simp add: init_wf)
  then have m: "msg_wf m \<and> tokenlen m \<le> 8" by (simp add: m_def)
  obtain r m2 s2 where p: "CoAPServerPath_2_option e uri (m, s1) = (r, m2, s2)" by (cases "CoAPServerPath_2_option e uri (m, s1)") auto
  have 2: "good_step s1 s2 \<and> msg_wf m2 \<and> tokenlen m2 \<le> 8"
    using p path_loop_good [OF _ m] m by (auto simp: CoAPServerPath_2_option_def split: if_splits)
  define m3 where "m3 = snd (CoAPMessagePayload_set buf (snd (CoAPUintOption_add (env_mem e (coap_calls s2))
      COAP_OPTION_CONTENT_FORMAT COAP_CT_APP_JSON m2)))"
  have 3: "msg_wf m3 \<and> tokenlen m3 \<le> 8" unfolding m3_def using 2 by (intro option_add_wf) simp
  obtain s3 where s3: "CoAPMessage_send e remote m3 (s2\<lparr>coap_calls := coap_calls s2 + 1\<rparr>) = Some (ret, s3)"
      "g' = g1\<lparr>g_context := Some s3\<rparr>"
    using assms(2) Some g tk p by (auto simp: CoAPServerMultiCast_send_def Let_def m_def [symmetric] ask_def m3_def split: Option.bind_splits)
  have "good_step s s3"
    using good_trans [OF good_trans [OF good_trans [OF conjunct1 [OF good_id [OF g]] conjunct1 [OF 2]] good_calls(1)]
        good_send [OF s3(1)]] 3 by blast
  then show ?thesis using server_ok_grows [OF assms(1) Some good_grows] s3(2) by simp
qed

lemma respond_ok:
  assumes "server_ok g" "CoAPServerResp_send e remote buf req path cb qos g = Some (ret, i, g')" "msg_wf req" "tokenlen req \<le> 8"
  shows "server_ok g'"
proof (cases "g_context g")
  case None
  then show ?thesis using assms by (simp add: CoAPServerResp_send_def)
next
  case (Some s)
  define m where "m = snd (CoAPMessageHandler_set cb (snd (CoAPMessageToken_set (take (unat (tokenlen req)) (token req))
     (snd (CoAPMessageId_set (msgid req) (snd (CoAPMessageCode_set COAP_MSG_CODE_205_CONTENT
     (snd (CoAPMessageType_set (if \<not> qos then COAP_MESSAGE_TYPE_NON else COAP_MESSAGE_TYPE_CON) CoAPMessage_init)))))))))"
  have "msg_wf (snd (CoAPMessageToken_set tk x)) \<and> tokenlen (snd (CoAPMessageToken_set tk x)) \<le> 8"
    if "msg_wf x" "tokenlen x = 0" for tk x using that by (intro option_add_wf(4)) simp
  then have m: "msg_wf m \<and> tokenlen m \<le> 8" by (simp add: m_def init_wf)
  obtain r0 observe where u: "CoAPUintOption_get req COAP_OPTION_OBSERVE 0 = Some (r0, observe)"
    using assms(2) Some by (auto simp: CoAPServerResp_send_def Let_def split: Option.bind_splits)
  obtain m2 s2 where o: "(if r0 = COAP_SUCCESS \<and> observe = 0
      then do { (_, s) \<leftarrow> CoAPObsServer_add e path remote req s;
                let (mem, s) = ask (env_mem e) s in Some (snd (CoAPUintOption_add mem COAP_OPTION_OBSERVE 0 m), s) }
      else Some (m, s)) = Some (m2, s2)"
    using assms(2) Some u by (auto simp: CoAPServerResp_send_def Let_def m_def [symmetric] split: Option.bind_splits if_splits)
  have 2: "good_step s s2" "msg_wf m2 \<and> tokenlen m2 \<le> 8"
    using o m option_add_wf(1) [OF m] good_obs_add [OF _ assms(3,4)] good_trans [OF _ good_calls(1)]
    by (auto simp: ask_def split: if_splits Option.bind_splits)
  define m3 where "m3 = snd (CoAPMessagePayload_set buf (snd (CoAPUintOption_add (env_mem e (coap_calls s2))
      COAP_OPTION_CONTENT_FORMAT COAP_CT_APP_JSON m2)))"
  have 3: "msg_wf m3 \<and> tokenlen m3 \<le> 8" unfolding m3_def using 2(2) by (intro option_add_wf)
  obtain s3 where s3: "CoAPMessage_send e remote m3 (s2\<lparr>coap_calls := coap_calls s2 + 1\<rparr>) = Some (ret, s3)"
      "g' = g\<lparr>g_context := Some s3\<rparr>"
    using assms(2) Some u o
    by (cases "r0 = COAP_SUCCESS \<and> observe = 0")
      (auto simp: CoAPServerResp_send_def Let_def m_def [symmetric] ask_def m3_def split: Option.bind_splits)
  have "good_step s s3" using good_trans [OF good_trans [OF 2(1) good_calls(1)] good_send [OF s3(1)]] 3 by blast
  then show ?thesis using server_ok_grows [OF assms(1) Some good_grows] s3(2) by simp
qed

lemma server_ok_update:
  "server_ok g \<Longrightarrow> g_context g = Some s \<Longrightarrow> good_step s s' \<Longrightarrow> server_ok (g\<lparr>g_context := Some s'\<rparr>)"
  using server_ok_grows [of g s s'] good_grows by simp

lemma server_step_ok: "server_step g g' \<Longrightarrow> server_ok g \<Longrightarrow> server_ok g'"
proof (induction rule: server_step.induct)
  case (step_init g tools parts)
  then show ?case
    by (auto simp: server_ok_def CoAPServer_init_def CoAPContext_create_def server_param_def CoAPResource_init_def
        CoAPObsServer_init_def CoAPObsClient_init_def coap_ok_def empty_list_def list_ok_def every_def Let_def split: if_splits)
next
  case (step_register e uri cb g ret g')
  then show ?case
    by (auto simp: CoAPServer_register_def split: option.splits prod.splits
        intro: server_ok_grows [OF step_register.prems] register_grows)
next
  case (step_respond e remote buf req path cb qos g ret i g' dgram len ret')
  then show ?case using respond_ok received_wf by blast
next
  case (step_cancel g s i ret s')
  then show ?case using server_ok_grows [OF step_cancel.prems step_cancel(1) good_grows [OF good_cancel(2)]] by simp
qed (auto simp: CoAPServer_deinit_def server_ok_def [of "_\<lparr>g_context := None\<rparr>"] intro: multicast_ok
      server_ok_update good_notify good_obs_delete good_handle good_retransmit good_check_timeout)

end
