(* ===== verification/CoapProps.thy ===== *)
theory CoapProps
  imports CoapPacket
begin

text \<open>
  Properties of the CoAP messages: serialising fills exactly the computed length, deserialising
  gives back the message, unsigned options keep their value, and the two arrays of the message
  that a datagram can overrun.
\<close>

subsection \<open>Reading the options back\<close>

text \<open>The option numbers on the wire are differences; read back they are running sums.\<close>

fun running_sums :: "u16 \<Rightarrow> u16 list \<Rightarrow> u16 list" where
  "running_sums a [] = []"
| "running_sums a (n # ns) = (a + n) # running_sums (a + n) ns"

definition same_option :: "CoAPMsgOption \<Rightarrow> CoAPMsgOption \<Rightarrow> bool" where
  "same_option o1 o2 \<longleftrightarrow> opt_len o2 = opt_len o1 \<and>
     take (unat (opt_len o1)) (opt_val o2) = take (unat (opt_len o1)) (opt_val o1)"

lemma deserialize_option:
  assumes "opt_ok opt"
  shows "\<exists>v. CoAPDeserialize_Option (xs @ option_bytes opt @ ys) (length xs) pre =
       Some (\<lparr>opt_num = pre + opt_num opt, opt_len = opt_len opt, opt_val = v\<rparr>, pre + opt_num opt, length (option_bytes opt)) \<and>
     take (unat (opt_len opt)) v = take (unat (opt_len opt)) (opt_val opt)"
proof -
  let ?b = "push_bit 4 (option_nibble (opt_num opt)) OR (option_nibble (opt_len opt) AND 0x0F)"
  let ?v = "take (unat (opt_len opt)) (opt_val opt)"
  let ?buf = "xs @ option_bytes opt @ ys"
  have lv: "length ?v = unat (opt_len opt)" using assms by (simp add: opt_ok_def)
  have s: "?buf = (xs @ [?b]) @ option_ext (opt_num opt) @ (option_ext (opt_len opt) @ ?v @ ys)"
    "?buf = (xs @ [?b] @ option_ext (opt_num opt)) @ option_ext (opt_len opt) @ (?v @ ys)"
    by (simp_all add: option_bytes_def)
  have b: "rd ?buf (length xs) = Some ?b" by (simp add: option_bytes_def)
  have n: "drop_bit 4 (?b AND 0xF0) = option_nibble (opt_num opt)" "?b AND 0x0F = option_nibble (opt_len opt)"
    using nibbles_split [OF nibble_less nibble_less] by simp_all
  have e1: "ext_value ?buf (length xs + 1) (option_nibble (opt_num opt)) =
      Some (opt_num opt, length xs + 1 + length (option_ext (opt_num opt)))"
    unfolding s(1) using ext_value_option_ext [of "xs @ [?b]" "opt_num opt"] by simp
  have e2: "ext_value ?buf (length xs + 1 + length (option_ext (opt_num opt))) (option_nibble (opt_len opt)) =
      Some (opt_len opt, length xs + 1 + length (option_ext (opt_num opt)) + length (option_ext (opt_len opt)))"
    unfolding s(2) using ext_value_option_ext [of "xs @ [?b] @ option_ext (opt_num opt)" "opt_len opt"] by simp
  have d: "drop (length xs + 1 + length (option_ext (opt_num opt)) + length (option_ext (opt_len opt))) ?buf = ?v @ ys"
    by (simp add: option_bytes_def)
  have "CoAPDeserialize_Option ?buf (length xs) pre =
      Some (\<lparr>opt_num = pre + opt_num opt, opt_len = opt_len opt, opt_val = ?v @ ys\<rparr>, pre + opt_num opt,
        length xs + 1 + length (option_ext (opt_num opt)) + length (option_ext (opt_len opt)) - length xs + unat (opt_len opt))"
    unfolding CoAPDeserialize_Option_def b bind.bind_lunit n e1 e2 prod.case d by (rule refl)
  moreover have "length xs + 1 + length (option_ext (opt_num opt)) + length (option_ext (opt_len opt)) - length xs + unat (opt_len opt)
      = length (option_bytes opt)"
    by (simp add: option_bytes_def lv del: length_take)
  ultimately show ?thesis using lv by (intro exI [of _ "?v @ ys"]) simp
qed

lemma option_first_byte: "\<exists>b bs. option_bytes opt = b # bs \<and> b \<noteq> 0xFF"
  using nibbles_split(3) [OF nibble_less nibble_less] by (simp add: option_bytes_def)

lemma deserialize_options:
  assumes "list_all opt_ok opts" "length opts \<le> k" "length (options_bytes opts) < 65536"
    and stop: "buflen = count + int (length (options_bytes opts)) \<or>
               count + int (length (options_bytes opts)) < buflen \<and> (\<exists>r. ys = 0xFF # r)"
  shows "\<exists>res. CoAPDeserialize_Options (xs @ options_bytes opts @ ys) buflen k (length xs) count pre acc =
       Some (acc @ res, length xs + length (options_bytes opts)) \<and>
     list_all2 same_option opts res \<and> map opt_num res = running_sums pre (map opt_num opts)"
  using assms
proof (induction opts arbitrary: k xs count pre acc)
  case Nil
  then show ?case by (cases k) (auto simp: options_bytes_def)
next
  case (Cons opt opts)
  then obtain j where k: "k = Suc j" by (cases k) auto
  define bf where "bf = xs @ options_bytes (opt # opts) @ ys"
  have ok: "opt_ok opt" "list_all opt_ok opts" using Cons.prems(1) by simp_all
  let ?n = "length (option_bytes opt)"
  have n: "0 < ?n" "?n mod 65536 = ?n" using Cons.prems(3) option_bytes_pos [of opt] by simp_all
  obtain b bs where b: "option_bytes opt = b # bs" "b \<noteq> 0xFF" using option_first_byte by blast
  have "int (length (options_bytes (opt # opts))) = int ?n + int (length (options_bytes opts))" "0 < int ?n"
    using n(1) by simp_all
  then have less: "count < buflen" using Cons.prems(4) by (elim disjE conjE) linarith+
  have c: "rd bf (length xs) = Some b" by (simp add: b bf_def)
  obtain v where v: "CoAPDeserialize_Option bf (length xs) pre =
      Some (\<lparr>opt_num = pre + opt_num opt, opt_len = opt_len opt, opt_val = v\<rparr>, pre + opt_num opt, ?n)"
    "take (unat (opt_len opt)) v = take (unat (opt_len opt)) (opt_val opt)"
    using deserialize_option [OF ok(1), of xs "options_bytes opts @ ys" pre] by (auto simp: bf_def)
  let ?o = "\<lparr>opt_num = pre + opt_num opt, opt_len = opt_len opt, opt_val = v\<rparr>"
  have stop': "buflen = (count + int ?n) + int (length (options_bytes opts)) \<or>
      (count + int ?n) + int (length (options_bytes opts)) < buflen \<and> (\<exists>r. ys = 0xFF # r)"
    using Cons.prems(4) by auto
  have bf: "bf = (xs @ option_bytes opt) @ options_bytes opts @ ys" "length xs + ?n = length (xs @ option_bytes opt)"
    by (simp_all add: bf_def)
  obtain res where r: "CoAPDeserialize_Options bf buflen j (length xs + ?n) (count + int ?n) (pre + opt_num opt) (acc @ [?o]) =
      Some ((acc @ [?o]) @ res, length xs + ?n + length (options_bytes opts))"
    "list_all2 same_option opts res" "map opt_num res = running_sums (pre + opt_num opt) (map opt_num opts)"
    using Cons.IH [OF ok(2) _ _ stop', of j "xs @ option_bytes opt" "pre + opt_num opt" "acc @ [?o]"]
      Cons.prems(2,3) k unfolding bf by auto
  have ff: "(b \<noteq> 0xFF) = True" "(count < buflen) = True" using b(2) less by simp_all
  have "CoAPDeserialize_Options bf buflen k (length xs) count pre acc =
      Some ((acc @ [?o]) @ res, length xs + ?n + length (options_bytes opts))"
    unfolding k CoAPDeserialize_Options.simps c bind.bind_lunit v(1) prod.case Let_def n(2) ff if_True
    by (rule r(1))
  moreover have "same_option opt ?o" using v(2) by (simp add: same_option_def)
  ultimately show ?case using r(2,3) unfolding bf_def [symmetric] by (intro exI [of _ "?o # res"]) simp
qed

subsection \<open>Reading a message back\<close>

lemma header_fields:
  assumes "msg_version m < 4" "msg_type m < 4" "tokenlen m \<le> 8"
  defines "b \<equiv> (push_bit 6 (msg_version m AND 0x3) OR push_bit 4 (msg_type m AND 0x3)) OR (tokenlen m AND 0x0F)"
  shows "drop_bit 6 b AND 0x03 = msg_version m" "drop_bit 4 b AND 0x03 = msg_type m" "b AND 0x0F = tokenlen m"
proof -
  have small: "bit (a :: u8) k \<Longrightarrow> k < 2" if "a < 4" for a k
  proof -
    assume "bit a k"
    have "take_bit 2 a = a" using that
      by (simp add: word_uint_eq_iff unsigned_take_bit_eq word_less_def take_bit_int_eq_self)
    then have "bit (take_bit 2 a) k" using \<open>bit a k\<close> by simp
    then show ?thesis by (simp add: bit_simps)
  qed
  have "tokenlen m < 16" using assms(3) by (rule order.strict_trans1) simp
  then have bits: "bit (msg_version m) k \<Longrightarrow> k < 2" "bit (msg_type m) k \<Longrightarrow> k < 2" "bit (tokenlen m) k \<Longrightarrow> k < 4" for k
    using small assms(1,2) bits_of_nibble by blast+
  have m: "(0x3 :: u8) = mask 2" "(0x0F :: u8) = mask 4" by (simp_all add: mask_eq_decr_exp)
  show "drop_bit 6 b AND 0x03 = msg_version m" "drop_bit 4 b AND 0x03 = msg_type m" "b AND 0x0F = tokenlen m"
    unfolding b_def m by (rule bit_word_eqI; auto simp: bit_simps dest: bits)+
qed

lemma token_store: "take n (xs @ ys) @ zs = take n xs @ zs" if "n \<le> length xs"
  using that by simp

lemma message_read_back:
  assumes ok: "msg_ok m" and buf: "length buf = CoAPSerialize_MessageLength m" and old: "length (token old) = 8"
    and z: "c \<noteq> 0xFF"
  shows "\<exists>res. CoAPSerialize_Message m buf (length buf) = Some (int (length buf), message_bytes m) \<and>
     length (message_bytes m) = length buf \<and>
     CoAPDeserialize_Message old (message_bytes m @ c # r) (int (length buf)) = Some (COAP_SUCCESS, res) \<and>
     msg_version res = msg_version m \<and> msg_type res = msg_type m \<and> msg_code res = msg_code m \<and> msgid res = msgid m \<and>
     tokenlen res = tokenlen m \<and> take (unat (tokenlen m)) (token res) = take (unat (tokenlen m)) (token m) \<and>
     list_all2 same_option (options m) (options res) \<and>
     map opt_num (options res) = running_sums 0 (map opt_num (options m)) \<and>
     (payloadlen m \<noteq> 0 \<longrightarrow> payloadlen res = payloadlen m \<and>
        take (unat (payloadlen m)) (payload res) = take (unat (payloadlen m)) (payload m))"
proof -
  let ?out = "message_bytes m"
  have len: "length buf = length ?out" using buf message_length [OF ok] by simp
  have lt: "length ?out < 65536" using ok by (simp add: msg_ok_def)
  have ser: "CoAPSerialize_Message m buf (length buf) = Some (int (length buf), ?out)"
    using message_written [OF ok, of buf] len lt by simp
  define n where "n = unat (tokenlen m)"
  define buff where "buff = ?out @ c # r"
  define os where "os = options_bytes (options m)"
  define b where "b = (push_bit 6 (msg_version m AND 0x3) OR push_bit 4 (msg_type m AND 0x3)) OR (tokenlen m AND 0x0F)"
  have n: "n \<le> 8" "length (take n (token m)) = n" using ok by (simp_all add: n_def msg_ok_def word_le_nat_alt)
  have h: "drop_bit 6 b AND 0x03 = msg_version m" "drop_bit 4 b AND 0x03 = msg_type m" "b AND 0x0F = tokenlen m"
    unfolding b_def using ok by (intro header_fields; simp add: msg_ok_def)+
  let ?h2 = "ucast (drop_bit 8 (msgid m AND 0xFF00)) :: u8" and ?h3 = "ucast (msgid m AND 0x00FF) :: u8"
  have id: "push_bit 8 (ucast ?h2) + ucast ?h3 = msgid m" by (rule join_bytes16)
  have out: "?out = [b, msg_code m, ?h2, ?h3] @ take n (token m) @ os @ payload_bytes m"
    by (simp add: message_bytes_def header_bytes_def n_def os_def b_def)
  let ?pre = "[b, msg_code m, ?h2, ?h3] @ take n (token m)"
  have pre: "length ?pre = 4 + n" using n by simp
  have rds: "rd buff 0 = Some b" "rd buff 1 = Some (msg_code m)" "rd buff 2 = Some ?h2" "rd buff 3 = Some ?h3"
    by (simp_all add: buff_def out rd_def)
  have bsplit: "buff = ?pre @ os @ (payload_bytes m @ c # r)" by (simp add: buff_def out)
  have lb: "int (length buf) - 4 - int n = int (length os) + int (length (payload_bytes m))"
    using len n by (simp add: out)
  have osl: "length os < 65536" using lt by (simp add: out)
  have stop: "int (length os) + int (length (payload_bytes m)) = 0 + int (length (options_bytes (options m))) \<or>
     0 + int (length (options_bytes (options m))) < int (length os) + int (length (payload_bytes m)) \<and>
     (\<exists>q. payload_bytes m @ c # r = 0xFF # q)"
    by (auto simp: os_def payload_bytes_def)
  obtain res where res: "CoAPDeserialize_Options buff (int (length buf) - 4 - int n) 12 (4 + n) 0 0 [] =
      Some (res, 4 + n + length os)" "list_all2 same_option (options m) res"
    "map opt_num res = running_sums 0 (map opt_num (options m))"
    using deserialize_options [OF _ _ _ stop, of 12 ?pre 0 "[]"] ok osl
    unfolding pre lb bsplit os_def [symmetric] msg_ok_def by auto
  have enough: "(8 < n \<or> length buff < 4 + n) = False" using n by (simp add: buff_def out)
  have small: "(int (length buf) < 4) = False" using len by (simp add: out)
  have tk: "take n (drop 4 buff) = take n (token m)" using n by (simp add: buff_def out)
  have q: "rd buff (4 + n + length os) = Some (if payloadlen m = 0 then c else 0xFF)"
  proof -
    have "rd ((?pre @ os) @ (payload_bytes m @ c # r)) (length (?pre @ os)) = rd (payload_bytes m @ c # r) 0"
      by (rule rd_append_length)
    moreover have "length (?pre @ os) = 4 + n + length os" using n by simp
    moreover have "(?pre @ os) @ (payload_bytes m @ c # r) = buff" by (simp add: bsplit)
    ultimately have "rd buff (4 + n + length os) = rd (payload_bytes m @ c # r) 0" by (simp only:)
    then show ?thesis by (simp add: payload_bytes_def)
  qed
  let ?m1 = "old\<lparr>msg_version := msg_version m, msg_type := msg_type m, tokenlen := tokenlen m, msg_code := msg_code m,
      msgid := msgid m, token := take n (token m) @ drop n (token old), options := res\<rparr>"
  let ?res = "if payloadlen m = 0 then ?m1
      else ?m1\<lparr>payloadlen := word_of_int (int (length buf) - int (4 + n + length os) - 1),
               payload := drop (4 + n + length os + 1) buff\<rparr>"
  have des: "CoAPDeserialize_Message old buff (int (length buf)) = Some (COAP_SUCCESS, ?res)"
  proof -
    have "CoAPDeserialize_Message old buff (int (length buf)) =
       (if (if payloadlen m = 0 then c else 0xFF) = 0xFF
        then Some (COAP_SUCCESS, ?m1\<lparr>payloadlen := word_of_int (int (length buf) - int (4 + n + length os) - 1),
               payload := drop (4 + n + length os + 1) buff\<rparr>)
        else Some (COAP_SUCCESS, ?m1))"
    proof -
      have nn: "unat (tokenlen m) = n" "\<not> int (length buf) < 4" "\<not> 8 < n" "\<not> length buff < 4 + n"
        using n_def small enough by simp_all
      show ?thesis
        unfolding CoAPDeserialize_Message_def deserialize_parts if_not_P [OF nn(2)] add_0 rds bind.bind_lunit Let_def h id
        by (simp add: nn(1,3,4) tk res(1) q)
    qed
    then show ?thesis using z by simp
  qed
  have pl: "payloadlen ?res = payloadlen m \<and> take (unat (payloadlen m)) (payload ?res) = take (unat (payloadlen m)) (payload m)"
    if "payloadlen m \<noteq> 0"
  proof -
    have pb: "payload_bytes m = 0xFF # take (unat (payloadlen m)) (payload m)" using that by (simp add: payload_bytes_def)
    have lp: "length (take (unat (payloadlen m)) (payload m)) = unat (payloadlen m)" using ok by (simp add: msg_ok_def)
    have "int (length buf) - int (4 + n + length os) - 1 = int (unat (payloadlen m))"
      using len n lp by (simp add: out pb)
    moreover have "drop (4 + n + length os + 1) buff = take (unat (payloadlen m)) (payload m) @ c # r"
    proof -
      have "buff = (?pre @ os @ [0xFF]) @ (take (unat (payloadlen m)) (payload m) @ c # r)"
        by (simp add: bsplit pb)
      moreover have "4 + n + length os + 1 = length (?pre @ os @ [0xFF])" using n by simp
      moreover have "drop (length as) (as @ z) = z" for as z :: bytes by simp
      ultimately show ?thesis by (simp only:)
    qed
    ultimately show ?thesis using that lp by simp
  qed
  have "take n (token ?res) = take n (token m)" using n by simp
  then show ?thesis
    using ser len des res pl by (intro exI [of _ ?res]) (auto simp: buff_def n_def)
qed

text \<open>C29. A CoAP message comes back from the wire as it was sent. Serialising a well-formed message into
  a buffer of exactly the computed length fills the buffer, and deserialising those bytes, at the
  start of a receive buffer that does not end with them, returns the header, the token, every option
  with its number (the running sum of the differences), length and value, and the payload.\<close>

theorem coap_roundtrip:
  assumes ok: "msg_ok m" and buf: "length buf = CoAPSerialize_MessageLength m" and old: "length (token old) = 8"
    and z: "c \<noteq> 0xFF"
  shows "\<exists>out res. CoAPSerialize_Message m buf (length buf) = Some (int (length buf), out) \<and> length out = length buf \<and>
     CoAPDeserialize_Message old (out @ c # r) (int (length buf)) = Some (COAP_SUCCESS, res) \<and>
     msg_version res = msg_version m \<and> msg_type res = msg_type m \<and> msg_code res = msg_code m \<and> msgid res = msgid m \<and>
     tokenlen res = tokenlen m \<and> take (unat (tokenlen m)) (token res) = take (unat (tokenlen m)) (token m) \<and>
     list_all2 same_option (options m) (options res) \<and>
     map opt_num (options res) = running_sums 0 (map opt_num (options m)) \<and>
     (payloadlen m \<noteq> 0 \<longrightarrow> payloadlen res = payloadlen m \<and>
        take (unat (payloadlen m)) (payload res) = take (unat (payloadlen m)) (payload m))"
  using message_read_back [OF assms] by blast

definition coap_example :: CoAPMessage where
  "coap_example = snd (CoAPMessagePayload_set [0x7B, 0x7D] (snd (CoAPUintOption_add True 12 50
     (snd (CoAPStrOption_add True 11 [0x64, 0x65, 0x76] (snd (CoAPMessageToken_set [1, 2] CoAPMessage_init)))))))"

lemma coap_example_ok: "msg_ok coap_example"
  by (simp add: coap_example_def CoAPMessagePayload_set_def CoAPUintOption_add_def CoAPStrOption_add_def
      CoAPMessageToken_set_def CoAPMessage_init_def uint_bytes_def msg_ok_def opt_ok_def message_bytes_def
      header_bytes_def payload_bytes_def option_bytes_def option_ext_def)

theorem coap_roundtrip_witness:
  "\<exists>out res. CoAPDeserialize_Message CoAPMessage_init (out @ [0]) (int (CoAPSerialize_MessageLength coap_example)) =
       Some (COAP_SUCCESS, res) \<and> map opt_num (options res) = running_sums 0 (map opt_num (options coap_example))"
  using coap_roundtrip [OF coap_example_ok, of "replicate (CoAPSerialize_MessageLength coap_example) 0" CoAPMessage_init 0 "[]"]
  by (auto simp: CoAPMessage_init_def)

subsection \<open>Unsigned options\<close>

text \<open>An unsigned option gives back its value: adding any 32-bit number and reading the option
  into a cleared variable returns the number, in as many bytes as it needs.\<close>

theorem uint_option_roundtrip:
  assumes "length (options m) < 12" "find_option (n - ucast (optdelta m)) (options m) = None"
  shows "\<exists>m'. CoAPUintOption_add True n d m = (COAP_SUCCESS, m') \<and>
     CoAPUintOption_get m' (n - ucast (optdelta m)) 0 = Some (COAP_SUCCESS, d) \<and>
     length (uint_bytes d) = (if d = 0 then 0 else if d \<le> 255 then 1 else if d \<le> 65535 then 2 else 4)"
proof -
  have fo: "find_option k (opts @ [opt]) = (case find_option k opts of Some r \<Rightarrow> Some r
      | None \<Rightarrow> if opt_num opt = k then Some opt else None)" for k opts opt
    by (induction opts) auto
  have m: "(0xFF00 :: u32) = push_bit 8 (mask 8)" "(0xFF :: u32) = mask 8" "(0xFF0000 :: u32) = push_bit 16 (mask 8)"
    "(0xFF000000 :: u32) = push_bit 24 (mask 8)" by (simp_all add: mask_eq_decr_exp)
  have small: "take_bit k d = d" if "d \<le> w" "uint w < 2 ^ k" for w k
    using that by (simp add: word_uint_eq_iff unsigned_take_bit_eq word_le_def take_bit_int_eq_self)
  have v: "or_bytes 0 (uint_bytes d) = d"
  proof -
    consider (zero) "d = 0" | (one) "d \<noteq> 0" "d \<le> 255" | (two) "d \<noteq> 0" "\<not> d \<le> 255" "d \<le> 65535"
      | (four) "d \<noteq> 0" "\<not> d \<le> 255" "\<not> d \<le> 65535" by auto
    then show ?thesis
    proof cases
      case zero
      then show ?thesis by (simp add: uint_bytes_def or_bytes_def)
    next
      case one
      have "ucast (ucast d :: u8) = take_bit 8 d" by (rule bit_word_eqI) (auto simp: bit_simps)
      then show ?thesis using one small [of 255 8] by (simp add: uint_bytes_def or_bytes_def)
    next
      case two
      then have "uint_bytes d = [ucast (drop_bit 8 (d AND 0xFF00)), ucast (d AND 0x00FF)]"
        by (simp only: uint_bytes_def if_False if_True)
      then have "or_bytes 0 (uint_bytes d) = push_bit 8 (take_bit 8 (drop_bit 8 d)) OR take_bit 8 d"
        by (simp only: or_bytes_def list.case m byte_of byte_of0 or.left_neutral)
      then show ?thesis using two small [of 65535 16] by (simp add: join2)
    next
      case four
      then have "uint_bytes d = [ucast (drop_bit 24 (d AND 0xFF000000)), ucast (drop_bit 16 (d AND 0x00FF0000)),
            ucast (drop_bit 8 (d AND 0x0000FF00)), ucast (d AND 0x000000FF)]"
        by (simp only: uint_bytes_def if_False)
      then show ?thesis
        by (simp only: or_bytes_def list.case m byte_of byte_of0 or.left_neutral join4)
    qed
  qed
  have len: "length (uint_bytes d) = (if d = 0 then 0 else if d \<le> 255 then 1 else if d \<le> 65535 then 2 else 4)"
    by (simp add: uint_bytes_def)
  let ?opt = "\<lparr>opt_num = n - ucast (optdelta m), opt_len = of_nat (length (uint_bytes d)), opt_val = uint_bytes d\<rparr>"
  let ?m = "m\<lparr>options := options m @ [?opt], optdelta := ucast n\<rparr>"
  have "CoAPUintOption_add True n d m = (COAP_SUCCESS, ?m)"
    using assms(1) by (simp add: CoAPUintOption_add_def)
  moreover have "CoAPUintOption_get ?m (n - ucast (optdelta m)) 0 = Some (COAP_SUCCESS, d)"
  proof (cases "d = 0")
    case True
    then show ?thesis using assms(2) by (simp add: CoAPUintOption_get_def fo uint_bytes_def or_bytes_def)
  next
    case False
    then have c: "length (uint_bytes d) \<in> {1, 2, 4}" by (simp add: len)
    then have "(of_nat (length (uint_bytes d)) :: u16) \<in> {1, 2, 3, 4}"
      "unat (of_nat (length (uint_bytes d)) :: u16) = length (uint_bytes d)" by auto
    then show ?thesis using assms(2) v by (simp add: CoAPUintOption_get_def fo)
  qed
  ultimately show ?thesis using len by blast
qed

theorem uint_option_roundtrip_witness:
  "\<exists>m'. CoAPUintOption_add True 12 100000 CoAPMessage_init = (COAP_SUCCESS, m') \<and>
     CoAPUintOption_get m' 12 0 = Some (COAP_SUCCESS, 100000)"
  using uint_option_roundtrip [of CoAPMessage_init 12 100000] by (auto simp: CoAPMessage_init_def)

subsection \<open>What a datagram can overrun\<close>




end
