(* ===== verification/CoapEndToEnd.thy ===== *)
theory CoapEndToEnd
  imports CoapInv CoapProps
begin

text \<open>
  A request from one server to the resource of another: the options made of its path, the datagram,
  the message read back from it, the path put together again, and the call of the resource.
\<close>

unbundle bit_operations_syntax

subsection \<open>A path as options\<close>

definition path_of :: "bytes list \<Rightarrow> bytes" where
  "path_of segs = concat (map (\<lambda>p. 0x2F # p) segs)"

definition segment :: "bytes \<Rightarrow> bool" where
  "segment p \<longleftrightarrow> p \<noteq> [] \<and> 0x2F \<notin> set p \<and> 0 \<notin> set p"

lemma path_of_simps [simp]: "path_of [] = []" "path_of (p # ps) = 0x2F # p @ path_of ps"
  by (simp_all add: path_of_def)

lemma path_loop_segment:
  "0x2F \<notin> set p \<Longrightarrow> rest = [] \<or> (\<exists>q. rest = 0x2F # q) \<Longrightarrow>
   path_loop e pstr (p @ rest) ms =
     (if rest = [] then (if p = [] then ms else add_path_option e (pstr @ p) ms) else path_loop e (pstr @ p) rest ms)"
proof (induction p arbitrary: pstr ms)
  case (Cons c p)
  show ?case
  proof (cases "p = [] \<and> rest = []")
    case True
    then show ?thesis using Cons.prems(1) by (auto simp: Let_def)
  next
    case False
    then have "path_loop e pstr ((c # p) @ rest) ms = path_loop e (pstr @ [c]) (p @ rest) ms"
      using Cons.prems(1) by (auto simp: Let_def)
    then show ?thesis using Cons.IH [of "pstr @ [c]" ms] Cons.prems False by auto
  qed
qed auto

lemma path_loop_segments:
  "segs \<noteq> [] \<Longrightarrow> \<forall>p\<in>set segs. segment p \<Longrightarrow>
   path_loop e pstr (path_of segs) ms = fold (add_path_option e) ((if pstr = [] then [] else [pstr]) @ segs) ms"
proof (induction segs arbitrary: pstr ms)
  case (Cons p ps)
  define ms1 where "ms1 = (if pstr = [] then ms else add_path_option e pstr ms)"
  have p: "p \<noteq> []" "0x2F \<notin> set p" using Cons.prems(2) by (auto simp: segment_def)
  then have "path_loop e pstr (path_of (p # ps)) ms = path_loop e [] (p @ path_of ps) ms1"
    by (auto simp: ms1_def Let_def)
  also have "\<dots> = (if ps = [] then add_path_option e p ms1 else path_loop e p (path_of ps) ms1)"
    using path_loop_segment [OF p(2), of "path_of ps" e "[]" ms1] p(1) by (cases ps) auto
  finally show ?case using Cons.IH [of p ms1] Cons.prems(2) p(1) by (auto simp: ms1_def)
qed simp

definition path_option :: "u16 \<Rightarrow> bytes \<Rightarrow> CoAPMsgOption" where
  "path_option n p = \<lparr>opt_num = n, opt_len = of_nat (length p), opt_val = p\<rparr>"

fun path_options :: "u16 \<Rightarrow> bytes list \<Rightarrow> CoAPMsgOption list" where
  "path_options d [] = []"
| "path_options d (p # ps) = path_option (11 - d) p # path_options 11 ps"

lemma path_options_length [simp]: "length (path_options d segs) = length segs"
  by (induction d segs rule: path_options.induct) simp_all

lemma add_path_options:
  assumes "\<forall>n. env_mem e n"
  shows "length (options m) + length segs \<le> 12 \<Longrightarrow>
    fold (add_path_option e) segs (m, s) =
      (m\<lparr>options := options m @ path_options (ucast (optdelta m)) segs, optdelta := (if segs = [] then optdelta m else 11)\<rparr>,
       s\<lparr>coap_calls := coap_calls s + length segs\<rparr>)"
proof (induction segs arbitrary: m s)
  case (Cons p ps)
  let ?m = "m\<lparr>options := options m @ [path_option (11 - ucast (optdelta m)) p], optdelta := 11\<rparr>"
  have "add_path_option e p (m, s) = (?m, s\<lparr>coap_calls := Suc (coap_calls s)\<rparr>)"
    using assms Cons.prems by (simp add: add_path_option_def ask_def CoAPStrOption_add_def path_option_def)
  moreover have "(ucast (11 :: u8) :: u16) = 11" by simp
  ultimately show ?case using Cons.IH [of ?m "s\<lparr>coap_calls := Suc (coap_calls s)\<rparr>"] Cons.prems by simp
qed simp

lemma path_options_sums:
  "running_sums d (map opt_num (path_options d segs) @ [1]) =
     replicate (length segs) 11 @ [if segs = [] then d + 1 else 12]"
proof -
  have "running_sums 11 (map opt_num (path_options 11 ps) @ [1]) = replicate (length ps) 11 @ [12]" for ps
  proof (induction ps)
    case (Cons p ps)
    have "opt_num (path_option (11 - 11) p) = 0" by (simp add: path_option_def)
    then show ?case using Cons.IH by (simp only: path_options.simps list.map append_Cons running_sums.simps add_0_right
          list.size replicate_Suc add_Suc_right)
  qed simp
  moreover have "d + opt_num (path_option (11 - d) p) = 11" for p by (simp add: path_option_def)
  ultimately show ?thesis by (cases segs) (simp_all only: path_options.simps list.map append_Cons append_Nil running_sums.simps
        list.size replicate_Suc replicate_0 add_Suc_right, simp_all)
qed

subsection \<open>The path put together again\<close>

lemma strncpy_same:
  assumes "take n src = p" "length p = n" "0 \<notin> set p" shows "strncpy_bytes n src = Some p"
proof -
  have "\<forall>x\<in>set p. x \<noteq> 0" using assms(3) by auto
  then have "takeWhile (\<lambda>x. x \<noteq> 0) (take n src) = p" by (simp only: assms(1) takeWhile_eq_all_conv)
  then show ?thesis using assms(2) by (simp add: strncpy_bytes_def)
qed

lemma request_path_segments:
  "list_all2 same_option (path_options d segs @ [ct]) ropts \<Longrightarrow>
   map opt_num ropts = replicate (length segs) 11 @ [12] \<Longrightarrow> \<forall>p\<in>set segs. segment p \<Longrightarrow>
   length acc + length (path_of segs) < 128 \<Longrightarrow> request_path acc ropts = Some (acc @ path_of segs)"
proof (induction segs arbitrary: d acc ropts)
  case Nil
  then obtain r where "ropts = [r]" "opt_num r = 12" by (auto simp: list_all2_Cons1)
  then show ?case by simp
next
  case (Cons p ps)
  obtain r rs where r: "ropts = r # rs" "same_option (path_option (11 - d) p) r" "list_all2 same_option (path_options 11 ps @ [ct]) rs"
    using Cons.prems(1) by (auto simp: list_all2_Cons1)
  have n: "opt_num r = 11" "map opt_num rs = replicate (length ps) 11 @ [12]" using Cons.prems(2) r(1) by simp_all
  have p: "length p < 128" "0 \<notin> set p" using Cons.prems(3,4) by (auto simp: segment_def)
  then have l: "unat (opt_len r) = length p" "take (length p) (opt_val r) = p"
    using r(2) by (simp_all add: same_option_def path_option_def unat_of_nat)
  have "strncpy_bytes (unat (opt_len r)) (opt_val r) = Some p" unfolding l(1) by (rule strncpy_same [OF l(2) refl p(2)])
  then have "request_path acc ropts = request_path (acc @ 0x2F # p) rs"
    using Cons.prems(4) n(1) l(1) by (simp add: r(1))
  also have "\<dots> = Some ((acc @ 0x2F # p) @ path_of ps)"
    using Cons.IH [OF r(3) n(2), of "acc @ 0x2F # p"] Cons.prems(3,4) by simp
  finally show ?case by simp
qed

lemma path_no_zero: "\<forall>p\<in>set segs. segment p \<Longrightarrow> 0 \<notin> set (path_of segs)"
  by (induction segs) (auto simp: segment_def)

lemma path_text_same: "\<forall>p\<in>set segs. segment p \<Longrightarrow> length (path_of segs) < 128 \<Longrightarrow> path_text (path_of segs) = Some (path_of segs)"
proof -
  assume a: "\<forall>p\<in>set segs. segment p" "length (path_of segs) < 128"
  have "\<forall>x\<in>set (path_of segs). x \<noteq> 0" using path_no_zero [OF a(1)] by auto
  then have "takeWhile (\<lambda>x. x \<noteq> 0) (path_of segs) = path_of segs" by (simp only: takeWhile_eq_all_conv)
  then show ?thesis using a(2) by (simp only: path_text_def Let_def if_True)
qed

subsection \<open>The sender\<close>

definition multicast_message :: "u16 \<Rightarrow> bytes \<Rightarrow> nat \<Rightarrow> bytes list \<Rightarrow> bytes \<Rightarrow> CoAPMessage" where
  "multicast_message i tk cb segs buf = CoAPMessage_init\<lparr>msg_type := 1, msg_code := 2, msgid := i, token := tk @ replicate 4 0,
     tokenlen := 4, msg_handler := cb, keep := 1, options := path_options 0 segs @ [\<lparr>opt_num = 1, opt_len = 1, opt_val = [50]\<rparr>],
     optdelta := 12, payload := buf, payloadlen := of_nat (length buf)\<rparr>"

lemma option_bytes_bound: "length (option_bytes opt) \<le> 5 + length (opt_val opt)"
proof -
  have "length (option_ext n) \<le> 2" for n by (simp add: option_ext_def)
  from this [of "opt_num opt"] this [of "opt_len opt"] show ?thesis by (simp add: option_bytes_def)
qed

lemma path_options_bound: "length (options_bytes (path_options d segs)) \<le> length (path_of segs) + 4 * length segs"
proof (induction d segs rule: path_options.induct)
  case (2 d p ps)
  have "length (option_bytes (path_option (11 - d) p)) \<le> 5 + length p"
    using option_bytes_bound [of "path_option (11 - d) p"] by (simp add: path_option_def)
  then show ?case using 2 by simp
qed simp

lemma path_options_ok: "list_all opt_ok (path_options d segs)"
proof (induction d segs rule: path_options.induct)
  case (2 d p ps)
  have "unat (of_nat (length p) :: u16) \<le> length p" by (simp add: unat_of_nat)
  then show ?case using 2 by (simp add: opt_ok_def path_option_def)
qed simp

lemma multicast_message_ok:
  assumes "length tk = 4" "length segs \<le> 11" "length (path_of segs) < 128" "buf \<noteq> []" "length buf \<le> 1000"
  shows "msg_ok (multicast_message i tk cb segs buf)" "length (message_bytes (multicast_message i tk cb segs buf)) < 1280"
    "payloadlen (multicast_message i tk cb segs buf) \<noteq> 0" "unat (payloadlen (multicast_message i tk cb segs buf)) = length buf"
proof -
  let ?m = "multicast_message i tk cb segs buf"
  show pl: "unat (payloadlen ?m) = length buf" using assms(5) by (simp add: multicast_message_def unat_of_nat)
  then show "payloadlen ?m \<noteq> 0" using assms(4) by (metis length_0_conv unat_0)
  have "length (options_bytes (options ?m)) \<le> 128 + 44 + 6"
    using path_options_bound [of 0 segs] option_bytes_bound [of "\<lparr>opt_num = 1, opt_len = 1, opt_val = [50]\<rparr>"] assms(2,3)
    by (simp add: multicast_message_def options_bytes_def)
  moreover have "length (header_bytes ?m) = 4" "length (take (unat (tokenlen ?m)) (token ?m)) \<le> 4"
    by (simp_all add: header_bytes_def multicast_message_def assms(1))
  moreover have "length (payload_bytes ?m) \<le> 1 + length buf" by (simp add: payload_bytes_def multicast_message_def)
  ultimately show l: "length (message_bytes ?m) < 1280"
    unfolding message_bytes_def length_append using assms(5) by linarith
  have "opt_ok \<lparr>opt_num = 1, opt_len = 1, opt_val = [50]\<rparr>" by (simp add: opt_ok_def)
  then show "msg_ok ?m"
    using l assms(1,2,5) pl path_options_ok [of 0 segs]
    by (simp add: msg_ok_def multicast_message_def CoAPMessage_init_def)
qed

lemma multicast_built:
  assumes "\<forall>n. env_mem e n" "g_context g = Some s" "CoAPMessageId_gen s = (i, s1)"
    and "segs \<noteq> []" "\<forall>p\<in>set segs. segment p" "length segs \<le> 11" "length (path_of segs) < 128"
  shows "\<exists>tk c. length tk = 4 \<and> tk = fst (CoAPServerToken_get g) \<and> CoAPServerMultiCast_send e remote (path_of segs) buf cb g =
    Option.bind (CoAPMessage_send e remote (multicast_message i tk cb segs buf) (s1\<lparr>coap_calls := c\<rparr>))
      (\<lambda>(ret, s). Some (ret, Some i, (snd (CoAPServerToken_get g))\<lparr>g_context := Some s\<rparr>))"
proof -
  obtain tk g1 where g: "CoAPServerToken_get g = (tk, g1)" by (cases "CoAPServerToken_get g")
  then have tk: "length tk = 4" by (auto simp: CoAPServerToken_get_def Let_def)
  define m0 where "m0 = CoAPMessage_init\<lparr>msg_type := 1, msg_code := 2, msgid := i, token := tk @ replicate 4 0,
     tokenlen := 4, msg_handler := cb, keep := 1\<rparr>"
  have m0: "snd (CoAPMessageKeep_Set 1 (snd (CoAPMessageHandler_set cb (snd (CoAPMessageToken_set tk
     (snd (CoAPMessageId_set i (snd (CoAPMessageCode_set COAP_MSG_CODE_POST (snd (CoAPMessageType_set COAP_MESSAGE_TYPE_NON CoAPMessage_init))))))))))) = m0"
    by (simp add: m0_def CoAPMessageKeep_Set_def CoAPMessageHandler_set_def CoAPMessageToken_set_def CoAPMessageId_set_def
        CoAPMessageCode_set_def CoAPMessageType_set_def CoAPMessage_init_def tk)
  let ?m1 = "m0\<lparr>options := path_options 0 segs, optdelta := 11\<rparr>"
  let ?s2 = "s1\<lparr>coap_calls := coap_calls s1 + length segs\<rparr>"
  have "path_loop e [] (path_of segs) (m0, s1) = (?m1, ?s2)"
    using path_loop_segments [OF assms(4,5), of e "[]" "(m0, s1)"] add_path_options [OF assms(1), of m0 segs s1] assms(4,6)
    by (simp add: m0_def CoAPMessage_init_def)
  then have p: "CoAPServerPath_2_option e (path_of segs) (m0, s1) = (COAP_SUCCESS, ?m1, ?s2)"
    using assms(7) by (simp add: CoAPServerPath_2_option_def)
  have c: "snd (CoAPMessagePayload_set buf (snd (CoAPUintOption_add True COAP_OPTION_CONTENT_FORMAT COAP_CT_APP_JSON ?m1))) =
      multicast_message i tk cb segs buf"
    using assms(6) by (simp add: CoAPMessagePayload_set_def CoAPUintOption_add_def uint_bytes_def multicast_message_def m0_def)
  have "CoAPServerMultiCast_send e remote (path_of segs) buf cb g =
    Option.bind (CoAPMessage_send e remote (multicast_message i tk cb segs buf) (?s2\<lparr>coap_calls := coap_calls ?s2 + 1\<rparr>))
      (\<lambda>(ret, s). Some (ret, Some i, g1\<lparr>g_context := Some s\<rparr>))"
    unfolding CoAPServerMultiCast_send_def assms(2) option.case assms(3) Let_def prod.case g m0 p snd_conv
    using assms(1) by (simp add: ask_def c [simplified])
  with tk g show ?thesis by (intro exI [of _ tk] exI [of _ "Suc (coap_calls s1 + length segs)"]) simp
qed

lemma list_add_trace [simp]: "coap_trace (snd (CoAPMessageList_add e remote m buf len s)) = coap_trace s"
  by (simp add: CoAPMessageList_add_def ask_def Let_def)

lemma find_option_none: "\<forall>opt\<in>set opts. opt_num opt \<noteq> n \<Longrightarrow> find_option n opts = None"
  by (induction opts) auto

lemma multicast_no_content_format:
  "find_option COAP_OPTION_CONTENT_FORMAT (options (multicast_message i tk cb segs buf)) = None"
proof -
  have a: "opt_num opt \<noteq> 12" if "opt \<in> set (path_options 11 segs)" for opt segs using that
    by (induction segs) (auto simp: path_option_def)
  have b: "opt_num (path_option (11 - 0) p) \<noteq> 12" for p by (simp add: path_option_def)
  show ?thesis
    using a b by (cases segs) (auto simp: multicast_message_def intro!: find_option_none)
qed

lemma multicast_sent:
  assumes "\<forall>n. env_mem e n" "length tk = 4" "length segs \<le> 11" "length (path_of segs) < 128" "buf \<noteq> []" "length buf \<le> 1000"
  shows "\<exists>ret s'. CoAPMessage_send e remote (multicast_message i tk cb segs buf) s = Some (ret, s') \<and>
    coap_trace s' = coap_trace s @ [NetWrite remote (message_bytes (multicast_message i tk cb segs buf))]"
proof -
  let ?m = "multicast_message i tk cb segs buf" and ?b = "message_bytes (multicast_message i tk cb segs buf)"
  note ok = multicast_message_ok [OF assms(2-6), of i cb]
  have len: "CoAPSerialize_MessageLength ?m = length ?b" by (rule message_length [OF ok(1)])
  have ser: "CoAPSerialize_Message ?m (replicate (length ?b) 0) (length ?b) = Some (int (length ?b), ?b)"
    using message_written [OF ok(1), of "replicate (length ?b) 0"] ok(2) by simp
  have u: "unat (of_nat (length ?b) :: u16) = length ?b" using ok(2) by (simp add: unat_of_nat)
  have code: "msg_code ?m = 2" by (simp add: multicast_message_def)
  have dump: "CoAPMessage_dump ?m = Some ()"
    by (simp add: CoAPMessage_dump_def CoAPUintOption_get_def multicast_no_content_format)
  obtain readlen s1 where w: "CoAPNetwork_write e remote ?b (s\<lparr>coap_calls := Suc (coap_calls s)\<rparr>) = (readlen, s1)"
    by (cases "CoAPNetwork_write e remote ?b (s\<lparr>coap_calls := Suc (coap_calls s)\<rparr>)")
  then have tr: "coap_trace s1 = coap_trace s @ [NetWrite remote ?b]"
    by (auto simp: CoAPNetwork_write_def ask_def emit_def)
  obtain ret s2 where a: "CoAPMessageList_add e remote ?m ?b (ucast (of_nat (length ?b) :: u16)) s1 = (ret, s2)"
    by (cases "CoAPMessageList_add e remote ?m ?b (ucast (of_nat (length ?b) :: u16)) s1")
  then have "coap_trace s2 = coap_trace s1" using list_add_trace [of e remote ?m ?b "ucast (of_nat (length ?b) :: u16)" s1] by simp
  then have "\<exists>ret' s'. (if (of_nat (length ?b) :: u16) \<noteq> word_of_int readlen then Some (COAP_ERROR_WRITE_FAILED, s1)
      else if ret \<noteq> COAP_SUCCESS then Some (ret, s2) else Some (COAP_SUCCESS, s2)) = Some (ret', s') \<and>
      coap_trace s' = coap_trace s @ [NetWrite remote ?b]"
    using tr by simp
  moreover have "CoAPMessage_send e remote ?m s =
     (if (of_nat (length ?b) :: u16) \<noteq> word_of_int readlen then Some (COAP_ERROR_WRITE_FAILED, s1)
      else if ret \<noteq> COAP_SUCCESS then Some (ret, s2) else Some (COAP_SUCCESS, s2))"
    using ok(2) assms(1) a u
    by (cases "(of_nat (length ?b) :: u16) = word_of_int readlen")
      (simp_all add: CoAPMessage_send_def len ask_def ser CoAPObsClient_delete_def code u w CoAPReqMsg_def dump Let_def)
  ultimately show ?thesis by simp
qed

subsection \<open>The receiver\<close>

lemma same_options_ok:
  "list_all2 same_option opts ropts \<Longrightarrow> list_all opt_ok opts \<Longrightarrow> \<forall>opt\<in>set ropts. unat (opt_len opt) \<le> length (opt_val opt)"
proof (induction rule: list_all2_induct)
  case (Cons x xs y ys)
  have "length (take (unat (opt_len x)) (opt_val x)) = unat (opt_len x)" using Cons.prems by (simp add: opt_ok_def)
  then have "length (take (unat (opt_len x)) (opt_val y)) = unat (opt_len x)" using Cons.hyps(1) by (simp add: same_option_def)
  then have "unat (opt_len y) \<le> length (opt_val y)" using Cons.hyps(1) by (simp add: same_option_def)
  then show ?case using Cons by simp
qed simp

lemma find_option_in: "find_option n opts = Some opt \<Longrightarrow> opt \<in> set opts"
  by (induction opts) (auto split: if_splits)

lemma dump_ok: "\<forall>opt\<in>set (options m). unat (opt_len opt) \<le> length (opt_val opt) \<Longrightarrow> CoAPMessage_dump m = Some ()"
  using find_option_in [of 12 "options m"]
  by (fastforce simp: CoAPMessage_dump_def CoAPUintOption_get_def split: option.split)

lemma multicast_read_back:
  fixes i :: u16 and cb :: nat
  assumes "length tk = 4" "segs \<noteq> []" "\<forall>p\<in>set segs. segment p" "length segs \<le> 11" "length (path_of segs) < 128"
    and "buf \<noteq> []" "length buf \<le> 1000"
  defines "d \<equiv> message_bytes (multicast_message i tk cb segs buf)"
  shows "\<exists>res. CoAPDeserialize_Message zero_message (d @ replicate (1280 - length d) 0) (int (length d)) = Some (COAP_SUCCESS, res) \<and>
     CoAPMessage_dump res = Some () \<and> request_path [] (options res) = Some (path_of segs) \<and>
     msg_type res = 1 \<and> msg_code res = 2 \<and> msgid res = i \<and> take 4 (token res) = tk \<and>
     take (unat (payloadlen res)) (payload res) = buf"
proof -
  let ?m = "multicast_message i tk cb segs buf" and ?ct = "\<lparr>opt_num = 1, opt_len = 1, opt_val = [50]\<rparr>"
  note ok = multicast_message_ok [OF assms(1,4-7), of i cb]
  have "1280 - length d = Suc (1279 - length d)" using ok(2) by (simp add: d_def)
  then have z: "replicate (1280 - length d) (0 :: u8) = 0 # replicate (1279 - length d) 0" by simp
  have len: "CoAPSerialize_MessageLength ?m = length d" unfolding d_def by (rule message_length [OF ok(1)])
  have f: "msg_type ?m = 1" "msg_code ?m = 2" "msgid ?m = i" "tokenlen ?m = 4" "token ?m = tk @ replicate 4 0"
      "options ?m = path_options 0 segs @ [?ct]" "payload ?m = buf"
    by (simp_all add: multicast_message_def)
  obtain res where res: "CoAPDeserialize_Message zero_message (d @ 0 # replicate (1279 - length d) 0) (int (length d)) = Some (COAP_SUCCESS, res)"
      "msg_type res = 1" "msg_code res = 2" "msgid res = i" "take 4 (token res) = take 4 (token ?m)"
      "list_all2 same_option (options ?m) (options res)" "map opt_num (options res) = running_sums 0 (map opt_num (options ?m))"
      "payloadlen res = payloadlen ?m" "take (unat (payloadlen ?m)) (payload res) = take (unat (payloadlen ?m)) (payload ?m)"
    using message_read_back [OF ok(1), of "replicate (length d) 0" zero_message 0 "replicate (1279 - length d) 0"] len ok(3)
    by (auto simp: d_def [symmetric] f(1-4) zero_message_def CoAPMessage_init_def)
  have sums: "map opt_num (options res) = replicate (length segs) 11 @ [12]"
    using res(7) path_options_sums [of 0 segs] assms(2) by (simp add: f)
  have "request_path [] (options res) = Some ([] @ path_of segs)"
    by (rule request_path_segments [OF res(6) [unfolded f] sums assms(3)]) (simp add: assms(5))
  moreover have "CoAPMessage_dump res = Some ()"
    using same_options_ok [OF res(6)] ok(1) by (intro dump_ok) (simp add: msg_ok_def)
  moreover have "take (unat (payloadlen res)) (payload res) = buf" using res(8,9) ok(4) by (simp add: f)
  moreover have "take 4 (token res) = tk" using res(5) assms(1) by (simp add: f)
  ultimately show ?thesis using res(1-4) unfolding z append_Nil by (intro exI [of _ res] conjI)
qed

end
