(* ===== verification/CoapServerProps.thy ===== *)
theory CoapServerProps
  imports CoapEndToEnd
begin

text \<open>
  The properties of the CoAP server.
\<close>

unbundle bit_operations_syntax

subsection \<open>Retransmission\<close>




definition quiet_env :: coap_env where
  "quiet_env = \<lparr>env_mem = (\<lambda>n. True), env_sent = (\<lambda>n. 10), env_now = (\<lambda>n. of_nat n), env_recv = (\<lambda>n. Inr 0), env_stack = (\<lambda>n. 0)\<rparr>"

definition a_peer :: NetworkAddr where
  "a_peer = \<lparr>net_addr = ''10.0.0.2'', net_port = 5683\<rparr>"


definition fresh_context :: CoAPIntContext where
  "fresh_context = \<lparr>message_id = 1, sendlist = empty_list 16, obsserver = empty_list 16, obsclient = empty_list 16,
     resource = empty_list 255, waittime = 50, appdata = 0, coap_calls = 0, coap_trace = []\<rparr>"


subsection \<open>A request between two servers\<close>






subsection \<open>The lists stay within their bounds\<close>

lemma steps_ok: "server_step\<^sup>*\<^sup>* g g' \<Longrightarrow> server_ok g \<Longrightarrow> server_ok g'"
  by (induction rule: rtranclp_induct) (auto intro: server_step_ok)

text \<open>C33. Whatever sequence of operations the server goes through, with any datagrams, clocks and failing
  allocations or writes, its send list and its two observer lists have at most 16 elements and its resource
  list at most 255, the counters agree with the lists, every observer refers to a registered resource, and
  every message kept for retransmission has all its bytes.\<close>

theorem server_lists_stay_bounded:
  assumes "server_step\<^sup>*\<^sup>* g g'" "g_context g = None" "g_context g' = Some s"
  shows "length (entries (sendlist s)) \<le> 16 \<and> length (entries (obsserver s)) \<le> 16 \<and>
     length (entries (obsclient s)) \<le> 16 \<and> length (entries (resource s)) \<le> 255 \<and>
     unat (list_count (sendlist s)) = length (entries (sendlist s)) \<and>
     unat (list_count (resource s)) = length (entries (resource s)) \<and> message_id s \<noteq> 0 \<and>
     (\<forall>ob\<in>set (entries (obsserver s)). p_resource_of_interest ob < length (entries (resource s))) \<and>
     (\<forall>node\<in>set (entries (sendlist s)). unat (msglen node) \<le> length (sn_message node) \<and> retrans_count node \<le> 8)"
proof -
  have "server_ok g" using assms(2) by (simp add: server_ok_def)
  then have "server_ok g'" by (rule steps_ok [OF assms(1)])
  then have ok: "coap_ok s" "maxcount (sendlist s) = 16" "maxcount (obsserver s) = 16"
      "maxcount (obsclient s) = 16" "maxcount (resource s) = 255" using assms(3) by (simp_all add: server_ok_def)
  then show ?thesis
    using list_ok_length [of "sendlist s"] list_ok_length [of "obsserver s"] list_ok_length [of "obsclient s"]
      list_ok_length [of "resource s"]
    by (auto simp: coap_ok_def every_def observer_ok_def node_ok_def node_timing_def list_ok_def)
qed

theorem server_lists_stay_bounded_witness:
  "\<exists>s. g_context (CoAPServer_init True [True, True, True, True] \<lparr>g_context = None, token_value = 1\<rparr>) = Some s \<and>
     length (entries (resource s)) \<le> 255 \<and> message_id s \<noteq> 0"
proof -
  let ?g = "\<lparr>g_context = None, token_value = 1\<rparr>"
  obtain s where s: "g_context (CoAPServer_init True [True, True, True, True] ?g) = Some s"
    by (simp add: CoAPServer_init_def CoAPContext_create_def Let_def)
  have "server_step\<^sup>*\<^sup>* ?g (CoAPServer_init True [True, True, True, True] ?g)"
    by (rule r_into_rtranclp [of server_step, OF step_init])
  from server_lists_stay_bounded [OF this _ s] show ?thesis using s by simp
qed

subsection \<open>The longest path\<close>

definition get_request :: "u16 \<Rightarrow> bytes \<Rightarrow> CoAPMessage" where
  "get_request i p = snd (CoAPStrOption_add True COAP_OPTION_URI_PATH p (snd (CoAPMessageCode_set COAP_MSG_CODE_GET
     (snd (CoAPMessageId_set i (snd (CoAPMessageType_set COAP_MESSAGE_TYPE_CON CoAPMessage_init)))))))"

lemma get_request_fields:
  "get_request i p = CoAPMessage_init\<lparr>msg_type := 0, msgid := i, msg_code := 1, options := path_options 0 [p], optdelta := 11\<rparr>"
  by (simp add: get_request_def CoAPStrOption_add_def CoAPMessageCode_set_def CoAPMessageId_set_def CoAPMessageType_set_def
      CoAPMessage_init_def path_option_def)

text \<open>C34. A request with a path of one part of 127 bytes overruns the server: the part passes the check of the
  room left in the 128 bytes of the path, which forgets the slash before it, so that the text has no NUL and
  looking the resource up reads past the buffer.\<close>

theorem longest_path_overruns:
  assumes "length p = 127" "0 \<notin> set p"
    and "CoAPSerialize_Message (get_request i p) buf (length buf) = Some (int (length buf), d)"
    and "length buf = CoAPSerialize_MessageLength (get_request i p)"
  shows "CoAPMessage_handle e remote (d @ 0 # rest) (int (length buf)) s = None"
proof -
  let ?m = "get_request i p"
  note f = get_request_fields [of i p]
  have "length (options_bytes (path_options 0 [p])) \<le> length (path_of [p]) + 4" using path_options_bound [of 0 "[p]"] by simp
  then have ok: "msg_ok ?m"
    using assms(1) path_options_ok [of 0 "[p]"]
    by (simp add: f msg_ok_def CoAPMessage_init_def message_bytes_def header_bytes_def payload_bytes_def)
  obtain m where m: "CoAPDeserialize_Message zero_message (d @ 0 # rest) (int (length buf)) = Some (COAP_SUCCESS, m)"
      "msg_type m = msg_type ?m" "msg_code m = msg_code ?m" "list_all2 same_option (options ?m) (options m)"
      "map opt_num (options m) = running_sums 0 (map opt_num (options ?m))"
    using message_read_back [OF ok assms(4), of zero_message 0 rest] assms(3) by (auto simp: zero_message_def CoAPMessage_init_def)
  have "CoAPMessage_dump m = Some ()" using same_options_ok [OF m(4)] ok by (intro dump_ok) (simp add: msg_ok_def)
  moreover obtain r where r: "options m = [r]" "same_option (path_option 11 p) r" "opt_num r = 11"
    using m(4,5) by (auto simp: f list_all2_Cons1 path_option_def)
  have l: "unat (opt_len r) = 127" "take 127 (opt_val r) = p"
    using r(2) assms(1) by (simp_all add: same_option_def path_option_def)
  have "strncpy_bytes (unat (opt_len r)) (opt_val r) = Some p" unfolding l(1) by (rule strncpy_same [OF l(2) assms(1,2)])
  then have "request_path [] (options m) = Some (0x2F # p)" using r(3) l(1) by (simp add: r(1))
  moreover have "\<forall>x\<in>set (0x2F # p). x \<noteq> 0" using assms(2) by auto
  then have "takeWhile (\<lambda>x. x \<noteq> 0) (0x2F # p) = 0x2F # p" by (simp only: takeWhile_eq_all_conv)
  then have "path_text (0x2F # p) = None" by (simp only: path_text_def Let_def list.size assms(1)) simp
  ultimately show ?thesis using m(2,3)
    by (simp add: CoAPMessage_handle_def m(1) CoAPRequestMessage_handle_def f CoAPMessage_init_def COAPAckMsg_def CoAPResetMsg_def
        CoAPRespMsg_def CoAPPingMsg_def CoAPReqMsg_def word_le_nat_alt)
qed

theorem longest_path_overruns_witness:
  "\<exists>d. length d = 133 \<and> CoAPMessage_handle quiet_env a_peer (d @ [0]) 133 fresh_context = None"
proof -
  let ?p = "replicate 127 (0x61 :: u8)"
  let ?m = "get_request 1 ?p"
  have p: "length (options_bytes (path_options 0 [?p])) = 129"
    by (simp add: options_bytes_def path_option_def option_bytes_def option_ext_def)
  then have ok: "msg_ok ?m"
    using path_options_ok [of 0 "[?p]"]
    by (simp add: get_request_fields msg_ok_def CoAPMessage_init_def message_bytes_def header_bytes_def payload_bytes_def)
  have l: "CoAPSerialize_MessageLength ?m = 133" "length (message_bytes ?m) = 133"
    using p message_length [OF ok]
    by (simp_all add: get_request_fields CoAPMessage_init_def message_bytes_def header_bytes_def payload_bytes_def)
  show ?thesis
    using longest_path_overruns [of ?p 1 "replicate 133 0" "message_bytes ?m" quiet_env a_peer "[]" fresh_context]
      message_written [OF ok, of "replicate 133 0"] l by auto
qed

subsection \<open>Two wildcards of one length\<close>

lemma find_wildcard:
  "find_registered PATH_FILTER c f path ns = (None, path') \<and> length path' = length path \<and>
   (path' = path \<and> (\<forall>n\<in>set ns. path_type n = PATH_FILTER \<longrightarrow> length (filter_path n) \<noteq> length path) \<or>
    (\<exists>n\<in>set ns. path_type n = PATH_FILTER \<and> filter_path n = path'))"
  if "path' = snd (find_registered PATH_FILTER c f path ns)" for path'
  using that
proof (induction ns arbitrary: path path')
  case (Cons n ns)
  show ?case
  proof (cases "path_type n = PATH_FILTER \<and> length path = length (filter_path n)")
    case True
    then show ?thesis using Cons.IH [OF refl, of "filter_path n"] Cons.prems by (auto simp: Let_def split: prod.splits)
  next
    case False
    then show ?thesis using Cons.IH [OF refl, of path] Cons.prems by (auto simp: Let_def split: prod.splits)
  qed
qed simp

text \<open>Registering a path with a wildcard when one of the same length is registered succeeds but adds a second
  entry for a path already there, in place of the caller's path: the comparison is a copy over the path.\<close>

theorem second_wildcard_registers_first:
  assumes "\<forall>n. env_mem e n" "\<not> list_full (resource s)" "has_wildcard path" "length path < 128"
    and "n \<in> set (entries (resource s))" "path_type n = PATH_FILTER" "length (filter_path n) = length path"
  shows "\<exists>s' node. CoAPResource_register e path perm ctype age cb s = (COAP_SUCCESS, s') \<and>
     entries (resource s') = entries (resource s) @ [node] \<and> path_type node = PATH_FILTER \<and>
     filter_path node \<in> {filter_path n |n. n \<in> set (entries (resource s)) \<and> path_type n = PATH_FILTER}"
proof -
  define path' where "path' = snd (find_registered PATH_FILTER (CoAPPathMD5_sum path)
    (\<lambda>node. node\<lparr>res_callback := cb, res_ctype := ctype, maxage := age, permission := perm\<rparr>) path (entries (resource s)))"
  have f: "find_registered PATH_FILTER (CoAPPathMD5_sum path)
      (\<lambda>node. node\<lparr>res_callback := cb, res_ctype := ctype, maxage := age, permission := perm\<rparr>) path (entries (resource s)) = (None, path')"
    "length path' = length path" "\<exists>n\<in>set (entries (resource s)). path_type n = PATH_FILTER \<and> filter_path n = path'"
    using find_wildcard [OF path'_def] assms(5-7) by blast+
  then show ?thesis
    using assms(1-4) by (auto simp: CoAPResource_register_def f(1) CoAPResource_create_def ask_def list_add_tail_def)
qed

theorem second_wildcard_registers_first_witness:
  "\<exists>s' node. CoAPResource_register quiet_env [0x2F, 0x62, 0x2F, 0x23] 2 50 60 8
       (snd (CoAPResource_register quiet_env [0x2F, 0x61, 0x2F, 0x23] 2 50 60 7 fresh_context)) = (COAP_SUCCESS, s') \<and>
     entries (resource s') = entries (resource (snd (CoAPResource_register quiet_env [0x2F, 0x61, 0x2F, 0x23] 2 50 60 7 fresh_context))) @ [node] \<and>
     filter_path node = [0x2F, 0x61, 0x2F, 0x23]"
proof -
  have w: "has_wildcard [0x2F, c, 0x2F, 0x23]" for c
    unfolding has_wildcard_def by (rule exI [of _ 2]) simp
  define s where "s = snd (CoAPResource_register quiet_env [0x2F, 0x61, 0x2F, 0x23] 2 50 60 7 fresh_context)"
  have s: "\<exists>n. entries (resource s) = [n] \<and> path_type n = PATH_FILTER \<and> filter_path n = [0x2F, 0x61, 0x2F, 0x23]"
    "\<not> list_full (resource s)"
    by (simp_all add: s_def CoAPResource_register_def w CoAPResource_create_def ask_def quiet_env_def
        fresh_context_def empty_list_def list_full_def list_add_tail_def Let_def word_le_nat_alt)
  then obtain n where n: "entries (resource s) = [n]" "path_type n = PATH_FILTER" "filter_path n = [0x2F, 0x61, 0x2F, 0x23]" by blast
  have m: "n \<in> set (entries (resource s))" "length (filter_path n) = length [0x2F, 0x62, 0x2F, 0x23 :: u8]" using n by simp_all
  have e: "\<forall>k. env_mem quiet_env k" "length [0x2F, 0x62, 0x2F, 0x23 :: u8] < 128" by (simp_all add: quiet_env_def)
  obtain s' node where r: "CoAPResource_register quiet_env [0x2F, 0x62, 0x2F, 0x23] 2 50 60 8 s = (COAP_SUCCESS, s')"
      "entries (resource s') = entries (resource s) @ [node]"
      "filter_path node \<in> {filter_path n |n. n \<in> set (entries (resource s)) \<and> path_type n = PATH_FILTER}"
    using second_wildcard_registers_first [OF e(1) s(2) w e(2) m(1) n(2) m(2), of 2 50 60 8] by blast
  then have "filter_path node = [0x2F, 0x61, 0x2F, 0x23]" using n by auto
  with r(1,2) show ?thesis unfolding s_def [symmetric] by blast
qed

end
