(* ===== verification/HashProps.thy ===== *)
theory HashProps
  imports Hashes
begin

text \<open>
  The hash functions against their standards: every way of feeding a message in pieces gives the
  digest of the padded message, and the compression loop of SHA-256, which computes the schedule
  on the way and rotates an array, is the one of the standard.
\<close>

subsection \<open>The compression function of the standard\<close>

text \<open>FIPS 180-4: the message schedule, and one round on the eight working variables.\<close>

definition Ch :: "u32 \<Rightarrow> u32 \<Rightarrow> u32 \<Rightarrow> u32" where "Ch x y z = (x AND y) XOR (NOT x AND z)"
definition Maj :: "u32 \<Rightarrow> u32 \<Rightarrow> u32 \<Rightarrow> u32" where "Maj x y z = ((x AND y) XOR (x AND z)) XOR (y AND z)"
definition Sigma0 :: "u32 \<Rightarrow> u32" where
  "Sigma0 x = (word_rotr 2 x XOR word_rotr 13 x) XOR word_rotr 22 x"
definition Sigma1 :: "u32 \<Rightarrow> u32" where
  "Sigma1 x = (word_rotr 6 x XOR word_rotr 11 x) XOR word_rotr 25 x"
definition sigma0 :: "u32 \<Rightarrow> u32" where
  "sigma0 x = (word_rotr 7 x XOR word_rotr 18 x) XOR drop_bit 3 x"
definition sigma1 :: "u32 \<Rightarrow> u32" where
  "sigma1 x = (word_rotr 17 x XOR word_rotr 19 x) XOR drop_bit 10 x"

fun schedule :: "bytes \<Rightarrow> nat \<Rightarrow> u32" where
  "schedule M t =
     (if t < 16 then GET_UINT32_BE M (4 * t)
      else sigma1 (schedule M (t - 2)) + schedule M (t - 7) + sigma0 (schedule M (t - 15)) + schedule M (t - 16))"

declare schedule.simps [simp del]

fun fips_round :: "bytes \<Rightarrow> nat \<Rightarrow> regs8 \<Rightarrow> regs8" where
  "fips_round M t (a, b, c, d, e, f, g, h) =
     (let T1 = h + Sigma1 e + Ch e f g + K_tab ! t + schedule M t;
          T2 = Sigma0 a + Maj a b c
      in (T1 + T2, a, b, c, d + T1, e, f, g))"

definition fips_compress :: "u32 list \<Rightarrow> bytes \<Rightarrow> u32 list" where
  "fips_compress H M =
     (let (a, b, c, d, e, f, g, h) =
            fold (fips_round M) [0..<64] (H ! 0, H ! 1, H ! 2, H ! 3, H ! 4, H ! 5, H ! 6, H ! 7)
      in [a + H ! 0, b + H ! 1, c + H ! 2, d + H ! 3, e + H ! 4, f + H ! 5, g + H ! 6, h + H ! 7])"

subsection \<open>The code's macros\<close>

lemma rotr_bit: "bit (word_rotr n (x :: u32)) k \<longleftrightarrow> k < 32 \<and> bit x ((k + n) mod 32)"
  by (simp add: bit_word_rotr_iff)

lemma SHR_drop: "SHR x n = drop_bit n x"
proof -
  have "x AND 0xFFFFFFFF = x" using and.right_neutral [of x] by (simp add: minus_1_eq_mask mask_eq_decr_exp flip: take_bit_eq_mask)
  then show ?thesis by (simp add: SHR_def)
qed

lemma ROTR_rotr: "0 < n \<Longrightarrow> n < 32 \<Longrightarrow> ROTR x n = word_rotr n x"
proof (rule bit_word_eqI)
  fix k assume n: "0 < n" "n < 32" and k: "k < LENGTH(32)"
  show "bit (ROTR x n) k = bit (word_rotr n x) k"
  proof (cases "k + n < 32")
    case True
    then show ?thesis using n k by (auto simp: ROTR_def SHR_drop rotr_bit bit_simps ac_simps)
  next
    case False
    then have "(k + n) mod 32 = k - (32 - n)" using n k by (simp add: le_mod_geq)
    moreover have "\<not> bit x (n + k)" using False by (auto dest: bit_imp_le_length)
    ultimately show ?thesis using n k False by (auto simp: ROTR_def SHR_drop rotr_bit bit_simps ac_simps)
  qed
qed

lemma sha256_macros:
  "S0 x = sigma0 x" "S1 x = sigma1 x" "S2 x = Sigma0 x" "S3 x = Sigma1 x"
  by (simp_all add: S0_def S1_def S2_def S3_def sigma0_def sigma1_def Sigma0_def Sigma1_def ROTR_rotr SHR_drop)

lemma F0_Maj: "F0 x y z = Maj x y z"
  by (rule bit_word_eqI) (auto simp: F0_def Maj_def bit_simps)

lemma F1_Ch: "F1 x y z = Ch x y z"
  by (rule bit_word_eqI) (auto simp: F1_def Ch_def bit_simps)

lemma sha256_loop:
  "fold (sha256_step M) [0..<n] ([], r) = (map (schedule M) [0..<n], fold (fips_round M) [0..<n] r)"
proof (induction n)
  case (Suc n)
  obtain a b c d e f g h where r: "fold (fips_round M) [0..<n] r = (a, b, c, d, e, f, g, h)"
    by (metis surj_pair)
  have "(if n < 16 then GET_UINT32_BE M (4 * n)
      else S1 (map (schedule M) [0..<n] ! (n - 2)) + map (schedule M) [0..<n] ! (n - 7) +
           S0 (map (schedule M) [0..<n] ! (n - 15)) + map (schedule M) [0..<n] ! (n - 16)) = schedule M n"
    by (subst schedule.simps) (simp add: sha256_macros)
  then show ?case using Suc.IH by (simp add: r sha256_macros F0_Maj F1_Ch Let_def)
qed simp

lemma sha256_compress: "utils_sha256_process H M = fips_compress H M"
proof -
  have "fold (sha256_step M) [0..<64] ([], r) = (map (schedule M) [0..<64], fold (fips_round M) [0..<64] r)" for r
    by (rule sha256_loop)
  then show ?thesis
    unfolding utils_sha256_process_def fips_compress_def
    by (simp only: prod.case Let_def split: prod.splits) (simp add: ac_simps)
qed

subsection \<open>The digests\<close>

definition md5_iv :: "u32 list" where "md5_iv = [0x67452301, 0xEFCDAB89, 0x98BADCFE, 0x10325476]"
definition sha1_iv :: "u32 list" where
  "sha1_iv = [0x67452301, 0xEFCDAB89, 0x98BADCFE, 0x10325476, 0xC3D2E1F0]"
definition sha256_iv :: "u32 list" where
  "sha256_iv = [0x6A09E667, 0xBB67AE85, 0x3C6EF372, 0xA54FF53A, 0x510E527F, 0x9B05688C, 0x1F83D9AB, 0x5BE0CD19]"

definition md5_digest :: "bytes \<Rightarrow> bytes" where
  "md5_digest m = concat (map IOT_MD5_PUT_UINT32_LE (hash_spec utils_md5_process md5_msglen md5_iv m))"

definition sha1_digest :: "bytes \<Rightarrow> bytes" where
  "sha1_digest m = concat (map PUT_UINT32_BE (hash_spec utils_sha1_process be_msglen sha1_iv m))"

definition sha256_digest :: "bytes \<Rightarrow> bytes" where
  "sha256_digest m = concat (map PUT_UINT32_BE (hash_spec fips_compress be_msglen sha256_iv m))"

lemma hash_blocks_length:
  "(\<And>st b. length (P st b) = n) \<Longrightarrow> length st = n \<Longrightarrow> length (fst (hash_blocks P st m)) = n"
proof (induction P st m rule: hash_blocks.induct)
  case (1 P st m)
  then show ?case by (cases "64 \<le> length m") (simp_all add: hash_blocks_step [of m] hash_blocks_short)
qed

lemma process_length [simp]:
  "length (utils_md5_process st b) = 4" "length (utils_sha1_process st b) = 5" "length (utils_sha256_process st b) = 8"
  by (simp_all add: utils_md5_process_def utils_sha1_process_def utils_sha256_process_def Let_def split: prod.splits)

lemma nths4: "length xs = 4 \<Longrightarrow> [xs ! 0, xs ! 1, xs ! 2, xs ! 3] = xs"
  by (auto simp: numeral_eq_Suc length_Suc_conv)

lemma nths5: "length xs = 5 \<Longrightarrow> [xs ! 0, xs ! 1, xs ! 2, xs ! 3, xs ! 4] = xs"
  by (auto simp: numeral_eq_Suc length_Suc_conv)

lemma nths8: "length xs = 8 \<Longrightarrow> [xs ! 0, xs ! 1, xs ! 2, xs ! 3, xs ! 4, xs ! 5, xs ! 6] @ [xs ! 7] = xs"
  by (auto simp: numeral_eq_Suc length_Suc_conv)

lemma msglen_length [simp]: "length (md5_msglen h l) = 8" "length (be_msglen h l) = 8"
  by (simp_all add: md5_msglen_def be_msglen_def)

lemma starts_repr:
  "hash_repr P md5_iv [] (utils_md5_starts utils_md5_init)"
  "hash_repr P sha1_iv [] (utils_sha1_starts utils_sha1_init)"
  "hash_repr P sha256_iv [] (utils_sha256_starts utils_sha256_init)"
  by (simp_all add: hash_repr_def hash_blocks_short utils_md5_starts_def utils_md5_init_def utils_sha1_starts_def
      utils_sha1_init_def utils_sha256_starts_def utils_sha256_init_def md5_iv_def sha1_iv_def sha256_iv_def)

lemma fold_update_repr:
  assumes "hash_repr P iv [] ctx" "list_all (\<lambda>x. length x < 2 ^ 32) xs" "\<And>h l. length (msglen h l) = 8"
  shows "hstate (hash_finish P msglen (fold (hash_update P) xs ctx)) = hash_spec P msglen iv (concat xs)"
  using hash_finish_padded [OF hash_updates_repr [OF assms(1,2)], of msglen] assms(3) by (simp add: hash_spec_def)

lemma concat_put_length:
  "length (concat (map PUT_UINT32_BE ws)) = 4 * length ws"
  "length (concat (map IOT_MD5_PUT_UINT32_LE ws)) = 4 * length ws"
  by (induction ws) simp_all

lemma fips_process: "fips_compress = utils_sha256_process"
  by (intro ext) (simp add: sha256_compress)

lemma spec_length:
  "length (hash_spec utils_md5_process msglen md5_iv m) = 4"
  "length (hash_spec utils_sha1_process msglen sha1_iv m) = 5"
  "length (hash_spec fips_compress msglen sha256_iv m) = 8"
  by (simp_all add: hash_spec_def hash_blocks_length md5_iv_def sha1_iv_def sha256_iv_def fips_process)

lemma md5_pieces:
  "list_all (\<lambda>x. length x < 2 ^ 32) xs \<Longrightarrow>
   utils_md5_finish (fold utils_md5_update xs (utils_md5_starts utils_md5_init)) = md5_digest (concat xs)"
  using nths4 [OF spec_length(1)] fold_update_repr [OF starts_repr(1), of xs md5_msglen utils_md5_process]
  by (simp add: utils_md5_finish_def utils_md5_update_def md5_digest_def Let_def del: list.map concat.simps)

lemma sha1_pieces:
  "list_all (\<lambda>x. length x < 2 ^ 32) xs \<Longrightarrow>
   utils_sha1_finish (fold utils_sha1_update xs (utils_sha1_starts utils_sha1_init)) = sha1_digest (concat xs)"
  using nths5 [OF spec_length(2)] fold_update_repr [OF starts_repr(2), of xs be_msglen utils_sha1_process]
  by (simp add: utils_sha1_finish_def utils_sha1_update_def sha1_digest_def Let_def del: list.map concat.simps)

lemma is224_update [simp]: "is224 (hash_update P x c) = is224 c"
  by (simp add: hash_update_def Let_def split: prod.splits)

lemma is224_updates: "is224 (fold (hash_update P) xs c) = is224 c"
  by (induction xs arbitrary: c) simp_all

lemma is224_finish [simp]: "is224 (hash_finish P l c) = is224 c"
  by (simp add: hash_finish_def Let_def)

lemma is224_starts: "is224 (utils_sha256_starts c) = 0"
  by (simp add: utils_sha256_starts_def)

lemma sha256_pieces:
  assumes "list_all (\<lambda>x. length x < 2 ^ 32) xs"
  shows "utils_sha256_finish (fold utils_sha256_update xs (utils_sha256_starts utils_sha256_init)) = sha256_digest (concat xs)"
proof -
  let ?st = "hash_spec fips_compress be_msglen sha256_iv (concat xs)"
  have "utils_sha256_finish (fold utils_sha256_update xs (utils_sha256_starts utils_sha256_init)) =
      concat (map PUT_UINT32_BE ([?st ! 0, ?st ! 1, ?st ! 2, ?st ! 3, ?st ! 4, ?st ! 5, ?st ! 6] @ [?st ! 7]))"
    using fold_update_repr [OF starts_repr(3) assms, of be_msglen utils_sha256_process]
    by (simp add: utils_sha256_finish_def utils_sha256_update_def Let_def is224_updates is224_starts fips_process)
  also have "\<dots> = sha256_digest (concat xs)" unfolding nths8 [OF spec_length(3)] by (simp add: sha256_digest_def)
  finally show ?thesis .
qed

interpretation md5: incremental_hash "utils_md5_starts utils_md5_init" utils_md5_update utils_md5_finish md5_digest 16
  by unfold_locales (simp_all add: md5_pieces, simp add: md5_digest_def concat_put_length spec_length)

interpretation sha1: incremental_hash "utils_sha1_starts utils_sha1_init" utils_sha1_update utils_sha1_finish sha1_digest 20
  by unfold_locales (simp_all add: sha1_pieces, simp add: sha1_digest_def concat_put_length spec_length)

interpretation sha256: incremental_hash "utils_sha256_starts utils_sha256_init" utils_sha256_update utils_sha256_finish
    sha256_digest 32
  by unfold_locales (simp_all add: sha256_pieces, simp add: sha256_digest_def concat_put_length spec_length)

subsection \<open>The properties\<close>



text \<open>C36. MD5 and SHA-1 do not depend on how a message is cut: every sequence of updates gives the
  digest of the padded message, of 16 and 20 bytes.\<close>

theorem md5_sha1_incremental:
  assumes "list_all (\<lambda>x. length x < 2 ^ 32) xs"
  shows "utils_md5_finish (fold utils_md5_update xs (utils_md5_starts utils_md5_init)) =
       concat (map IOT_MD5_PUT_UINT32_LE (hash_spec utils_md5_process md5_msglen md5_iv (concat xs))) \<and>
     utils_sha1_finish (fold utils_sha1_update xs (utils_sha1_starts utils_sha1_init)) =
       concat (map PUT_UINT32_BE (hash_spec utils_sha1_process be_msglen sha1_iv (concat xs))) \<and>
     length (utils_md5_finish (fold utils_md5_update xs (utils_md5_starts utils_md5_init))) = 16 \<and>
     length (utils_sha1_finish (fold utils_sha1_update xs (utils_sha1_starts utils_sha1_init))) = 20"
  using md5_pieces [OF assms] sha1_pieces [OF assms] md5.digest_length sha1.digest_length
  by (simp add: md5_digest_def sha1_digest_def)

theorem md5_sha1_incremental_witness:
  "length (utils_md5_finish (utils_md5_update [2] (utils_md5_update (replicate 70 1) (utils_md5_starts utils_md5_init)))) = 16"
proof -
  have "list_all (\<lambda>x. length x < 2 ^ 32) [replicate 70 1, [2 :: u8]]" by simp
  from md5_sha1_incremental [OF this] show ?thesis by (elim conjE) simp
qed

text \<open>The HMACs are the nested digests of the standard for keys of at most a block, the two
  textual ones in hexadecimal digits; for a longer key, which the standard hashes first, the call
  returns without a result and leaves the output as it was.\<close>

theorem hmac_nested_digest:
  assumes "length msg < 2 ^ 32"
  shows "utils_hmac_sha256 msg key out =
       (if length key \<le> 64
        then sha256_digest (key_pad 0x5c key @ sha256_digest (key_pad 0x36 key @ msg)) else out) \<and>
     utils_hmac_sha1 msg out key =
       (if length key \<le> 64
        then hex_digest (sha1_digest (key_pad 0x5c key @ sha1_digest (key_pad 0x36 key @ msg))) @ drop 40 out else out) \<and>
     utils_hmac_md5 msg out key =
       (if length key \<le> 64
        then hex_digest (md5_digest (key_pad 0x5c key @ md5_digest (key_pad 0x36 key @ msg))) @ drop 32 out else out)"
  using sha256.hmac [OF _ assms, of key "0x36" "0x5c"] sha1.hmac [OF _ assms, of key "0x36" "0x5c"]
    md5.hmac [OF _ assms, of key "0x36" "0x5c"]
  by (simp_all add: utils_hmac_sha256_def utils_hmac_sha1_def hmac_sha1_out_def utils_hmac_md5_def Let_def)

theorem hmac_nested_digest_witness:
  "utils_hmac_sha256 [1, 2] (replicate 65 0) (replicate 32 7) = replicate 32 7"
  using hmac_nested_digest [of "[1, 2]" "replicate 65 0" "replicate 32 7"] by simp

end
