(* ===== verification/DevSign.thy ===== *)
theory DevSign
  imports HashProps
begin

text \<open>
  Signing in to the cloud (linkkit/dev_sign/dev_sign_mqtt.c): from the identity of the device the
  client id, user name, host name and password of the MQTT connection. Text is a \<open>string\<close> without
  its terminating zero. The buffers are cleared before they are filled, so copying to
  \<open>strlen\<close> of a buffer appends; text that does not fit is \<open>None\<close>.
\<close>

record iotx_dev_meta_info =
  product_key :: string
  device_name :: string
  device_secret :: string

record iotx_sign_mqtt =
  hostname :: string
  port :: u16
  clientid :: string
  username :: string
  password :: string

definition text_bytes :: "string \<Rightarrow> bytes" where
  "text_bytes s = map of_char s"

definition SUCCESS_RET :: int where "SUCCESS_RET = 0"
definition FAIL_RET :: int where "FAIL_RET = -1"

definition g_infra_mqtt_domain :: "string list" where
  "g_infra_mqtt_domain =
     [''iot-as-mqtt.cn-shanghai.aliyuncs.com'', ''iot-as-mqtt.ap-southeast-1.aliyuncs.com'',
      ''iot-as-mqtt.ap-northeast-1.aliyuncs.com'', ''iot-as-mqtt.us-west-1.aliyuncs.com'',
      ''iot-as-mqtt.eu-central-1.aliyuncs.com'']"

definition TIMESTAMP_VALUE :: string where "TIMESTAMP_VALUE = ''2524608000000''"

text \<open>Compiled with \<open>SUPPORT_TLS\<close>, without \<open>MQTT_PRE_AUTH\<close>, and with \<open>DEVICE_MODEL_CLASSIC\<close>.\<close>

definition clientid_kv :: "(string \<times> string) list" where
  "clientid_kv =
     [(''timestamp'', TIMESTAMP_VALUE), (''_v'', ''sdk-c-3.0.1''), (''securemode'', ''2''),
      (''signmethod'', ''hmacsha256''), (''lan'', ''C''), (''gw'', ''0''), (''ext'', ''0'')]"

definition hex_char :: "u8 \<Rightarrow> char" where
  "hex_char n = ''0123456789ABCDEF'' ! unat n"

definition hex2str :: "bytes \<Rightarrow> string" where
  "hex2str input = concat (map (\<lambda>b. [hex_char (drop_bit 4 b AND 0xf), hex_char (b AND 0xf)]) input)"

text \<open>The loop over the pairs, given the text so far.\<close>

fun clientid_loop :: "(string \<times> string) list \<Rightarrow> string \<Rightarrow> int \<times> string" where
  "clientid_loop [] s = (SUCCESS_RET, butlast s @ ''|'')"
| "clientid_loop ((k, v) # kvs) s =
     (if 200 \<le> length s + length k + length v + 2 then (FAIL_RET, s)
      else clientid_loop kvs (s @ k @ ''='' @ v @ '',''))"

definition sign_get_clientid :: "string \<Rightarrow> (int \<times> string) option" where
  "sign_get_clientid device_id =
     (if 200 \<le> length device_id + 1 then None
      else Some (clientid_loop clientid_kv (device_id @ ''|'')))"

definition sign_source :: "string \<Rightarrow> string \<Rightarrow> string \<Rightarrow> string" where
  "sign_source device_id dname pkey =
     ''clientId'' @ device_id @ ''deviceName'' @ dname @ ''productKey'' @ pkey
     @ ''timestamp'' @ TIMESTAMP_VALUE"

text \<open>The digest starts as zeros; the format string counts with its zero byte.\<close>

definition iotx_generate_sign_string ::
    "string \<Rightarrow> string \<Rightarrow> string \<Rightarrow> string \<Rightarrow> int \<times> string" where
  "iotx_generate_sign_string device_id dname pkey dsecret =
     (if 200 \<le> (46 + length device_id + length dname + length pkey + length TIMESTAMP_VALUE) mod 65536
      then (-1104, [])
      else (SUCCESS_RET,
            hex2str (utils_hmac_sha256 (text_bytes (sign_source device_id dname pkey))
                       (text_bytes dsecret) (replicate 32 0))))"

definition sign_zero :: iotx_sign_mqtt where
  "sign_zero = \<lparr>hostname = [], port = 0, clientid = [], username = [], password = []\<rparr>"

text \<open>\<open>custom\<close> is the domain set for \<open>IOTX_CLOUD_REGION_CUSTOM\<close>.\<close>

definition sign_hostname :: "nat \<Rightarrow> string option \<Rightarrow> string \<Rightarrow> int \<times> string" where
  "sign_hostname region custom pkey =
     (if region = 5 then
        (case custom of None \<Rightarrow> (-1105, [])
         | Some d \<Rightarrow> if 64 \<le> (length d + 1) mod 65536 then (-1100, []) else (SUCCESS_RET, d))
      else if 64 \<le> length pkey + length (g_infra_mqtt_domain ! region) + 2 then (-1100, [])
      else (SUCCESS_RET, pkey @ ''.'' @ g_infra_mqtt_domain ! region))"

text \<open>The device id has room for 53 bytes, its zero byte included.\<close>

definition IOT_Sign_MQTT ::
    "nat \<Rightarrow> string option \<Rightarrow> iotx_dev_meta_info \<Rightarrow> iotx_sign_mqtt \<Rightarrow> (int \<times> iotx_sign_mqtt) option" where
  "IOT_Sign_MQTT region custom meta signout =
     (if 6 \<le> region then Some (-1, signout)
      else
        let device_id = product_key meta @ ''.'' @ device_name meta in
        if 53 \<le> length device_id then None
        else do {
          (res, cid) \<leftarrow> sign_get_clientid device_id;
          let s = sign_zero\<lparr>clientid := cid\<rparr> in
          if res \<noteq> SUCCESS_RET then Some (-1101, s)
          else
            let (res, pw) = iotx_generate_sign_string device_id (device_name meta) (product_key meta) (device_secret meta);
                s = s\<lparr>password := pw\<rparr> in
            if res < SUCCESS_RET then Some (res, s)
            else
              let (res, host) = sign_hostname region custom (product_key meta);
                  s = s\<lparr>hostname := host\<rparr> in
              if res \<noteq> SUCCESS_RET then Some (res, s)
              else if 64 \<le> length (device_name meta) + length (product_key meta) + 2 then Some (-1102, s)
              else Some (SUCCESS_RET, s\<lparr>username := device_name meta @ ''&'' @ product_key meta, port := 443\<rparr>) })"

subsection \<open>The result for a device\<close>

definition meta_ok :: "iotx_dev_meta_info \<Rightarrow> bool" where
  "meta_ok m \<longleftrightarrow> length (product_key m) \<le> 20 \<and> length (device_name m) \<le> 32 \<and> length (device_secret m) \<le> 64"

definition device_id_of :: "iotx_dev_meta_info \<Rightarrow> string" where
  "device_id_of m = product_key m @ ''.'' @ device_name m"

definition expected_password :: "iotx_dev_meta_info \<Rightarrow> string" where
  "expected_password m =
     (let key = text_bytes (device_secret m);
          msg = text_bytes (sign_source (device_id_of m) (device_name m) (product_key m))
      in hex2str (sha256_digest (key_pad 0x5c key @ sha256_digest (key_pad 0x36 key @ msg))))"

lemma clientid_text:
  "length d \<le> 52 \<Longrightarrow> sign_get_clientid d = Some (SUCCESS_RET,
     d @ ''|timestamp=2524608000000,_v=sdk-c-3.0.1,securemode=2,signmethod=hmacsha256,lan=C,gw=0,ext=0|'')"
  by (simp add: sign_get_clientid_def clientid_kv_def TIMESTAMP_VALUE_def butlast_append)

lemma length_text_bytes [simp]: "length (text_bytes s) = length s"
  by (simp add: text_bytes_def)

lemma domain_length: "r < 5 \<Longrightarrow> length (g_infra_mqtt_domain ! r) \<le> 39"
  by (auto simp: g_infra_mqtt_domain_def less_Suc_eq eval_nat_numeral)

lemma hex2str_length: "length (hex2str bs) = 2 * length bs"
  unfolding hex2str_def by (induction bs) simp_all

lemma password_of:
  assumes "length pk \<le> 20" "length dn \<le> 32" "length did \<le> 52" "length ds \<le> 64"
  shows "iotx_generate_sign_string did dn pk ds = (SUCCESS_RET,
     let key = text_bytes ds; msg = text_bytes (sign_source did dn pk)
     in hex2str (sha256_digest (key_pad 0x5c key @ sha256_digest (key_pad 0x36 key @ msg))))"
proof -
  let ?n = "46 + length did + length dn + length pk + length TIMESTAMP_VALUE"
  have "?n mod 65536 < 200" using assms by (simp add: TIMESTAMP_VALUE_def)
  moreover have "length (text_bytes (sign_source did dn pk)) < 2 ^ 32"
    using assms by (simp add: sign_source_def TIMESTAMP_VALUE_def)
  ultimately show ?thesis
    using sha256.hmac [of "text_bytes ds" "text_bytes (sign_source did dn pk)" "0x36" "0x5c"] assms(4)
    by (simp add: iotx_generate_sign_string_def utils_hmac_sha256_def Let_def not_le)
qed

text \<open>C37. Signing in succeeds for every device whose identity fits its fields and whose product key
  and name together leave a byte for the terminating zero of the device id: host, user, client id
  and port are the documented ones, the password is the HMAC-SHA256 of the sign source in
  hexadecimal digits, and every text fits its buffer with its zero. When the key and the name use
  their fields to the last byte, the device id has no terminating zero and is read past its end.\<close>

theorem sign_in_complete:
  assumes "meta_ok m" "region < 5"
  shows "if length (product_key m) + length (device_name m) < 52
     then \<exists>s. IOT_Sign_MQTT region custom m out = Some (0, s) \<and>
       hostname s = product_key m @ ''.'' @ g_infra_mqtt_domain ! region \<and> length (hostname s) < 64 \<and>
       username s = device_name m @ ''&'' @ product_key m \<and> length (username s) < 64 \<and>
       clientid s = device_id_of m @
         ''|timestamp=2524608000000,_v=sdk-c-3.0.1,securemode=2,signmethod=hmacsha256,lan=C,gw=0,ext=0|'' \<and>
       length (clientid s) < 200 \<and>
       password s = expected_password m \<and> length (password s) < 65 \<and> port s = 443
     else IOT_Sign_MQTT region custom m out = None"
proof (cases "length (product_key m) + length (device_name m) < 52")
  case True
  let ?d = "product_key m @ ''.'' @ device_name m"
  have l: "length (product_key m) \<le> 20" "length (device_name m) \<le> 32" "length (device_secret m) \<le> 64"
    "length ?d \<le> 52" "\<not> 53 \<le> length ?d" "\<not> 6 \<le> region"
    using assms True by (simp_all add: meta_ok_def)
  have host: "sign_hostname region custom (product_key m) = (SUCCESS_RET, product_key m @ ''.'' @ g_infra_mqtt_domain ! region)"
    using l(1) domain_length [OF assms(2)] assms(2) by (simp add: sign_hostname_def)
  have "length (expected_password m) = 64"
    by (simp add: expected_password_def Let_def hex2str_length sha256.digest_length)
  moreover have "length (product_key m @ ''.'' @ g_infra_mqtt_domain ! region) < 64"
    using l(1) domain_length [OF assms(2)] by simp
  moreover have "\<not> 64 \<le> length (device_name m) + length (product_key m) + 2" using l by simp
  ultimately show ?thesis
    using True l
    by (simp add: IOT_Sign_MQTT_def clientid_text password_of host Let_def SUCCESS_RET_def device_id_of_def
        expected_password_def)
next
  case False
  then have "53 \<le> length (product_key m @ ''.'' @ device_name m)" by simp
  then show ?thesis using False assms(2) by (simp add: IOT_Sign_MQTT_def Let_def)
qed

theorem sign_in_complete_witness:
  "\<exists>s. IOT_Sign_MQTT 0 None \<lparr>product_key = ''a1MZxOdcBnO'', device_name = ''test_01'', device_secret = ''t9GmMf2jb3LgWfXBaZD2r3aJrfVWBv56''\<rparr>
        sign_zero = Some (0, s) \<and> hostname s = ''a1MZxOdcBnO.iot-as-mqtt.cn-shanghai.aliyuncs.com''"
  using sign_in_complete [of "\<lparr>product_key = ''a1MZxOdcBnO'', device_name = ''test_01'', device_secret = ''t9GmMf2jb3LgWfXBaZD2r3aJrfVWBv56''\<rparr>" 0 None sign_zero]
  by (auto simp: meta_ok_def g_infra_mqtt_domain_def)

end
