(* ===== verification/LinkkitUtil.thy ===== *)
theory LinkkitUtil
  imports ByteBuf
begin

text \<open>
  Small services of linkkit/infra: hexadecimal and decimal conversions (infra_string.c) and
  software timers on the millisecond clock (infra_timer.c).
\<close>

subsection \<open>Hexadecimal digits\<close>

definition zEncode_lower :: string where "zEncode_lower = ''0123456789abcdef''"
definition zEncode_upper :: string where "zEncode_upper = ''0123456789ABCDEF''"

definition infra_hex2char :: "u8 \<Rightarrow> char" where
  "infra_hex2char hex =
     (let h = hex AND 0xF in char_of (unat (if h < 10 then 0x30 + h else h - 10 + 0x61)))"

definition infra_hex2str :: "bytes \<Rightarrow> string" where
  "infra_hex2str input =
     concat (map (\<lambda>b. [zEncode_upper ! unat (drop_bit 4 b AND 0xf), zEncode_upper ! unat (b AND 0xf)]) input)"

definition LITE_hexbuf_convert :: "bytes \<Rightarrow> bool \<Rightarrow> string" where
  "LITE_hexbuf_convert digest uppercase =
     (let enc = (if uppercase then zEncode_upper else zEncode_lower) in
      concat (map (\<lambda>b. [enc ! unat (drop_bit 4 b AND 0xf), enc ! unat (b AND 0xf)]) digest))"

definition LITE_isdigit :: "char \<Rightarrow> bool" where
  "LITE_isdigit c \<longleftrightarrow> 48 \<le> (of_char c :: nat) \<and> (of_char c :: nat) \<le> 57"

definition hexval_of_char :: "char \<Rightarrow> u8" where
  "hexval_of_char c =
     (let n = of_char c :: nat in
      if LITE_isdigit c then word_of_nat (n - 48)
      else if 97 \<le> n \<and> n \<le> 102 then word_of_nat (n - 97 + 10)
      else if 65 \<le> n \<and> n \<le> 70 then word_of_nat (n - 65 + 10)
      else 0)"

fun hexstr_pairs :: "string \<Rightarrow> bytes" where
  "hexstr_pairs (a # b # cs) = (push_bit 4 (hexval_of_char a) OR hexval_of_char b) # hexstr_pairs cs"
| "hexstr_pairs _ = []"

text \<open>The output buffer keeps what is not written; an odd input writes nothing.\<close>

definition LITE_hexstr_convert :: "string \<Rightarrow> bytes \<Rightarrow> bytes" where
  "LITE_hexstr_convert input output =
     (if length input mod 2 \<noteq> 0 then output
      else let bs = take (length output) (hexstr_pairs input) in bs @ drop (length bs) output)"

subsection \<open>Decimal numbers\<close>

text \<open>The digits collected by the first loop, last digit first; the second loop turns them round.\<close>

fun int2str_digits :: "nat \<Rightarrow> string" where
  "int2str_digits n =
     char_of (n mod 10 + 48) # (if 0 < n div 10 then int2str_digits (n div 10) else [])"

declare int2str_digits.simps [simp del]

definition infra_int2str :: "u32 \<Rightarrow> string" where
  "infra_int2str input = rev (int2str_digits (unat input))"

text \<open>The digits at the start of the text, accumulated in an \<open>int\<close>.\<close>

fun str2int_loop :: "string \<Rightarrow> int \<Rightarrow> int" where
  "str2int_loop [] temp = temp"
| "str2int_loop (c # cs) temp =
     (if LITE_isdigit c then str2int_loop cs (i32 (i32 (temp * 10) + int (of_char c - 48))) else temp)"

definition infra_str2int :: "string \<Rightarrow> int" where
  "infra_str2int input =
     (let s = dropWhile (\<lambda>c. c = CHR '' '') input in
      case s of [] \<Rightarrow> 0
      | c # cs \<Rightarrow>
          if c = CHR ''+'' then str2int_loop cs 0
          else if c = CHR ''-'' then i32 (- str2int_loop cs 0)
          else str2int_loop s 0)"

subsection \<open>Timers\<close>

text \<open>A timer is its end on the 32-bit millisecond clock; \<open>now\<close> is \<open>HAL_UptimeMs\<close>, 64 bits wide.\<close>

type_synonym u64 = "64 word"

definition iotx_time_init :: u32 where "iotx_time_init = 0"

definition iotx_time_start :: "u64 \<Rightarrow> u32" where "iotx_time_start now = ucast now"

definition utils_time_countdown_ms :: "u64 \<Rightarrow> u32 \<Rightarrow> u32" where
  "utils_time_countdown_ms now millisecond = ucast (now + ucast millisecond)"

definition utils_time_spend :: "u64 \<Rightarrow> u32 \<Rightarrow> u32" where
  "utils_time_spend now start = ucast now - start"

definition utils_time_is_expired :: "u64 \<Rightarrow> u32 \<Rightarrow> bool" where
  "utils_time_is_expired now timer \<longleftrightarrow> ucast now - timer < 0x7FFFFFFF"

definition iotx_time_left :: "u64 \<Rightarrow> u32 \<Rightarrow> u32" where
  "iotx_time_left now end = (if utils_time_is_expired now end then 0 else end - ucast now)"

definition utils_time_get_ms :: "u64 \<Rightarrow> u32" where "utils_time_get_ms now = ucast now"

subsection \<open>Hexadecimal round trip\<close>

lemma hex_nibble_less: "unat (b AND 0xf) < 16" for b :: u8
proof -
  have "(0xf :: u8) = mask 4" by (simp add: mask_eq_decr_exp)
  then have "b AND 0xf = take_bit 4 b" by (simp only: take_bit_eq_mask)
  then show ?thesis by (simp add: unsigned_take_bit_eq take_bit_nat_def)
qed

lemma hexval_of_digit:
  "n < 16 \<Longrightarrow> hexval_of_char (zEncode_upper ! n) = word_of_nat n"
  "n < 16 \<Longrightarrow> hexval_of_char (zEncode_lower ! n) = word_of_nat n"
proof -
  assume "n < 16"
  then have "n \<in> set [0..<16]" by simp
  moreover have "\<forall>n \<in> set [0..<16]. hexval_of_char (zEncode_upper ! n) = word_of_nat n"
    "\<forall>n \<in> set [0..<16]. hexval_of_char (zEncode_lower ! n) = word_of_nat n" by code_simp+
  ultimately show "hexval_of_char (zEncode_upper ! n) = word_of_nat n"
    "hexval_of_char (zEncode_lower ! n) = word_of_nat n" by blast+
qed

lemma nibbles_join: "push_bit 4 (drop_bit 4 b AND 0xf) OR (b AND 0xf) = (b :: u8)"
proof -
  have m: "(0xf :: u8) = mask 4" by (simp add: mask_eq_decr_exp)
  show ?thesis unfolding m by (rule bit_word_eqI) (auto simp: bit_simps)
qed

lemma nibbles_join' [simp]: "(push_bit 4 (drop_bit 4 b) AND 240) OR (b AND 15) = (b :: u8)"
  using nibbles_join [of b] by simp

lemma hexbuf_pairs: "hexstr_pairs (LITE_hexbuf_convert bs upper) = bs"
  by (induction bs)
    (simp_all add: LITE_hexbuf_convert_def Let_def hexval_of_digit hex_nibble_less nibbles_join)

lemma hexbuf_length: "length (LITE_hexbuf_convert bs upper) = 2 * length bs"
  unfolding LITE_hexbuf_convert_def Let_def by (induction bs) simp_all

text \<open>Hexadecimal text is read back: the digits of any bytes, in upper or lower case, convert to
  exactly these bytes at the start of the output buffer, as far as it has room, and the rest of
  the buffer stays as it was.\<close>

theorem hex_roundtrip:
  "LITE_hexstr_convert (LITE_hexbuf_convert bs upper) out =
     take (length out) bs @ drop (length bs) out \<and>
   length (LITE_hexbuf_convert bs upper) = 2 * length bs \<and>
   infra_hex2str bs = LITE_hexbuf_convert bs True"
proof -
  have "infra_hex2str bs = LITE_hexbuf_convert bs True"
    by (simp add: infra_hex2str_def LITE_hexbuf_convert_def)
  then show ?thesis
    by (simp add: LITE_hexstr_convert_def hexbuf_length hexbuf_pairs Let_def min_def)
qed

subsection \<open>Decimal round trip\<close>

lemma i32_mod: "i32 a mod 2 ^ 32 = a mod 2 ^ 32"
proof -
  have "take_bit 32 (signed_take_bit 31 a) = take_bit 32 a" by (simp add: take_bit_signed_take_bit)
  then show ?thesis by (simp add: i32_def take_bit_eq_mod)
qed

lemma i32_cong: "a mod 2 ^ 32 = b mod 2 ^ 32 \<Longrightarrow> i32 a = i32 b"
proof -
  assume "a mod 2 ^ 32 = b mod 2 ^ 32"
  then have "take_bit (Suc 31) a = take_bit (Suc 31) b" by (simp add: take_bit_eq_mod)
  then show ?thesis by (simp add: i32_def signed_take_bit_eq_iff_take_bit_eq)
qed

lemma LITE_isdigit_digit: "n < 10 \<Longrightarrow> LITE_isdigit (char_of (n + 48))" "n < 10 \<Longrightarrow> of_char (char_of (n + 48 :: nat)) = (n + 48 :: nat)"
  by (simp_all add: LITE_isdigit_def)

lemma digits_are_digits: "list_all LITE_isdigit (int2str_digits n)"
proof (induction n rule: int2str_digits.induct)
  case (1 n)
  then show ?case by (subst int2str_digits.simps) (simp add: LITE_isdigit_digit)
qed

lemma str2int_append: "list_all LITE_isdigit ds \<Longrightarrow> str2int_loop (ds @ cs) t = str2int_loop cs (str2int_loop ds t)"
  by (induction ds arbitrary: t) simp_all

lemma str2int_stop: "cs = [] \<or> \<not> LITE_isdigit (hd cs) \<Longrightarrow> str2int_loop cs t = t"
  by (cases cs) auto

lemma str2int_digit:
  "n < 10 \<Longrightarrow> str2int_loop [char_of (n + 48)] (i32 t) = i32 (10 * t + int n)"
proof -
  assume n: "n < 10"
  have "(i32 (i32 t * 10) + int n) mod 2 ^ 32 = (10 * t + int n) mod 2 ^ 32"
    using mod_add_cong [OF i32_mod refl, of "i32 t * 10" "int n"]
      mod_add_cong [OF mod_mult_cong [OF i32_mod refl] refl, of t 10 "int n"] by (simp only: mult.commute)
  then have "i32 (i32 (i32 t * 10) + int n) = i32 (10 * t + int n)" by (rule i32_cong)
  then show ?thesis using n by (simp add: LITE_isdigit_digit)
qed

lemma str2int_digits: "str2int_loop (rev (int2str_digits n)) 0 = i32 (int n)"
proof (induction n rule: int2str_digits.induct)
  case (1 n)
  have dg: "list_all LITE_isdigit (rev (int2str_digits (n div 10)))" using digits_are_digits by simp
  show ?case
  proof (cases "0 < n div 10")
    case True
    have e: "int2str_digits n = char_of (n mod 10 + 48) # int2str_digits (n div 10)"
      by (subst int2str_digits.simps) (use True in simp)
    have "str2int_loop (rev (int2str_digits n)) 0 = str2int_loop [char_of (n mod 10 + 48)] (i32 (int (n div 10)))"
      by (simp only: e rev.simps str2int_append [OF dg] 1 [OF True])
    also have "\<dots> = i32 (10 * int (n div 10) + int (n mod 10))" by (rule str2int_digit) simp
    also have "10 * int (n div 10) + int (n mod 10) = int (10 * (n div 10) + n mod 10)"
      by (simp only: of_nat_add of_nat_mult of_nat_numeral)
    also have "10 * (n div 10) + n mod 10 = n" by simp
    finally show ?thesis .
  next
    case False
    then have e: "int2str_digits n = [char_of (n mod 10 + 48)]" by (subst int2str_digits.simps) simp
    have z: "i32 0 = 0" by simp
    have "str2int_loop [char_of (n mod 10 + 48)] 0 = i32 (int n)"
      using str2int_digit [of "n mod 10" 0] False unfolding z by simp
    then show ?thesis by (simp only: e rev.simps append_Nil)
  qed
qed

lemma int2str_length: "0 < k \<Longrightarrow> n < 10 ^ k \<Longrightarrow> length (int2str_digits n) \<le> k"
proof (induction n arbitrary: k rule: int2str_digits.induct)
  case (1 n)
  show ?case
  proof (cases "0 < n div 10")
    case True
    then have "10 \<le> n" by simp
    then have "1 < k" using 1(2,3) by (cases "k = 1") auto
    then obtain j where k: "k = Suc j" "0 < j" by (cases k) auto
    have "n div 10 < 10 ^ j" using 1(3) by (simp add: k less_mult_imp_div_less mult.commute)
    then show ?thesis using 1(1) [OF True k(2)] True by (subst int2str_digits.simps) (simp add: k)
  next
    case False
    then show ?thesis using 1(2) by (subst int2str_digits.simps) simp
  qed
qed

lemma digit_not_sign: "LITE_isdigit c \<Longrightarrow> c \<noteq> CHR '' '' \<and> c \<noteq> CHR ''+'' \<and> c \<noteq> CHR ''-''"
  by (auto simp: LITE_isdigit_def)

text \<open>A number printed and parsed comes back: behind any spaces and an optional sign, and before
  anything that is no digit, the digits of a 32-bit number give this number, wrapped to the range
  of an int and negated for a minus sign; the digits fit the buffer of ten characters.\<close>

theorem int_text_roundtrip:
  assumes "rest = [] \<or> \<not> LITE_isdigit (hd rest)"
  shows "length (infra_int2str n) \<le> 10 \<and>
     infra_str2int (replicate k (CHR '' '') @ infra_int2str n @ rest) = i32 (uint n) \<and>
     infra_str2int (replicate k (CHR '' '') @ ''+'' @ infra_int2str n @ rest) = i32 (uint n) \<and>
     infra_str2int (replicate k (CHR '' '') @ ''-'' @ infra_int2str n @ rest) = i32 (- uint n)"
proof -
  have dg: "list_all LITE_isdigit (infra_int2str n)" using digits_are_digits by (simp add: infra_int2str_def)
  have v: "str2int_loop (infra_int2str n @ rest) 0 = i32 (uint n)"
    using str2int_append [OF dg, of rest 0] str2int_stop [OF assms] str2int_digits [of "unat n"]
    by (simp add: infra_int2str_def)
  have sp: "dropWhile (\<lambda>c. c = CHR '' '') (replicate k (CHR '' '') @ c # cs) = c # cs" if "c \<noteq> CHR '' ''" for c cs
    using that by (induction k) simp_all
  obtain d ds where d: "infra_int2str n = d # ds"
    by (cases "infra_int2str n") (simp_all add: infra_int2str_def int2str_digits.simps [of "unat n"])
  have nd: "d \<noteq> CHR '' ''" "d \<noteq> CHR ''+''" "d \<noteq> CHR ''-''" using dg d digit_not_sign [of d] by simp_all
  have neg: "i32 (- i32 (uint n)) = i32 (- uint n)"
  proof (rule i32_cong)
    show "- i32 (uint n) mod 2 ^ 32 = - uint n mod 2 ^ 32" using i32_mod [of "uint n"] by (metis mod_minus_eq)
  qed
  have "unat n < 2 ^ LENGTH(32)" by (rule unsigned_less)
  then have "unat n < 10 ^ 10" by simp
  then have len: "length (infra_int2str n) \<le> 10" using int2str_length [of 10 "unat n"] by (simp add: infra_int2str_def)
  have "infra_str2int (replicate k (CHR '' '') @ infra_int2str n @ rest) = i32 (uint n)"
    using v nd unfolding d append_Cons infra_str2int_def sp [OF nd(1)] Let_def list.case by simp
  moreover have "infra_str2int (replicate k (CHR '' '') @ ''+'' @ infra_int2str n @ rest) = i32 (uint n)"
    using v sp [of "CHR ''+''"] by (simp add: infra_str2int_def)
  moreover have "infra_str2int (replicate k (CHR '' '') @ ''-'' @ infra_int2str n @ rest) = i32 (- uint n)"
    using v sp [of "CHR ''-''"] by (simp add: infra_str2int_def neg)
  ultimately show ?thesis using len by blast
qed

theorem int_text_roundtrip_witness:
  "infra_str2int (''  -'' @ infra_int2str 30 @ '' 8'') = -30"
proof -
  have "\<not> LITE_isdigit (hd '' 8'')" by (simp add: LITE_isdigit_def)
  moreover have "replicate 2 c = [c, c]" for c :: char by (simp add: numeral_2_eq_2)
  ultimately show ?thesis using int_text_roundtrip [of "'' 8''" 30 2] by simp
qed

subsection \<open>Timers across the wrap of the clock\<close>

lemma ucast_sub: "ucast (now + d) - utils_time_countdown_ms now ms = (ucast d - ms :: u32)"
proof -
  have a: "ucast (x + y :: u64) = (ucast x + ucast y :: u32)" for x y
    by (simp add: word_uint_eq_iff uint_word_ariths unsigned_ucast_eq take_bit_eq_mod mod_simps mod_mod_cancel)
  have "ucast (ucast ms :: u64) = ms" by (rule bit_word_eqI) (auto simp: bit_simps)
  then show ?thesis by (simp add: utils_time_countdown_ms_def a)
qed

lemma elapsed_minus: "uint (ucast (now + word_of_nat e :: u64) - utils_time_countdown_ms now ms) = (int e - uint ms) mod 2 ^ 32"
proof -
  have "ucast (word_of_nat e :: u64) = (word_of_nat e :: u32)"
    by (rule bit_word_eqI) (auto simp: bit_simps)
  then show ?thesis
    by (simp add: ucast_sub uint_word_ariths unsigned_of_nat take_bit_eq_mod zmod_int mod_simps)
qed

lemma expired_iff:
  "utils_time_is_expired (now + word_of_nat e) (utils_time_countdown_ms now ms) \<longleftrightarrow> (int e - uint ms) mod 2 ^ 32 < 2 ^ 31 - 1"
  unfolding utils_time_is_expired_def word_less_def elapsed_minus by simp

text \<open>A countdown of at most 2 to the 31 milliseconds works across the wrap-around of the clock, at
  every start: before its end it has not expired and the time left is what is missing, at its end
  and for the following 24.8 days it has expired with no time left, and after that it counts as
  running again.\<close>

theorem countdown_expires:
  assumes "uint ms \<le> 2 ^ 31" "int e < uint ms + 2 ^ 32"
  shows "(utils_time_is_expired (now + word_of_nat e) (utils_time_countdown_ms now ms) \<longleftrightarrow>
       uint ms \<le> int e \<and> int e < uint ms + (2 ^ 31 - 1)) \<and>
     uint (iotx_time_left (now + word_of_nat e) (utils_time_countdown_ms now ms)) =
       (if int e < uint ms then uint ms - int e
        else if int e < uint ms + (2 ^ 31 - 1) then 0 else (uint ms - int e) mod 2 ^ 32)"
proof -
  have m: "(int e - uint ms) mod 2 ^ 32 = (if int e < uint ms then int e - uint ms + 2 ^ 32 else int e - uint ms)"
  proof (cases "int e < uint ms")
    case True
    have "(int e - uint ms) mod 2 ^ 32 = (int e - uint ms + 2 ^ 32) mod 2 ^ 32" by simp
    also have "\<dots> = int e - uint ms + 2 ^ 32" using True assms(1) by (intro mod_pos_pos_trivial) simp_all
    finally show ?thesis using True by simp
  next
    case False
    then show ?thesis using assms(2) by simp
  qed
  have ex: "utils_time_is_expired (now + word_of_nat e) (utils_time_countdown_ms now ms) \<longleftrightarrow>
       uint ms \<le> int e \<and> int e < uint ms + (2 ^ 31 - 1)"
    unfolding expired_iff m using assms(1) by auto
  have neg: "uint (utils_time_countdown_ms now ms - ucast (now + word_of_nat e :: u64)) = (uint ms - int e) mod 2 ^ 32"
  proof -
    have n: "uint (- w) = (- uint w) mod 2 ^ 32" for w :: u32 by (simp add: uint_word_ariths)
    have "utils_time_countdown_ms now ms - ucast (now + word_of_nat e :: u64) = - (ucast (now + word_of_nat e) - utils_time_countdown_ms now ms)"
      by simp
    then have "uint (utils_time_countdown_ms now ms - ucast (now + word_of_nat e :: u64)) = (- ((int e - uint ms) mod 2 ^ 32)) mod 2 ^ 32"
      by (simp only: n elapsed_minus)
    then show ?thesis by (simp only: mod_minus_eq minus_diff_eq)
  qed
  have "(uint ms - int e) mod 2 ^ 32 = uint ms - int e" if "int e < uint ms"
    using that uint_lt2p [of ms] by (intro mod_pos_pos_trivial) simp_all
  then show ?thesis using ex neg by (auto simp: iotx_time_left_def)
qed

theorem countdown_expires_witness:
  "utils_time_is_expired (0xFFFFFFF0 + word_of_nat 100) (utils_time_countdown_ms 0xFFFFFFF0 100)"
  using countdown_expires [of 100 100 "0xFFFFFFF0"] by simp

end
