(* ===== verification/DmIpc.thy ===== *)
theory DmIpc
  imports ByteBuf
begin

text \<open>
  Two queues of the device model (linkkit/dev_model): the messages on their way to the user's
  callbacks (dm_ipc.c) and the requests that wait for a reply of the cloud (dm_message_cache.c).
  The intrusive lists of infra_list.h are lists, oldest node first. The mutexes only bracket each
  operation; \<open>mem\<close> says whether an allocation succeeds.
\<close>

definition DM_OK :: int where "DM_OK = 0"
definition DM_FAIL :: int where "DM_FAIL = -1"
definition DM_INVALID_PARAMETER :: int where "DM_INVALID_PARAMETER = -2"
definition DM_MEMORY_NOT_ENOUGH :: int where "DM_MEMORY_NOT_ENOUGH = -3"

lemmas dm_codes = DM_OK_def DM_FAIL_def DM_INVALID_PARAMETER_def DM_MEMORY_NOT_ENOUGH_def

subsection \<open>Messages to the user\<close>

record 'a dm_ipc =
  ipc_mutex :: bool
  ipc_max_size :: int
  ipc_size :: int
  message_list :: "'a list"

text \<open>The context is zeroed first; without a mutex the initialisation ends there.\<close>

definition dm_ipc_init :: "bool \<Rightarrow> int \<Rightarrow> int \<times> 'a dm_ipc" where
  "dm_ipc_init mutex maxsz =
     (if \<not> mutex
      then (DM_INVALID_PARAMETER, \<lparr>ipc_mutex = False, ipc_max_size = 0, ipc_size = 0, message_list = []\<rparr>)
      else (DM_OK, \<lparr>ipc_mutex = True, ipc_max_size = maxsz, ipc_size = 0, message_list = []\<rparr>))"

text \<open>The messages freed, and the context; its size and mutex pointer are left as they were.\<close>

definition dm_ipc_deinit :: "'a dm_ipc \<Rightarrow> 'a list \<times> 'a dm_ipc" where
  "dm_ipc_deinit ctx = (message_list ctx, ctx\<lparr>message_list := []\<rparr>)"

definition dm_ipc_msg_insert :: "bool \<Rightarrow> 'a option \<Rightarrow> 'a dm_ipc \<Rightarrow> int \<times> 'a dm_ipc" where
  "dm_ipc_msg_insert mem data ctx =
     (case data of
        None \<Rightarrow> (DM_INVALID_PARAMETER, ctx)
      | Some d \<Rightarrow>
          if ipc_max_size ctx \<le> ipc_size ctx then (DM_FAIL, ctx)
          else if \<not> mem then (DM_MEMORY_NOT_ENOUGH, ctx)
          else (DM_OK, ctx\<lparr>ipc_size := i32 (ipc_size ctx + 1), message_list := message_list ctx @ [d]\<rparr>))"

text \<open>\<open>data\<close> is what the caller's pointer held before the call, and what it holds behind it.\<close>

definition dm_ipc_msg_next :: "'a option \<Rightarrow> 'a dm_ipc \<Rightarrow> int \<times> 'a option \<times> 'a dm_ipc" where
  "dm_ipc_msg_next data ctx =
     (if data \<noteq> None then (DM_INVALID_PARAMETER, data, ctx)
      else case message_list ctx of
        [] \<Rightarrow> (DM_FAIL, data, ctx)
      | d # ds \<Rightarrow> (DM_OK, Some d, ctx\<lparr>ipc_size := i32 (ipc_size ctx - 1), message_list := ds\<rparr>))"

subsection \<open>The queue as the contract of its clients sees it\<close>

definition ipc_inv :: "'a dm_ipc \<Rightarrow> bool" where
  "ipc_inv ctx \<longleftrightarrow> ipc_size ctx = int (length (message_list ctx)) \<and>
     int (length (message_list ctx)) \<le> max 0 (ipc_max_size ctx) \<and> ipc_max_size ctx < 2 ^ 31"

definition ipc_enq :: "'a \<Rightarrow> 'a dm_ipc \<Rightarrow> 'a dm_ipc option" where
  "ipc_enq d ctx = (let (r, ctx') = dm_ipc_msg_insert True (Some d) ctx in if r = DM_OK then Some ctx' else None)"

definition ipc_deq :: "'a dm_ipc \<Rightarrow> ('a \<times> 'a dm_ipc) option" where
  "ipc_deq ctx = (case dm_ipc_msg_next None ctx of (r, Some d, ctx') \<Rightarrow> Some (d, ctx') | _ \<Rightarrow> None)"

interpretation ipc: bounded_queue "\<lambda>ctx. ipc_inv ctx \<and> ipc_max_size ctx = int cap" cap message_list ipc_enq ipc_deq
  by unfold_locales
    (auto simp: ipc_inv_def ipc_enq_def ipc_deq_def dm_ipc_msg_insert_def dm_ipc_msg_next_def Let_def dm_codes)

text \<open>The abstract queue: a list of at most \<open>cap\<close> messages.\<close>

datatype 'a ipc_op = IpcInsert 'a | IpcNext

fun queue_step :: "nat \<Rightarrow> 'a ipc_op \<Rightarrow> 'a list \<Rightarrow> (int \<times> 'a option) \<times> 'a list" where
  "queue_step cap (IpcInsert d) q = (if length q < cap then ((DM_OK, None), q @ [d]) else ((DM_FAIL, None), q))"
| "queue_step cap IpcNext [] = ((DM_FAIL, None), [])"
| "queue_step cap IpcNext (d # q) = ((DM_OK, Some d), q)"

fun queue_run :: "nat \<Rightarrow> 'a ipc_op list \<Rightarrow> 'a list \<Rightarrow> (int \<times> 'a option) list \<times> 'a list" where
  "queue_run cap [] q = ([], q)"
| "queue_run cap (p # ps) q =
     (let (r, q') = queue_step cap p q; (rs, q'') = queue_run cap ps q' in (r # rs, q''))"

fun ipc_step :: "'a ipc_op \<Rightarrow> 'a dm_ipc \<Rightarrow> (int \<times> 'a option) \<times> 'a dm_ipc" where
  "ipc_step (IpcInsert d) ctx = (let (r, ctx') = dm_ipc_msg_insert True (Some d) ctx in ((r, None), ctx'))"
| "ipc_step IpcNext ctx = (let (r, d, ctx') = dm_ipc_msg_next None ctx in ((r, d), ctx'))"

fun ipc_run :: "'a ipc_op list \<Rightarrow> 'a dm_ipc \<Rightarrow> (int \<times> 'a option) list \<times> 'a dm_ipc" where
  "ipc_run [] ctx = ([], ctx)"
| "ipc_run (p # ps) ctx =
     (let (r, ctx') = ipc_step p ctx; (rs, ctx'') = ipc_run ps ctx' in (r # rs, ctx''))"

lemma ipc_step_refines:
  "ipc_inv ctx \<Longrightarrow> ipc_step p ctx = (r, ctx') \<Longrightarrow>
   queue_step (nat (ipc_max_size ctx)) p (message_list ctx) = (r, message_list ctx') \<and>
   ipc_inv ctx' \<and> ipc_max_size ctx' = ipc_max_size ctx"
  by (cases p; cases "message_list ctx")
    (auto simp: ipc_inv_def dm_ipc_msg_insert_def dm_ipc_msg_next_def Let_def split: if_splits)

lemma ipc_run_refines:
  "ipc_inv ctx \<Longrightarrow> ipc_run ps ctx = (rs, ctx') \<Longrightarrow>
   queue_run (nat (ipc_max_size ctx)) ps (message_list ctx) = (rs, message_list ctx') \<and>
   ipc_inv ctx' \<and> ipc_max_size ctx' = ipc_max_size ctx"
proof (induction ps arbitrary: ctx rs ctx')
  case (Cons p ps)
  obtain r c1 where 1: "ipc_step p ctx = (r, c1)" by fastforce
  obtain rs' c2 where 2: "ipc_run ps c1 = (rs', c2)" by fastforce
  have "rs = r # rs'" "ctx' = c2" using Cons.prems(2) by (simp_all add: 1 2)
  then show ?case using ipc_step_refines [OF Cons.prems(1) 1] Cons.IH [OF _ 2] by simp
qed simp

text \<open>C38. The message queue of the device model is a bounded first-in first-out queue: from
  initialisation on, every sequence of insertions and removals returns the codes and messages of
  the abstract queue with the capacity given, and the counter is the number of messages queued.\<close>

theorem ipc_is_bounded_queue:
  assumes "maxsz < 2 ^ 31" "ipc_run ps (snd (dm_ipc_init True maxsz)) = (rs, ctx)"
  shows "queue_run (nat maxsz) ps [] = (rs, message_list ctx) \<and>
     ipc_size ctx = int (length (message_list ctx)) \<and> length (message_list ctx) \<le> nat maxsz"
proof -
  have i: "ipc_inv (snd (dm_ipc_init True maxsz))" "ipc_max_size (snd (dm_ipc_init True maxsz)) = maxsz"
    "message_list (snd (dm_ipc_init True maxsz)) = []"
    using assms(1) by (simp_all add: dm_ipc_init_def ipc_inv_def)
  have "queue_run (nat maxsz) ps [] = (rs, message_list ctx)" "ipc_inv ctx" "ipc_max_size ctx = maxsz"
    using ipc_run_refines [OF i(1) assms(2)] unfolding i by simp_all
  then show ?thesis by (auto simp: ipc_inv_def)
qed

theorem ipc_is_bounded_queue_witness:
  "queue_run 1 [IpcInsert ''a'', IpcInsert ''b'', IpcNext] [] = ([(0, None), (-1, None), (0, Some ''a'')], [])"
  using ipc_is_bounded_queue [of 1 "[IpcInsert ''a'', IpcInsert ''b'', IpcNext]" "[(0, None), (-1, None), (0, Some ''a'')]"
      "\<lparr>ipc_mutex = True, ipc_max_size = 1, ipc_size = 0, message_list = []\<rparr>"]
  by (simp add: dm_ipc_init_def dm_ipc_msg_insert_def dm_ipc_msg_next_def dm_codes)

end
