(* ===== verification/DmMsgCache.thy ===== *)
theory DmMsgCache
  imports DmIpc
begin

text \<open>
  The requests waiting for a reply (linkkit/dev_model/dm_message_cache.c). Times are those of
  \<open>HAL_UptimeMs\<close>, as naturals below \<open>2 ^ 64\<close>; \<open>held\<close> counts how often the mutex has been
  taken more often than given back.
\<close>

record 'd dm_msg_cache_node =
  node_msgid :: int
  node_devid :: int
  response_type :: int
  node_data :: "'d option"
  ctime :: nat

record 'd dm_msg_cache_ctx =
  dmc_mutex :: bool
  held :: int
  dmc_list_size :: int
  dmc_list :: "'d dm_msg_cache_node list"

definition CONFIG_MSGCACHE_QUEUE_MAXLEN :: int where "CONFIG_MSGCACHE_QUEUE_MAXLEN = 50"
definition DM_MSG_CACHE_TIMEOUT_MS_DEFAULT :: nat where "DM_MSG_CACHE_TIMEOUT_MS_DEFAULT = 10000"

definition dm_msg_cache_mutex_lock :: "'d dm_msg_cache_ctx \<Rightarrow> 'd dm_msg_cache_ctx" where
  "dm_msg_cache_mutex_lock ctx = (if dmc_mutex ctx then ctx\<lparr>held := held ctx + 1\<rparr> else ctx)"

definition dm_msg_cache_mutex_unlock :: "'d dm_msg_cache_ctx \<Rightarrow> 'd dm_msg_cache_ctx" where
  "dm_msg_cache_mutex_unlock ctx = (if dmc_mutex ctx then ctx\<lparr>held := held ctx - 1\<rparr> else ctx)"

definition dm_msg_cache_init :: "bool \<Rightarrow> int \<times> 'd dm_msg_cache_ctx" where
  "dm_msg_cache_init mutex =
     (let ctx = \<lparr>dmc_mutex = mutex, held = 0, dmc_list_size = 0, dmc_list = []\<rparr>
      in if mutex then (DM_OK, ctx) else (DM_MEMORY_NOT_ENOUGH, ctx))"

text \<open>The loop gives the mutex back for every node, and once more behind the loop.\<close>

fun cache_deinit_loop :: "'d dm_msg_cache_node list \<Rightarrow> 'd dm_msg_cache_ctx \<Rightarrow> 'd dm_msg_cache_ctx" where
  "cache_deinit_loop [] ctx = ctx"
| "cache_deinit_loop (n # ns) ctx = cache_deinit_loop ns (dm_msg_cache_mutex_unlock (ctx\<lparr>dmc_list := ns\<rparr>))"

definition dm_msg_cache_deinit :: "'d dm_msg_cache_ctx \<Rightarrow> int \<times> 'd dm_msg_cache_ctx" where
  "dm_msg_cache_deinit ctx =
     (let ctx = dm_msg_cache_mutex_lock ctx
      in (DM_OK, dm_msg_cache_mutex_unlock (cache_deinit_loop (dmc_list ctx) ctx)))"

definition dm_msg_cache_insert ::
    "bool \<Rightarrow> nat \<Rightarrow> int \<Rightarrow> int \<Rightarrow> int \<Rightarrow> 'd option \<Rightarrow> 'd dm_msg_cache_ctx \<Rightarrow> int \<times> 'd dm_msg_cache_ctx" where
  "dm_msg_cache_insert mem now msgid devid type data ctx =
     (if CONFIG_MSGCACHE_QUEUE_MAXLEN \<le> dmc_list_size ctx then (DM_FAIL, ctx)
      else if \<not> mem then (DM_MEMORY_NOT_ENOUGH, ctx)
      else
        let node = \<lparr>node_msgid = msgid, node_devid = devid, response_type = type, node_data = data, ctime = now\<rparr>;
            ctx = dm_msg_cache_mutex_lock ctx;
            ctx = ctx\<lparr>dmc_list := dmc_list ctx @ [node], dmc_list_size := dmc_list_size ctx + 1\<rparr>
        in (DM_OK, dm_msg_cache_mutex_unlock ctx))"

fun cache_find :: "int \<Rightarrow> 'd dm_msg_cache_node list \<Rightarrow> 'd dm_msg_cache_node option" where
  "cache_find msgid [] = None"
| "cache_find msgid (n # ns) = (if node_msgid n = msgid then Some n else cache_find msgid ns)"

text \<open>\<open>node\<close> is what the caller's pointer held before.\<close>

definition dm_msg_cache_search ::
    "int \<Rightarrow> 'd dm_msg_cache_node option \<Rightarrow> 'd dm_msg_cache_ctx \<Rightarrow> int \<times> 'd dm_msg_cache_node option" where
  "dm_msg_cache_search msgid node ctx =
     (if msgid \<le> 0 \<or> node \<noteq> None then (DM_INVALID_PARAMETER, node)
      else case cache_find msgid (dmc_list ctx) of None \<Rightarrow> (DM_FAIL, node) | Some n \<Rightarrow> (DM_OK, Some n))"

fun cache_unlink :: "int \<Rightarrow> 'd dm_msg_cache_node list \<Rightarrow> 'd dm_msg_cache_node list" where
  "cache_unlink msgid [] = []"
| "cache_unlink msgid (n # ns) = (if node_msgid n = msgid then ns else n # cache_unlink msgid ns)"

definition dm_msg_cache_remove :: "int \<Rightarrow> 'd dm_msg_cache_ctx \<Rightarrow> int \<times> 'd dm_msg_cache_ctx" where
  "dm_msg_cache_remove msgid ctx =
     (let ctx = dm_msg_cache_mutex_lock ctx in
      case cache_find msgid (dmc_list ctx) of
        None \<Rightarrow> (DM_FAIL, dm_msg_cache_mutex_unlock ctx)
      | Some n \<Rightarrow> (DM_OK, dm_msg_cache_mutex_unlock
                      (ctx\<lparr>dmc_list := cache_unlink msgid (dmc_list ctx), dmc_list_size := dmc_list_size ctx - 1\<rparr>)))"

text \<open>
  The loop of the tick: the nodes kept, and the timeouts reported to the user. A creation time in
  the future is set to the current time.
\<close>

fun cache_tick :: "nat \<Rightarrow> 'd dm_msg_cache_node list \<Rightarrow> 'd dm_msg_cache_node list \<times> (int \<times> int \<times> int) list" where
  "cache_tick now [] = ([], [])"
| "cache_tick now (n # ns) =
     (let n = (if now < ctime n then n\<lparr>ctime := now\<rparr> else n);
          (kept, late) = cache_tick now ns
      in if DM_MSG_CACHE_TIMEOUT_MS_DEFAULT \<le> now - ctime n
         then (kept, (node_msgid n, node_devid n, response_type n) # late)
         else (n # kept, late))"

definition dm_msg_cache_tick :: "nat \<Rightarrow> 'd dm_msg_cache_ctx \<Rightarrow> (int \<times> int \<times> int) list \<times> 'd dm_msg_cache_ctx" where
  "dm_msg_cache_tick now ctx =
     (let ctx = dm_msg_cache_mutex_lock ctx;
          (kept, late) = cache_tick now (dmc_list ctx)
      in (late, dm_msg_cache_mutex_unlock
            (ctx\<lparr>dmc_list := kept, dmc_list_size := dmc_list_size ctx - int (length late)\<rparr>)))"

subsection \<open>The cache over its whole life\<close>

datatype 'd cache_op =
    CacheInsert bool nat int int int "'d option"
  | CacheRemove int
  | CacheTick nat

fun cache_step :: "'d cache_op \<Rightarrow> 'd dm_msg_cache_ctx \<Rightarrow> 'd dm_msg_cache_ctx" where
  "cache_step (CacheInsert mem now msgid devid type data) ctx = snd (dm_msg_cache_insert mem now msgid devid type data ctx)"
| "cache_step (CacheRemove msgid) ctx = snd (dm_msg_cache_remove msgid ctx)"
| "cache_step (CacheTick now) ctx = snd (dm_msg_cache_tick now ctx)"

definition cache_inv :: "'d dm_msg_cache_ctx \<Rightarrow> bool" where
  "cache_inv ctx \<longleftrightarrow> dmc_list_size ctx = int (length (dmc_list ctx)) \<and> length (dmc_list ctx) \<le> 50 \<and> held ctx = 0"

lemma cache_find_length: "cache_find i ns = Some n \<Longrightarrow> length ns = Suc (length (cache_unlink i ns))"
  by (induction ns) (auto split: if_splits)

lemma cache_tick_length: "cache_tick now ns = (kept, late) \<Longrightarrow> length ns = length kept + length late"
  by (induction ns arbitrary: kept late) (auto simp: Let_def split: prod.splits if_splits)

lemma mutex_bracket [simp]:
  "dmc_list (dm_msg_cache_mutex_lock c) = dmc_list c" "dmc_list_size (dm_msg_cache_mutex_lock c) = dmc_list_size c"
  "dmc_mutex (dm_msg_cache_mutex_lock c) = dmc_mutex c"
  "dmc_list (dm_msg_cache_mutex_unlock c) = dmc_list c" "dmc_list_size (dm_msg_cache_mutex_unlock c) = dmc_list_size c"
  "dmc_mutex (dm_msg_cache_mutex_unlock c) = dmc_mutex c"
  "held (dm_msg_cache_mutex_lock c) = (if dmc_mutex c then held c + 1 else held c)"
  "held (dm_msg_cache_mutex_unlock c) = (if dmc_mutex c then held c - 1 else held c)"
  by (simp_all add: dm_msg_cache_mutex_lock_def dm_msg_cache_mutex_unlock_def)

lemma cache_step_inv: "cache_inv ctx \<Longrightarrow> cache_inv (cache_step p ctx)"
  by (cases p)
    (auto simp: cache_inv_def dm_msg_cache_insert_def dm_msg_cache_remove_def dm_msg_cache_tick_def Let_def
      CONFIG_MSGCACHE_QUEUE_MAXLEN_def dest: cache_find_length cache_tick_length split: option.splits prod.splits)

lemma cache_tick_result:
  "cache_tick now ns = (kept, late) \<Longrightarrow>
   kept = map (\<lambda>n. if now < ctime n then n\<lparr>ctime := now\<rparr> else n) (filter (\<lambda>n. now < ctime n + 10000) ns) \<and>
   late = map (\<lambda>n. (node_msgid n, node_devid n, response_type n)) (filter (\<lambda>n. ctime n + 10000 \<le> now) ns)"
proof (induction ns arbitrary: kept late)
  case (Cons n ns)
  obtain k l where "cache_tick now ns = (k, l)" by fastforce
  then show ?case using Cons by (auto simp: Let_def DM_MSG_CACHE_TIMEOUT_MS_DEFAULT_def split: if_splits)
qed simp

text \<open>C39. The cache of pending requests keeps its count and its bound: from initialisation on, after any
  insertions, removals and ticks, the size is the number of nodes, at most 50 are stored and the
  mutex is free. A tick then reports exactly the requests older than ten seconds, each once and in
  order, and keeps the others.\<close>

theorem cache_bounded_and_timed:
  assumes "ctx = fold cache_step ps (snd (dm_msg_cache_init mutex))" "dm_msg_cache_tick now ctx = (late, ctx')"
  shows "dmc_list_size ctx = int (length (dmc_list ctx)) \<and> length (dmc_list ctx) \<le> 50 \<and> held ctx = 0 \<and>
     late = map (\<lambda>n. (node_msgid n, node_devid n, response_type n)) (filter (\<lambda>n. ctime n + 10000 \<le> now) (dmc_list ctx)) \<and>
     map node_msgid (dmc_list ctx') = map node_msgid (filter (\<lambda>n. now < ctime n + 10000) (dmc_list ctx))"
proof -
  have "cache_inv (fold cache_step ps c)" if "cache_inv c" for c :: "'a dm_msg_cache_ctx"
    using that by (induction ps arbitrary: c) (simp_all add: cache_step_inv)
  moreover have "cache_inv (snd (dm_msg_cache_init mutex :: int \<times> 'a dm_msg_cache_ctx))"
    by (simp add: dm_msg_cache_init_def cache_inv_def Let_def)
  ultimately have "cache_inv ctx" by (simp add: assms(1))
  moreover obtain kept where "cache_tick now (dmc_list ctx) = (kept, late)" "dmc_list ctx' = kept"
    using assms(2) by (auto simp: dm_msg_cache_tick_def Let_def split: prod.splits)
  ultimately show ?thesis using cache_tick_result [of now "dmc_list ctx" kept late]
    by (auto simp: cache_inv_def)
qed

theorem cache_bounded_and_timed_witness:
  "fst (dm_msg_cache_tick 10500 (fold cache_step [CacheInsert True 0 1 2 3 (Some ''x''), CacheInsert True 1000 2 2 3 None]
     (snd (dm_msg_cache_init True)))) = [(1, 2, 3)]"
proof -
  let ?c = "fold cache_step [CacheInsert True 0 1 2 3 (Some ''x''), CacheInsert True 1000 2 2 3 None] (snd (dm_msg_cache_init True))"
  obtain late c' where t: "dm_msg_cache_tick 10500 ?c = (late, c')" by fastforce
  have "dmc_list ?c = [\<lparr>node_msgid = 1, node_devid = 2, response_type = 3, node_data = Some ''x'', ctime = 0\<rparr>,
      \<lparr>node_msgid = 2, node_devid = 2, response_type = 3, node_data = None, ctime = 1000\<rparr>]"
    by (simp add: dm_msg_cache_init_def dm_msg_cache_insert_def CONFIG_MSGCACHE_QUEUE_MAXLEN_def Let_def)
  with cache_bounded_and_timed [OF refl t] show ?thesis unfolding t by simp
qed

text \<open>Clearing a cache with pending requests gives the mutex back more often than it was taken.\<close>

lemma cache_deinit_overreleases:
  assumes "dmc_mutex ctx"
  shows "held (snd (dm_msg_cache_deinit ctx)) = held ctx - int (length (dmc_list ctx))"
proof -
  have "held (cache_deinit_loop ns c) = held c - int (length ns) \<and> dmc_mutex (cache_deinit_loop ns c)"
    if "dmc_mutex c" for ns and c :: "'a dm_msg_cache_ctx"
    using that by (induction ns arbitrary: c) simp_all
  then show ?thesis using assms by (simp add: dm_msg_cache_deinit_def Let_def)
qed

end
