(* ===== verification/IotxCm.thy ===== *)
theory IotxCm
  imports DmIpc
begin

text \<open>
  The connection manager of the device model (linkkit/dev_model/iotx_cm.c): a table of three
  connections behind a lock that is made with the first connection and destroyed with the last.
  What the functions of a connection return is a parameter, \<open>'c\<close> the connection itself. Calling
  through an empty slot, or taking a lock that does not exist, is \<open>None\<close>. The device model is
  built without a gateway: no yield thread.
\<close>

record 'c cm_state =
  fd_lock :: bool
  cm_fd :: "'c option list"
  inited_conn_num :: int

definition CM_MAX_FD_NUM :: nat where "CM_MAX_FD_NUM = 3"
definition NULL_VALUE_ERROR :: int where "NULL_VALUE_ERROR = -2"


definition fd_is_valid :: "int \<Rightarrow> 'c cm_state \<Rightarrow> int" where
  "fd_is_valid fd s =
     (if \<not> fd_lock s then NULL_VALUE_ERROR
      else if 0 \<le> fd \<and> fd < int CM_MAX_FD_NUM \<and> cm_fd s ! nat fd \<noteq> None then 0 else -1)"





text \<open>The function pointer read from the slot: the lock must exist and the slot be used.\<close>

definition cm_slot :: "int \<Rightarrow> 'c cm_state \<Rightarrow> 'c option" where
  "cm_slot fd s =
     (if fd_lock s \<and> 0 \<le> fd \<and> fd < int CM_MAX_FD_NUM then cm_fd s ! nat fd else None)"

text \<open>
  Publishing, subscribing and unsubscribing differ only in the function called; \<open>f\<close> is its
  result for the connection. Only -1 is refused, not the code for a missing lock.
\<close>

definition cm_call :: "('c \<Rightarrow> int) \<Rightarrow> int \<Rightarrow> 'c cm_state \<Rightarrow> int option" where
  "cm_call f fd s =
     (if fd_is_valid fd s = -1 then Some (-1)
      else case cm_slot fd s of None \<Rightarrow> None | Some c \<Rightarrow> Some (f c))"

definition iotx_cm_unsub :: "('c \<Rightarrow> int) \<Rightarrow> int \<Rightarrow> 'c cm_state \<Rightarrow> int option" where
  "iotx_cm_unsub f fd s = cm_call f fd s"


text \<open>With \<open>fd\<close> -1 every used connection is served.\<close>

definition iotx_cm_yield :: "('c \<Rightarrow> int) \<Rightarrow> int \<Rightarrow> 'c cm_state \<Rightarrow> int option" where
  "iotx_cm_yield f fd s =
     (if \<not> fd_lock s then Some NULL_VALUE_ERROR
      else if fd = -1 then Some 0
      else if fd_is_valid fd s = -1 then Some (-1)
      else case cm_slot fd s of None \<Rightarrow> None | Some c \<Rightarrow> Some (f c))"


subsection \<open>The table as an abstract map\<close>







end
