(* ===== verification/KvStore.thy ===== *)
theory KvStore
  imports ByteBuf
begin

text \<open>
  The key-value store in the flash memory (component/kv/kv.c on kv_adapt.c, as configured by
  app_preinclude.h: 4 MB in 16 blocks of 256 KB). The flash is a function from offsets in the
  partition to bytes. Programming a page clears bits and never sets one, as in any NOR flash;
  erasing a block sets all its bits. Reading cannot fail; \<open>flash_ok\<close> says whether programming
  and erasing succeed, \<open>mem_ok\<close> whether allocations do. Keys are C strings without their zero.
\<close>

record kv_mgr =
  flash :: "nat \<Rightarrow> u8"
  flash_ok :: bool
  mem_ok :: bool
  kv_inited :: bool
  gc_trigger :: bool
  gc_waiter :: nat
  clean_blk_nums :: nat
  write_pos :: nat
  blk_space :: "nat \<Rightarrow> nat"
  blk_state :: "nat \<Rightarrow> u8"

abbreviation (input) KV_BLOCK_SIZE :: nat where "KV_BLOCK_SIZE \<equiv> 262144"
abbreviation (input) KV_BLOCK_NUMS :: nat where "KV_BLOCK_NUMS \<equiv> 16"
abbreviation (input) KV_BLOCK_HDR_SIZE :: nat where "KV_BLOCK_HDR_SIZE \<equiv> 4"
abbreviation (input) KV_ITEM_HDR_SIZE :: nat where "KV_ITEM_HDR_SIZE \<equiv> 10"
abbreviation (input) KV_MAX_KEY_LEN :: nat where "KV_MAX_KEY_LEN \<equiv> 128"
abbreviation (input) KV_MAX_VAL_LEN :: nat where "KV_MAX_VAL_LEN \<equiv> 512"
abbreviation (input) KV_ITEM_MAX_LEN :: nat where "KV_ITEM_MAX_LEN \<equiv> 650"
abbreviation (input) KV_RESERVED_BLOCKS :: nat where "KV_RESERVED_BLOCKS \<equiv> 1"

definition KV_BLOCK_STATE_USED :: u8 where "KV_BLOCK_STATE_USED = 0xCC"
definition KV_BLOCK_STATE_CLEAN :: u8 where "KV_BLOCK_STATE_CLEAN = 0xEE"
definition KV_BLOCK_STATE_DIRTY :: u8 where "KV_BLOCK_STATE_DIRTY = 0x44"
definition KV_BLOCK_MAGIC_NUM :: u8 where "KV_BLOCK_MAGIC_NUM = 0x4B"
definition KV_ITEM_MAGIC_NUM :: u8 where "KV_ITEM_MAGIC_NUM = 0x49"
definition KV_ITEM_STATE_NORMAL :: u8 where "KV_ITEM_STATE_NORMAL = 0xEE"
definition KV_ITEM_STATE_DELETE :: u8 where "KV_ITEM_STATE_DELETE = 0x00"

lemmas kv_consts = KV_BLOCK_STATE_USED_def KV_BLOCK_STATE_CLEAN_def KV_BLOCK_STATE_DIRTY_def
  KV_BLOCK_MAGIC_NUM_def KV_ITEM_MAGIC_NUM_def KV_ITEM_STATE_NORMAL_def KV_ITEM_STATE_DELETE_def

abbreviation (input) KV_OK :: int where "KV_OK \<equiv> 0"
abbreviation (input) KV_LOOP_CONTINUE :: int where "KV_LOOP_CONTINUE \<equiv> 10000"
abbreviation (input) KV_ERR_NO_SPACE :: int where "KV_ERR_NO_SPACE \<equiv> -10001"
abbreviation (input) KV_ERR_INVALID_PARAM :: int where "KV_ERR_INVALID_PARAM \<equiv> -10002"
abbreviation (input) KV_ERR_MALLOC_FAILED :: int where "KV_ERR_MALLOC_FAILED \<equiv> -10003"
abbreviation (input) KV_ERR_NOT_FOUND :: int where "KV_ERR_NOT_FOUND \<equiv> -10004"
abbreviation (input) KV_ERR_FLASH_WRITE :: int where "KV_ERR_FLASH_WRITE \<equiv> -10006"
abbreviation (input) KV_ERR_FLASH_ERASE :: int where "KV_ERR_FLASH_ERASE \<equiv> -10007"

definition KV_ALIGN :: "nat \<Rightarrow> nat" where "KV_ALIGN x = (x + 3) div 4 * 4"

definition blk_start :: "nat \<Rightarrow> nat" where "blk_start blk = blk * 262144"
definition blk_of :: "nat \<Rightarrow> nat" where "blk_of pos = pos div 262144"

text \<open>Unsigned subtraction of the fields: 32 bits for a space, 8 bits for a counter.\<close>

definition sub32 :: "nat \<Rightarrow> nat \<Rightarrow> nat" where "sub32 a b = (a + 2 ^ 32 - b) mod 2 ^ 32"
definition dec8 :: "nat \<Rightarrow> nat" where "dec8 a = (a + 255) mod 256"
definition inc8 :: "nat \<Rightarrow> nat" where "inc8 a = (a + 1) mod 256"

subsection \<open>The flash adapter\<close>

definition kv_flash_read :: "nat \<Rightarrow> nat \<Rightarrow> kv_mgr \<Rightarrow> bytes" where
  "kv_flash_read offset nbytes s = map (flash s) [offset..<offset + nbytes]"

definition page_program :: "nat \<Rightarrow> bytes \<Rightarrow> (nat \<Rightarrow> u8) \<Rightarrow> nat \<Rightarrow> u8" where
  "page_program addr page fl =
     (\<lambda>a. if addr \<le> a \<and> a < addr + length page then fl a AND page ! (a - addr) else fl a)"

text \<open>The whole pages, and the rest that is filled up with what the page holds.\<close>

fun write_pages :: "nat \<Rightarrow> bytes \<Rightarrow> (nat \<Rightarrow> u8) \<Rightarrow> nat \<Rightarrow> u8" where
  "write_pages addr buffer fl =
     (if 512 \<le> length buffer
      then write_pages (addr + 512) (drop 512 buffer) (page_program addr (take 512 buffer) fl)
      else if buffer \<noteq> [] then
        page_program addr (buffer @ map fl [addr + length buffer..<addr + 512]) fl
      else fl)"

declare write_pages.simps [simp del]

text \<open>The partition starts at a page boundary, so offsets and addresses agree on the page.\<close>

definition kv_flash_write :: "nat \<Rightarrow> bytes \<Rightarrow> kv_mgr \<Rightarrow> int \<times> kv_mgr" where
  "kv_flash_write offset buf s =
     (if \<not> flash_ok s \<and> buf \<noteq> [] then (1, s)
      else if offset mod 512 \<noteq> 0 then
        let page_offset = offset mod 512;
            page = offset - page_offset;
            n = (if 512 < page_offset + length buf then 512 - page_offset else length buf);
            intBuffer = map (flash s) [page..<page + 512];
            intBuffer = take page_offset intBuffer @ take n buf @ drop (page_offset + n) intBuffer
        in (0, s\<lparr>flash := write_pages (page + 512) (drop n buf) (page_program page intBuffer (flash s))\<rparr>)
      else (0, s\<lparr>flash := write_pages offset buf (flash s)\<rparr>))"

definition kv_flash_erase :: "nat \<Rightarrow> kv_mgr \<Rightarrow> int \<times> kv_mgr" where
  "kv_flash_erase offset s =
     (if \<not> flash_ok s then (-1, s)
      else (0, s\<lparr>flash := (\<lambda>a. if offset \<le> a \<and> a < offset + 262144 then 0xFF else flash s a)\<rparr>))"

subsection \<open>Checksum and headers\<close>

definition crc_bit :: "u8 \<Rightarrow> u8" where
  "crc_bit crc = (if crc AND 0x80 \<noteq> 0 then push_bit 1 crc XOR 0x31 else push_bit 1 crc)"

definition calc_crc8 :: "bytes \<Rightarrow> u8" where
  "calc_crc8 buf = foldl (\<lambda>crc b. (crc_bit ^^ 8) (crc XOR b)) 0 buf"

record item_hdr =
  h_magic :: u8
  h_state :: u8
  h_crc :: u8
  key_len :: nat
  val_len :: nat
  origin_off :: nat

record kv_item =
  it_hdr :: item_hdr
  it_store :: bytes
  it_len :: nat
  it_pos :: nat

definition le16 :: "nat \<Rightarrow> bytes" where "le16 n = [word_of_nat n, word_of_nat (n div 256)]"
definition le32 :: "nat \<Rightarrow> bytes" where
  "le32 n = [word_of_nat n, word_of_nat (n div 256), word_of_nat (n div 65536), word_of_nat (n div 16777216)]"

definition hdr_bytes :: "item_hdr \<Rightarrow> bytes" where
  "hdr_bytes h = [h_magic h, h_state h, h_crc h, word_of_nat (key_len h)] @ le16 (val_len h) @ le32 (origin_off h)"

definition hdr_of :: "bytes \<Rightarrow> item_hdr" where
  "hdr_of b =
     \<lparr>h_magic = b ! 0, h_state = b ! 1, h_crc = b ! 2, key_len = unat (b ! 3),
      val_len = unat (b ! 4) + 256 * unat (b ! 5),
      origin_off = unat (b ! 6) + 256 * unat (b ! 7) + 65536 * unat (b ! 8) + 16777216 * unat (b ! 9)\<rparr>"

definition read_hdr :: "nat \<Rightarrow> kv_mgr \<Rightarrow> item_hdr" where
  "read_hdr pos s = hdr_of (kv_flash_read pos KV_ITEM_HDR_SIZE s)"

subsection \<open>Blocks and items\<close>

text \<open>Starting the task that collects garbage; it runs later.\<close>

definition kv_trigger_gc :: "kv_mgr \<Rightarrow> kv_mgr" where
  "kv_trigger_gc s = (if gc_trigger s then s else s\<lparr>gc_waiter := 0, gc_trigger := True\<rparr>)"

definition kv_set_block_state :: "nat \<Rightarrow> u8 \<Rightarrow> kv_mgr \<Rightarrow> int \<times> kv_mgr" where
  "kv_set_block_state blk state s =
     (let (ret, s) = kv_flash_write (blk_start blk + 1) [state] s
      in if ret \<noteq> KV_OK then (ret, s) else (KV_OK, s\<lparr>blk_state := (blk_state s)(blk := state)\<rparr>))"

definition kv_set_item_state :: "nat \<Rightarrow> u8 \<Rightarrow> kv_mgr \<Rightarrow> int \<times> kv_mgr" where
  "kv_set_item_state pos state s = kv_flash_write (pos + 1) [state] s"

definition kv_block_format :: "nat \<Rightarrow> kv_mgr \<Rightarrow> int \<times> kv_mgr" where
  "kv_block_format blk s =
     (let (r, s) = kv_flash_erase (blk_start blk) s in
      if r \<noteq> 0 then (KV_ERR_FLASH_ERASE, s)
      else
        let (r, s) = kv_flash_write (blk_start blk) [KV_BLOCK_MAGIC_NUM, KV_BLOCK_STATE_CLEAN, 0, 0] s in
        if r \<noteq> KV_OK then (KV_ERR_FLASH_WRITE, s)
        else (KV_OK, s\<lparr>blk_state := (blk_state s)(blk := KV_BLOCK_STATE_CLEAN),
                        blk_space := (blk_space s)(blk := KV_BLOCK_SIZE - KV_BLOCK_HDR_SIZE),
                        clean_blk_nums := inc8 (clean_blk_nums s)\<rparr>))"

text \<open>
  The search for another block with room. The index is set back to 0 inside the body, after the
  comparison with the current block, so when that is block 0 the search never meets it again.
\<close>

partial_function (option) scan_blocks :: "(nat \<Rightarrow> nat) \<Rightarrow> nat \<Rightarrow> nat \<Rightarrow> nat \<Rightarrow> nat option option" where
  "scan_blocks space len blk_idx i =
     (if i = blk_idx then Some None
      else let i = (if i = KV_BLOCK_NUMS then 0 else i) in
        if len < space i then Some (Some i) else scan_blocks space len blk_idx (i + 1))"

text \<open>The position for an item of \<open>len\<close> bytes, 0 for none; \<open>None\<close> when the call never returns.\<close>

definition kv_calc_position :: "nat \<Rightarrow> kv_mgr \<Rightarrow> (nat \<times> kv_mgr) option" where
  "kv_calc_position len s =
     (let blk_idx = blk_of (write_pos s); space = blk_space s blk_idx in
      if len < space then
        Some (write_pos s,
              if space - len < KV_ITEM_MAX_LEN \<and> clean_blk_nums s \<le> KV_RESERVED_BLOCKS then kv_trigger_gc s else s)
      else do {
        found \<leftarrow> scan_blocks (blk_space s) len blk_idx (blk_idx + 1);
        case found of
          None \<Rightarrow> Some (0, kv_trigger_gc s)
        | Some i \<Rightarrow>
            let s = s\<lparr>write_pos := blk_start i + KV_BLOCK_SIZE - blk_space s i\<rparr> in
            if blk_state s i = KV_BLOCK_STATE_CLEAN then
              let (r, s) = kv_set_block_state i KV_BLOCK_STATE_USED s in
              if r \<noteq> KV_OK then Some (0, s)
              else Some (write_pos s, s\<lparr>clean_blk_nums := dec8 (clean_blk_nums s)\<rparr>)
            else Some (write_pos s, s) })"

definition item_mark :: "nat \<Rightarrow> kv_mgr \<Rightarrow> int \<times> kv_mgr" where
  "item_mark off s =
     (let (res, s) = kv_set_item_state off KV_ITEM_STATE_DELETE s in
      if res \<noteq> KV_OK then (res, s)
      else if blk_state s (blk_of off) = KV_BLOCK_STATE_USED
      then kv_set_block_state (blk_of off) KV_BLOCK_STATE_DIRTY s
      else (res, s))"

text \<open>Deleting an item itself, or, for an update, the item it replaces if that is still there.\<close>

datatype del_flag = KV_DELETE_FLAG | KV_UPDATE_FLAG

fun kv_item_del :: "kv_item \<Rightarrow> del_flag \<Rightarrow> kv_mgr \<Rightarrow> int \<times> kv_mgr" where
  "kv_item_del item KV_DELETE_FLAG s = item_mark (it_pos item) s"
| "kv_item_del item KV_UPDATE_FLAG s =
     (let off = origin_off (it_hdr item); hdr = read_hdr off s in
      if h_magic hdr \<noteq> KV_ITEM_MAGIC_NUM \<or> h_state hdr \<noteq> KV_ITEM_STATE_NORMAL \<or> key_len hdr \<noteq> key_len (it_hdr item)
      then (KV_OK, s)
      else if \<not> mem_ok s then (KV_ERR_MALLOC_FAILED, s)
      else if kv_flash_read (off + KV_ITEM_HDR_SIZE) (key_len hdr) s
              \<noteq> kv_flash_read (it_pos item + KV_ITEM_HDR_SIZE) (key_len hdr) s then (KV_OK, s)
      else item_mark off s)"

subsection \<open>Going through a block\<close>

text \<open>What a callback returns: its code, the item with what it stored there, and the state.\<close>

type_synonym item_func = "kv_item \<Rightarrow> kv_mgr \<Rightarrow> int \<times> kv_item \<times> kv_mgr"

definition mark_dirty :: "nat \<Rightarrow> kv_mgr \<Rightarrow> kv_mgr" where
  "mark_dirty blk s =
     (if blk_state s blk = KV_BLOCK_STATE_USED then snd (kv_set_block_state blk KV_BLOCK_STATE_DIRTY s) else s)"

definition traverse_done :: "nat \<Rightarrow> nat \<Rightarrow> kv_mgr \<Rightarrow> kv_mgr" where
  "traverse_done blk pos s =
     s\<lparr>blk_space := (blk_space s)(blk := if pos < blk_start blk + KV_BLOCK_SIZE
         then blk_start blk + KV_BLOCK_SIZE - pos else KV_ITEM_HDR_SIZE)\<rparr>"

definition bad_hdr :: "item_hdr \<Rightarrow> bool" where
  "bad_hdr h \<longleftrightarrow> h_magic h \<noteq> KV_ITEM_MAGIC_NUM \<or> KV_MAX_VAL_LEN < val_len h \<or> KV_MAX_KEY_LEN < key_len h
     \<or> val_len h = 0 \<or> key_len h = 0"

function (sequential) traverse_loop :: "item_func \<Rightarrow> nat \<Rightarrow> nat \<Rightarrow> kv_mgr \<Rightarrow> kv_item option \<times> kv_mgr" where
  "traverse_loop func blk pos s =
     (let lim = blk_start blk + KV_BLOCK_SIZE; hdr = read_hdr pos s in
      if \<not> mem_ok s then (None, s)
      else if h_magic hdr = 0xFF \<and> h_state hdr = 0xFF then (None, traverse_done blk pos s)
      else if bad_hdr hdr then
        let s = mark_dirty blk s; pos = pos + KV_ITEM_HDR_SIZE in
        if pos + KV_ITEM_HDR_SIZE < lim then traverse_loop func blk pos s else (None, traverse_done blk pos s)
      else
        let len = KV_ALIGN (KV_ITEM_HDR_SIZE + key_len hdr + val_len hdr) in
        if h_state hdr = KV_ITEM_STATE_NORMAL then
          (case func \<lparr>it_hdr = hdr, it_store = [], it_len = key_len hdr + val_len hdr, it_pos = pos\<rparr> s of
             (res, item, s) \<Rightarrow>
               if res = KV_OK then (Some item, s)
               else if res \<noteq> KV_LOOP_CONTINUE then (None, s)
               else if pos + len + KV_ITEM_HDR_SIZE < lim then traverse_loop func blk (pos + len) s
               else (None, traverse_done blk (pos + len) s))
        else
          let s = mark_dirty blk s in
          if pos + len + KV_ITEM_HDR_SIZE < lim then traverse_loop func blk (pos + len) s
          else (None, traverse_done blk (pos + len) s))"
  by pat_completeness auto
termination
  by (relation "measure (\<lambda>(func, blk, pos, s). blk_start blk + 262144 - pos)") (auto simp: KV_ALIGN_def)

declare traverse_loop.simps [simp del]

definition kv_item_traverse :: "item_func \<Rightarrow> nat \<Rightarrow> kv_mgr \<Rightarrow> kv_item option \<times> kv_mgr" where
  "kv_item_traverse func blk s = traverse_loop func blk (blk_start blk + KV_BLOCK_HDR_SIZE) s"

end
