(* ===== verification/KvOps.thy ===== *)
theory KvOps
  imports KvStore
begin

text \<open>
  The operations of the key-value store (component/kv/kv.c): the callbacks, storing, updating,
  deleting, garbage collection and initialisation. The lock brackets every operation. A writer
  that finds a collection pending waits until it has run: the model runs it there.
\<close>

subsection \<open>Callbacks\<close>

definition item_recovery_cb :: item_func where
  "item_recovery_cb item s =
     (if \<not> mem_ok s then (KV_ERR_MALLOC_FAILED, item, s)
      else
        let p = kv_flash_read (it_pos item + KV_ITEM_HDR_SIZE) (it_len item) s;
            s = (if h_crc (it_hdr item) = calc_crc8 p then
                   (if origin_off (it_hdr item) \<noteq> 0 \<and> it_pos item \<noteq> origin_off (it_hdr item)
                    then snd (kv_item_del item KV_UPDATE_FLAG s) else s)
                 else snd (kv_item_del item KV_DELETE_FLAG s))
        in (KV_LOOP_CONTINUE, item, s))"

definition item_find_cb :: "bytes \<Rightarrow> item_func" where
  "item_find_cb key item s =
     (if key_len (it_hdr item) \<noteq> length key then (KV_LOOP_CONTINUE, item, s)
      else if \<not> mem_ok s then (KV_ERR_MALLOC_FAILED, item, s)
      else
        let item = item\<lparr>it_store := kv_flash_read (it_pos item + KV_ITEM_HDR_SIZE) (it_len item) s\<rparr>
        in if take (length key) (it_store item) = key then (KV_OK, item, s) else (KV_LOOP_CONTINUE, item, s))"

definition item_gc_cb :: item_func where
  "item_gc_cb item s =
     (let len = KV_ALIGN (KV_ITEM_HDR_SIZE + it_len item) in
      if \<not> mem_ok s then (KV_ERR_MALLOC_FAILED, item, s)
      else
        let p = kv_flash_read (it_pos item) len s;
            (r, s) = kv_flash_write (write_pos s) p s
        in if r \<noteq> KV_OK then (KV_ERR_FLASH_WRITE, item, s)
           else
             let s = s\<lparr>write_pos := write_pos s + len\<rparr>; idx = blk_of (write_pos s)
             in (KV_LOOP_CONTINUE, item, s\<lparr>blk_space := (blk_space s)(idx := sub32 (blk_space s idx) len)\<rparr>))"

definition item_del_by_prefix_cb :: "bytes \<Rightarrow> item_func" where
  "item_del_by_prefix_cb prefix item s =
     (if key_len (it_hdr item) < length prefix then (KV_LOOP_CONTINUE, item, s)
      else if \<not> mem_ok s then (KV_ERR_MALLOC_FAILED, item, s)
      else
        let key = kv_flash_read (it_pos item + KV_ITEM_HDR_SIZE) (key_len (it_hdr item)) s
        in (KV_LOOP_CONTINUE, item,
            if take (length prefix) key = prefix then snd (kv_item_del item KV_DELETE_FLAG s) else s))"

fun search_in :: "bytes \<Rightarrow> nat list \<Rightarrow> kv_mgr \<Rightarrow> kv_item option \<times> kv_mgr" where
  "search_in key [] s = (None, s)"
| "search_in key (i # is) s =
     (if blk_state s i \<noteq> KV_BLOCK_STATE_CLEAN then
        (case kv_item_traverse (item_find_cb key) i s of
           (Some item, s) \<Rightarrow> (Some item, s)
         | (None, s) \<Rightarrow> search_in key is s)
      else search_in key is s)"

definition kv_item_search :: "bytes \<Rightarrow> kv_mgr \<Rightarrow> kv_item option \<times> kv_mgr" where
  "kv_item_search key s = search_in key [0..<KV_BLOCK_NUMS] s"

subsection \<open>Storing\<close>

definition item_bytes :: "u8 \<Rightarrow> nat \<Rightarrow> bytes \<Rightarrow> bytes \<Rightarrow> bytes" where
  "item_bytes state origin key val =
     (let body = hdr_bytes \<lparr>h_magic = KV_ITEM_MAGIC_NUM, h_state = state, h_crc = calc_crc8 (key @ val),
                    key_len = length key, val_len = length val, origin_off = origin\<rparr> @ key @ val
      in body @ replicate (KV_ALIGN (length body) - length body) 0)"

definition kv_item_store :: "bytes \<Rightarrow> bytes \<Rightarrow> nat \<Rightarrow> kv_mgr \<Rightarrow> (int \<times> kv_mgr) option" where
  "kv_item_store key val origin s =
     (if \<not> mem_ok s then Some (KV_ERR_MALLOC_FAILED, s)
      else
        let p = item_bytes KV_ITEM_STATE_NORMAL origin key val; len = length p in
        do { (pos, s) \<leftarrow> kv_calc_position len s;
             if 0 < pos then
               let (res, s) = kv_flash_write pos p s in
               if res = KV_OK then
                 let s = s\<lparr>write_pos := pos + len\<rparr>; idx = blk_of (write_pos s)
                 in Some (res, s\<lparr>blk_space := (blk_space s)(idx := sub32 (blk_space s idx) len)\<rparr>)
               else Some (res, s)
             else Some (KV_ERR_NO_SPACE, s) })"

definition kv_item_update :: "kv_item \<Rightarrow> bytes \<Rightarrow> bytes \<Rightarrow> kv_mgr \<Rightarrow> (int \<times> kv_mgr) option" where
  "kv_item_update item key val s =
     (if val_len (it_hdr item) = length val
         \<and> take (length val) (drop (key_len (it_hdr item)) (it_store item)) = val
      then Some (KV_OK, s)
      else do { (res, s) \<leftarrow> kv_item_store key val (it_pos item) s;
                if res \<noteq> KV_OK then Some (res, s)
                else Some (kv_item_del item KV_DELETE_FLAG s) })"

subsection \<open>Garbage collection\<close>

text \<open>The dirty block to collect, searched cyclically behind the current one.\<close>

fun gc_victim :: "(nat \<Rightarrow> u8) \<Rightarrow> nat list \<Rightarrow> nat option" where
  "gc_victim st [] = None"
| "gc_victim st (i # is) = (if st i = KV_BLOCK_STATE_DIRTY then Some i else gc_victim st is)"

fun first_clean :: "(nat \<Rightarrow> u8) \<Rightarrow> nat list \<Rightarrow> nat option" where
  "first_clean st [] = None"
| "first_clean st (i # is) = (if st i = KV_BLOCK_STATE_CLEAN then Some i else first_clean st is)"

definition gc_order :: "nat \<Rightarrow> nat list" where
  "gc_order blk = map (\<lambda>j. (blk + 1 + j) mod KV_BLOCK_NUMS) [0..<KV_BLOCK_NUMS]"

definition gc_collect :: "nat \<Rightarrow> nat \<Rightarrow> kv_mgr \<Rightarrow> kv_mgr" where
  "gc_collect gc_idx i s =
     (let (_, s) = kv_item_traverse item_gc_cb i s;
          (r, s) = kv_block_format i s
      in if r \<noteq> KV_OK then s
         else let (_, s) = kv_set_block_state gc_idx KV_BLOCK_STATE_USED s
              in s\<lparr>clean_blk_nums := dec8 (clean_blk_nums s)\<rparr>)"

definition kv_gc_task :: "kv_mgr \<Rightarrow> kv_mgr" where
  "kv_gc_task s =
     (let origin_pos = write_pos s;
          s' = (if clean_blk_nums s = 0 then s
                else case first_clean (blk_state s) [0..<KV_BLOCK_NUMS] of
                  None \<Rightarrow> s
                | Some gc_idx \<Rightarrow>
                    let s1 = s\<lparr>write_pos := blk_start gc_idx + KV_BLOCK_HDR_SIZE\<rparr> in
                    (case gc_victim (blk_state s1) (gc_order (blk_of origin_pos)) of
                       None \<Rightarrow> s1\<lparr>write_pos := origin_pos\<rparr>
                     | Some i \<Rightarrow> gc_collect gc_idx i s1))
      in s'\<lparr>gc_trigger := False\<rparr>)"

text \<open>Waiting for a collection that has been started.\<close>

definition kv_gc_wait :: "kv_mgr \<Rightarrow> kv_mgr" where
  "kv_gc_wait s = (if gc_trigger s then kv_gc_task (s\<lparr>gc_waiter := inc8 (gc_waiter s)\<rparr>) else s)"

subsection \<open>The interface\<close>

definition kv_item_set :: "bytes \<Rightarrow> bytes \<Rightarrow> kv_mgr \<Rightarrow> (int \<times> kv_mgr) option" where
  "kv_item_set key val s =
     (if val = [] \<or> KV_MAX_KEY_LEN < length key \<or> KV_MAX_VAL_LEN < length val
      then Some (KV_ERR_INVALID_PARAM, s)
      else
        let (item, s) = kv_item_search key (kv_gc_wait s) in
        case item of
          Some item \<Rightarrow> kv_item_update item key val s
        | None \<Rightarrow> kv_item_store key val 0 s)"

text \<open>The code, the bytes copied to the buffer, and the length stored in \<open>buffer_len\<close>.\<close>

definition kv_item_get :: "bytes \<Rightarrow> int \<Rightarrow> kv_mgr \<Rightarrow> (int \<times> bytes \<times> int) \<times> kv_mgr" where
  "kv_item_get key buffer_len s =
     (if buffer_len \<le> 0 then ((KV_ERR_INVALID_PARAM, [], buffer_len), s)
      else
        let (item, s) = kv_item_search key s in
        case item of
          None \<Rightarrow> ((KV_ERR_NOT_FOUND, [], buffer_len), s)
        | Some item \<Rightarrow>
            let n = val_len (it_hdr item) in
            if buffer_len < int n then ((KV_ERR_NO_SPACE, [], int n), s)
            else ((KV_OK, take n (drop (key_len (it_hdr item)) (it_store item)), int n), s))"

definition kv_item_delete :: "bytes \<Rightarrow> kv_mgr \<Rightarrow> int \<times> kv_mgr" where
  "kv_item_delete key s =
     (let (item, s) = kv_item_search key s in
      case item of
        None \<Rightarrow> (KV_ERR_NOT_FOUND, s)
      | Some item \<Rightarrow> kv_item_del item KV_DELETE_FLAG s)"

definition kv_item_delete_by_prefix :: "bytes \<Rightarrow> kv_mgr \<Rightarrow> int \<times> kv_mgr" where
  "kv_item_delete_by_prefix prefix s =
     (KV_OK, fold (\<lambda>i s. snd (kv_item_traverse (item_del_by_prefix_cb prefix) i s)) [0..<KV_BLOCK_NUMS] s)"

subsection \<open>Initialisation\<close>

definition invalid_blk_state :: "u8 \<Rightarrow> bool" where
  "invalid_blk_state st \<longleftrightarrow> st \<notin> {KV_BLOCK_STATE_USED, KV_BLOCK_STATE_CLEAN, KV_BLOCK_STATE_DIRTY}"

text \<open>The loop over the blocks: the unclean ones, last first, or the code that ends it.\<close>

fun init_blocks :: "nat list \<Rightarrow> nat list \<Rightarrow> kv_mgr \<Rightarrow> (int + nat list) \<times> kv_mgr" where
  "init_blocks [] unclean s = (Inr unclean, s)"
| "init_blocks (i # is) unclean s =
     (let hdr = kv_flash_read (blk_start i) KV_BLOCK_HDR_SIZE s in
      if hdr ! 0 = KV_BLOCK_MAGIC_NUM \<and> \<not> invalid_blk_state (hdr ! 1) then
        let s = s\<lparr>blk_state := (blk_state s)(i := hdr ! 1)\<rparr>;
            (_, s) = kv_item_traverse item_recovery_cb i s
        in if hdr ! 1 = KV_BLOCK_STATE_CLEAN then
             (if blk_space s i \<noteq> KV_BLOCK_SIZE - KV_BLOCK_HDR_SIZE then init_blocks is (i # unclean) s
              else init_blocks is unclean (s\<lparr>clean_blk_nums := inc8 (clean_blk_nums s)\<rparr>))
           else init_blocks is unclean s
      else
        let (res, s) = kv_block_format i s in
        if res \<noteq> KV_OK then (Inl res, s) else init_blocks is unclean s)"

fun init_unclean :: "nat list \<Rightarrow> kv_mgr \<Rightarrow> int \<times> kv_mgr" where
  "init_unclean [] s = (KV_OK, s)"
| "init_unclean (i # is) s =
     (let (res, s) = (if KV_RESERVED_BLOCKS \<le> clean_blk_nums s
                      then kv_set_block_state i KV_BLOCK_STATE_DIRTY s else kv_block_format i s)
      in if res \<noteq> KV_OK then (res, s) else init_unclean is s)"

text \<open>The first used or dirty block that is followed by a clean one.\<close>

fun init_write_pos :: "nat list \<Rightarrow> kv_mgr \<Rightarrow> kv_mgr" where
  "init_write_pos [] s = s"
| "init_write_pos (i # is) s =
     (if (blk_state s i = KV_BLOCK_STATE_USED \<or> blk_state s i = KV_BLOCK_STATE_DIRTY)
         \<and> blk_state s (if i + 1 = KV_BLOCK_NUMS then 0 else i + 1) = KV_BLOCK_STATE_CLEAN
      then s\<lparr>write_pos := blk_start i + KV_BLOCK_SIZE - blk_space s i\<rparr>
      else init_write_pos is s)"

definition kv_init_internal :: "kv_mgr \<Rightarrow> int \<times> kv_mgr" where
  "kv_init_internal s =
     (let (r, s) = init_blocks [0..<KV_BLOCK_NUMS] [] s in
      case r of Inl res \<Rightarrow> (res, s)
      | Inr unclean \<Rightarrow>
          let (res, s) = init_unclean unclean s in
          if res \<noteq> KV_OK then (res, s)
          else
            let (res, s) = (if clean_blk_nums s = 0 then kv_block_format 0 s else (KV_OK, s)) in
            if res \<noteq> KV_OK then (res, s)
            else if clean_blk_nums s = KV_BLOCK_NUMS then
              let (res, s) = kv_set_block_state 0 KV_BLOCK_STATE_USED (s\<lparr>write_pos := KV_BLOCK_HDR_SIZE\<rparr>) in
              if res \<noteq> KV_OK then (res, s) else (KV_OK, s\<lparr>clean_blk_nums := dec8 (clean_blk_nums s)\<rparr>)
            else (KV_OK, init_write_pos [0..<KV_BLOCK_NUMS] s))"

definition kv_mgr_zero :: "kv_mgr \<Rightarrow> kv_mgr" where
  "kv_mgr_zero s =
     s\<lparr>kv_inited := False, gc_trigger := False, gc_waiter := 0, clean_blk_nums := 0, write_pos := 0,
       blk_space := (\<lambda>_. 0), blk_state := (\<lambda>_. 0)\<rparr>"

text \<open>The lock and the semaphore are created.\<close>

definition kv_init :: "kv_mgr \<Rightarrow> int \<times> kv_mgr" where
  "kv_init s =
     (if kv_inited s then (KV_OK, s)
      else
        let (res, s) = kv_init_internal (kv_mgr_zero s) in
        if res \<noteq> KV_OK then (res, s)
        else
          let s = s\<lparr>kv_inited := True\<rparr> in
          (KV_OK, if blk_space s (blk_of (write_pos s)) < KV_ITEM_MAX_LEN \<and> clean_blk_nums s < KV_RESERVED_BLOCKS + 1
                  then kv_trigger_gc s else s))"

definition kv_deinit :: "kv_mgr \<Rightarrow> kv_mgr" where
  "kv_deinit s = s\<lparr>kv_inited := False\<rparr>"

end
