(* ===== verification/KvLog.thy ===== *)
theory KvLog
  imports KvOps "HOL-Library.Multiset"
begin

text \<open>
  The contents of the flash store as logs: a block holds its header, then the entries that were
  appended to it, then erased bytes. The lemmas say what reading, appending, deleting and going
  through a block do to its log; the operations are followed on the logs of all blocks.
\<close>

subsection \<open>Programming the flash\<close>

lemma page_program_append:
  "page_program (a + length x) y (page_program a x fl) = page_program a (x @ y) fl"
  by (rule ext) (auto simp: page_program_def nth_append)

lemma page_program_nil [simp]: "page_program a [] fl = fl"
  by (rule ext) (auto simp: page_program_def)

text \<open>Programming bytes over themselves changes nothing, so filling a page up is harmless.\<close>

lemma page_program_fill:
  "page_program a (x @ map fl [a + length x..<b]) fl = page_program a x fl"
  by (rule ext) (auto simp: page_program_def nth_append)

lemma page_program_prefill:
  "page_program a (map fl [a..<b] @ x @ y) fl = page_program b (x @ y) fl" if "a \<le> b"
  using that by (auto simp: page_program_def nth_append fun_eq_iff)

lemma write_pages_eq: "write_pages a buf fl = page_program a buf fl"
proof (induction a buf fl rule: write_pages.induct)
  case (1 a buf fl)
  show ?case
  proof (cases "512 \<le> length buf")
    case True
    then have "write_pages a buf fl =
        page_program (a + length (take 512 buf)) (drop 512 buf) (page_program a (take 512 buf) fl)"
      using 1 by (simp add: write_pages.simps [of a buf])
    then show ?thesis by (simp only: page_program_append append_take_drop_id)
  next
    case False
    then show ?thesis by (simp add: write_pages.simps [of a buf] page_program_fill)
  qed
qed

lemma page_program_part:
  assumes "po < 512" "po = off mod 512" "n \<le> length buf" "n \<le> 512 - po"
  shows "page_program (off - po) (take po (map fl [off - po..<off - po + 512]) @ take n buf @
            drop (po + n) (map fl [off - po..<off - po + 512])) fl = page_program off (take n buf) fl"
proof -
  let ?p = "off - po"
  have le: "po \<le> off" using assms(2) by simp
  have "take po (map fl [?p..<?p + 512]) = map fl [?p..<off]"
    using assms(1) le by (simp add: take_map)
  moreover have "drop (po + n) (map fl [?p..<?p + 512]) = map fl [off + length (take n buf)..<?p + 512]"
    using assms(3) le by (simp add: drop_map add.assoc [symmetric])
  ultimately show ?thesis
    using le by (simp only: page_program_prefill diff_le_self page_program_fill)
qed

lemma kv_flash_write_eq:
  assumes "flash_ok s"
  shows "kv_flash_write off buf s = (0, s\<lparr>flash := page_program off buf (flash s)\<rparr>)"
proof (cases "off mod 512 = 0")
  case True
  then show ?thesis using assms by (simp add: kv_flash_write_def write_pages_eq)
next
  case False
  define po where "po = off mod 512"
  define n where "n = (if 512 < po + length buf then 512 - po else length buf)"
  have po: "po < 512" "po \<le> off" by (simp_all add: po_def)
  have n: "n \<le> length buf" "n \<le> 512 - po" using po by (auto simp: n_def)
  have "write_pages (off - po + 512) (drop n buf) (page_program off (take n buf) (flash s))
        = page_program off buf (flash s)"
  proof (cases "512 < po + length buf")
    case True
    then have "off - po + 512 = off + length (take n buf)" using po by (simp add: n_def)
    then show ?thesis by (simp only: write_pages_eq page_program_append append_take_drop_id)
  next
    case False
    then show ?thesis by (simp add: write_pages_eq n_def)
  qed
  then show ?thesis
    using False assms po page_program_part [OF po(1) po_def n]
    by (simp add: kv_flash_write_def Let_def po_def [symmetric] n_def [symmetric] del: drop_append take_append)
qed

subsection \<open>What a region holds\<close>

definition stored :: "(nat \<Rightarrow> u8) \<Rightarrow> nat \<Rightarrow> bytes \<Rightarrow> bool" where
  "stored fl pos bs \<longleftrightarrow> (\<forall>j < length bs. fl (pos + j) = bs ! j)"

definition blank :: "(nat \<Rightarrow> u8) \<Rightarrow> nat \<Rightarrow> nat \<Rightarrow> bool" where
  "blank fl p q \<longleftrightarrow> (\<forall>a. p \<le> a \<and> a < q \<longrightarrow> fl a = 0xFF)"

lemma stored_nil [simp]: "stored fl p []"
  by (simp add: stored_def)

lemma stored_append [simp]: "stored fl p (x @ y) \<longleftrightarrow> stored fl p x \<and> stored fl (p + length x) y"
proof
  assume s: "stored fl p (x @ y)"
  have "fl (p + length x + j) = y ! j" if "j < length y" for j
    using s [unfolded stored_def, rule_format, of "length x + j"] that
    by (simp add: add.assoc nth_append_length_plus)
  moreover have "fl (p + j) = x ! j" if "j < length x" for j
    using s [unfolded stored_def, rule_format, of j] that by (simp add: nth_append)
  ultimately show "stored fl p x \<and> stored fl (p + length x) y" by (simp add: stored_def)
next
  assume s: "stored fl p x \<and> stored fl (p + length x) y"
  have "fl (p + j) = (x @ y) ! j" if "j < length (x @ y)" for j
  proof (cases "j < length x")
    case False
    then show ?thesis using s that [simplified]
      by (auto simp: stored_def nth_append dest: spec [of _ "j - length x"])
  qed (use s in \<open>simp add: stored_def nth_append\<close>)
  then show "stored fl p (x @ y)" by (simp add: stored_def)
qed

lemma stored_read: "stored fl p bs \<Longrightarrow> map fl [p..<p + length bs] = bs"
  by (rule nth_equalityI) (simp_all add: stored_def)

lemma stored_cong:
  "(\<And>a. p \<le> a \<Longrightarrow> a < p + length bs \<Longrightarrow> fl a = fl' a) \<Longrightarrow> stored fl p bs = stored fl' p bs"
  by (simp add: stored_def)

lemma blank_cong: "(\<And>a. p \<le> a \<Longrightarrow> a < q \<Longrightarrow> fl a = fl' a) \<Longrightarrow> blank fl p q = blank fl' p q"
  by (auto simp: blank_def)

lemma page_program_outside: "a < off \<or> off + length b \<le> a \<Longrightarrow> page_program off b fl a = fl a"
  by (auto simp: page_program_def)

lemma page_program_byte: "page_program q [c] fl a = (if a = q then fl a AND c else fl a)"
  by (auto simp: page_program_def)

lemma stored_and: "(0xFF :: u8) AND b = b"
proof -
  have "(0xFF :: u8) = - 1" by simp
  then show ?thesis by (simp only: and.left_neutral)
qed

lemma stored_program:
  "blank fl p (p + length bs) \<Longrightarrow> stored (page_program p bs fl) p bs"
  by (auto simp: stored_def blank_def page_program_def stored_and)

text \<open>A byte programmed inside a stored text is combined with it.\<close>

lemma stored_program_byte:
  "stored fl p (x @ b # y) \<Longrightarrow> stored (page_program (p + length x) [c] fl) p (x @ (b AND c) # y)"
proof -
  assume s: "stored fl p (x @ b # y)"
  have "page_program (p + length x) [c] fl (p + j) = (x @ (b AND c) # y) ! j" if j: "j < length (x @ b # y)" for j
  proof (cases "j = length x")
    case True
    then show ?thesis using s [unfolded stored_def, rule_format, of j] by (simp add: page_program_def)
  next
    case False
    then have "page_program (p + length x) [c] fl (p + j) = fl (p + j)"
      by (auto simp: page_program_def)
    then show ?thesis
      using s [unfolded stored_def, rule_format, of j] j False by (auto simp: nth_append nth_Cons split: nat.splits)
  qed
  then show ?thesis by (simp add: stored_def)
qed

subsection \<open>Entries\<close>

record entry =
  e_live :: bool
  e_origin :: nat
  e_key :: bytes
  e_val :: bytes

definition live_state :: "bool \<Rightarrow> u8" where
  "live_state b = (if b then KV_ITEM_STATE_NORMAL else KV_ITEM_STATE_DELETE)"

definition enc :: "entry \<Rightarrow> bytes" where
  "enc e = item_bytes (live_state (e_live e)) (e_origin e) (e_key e) (e_val e)"

text \<open>The origin of an entry is 0 or a place inside a block where an item with its key fits.\<close>

definition origin_ok :: "nat \<Rightarrow> nat \<Rightarrow> bool" where
  "origin_ok off n \<longleftrightarrow> off = 0 \<or> (\<exists>k<16. blk_start k + 4 \<le> off \<and> off + 10 + n \<le> blk_start k + 262144)"

definition ok_entry :: "entry \<Rightarrow> bool" where
  "ok_entry e \<longleftrightarrow> 0 < length (e_key e) \<and> length (e_key e) \<le> 128 \<and> 0 < length (e_val e) \<and> length (e_val e) \<le> 512
     \<and> origin_ok (e_origin e) (length (e_key e))"

lemma origin_ok_0 [simp]: "origin_ok 0 n"
  by (simp add: origin_ok_def)

lemma origin_ok_less: "origin_ok off n \<Longrightarrow> off < 2 ^ 32"
  by (auto simp: origin_ok_def blk_start_def)

definition e_hdr :: "entry \<Rightarrow> item_hdr" where
  "e_hdr e = \<lparr>h_magic = KV_ITEM_MAGIC_NUM, h_state = live_state (e_live e), h_crc = calc_crc8 (e_key e @ e_val e),
     key_len = length (e_key e), val_len = length (e_val e), origin_off = e_origin e\<rparr>"

definition e_pad :: "entry \<Rightarrow> nat" where
  "e_pad e = KV_ALIGN (10 + length (e_key e) + length (e_val e)) - (10 + length (e_key e) + length (e_val e))"

definition e_len :: "entry \<Rightarrow> nat" where
  "e_len e = KV_ALIGN (10 + length (e_key e) + length (e_val e))"

lemma KV_ALIGN_ge: "n \<le> KV_ALIGN n"
  unfolding KV_ALIGN_def by linarith

lemma length_hdr_bytes [simp]: "length (hdr_bytes h) = 10"
  by (simp add: hdr_bytes_def le16_def le32_def)

lemma enc_eq: "enc e = hdr_bytes (e_hdr e) @ e_key e @ e_val e @ replicate (e_pad e) 0"
  by (simp add: enc_def item_bytes_def e_hdr_def Let_def e_pad_def add.assoc)

lemma length_enc [simp]: "length (enc e) = e_len e"
  using KV_ALIGN_ge [of "10 + length (e_key e) + length (e_val e)"]
  by (simp add: enc_eq e_pad_def e_len_def)

lemma e_len_bounds: "ok_entry e \<Longrightarrow> 12 \<le> e_len e \<and> e_len e \<le> 652"
proof -
  assume ok: "ok_entry e"
  define n where "n = length (e_key e) + length (e_val e)"
  have "2 \<le> n" "n \<le> 640" using ok unfolding ok_entry_def n_def by linarith+
  then have "15 div 4 \<le> (10 + n + 3) div 4" "(10 + n + 3) div 4 \<le> 653 div 4"
    by (intro div_le_mono; linarith)+
  moreover define q where "q = (10 + n + 3) div 4"
  ultimately have "3 \<le> q" "q \<le> 163" by simp_all
  moreover have "e_len e = q * 4" by (simp only: e_len_def KV_ALIGN_def n_def q_def add.assoc)
  ultimately show ?thesis by simp
qed

lemma unat_byte: "unat (word_of_nat n :: u8) = n mod 256"
  by (simp add: unat_of_nat)

lemma split16: "n < 65536 \<Longrightarrow> n mod 256 + 256 * (n div 256 mod 256) = (n::nat)"
  using div_less_iff_less_mult [of 256 n 256] by (simp add: mod_mult_div_eq)

lemma split32:
  assumes "n < (4294967296::nat)"
  shows "n mod 256 + 256 * (n div 256 mod 256) + 65536 * (n div 65536 mod 256) + 16777216 * (n div 16777216 mod 256) = n"
proof -
  define a where "a = n div 256"
  define b where "b = a div 256"
  define c where "c = b div 256"
  have d: "n div 65536 = b" "n div 16777216 = c"
    by (simp_all add: a_def b_def c_def flip: div_mult2_eq)
  have "c = n div 16777216" by (simp add: d)
  then have "c < 256" using assms by (simp only: div_less_iff_less_mult)
  then have "c mod 256 = c" by simp
  moreover have "n = 256 * a + n mod 256" "a = 256 * b + a mod 256" "b = 256 * c + b mod 256"
    by (simp_all add: a_def b_def c_def)
  ultimately show ?thesis unfolding d a_def [symmetric] by linarith
qed

lemma hdr_of_hdr_bytes:
  assumes "key_len h < 256" "val_len h < 65536" "origin_off h < 2 ^ 32"
  shows "hdr_of (hdr_bytes h @ r) = h"
proof -
  have "hdr_bytes h @ r = h_magic h # h_state h # h_crc h # word_of_nat (key_len h) # word_of_nat (val_len h)
      # word_of_nat (val_len h div 256) # word_of_nat (origin_off h) # word_of_nat (origin_off h div 256)
      # word_of_nat (origin_off h div 65536) # word_of_nat (origin_off h div 16777216) # r"
    by (simp add: hdr_bytes_def le16_def le32_def)
  then show ?thesis
    using assms split16 [of "val_len h"] split32 [of "origin_off h"]
    by (simp add: hdr_of_def unat_byte)
qed

subsection \<open>Going through an entry\<close>

definition encs :: "entry list \<Rightarrow> bytes" where
  "encs l = concat (map enc l)"

lemma encs_simps [simp]: "encs [] = []" "encs (e # l) = enc e @ encs l" "encs (l @ m) = encs l @ encs m"
  by (simp_all add: encs_def)

definition item_at :: "nat \<Rightarrow> entry \<Rightarrow> kv_item" where
  "item_at pos e = \<lparr>it_hdr = e_hdr e, it_store = [], it_len = length (e_key e) + length (e_val e), it_pos = pos\<rparr>"

definition traverse_next :: "item_func \<Rightarrow> nat \<Rightarrow> nat \<Rightarrow> kv_mgr \<Rightarrow> kv_item option \<times> kv_mgr" where
  "traverse_next func blk pos s =
     (if pos + 10 < blk_start blk + 262144 then traverse_loop func blk pos s else (None, traverse_done blk pos s))"

lemma e_hdr_sel [simp]:
  "h_magic (e_hdr e) = KV_ITEM_MAGIC_NUM" "h_state (e_hdr e) = live_state (e_live e)"
  "h_crc (e_hdr e) = calc_crc8 (e_key e @ e_val e)" "key_len (e_hdr e) = length (e_key e)"
  "val_len (e_hdr e) = length (e_val e)" "origin_off (e_hdr e) = e_origin e"
  by (simp_all add: e_hdr_def)

lemma item_at_sel [simp]:
  "it_hdr (item_at pos e) = e_hdr e" "it_pos (item_at pos e) = pos" "it_store (item_at pos e) = []"
  "it_len (item_at pos e) = length (e_key e) + length (e_val e)"
  by (simp_all add: item_at_def)

lemma live_state_simps [simp]:
  "live_state b = KV_ITEM_STATE_NORMAL \<longleftrightarrow> b" "live_state b \<noteq> 0xFF"
  by (simp_all add: live_state_def kv_consts)

lemma read_stored: "stored (flash s) p (bs @ r) \<Longrightarrow> kv_flash_read p (length bs) s = bs"
  using stored_read [of "flash s" p bs] by (simp add: kv_flash_read_def)

lemma read_hdr_enc:
  assumes "stored (flash s) pos (enc e)" "ok_entry e"
  shows "read_hdr pos s = e_hdr e"
proof -
  have "kv_flash_read pos (length (hdr_bytes (e_hdr e))) s = hdr_bytes (e_hdr e)"
    using assms(1) by (intro read_stored) (simp only: enc_eq)
  then show ?thesis
    using hdr_of_hdr_bytes [of "e_hdr e" "[]"] assms(2) origin_ok_less [of "e_origin e" "length (e_key e)"]
    by (simp add: read_hdr_def ok_entry_def)
qed

lemma read_entry:
  assumes "stored (flash s) pos (enc e)"
  shows "kv_flash_read (pos + 10) (length (e_key e) + length (e_val e)) s = e_key e @ e_val e"
    and "kv_flash_read (pos + 10) (length (e_key e)) s = e_key e"
    and "kv_flash_read pos (e_len e) s = enc e"
proof -
  have "stored (flash s) (pos + 10) (e_key e @ e_val e)" "stored (flash s) (pos + 10) (e_key e)"
    using assms by (simp_all add: enc_eq)
  then show "kv_flash_read (pos + 10) (length (e_key e) + length (e_val e)) s = e_key e @ e_val e"
    "kv_flash_read (pos + 10) (length (e_key e)) s = e_key e"
    using read_stored [of s "pos + 10" "e_key e @ e_val e" "[]"] read_stored [of s "pos + 10" "e_key e" "[]"]
    by simp_all
  show "kv_flash_read pos (e_len e) s = enc e"
    using read_stored [of s pos "enc e" "[]"] assms by simp
qed

lemma not_bad_hdr: "ok_entry e \<Longrightarrow> \<not> bad_hdr (e_hdr e)"
  by (auto simp: bad_hdr_def ok_entry_def)

lemma magic_not_blank: "KV_ITEM_MAGIC_NUM \<noteq> 0xFF"
  by (simp add: kv_consts)

lemma traverse_live:
  assumes "mem_ok s" "stored (flash s) pos (enc e)" "ok_entry e" "e_live e"
  shows "traverse_loop func blk pos s =
    (case func (item_at pos e) s of (res, item, s) \<Rightarrow>
       if res = KV_OK then (Some item, s)
       else if res \<noteq> KV_LOOP_CONTINUE then (None, s)
       else traverse_next func blk (pos + e_len e) s)"
  using assms read_hdr_enc [OF assms(2,3)] not_bad_hdr [OF assms(3)] magic_not_blank
  by (simp add: traverse_loop.simps [of func blk pos s] Let_def item_at_def [symmetric] traverse_next_def e_len_def
      add.assoc split: prod.split)

lemma traverse_dead:
  assumes "mem_ok s" "stored (flash s) pos (enc e)" "ok_entry e" "\<not> e_live e"
  shows "traverse_loop func blk pos s = traverse_next func blk (pos + e_len e) (mark_dirty blk s)"
  using assms read_hdr_enc [OF assms(2,3)] not_bad_hdr [OF assms(3)] magic_not_blank
  by (simp add: traverse_loop.simps [of func blk pos s] Let_def traverse_next_def e_len_def add.assoc)

lemma traverse_blank:
  assumes "mem_ok s" "blank (flash s) pos (blk_start blk + 262144)"
  shows "traverse_next func blk pos s = (None, traverse_done blk pos s)"
proof (cases "pos + 10 < blk_start blk + 262144")
  case True
  then have "flash s pos = 0xFF" "flash s (Suc pos) = 0xFF" using assms(2) by (simp_all add: blank_def)
  then have "h_magic (read_hdr pos s) = 0xFF \<and> h_state (read_hdr pos s) = 0xFF"
    by (simp add: read_hdr_def hdr_of_def kv_flash_read_def)
  then show ?thesis
    using True assms(1) by (simp add: traverse_next_def traverse_loop.simps [of func blk pos s] Let_def)
qed (simp add: traverse_next_def)

text \<open>The first entry is read without the comparison with the end.\<close>

lemma kv_item_traverse_next: "kv_item_traverse func blk s = traverse_next func blk (blk_start blk + 4) s"
  by (simp add: kv_item_traverse_def traverse_next_def)

subsection \<open>The log of a block\<close>

definition log_at :: "(nat \<Rightarrow> u8) \<Rightarrow> nat \<Rightarrow> entry list \<Rightarrow> nat \<Rightarrow> bool" where
  "log_at fl pos l bnd \<longleftrightarrow> list_all ok_entry l \<and> stored fl pos (encs l) \<and> blank fl (pos + length (encs l)) bnd
     \<and> pos + length (encs l) < bnd"

lemma log_at_Nil [simp]: "log_at fl pos [] bnd \<longleftrightarrow> blank fl pos bnd \<and> pos < bnd"
  by (simp add: log_at_def)

lemma log_at_Cons [simp]:
  "log_at fl pos (e # l) bnd \<longleftrightarrow> ok_entry e \<and> stored fl pos (enc e) \<and> log_at fl (pos + e_len e) l bnd"
  by (auto simp: log_at_def add.assoc)

lemma log_at_append:
  "log_at fl pos (l @ m) bnd \<longleftrightarrow> list_all ok_entry l \<and> stored fl pos (encs l) \<and> log_at fl (pos + length (encs l)) m bnd"
  by (auto simp: log_at_def add.assoc)

lemma log_at_less: "log_at fl pos l bnd \<Longrightarrow> pos + length (encs l) < bnd"
  by (simp add: log_at_def)

lemma log_at_room:
  assumes "log_at fl pos (e # l) bnd"
  shows "pos + 10 < bnd"
  using log_at_less [OF assms] e_len_bounds [of e] assms by simp

lemma log_at_cong:
  "(\<And>a. pos \<le> a \<Longrightarrow> a < bnd \<Longrightarrow> fl a = fl' a) \<Longrightarrow> log_at fl pos l bnd = log_at fl' pos l bnd"
  unfolding log_at_def using stored_cong [of pos "encs l" fl fl'] blank_cong [of "pos + length (encs l)" bnd fl fl']
  by force

text \<open>Through a log, entry by entry.\<close>

lemma traverse_next_Cons:
  assumes "log_at (flash s) pos (e # l) (blk_start blk + 262144)"
  shows "traverse_next func blk pos s = traverse_loop func blk pos s"
  using log_at_room [OF assms] by (simp add: traverse_next_def)

fun find_entry :: "bytes \<Rightarrow> nat \<Rightarrow> entry list \<Rightarrow> kv_item option" where
  "find_entry key pos [] = None"
| "find_entry key pos (e # l) =
     (if e_live e \<and> e_key e = key then Some ((item_at pos e)\<lparr>it_store := e_key e @ e_val e\<rparr>)
      else find_entry key (pos + e_len e) l)"

lemma find_cb_entry:
  assumes "stored (flash s) pos (enc e)" "mem_ok s"
  shows "item_find_cb key (item_at pos e) s =
    (if e_key e = key then (KV_OK, (item_at pos e)\<lparr>it_store := e_key e @ e_val e\<rparr>, s)
     else (KV_LOOP_CONTINUE, if length (e_key e) = length key
       then (item_at pos e)\<lparr>it_store := e_key e @ e_val e\<rparr> else item_at pos e, s))"
proof (cases "length (e_key e) = length key")
  case True
  have "take (length (e_key e)) (e_key e @ e_val e) = e_key e" by simp
  then show ?thesis
    using assms(2) True read_entry(1) [OF assms(1)]
    by (auto simp: item_find_cb_def Let_def)
qed (auto simp: item_find_cb_def)

lemma mark_dirty_id: "blk_state s blk \<noteq> KV_BLOCK_STATE_USED \<Longrightarrow> mark_dirty blk s = s"
  by (simp add: mark_dirty_def)

lemma traverse_done_id:
  assumes "blk_space s blk = blk_start blk + 262144 - pos" "pos < blk_start blk + 262144"
  shows "traverse_done blk pos s = s"
proof -
  have "(blk_space s)(blk := blk_start blk + 262144 - pos) = blk_space s"
    using assms(1) by (intro fun_upd_idem)
  then show ?thesis using assms(2) by (simp add: traverse_done_def)
qed

lemma find_log:
  assumes "mem_ok s" "log_at (flash s) pos l (blk_start blk + 262144)"
    and "blk_state s blk = KV_BLOCK_STATE_USED \<longrightarrow> list_all e_live l"
    and "blk_space s blk = blk_start blk + 262144 - (pos + length (encs l))"
  shows "traverse_next (item_find_cb key) blk pos s = (find_entry key pos l, s)"
  using assms(2-)
proof (induction l arbitrary: pos)
  case Nil
  then show ?case using assms(1) by (simp add: traverse_blank traverse_done_id)
next
  case (Cons e l)
  have IH: "traverse_next (item_find_cb key) blk (pos + e_len e) s = (find_entry key (pos + e_len e) l, s)"
    using Cons by (simp add: add.assoc)
  have e: "stored (flash s) pos (enc e)" "ok_entry e" using Cons.prems(1) by simp_all
  show ?case
  proof (cases "e_live e")
    case True
    then show ?thesis
      using traverse_next_Cons [OF Cons.prems(1)] traverse_live [OF assms(1) e True]
      by (simp add: find_cb_entry [OF e(1) assms(1)] IH)
  next
    case False
    then have "mark_dirty blk s = s" using Cons.prems(2) by (simp add: mark_dirty_id)
    then show ?thesis
      using traverse_next_Cons [OF Cons.prems(1)] traverse_dead [OF assms(1) e False] False
      by (simp add: IH)
  qed
qed

lemma find_entry_None: "find_entry key pos l = None \<longleftrightarrow> (\<forall>e \<in> set l. e_live e \<longrightarrow> e_key e \<noteq> key)"
  by (induction l arbitrary: pos) auto

lemma find_entry_Some:
  "find_entry key pos l = Some item \<Longrightarrow>
   \<exists>xs e ys. l = xs @ e # ys \<and> e_live e \<and> e_key e = key \<and>
     item = (item_at (pos + length (encs xs)) e)\<lparr>it_store := e_key e @ e_val e\<rparr>"
proof (induction l arbitrary: pos)
  case (Cons a l)
  show ?case
  proof (cases "e_live a \<and> e_key a = key")
    case True
    then show ?thesis using Cons.prems by (intro exI [of _ "[]"]) auto
  next
    case False
    then have "find_entry key (pos + e_len a) l = Some item" using Cons.prems by auto
    then obtain xs e ys where "l = xs @ e # ys \<and> e_live e \<and> e_key e = key \<and>
        item = (item_at (pos + e_len a + length (encs xs)) e)\<lparr>it_store := e_key e @ e_val e\<rparr>"
      using Cons.IH by blast
    then show ?thesis by (intro exI [of _ "a # xs"]) (auto simp: add.assoc)
  qed
qed simp

end
