(* ===== verification/KvBlocks.thy ===== *)
theory KvBlocks
  imports KvLog
begin

text \<open>
  The whole store as sixteen logs: what the operations of component/kv/kv.c do to the logs of
  the blocks, to the counters of the manager and to the position of the next write.
\<close>

definition block_log :: "nat \<Rightarrow> entry list \<Rightarrow> kv_mgr \<Rightarrow> bool" where
  "block_log i l s \<longleftrightarrow>
     log_at (flash s) (blk_start i + 4) l (blk_start i + 262144)
     \<and> blk_space s i = 262140 - length (encs l)
     \<and> blk_state s i \<in> {KV_BLOCK_STATE_USED, KV_BLOCK_STATE_CLEAN, KV_BLOCK_STATE_DIRTY}
     \<and> (blk_state s i = KV_BLOCK_STATE_CLEAN \<longrightarrow> l = [])
     \<and> (blk_state s i = KV_BLOCK_STATE_USED \<longrightarrow> list_all e_live l)
     \<and> flash s (blk_start i) = KV_BLOCK_MAGIC_NUM \<and> flash s (blk_start i + 1) = blk_state s i"

definition clean_blocks :: "kv_mgr \<Rightarrow> nat set" where
  "clean_blocks s = {i. i < 16 \<and> blk_state s i = KV_BLOCK_STATE_CLEAN}"

definition write_end :: "(nat \<Rightarrow> entry list) \<Rightarrow> nat \<Rightarrow> nat" where
  "write_end L b = blk_start b + 4 + length (encs (L b))"

definition kv_logs :: "(nat \<Rightarrow> entry list) \<Rightarrow> kv_mgr \<Rightarrow> bool" where
  "kv_logs L s \<longleftrightarrow> mem_ok s \<and> flash_ok s \<and> (\<forall>i<16. block_log i (L i) s)
     \<and> clean_blk_nums s = card (clean_blocks s)
     \<and> (\<exists>b<16. write_pos s = write_end L b \<and> blk_state s b \<noteq> KV_BLOCK_STATE_CLEAN)"

lemma kv_logsD:
  assumes "kv_logs L s"
  shows "mem_ok s" "flash_ok s" "\<And>i. i < 16 \<Longrightarrow> block_log i (L i) s" "clean_blk_nums s = card (clean_blocks s)"
  using assms by (simp_all add: kv_logs_def)

lemma kv_logs_write:
  assumes "kv_logs L s"
  obtains b where "b < 16" "write_pos s = write_end L b" "blk_state s b \<noteq> KV_BLOCK_STATE_CLEAN"
  using assms by (auto simp: kv_logs_def)

lemma kv_logs_transfer:
  assumes "kv_logs L s" "\<And>k. k < 16 \<Longrightarrow> block_log k (L' k) s'" "mem_ok s'" "flash_ok s'"
    and "clean_blocks s' = clean_blocks s" "clean_blk_nums s' = clean_blk_nums s" "write_pos s' = write_pos s"
    and "\<And>b. write_end L' b = write_end L b"
  shows "kv_logs L' s'"
proof -
  obtain b where b: "b < 16" "write_pos s = write_end L b" "blk_state s b \<noteq> KV_BLOCK_STATE_CLEAN"
    using kv_logs_write [OF assms(1)] .
  then have "b \<notin> clean_blocks s'" using assms(5) by (simp add: clean_blocks_def)
  then have "blk_state s' b \<noteq> KV_BLOCK_STATE_CLEAN" using b(1) by (simp add: clean_blocks_def)
  then show ?thesis using assms b kv_logsD(4) [OF assms(1)] unfolding kv_logs_def by metis
qed

subsection \<open>Arithmetic of blocks\<close>

lemma blk_of_start: "x < 262144 \<Longrightarrow> blk_of (blk_start b + x) = b"
  by (simp add: blk_of_def blk_start_def)

lemma block_bounds: "block_log i l s \<Longrightarrow> length (encs l) < 262140"
  using log_at_less unfolding block_log_def by fastforce

lemma blk_space_pos: "block_log i l s \<Longrightarrow> 0 < blk_space s i \<and> blk_space s i \<le> 262140"
  using block_bounds [of i l s] by (simp add: block_log_def)

lemma blk_of_write_end: "block_log b (L b) s \<Longrightarrow> blk_of (write_end L b) = b"
  using block_bounds [of b "L b" s] blk_of_start [of "4 + length (encs (L b))" b]
  by (simp add: write_end_def add.assoc)

lemma other_block: "i \<noteq> j \<Longrightarrow> blk_start j \<le> a \<Longrightarrow> a < blk_start j + 262144 \<Longrightarrow>
    a < blk_start i \<or> blk_start i + 262144 \<le> a"
  by (cases "i < j") (auto simp: blk_start_def)

lemma state_distinct:
  "KV_BLOCK_STATE_USED \<noteq> KV_BLOCK_STATE_CLEAN" "KV_BLOCK_STATE_DIRTY \<noteq> KV_BLOCK_STATE_CLEAN"
  "KV_BLOCK_STATE_USED \<noteq> KV_BLOCK_STATE_DIRTY" "KV_BLOCK_STATE_DIRTY \<noteq> KV_BLOCK_STATE_USED"
  "KV_BLOCK_STATE_CLEAN \<noteq> KV_BLOCK_STATE_USED" "KV_BLOCK_STATE_CLEAN \<noteq> KV_BLOCK_STATE_DIRTY"
  by (simp_all add: kv_consts)

text \<open>A block keeps its log when its part of the flash and its information stay.\<close>

lemma block_log_cong:
  assumes "\<And>a. blk_start i \<le> a \<Longrightarrow> a < blk_start i + 262144 \<Longrightarrow> flash s' a = flash s a"
    and "blk_space s' i = blk_space s i" "blk_state s' i = blk_state s i"
  shows "block_log i l s' = block_log i l s"
proof -
  have "log_at (flash s') (blk_start i + 4) l (blk_start i + 262144) =
        log_at (flash s) (blk_start i + 4) l (blk_start i + 262144)"
    using assms(1) by (intro log_at_cong) simp
  moreover have "flash s' (blk_start i) = flash s (blk_start i)" "flash s' (blk_start i + 1) = flash s (blk_start i + 1)"
    using assms(1) by simp_all
  ultimately show ?thesis using assms(2,3) by (simp add: block_log_def)
qed

lemma program_other_block:
  assumes "block_log i l s" "i \<noteq> j" "blk_start j \<le> off" "off + length b \<le> blk_start j + 262144"
    and "flash s' = page_program off b (flash s)" "blk_space s' i = blk_space s i" "blk_state s' i = blk_state s i"
  shows "block_log i l s'"
proof -
  have "flash s' a = flash s a" if "blk_start i \<le> a" "a < blk_start i + 262144" for a
    using other_block [of j i a] that assms(2-5) by (auto intro!: page_program_outside)
  then show ?thesis using block_log_cong [of i s' s l] assms(1,6,7) by simp
qed

subsection \<open>Appending, deleting, changing the state\<close>

lemma block_append:
  assumes "block_log j l s" "ok_entry e" "e_len e < blk_space s j" "blk_state s j \<noteq> KV_BLOCK_STATE_CLEAN"
    and "blk_state s j = KV_BLOCK_STATE_USED \<longrightarrow> e_live e"
    and "flash s' = page_program (blk_start j + 4 + length (encs l)) (enc e) (flash s)"
    and "blk_space s' j = blk_space s j - e_len e" "blk_state s' j = blk_state s j"
  shows "block_log j (l @ [e]) s'"
proof -
  let ?p = "blk_start j + 4" and ?n = "length (encs l)" and ?bnd = "blk_start j + 262144"
  have log: "list_all ok_entry l" "stored (flash s) ?p (encs l)" "blank (flash s) (?p + ?n) ?bnd" "?p + ?n < ?bnd"
    using assms(1) by (simp_all add: block_log_def log_at_def)
  have room: "?p + ?n + e_len e < ?bnd" using assms(1,3) log(4) by (simp add: block_log_def)
  have "stored (flash s') (?p + ?n) (enc e)"
    unfolding assms(6) using log(3) room by (intro stored_program) (auto simp: blank_def)
  moreover have "stored (flash s') ?p (encs l)"
    using log(2) stored_cong [of ?p "encs l" "flash s'" "flash s"]
    by (simp add: assms(6) page_program_outside)
  moreover have "blank (flash s') (?p + ?n + e_len e) ?bnd"
    using log(3) by (auto simp: blank_def assms(6) page_program_outside)
  ultimately have "log_at (flash s') ?p (l @ [e]) ?bnd"
    using log(1) room assms(2) by (simp add: log_at_append)
  moreover have "flash s' (blk_start j) = flash s (blk_start j)" "flash s' (blk_start j + 1) = flash s (blk_start j + 1)"
    by (simp_all add: assms(6) page_program_outside)
  ultimately show ?thesis using assms by (auto simp: block_log_def)
qed

definition kill :: "entry \<Rightarrow> entry" where
  "kill e = e\<lparr>e_live := False\<rparr>"

lemma kill_simps [simp]:
  "e_live (kill e) = False" "e_origin (kill e) = e_origin e" "e_key (kill e) = e_key e" "e_val (kill e) = e_val e"
  "e_len (kill e) = e_len e" "ok_entry (kill e) = ok_entry e"
  by (simp_all add: kill_def e_len_def ok_entry_def)

lemma enc_kill:
  "\<exists>x y. length x = 1 \<and> enc e = x @ live_state (e_live e) # y \<and> enc (kill e) = x @ (live_state (e_live e) AND 0) # y"
proof -
  have "hdr_bytes (e_hdr e) = [KV_ITEM_MAGIC_NUM] @ live_state (e_live e) # drop 2 (hdr_bytes (e_hdr e))"
    "hdr_bytes (e_hdr (kill e)) = [KV_ITEM_MAGIC_NUM] @ 0 # drop 2 (hdr_bytes (e_hdr e))"
    by (simp_all add: hdr_bytes_def e_hdr_def live_state_def KV_ITEM_STATE_DELETE_def)
  then show ?thesis
    by (intro exI [of _ "[KV_ITEM_MAGIC_NUM]"]
         exI [of _ "drop 2 (hdr_bytes (e_hdr e)) @ e_key e @ e_val e @ replicate (e_pad e) 0"])
      (simp add: enc_eq e_pad_def)
qed

lemma log_kill:
  assumes "log_at fl p (xs @ e # ys) bnd"
  shows "log_at (page_program (p + length (encs xs) + 1) [0] fl) p (xs @ kill e # ys) bnd"
proof -
  let ?l = "xs @ e # ys" and ?l' = "xs @ kill e # ys" and ?fl = "page_program (p + length (encs xs) + 1) [0] fl"
  have log: "list_all ok_entry ?l" "stored fl p (encs ?l)" "blank fl (p + length (encs ?l)) bnd" "p + length (encs ?l) < bnd"
    using assms by (simp_all add: log_at_def)
  obtain x y where x: "length x = 1" "enc e = x @ live_state (e_live e) # y"
    "enc (kill e) = x @ (live_state (e_live e) AND 0) # y"
    using enc_kill by blast
  have "stored fl p ((encs xs @ x) @ live_state (e_live e) # (y @ encs ys))" using log(2) x(2) by simp
  then have "stored ?fl p ((encs xs @ x) @ (live_state (e_live e) AND 0) # (y @ encs ys))"
    using stored_program_byte [of fl p "encs xs @ x"] x(1) by (simp only: length_append add.assoc)
  then have "stored ?fl p (encs ?l')" using x(3) by simp
  moreover have "length (encs ?l') = length (encs ?l)" by simp
  moreover have "ok_entry e" using log(1) by simp
  then have "12 \<le> e_len e" using e_len_bounds by simp
  then have "blank ?fl (p + length (encs ?l')) bnd"
    using log(3) by (auto simp: blank_def page_program_outside)
  ultimately show ?thesis using log by (simp add: log_at_def)
qed

lemma block_kill:
  assumes "block_log j (xs @ e # ys) s" "blk_state s j \<noteq> KV_BLOCK_STATE_USED"
    and "flash s' = page_program (blk_start j + 4 + length (encs xs) + 1) [0] (flash s)"
    and "blk_space s' j = blk_space s j" "blk_state s' j = blk_state s j"
  shows "block_log j (xs @ kill e # ys) s'"
proof -
  have "log_at (flash s') (blk_start j + 4) (xs @ kill e # ys) (blk_start j + 262144)"
    unfolding assms(3) using assms(1) by (intro log_kill) (simp add: block_log_def)
  moreover have "flash s' (blk_start j) = flash s (blk_start j)" "flash s' (blk_start j + 1) = flash s (blk_start j + 1)"
    by (simp_all add: assms(3) page_program_outside)
  ultimately show ?thesis using assms by (auto simp: block_log_def)
qed

lemma block_set_state:
  assumes "block_log j l s" "flash s' = page_program (blk_start j + 1) [st] (flash s)"
    and "blk_space s' j = blk_space s j" "blk_state s' j = st" "blk_state s j AND st = st"
    and "st \<in> {KV_BLOCK_STATE_USED, KV_BLOCK_STATE_DIRTY}" "st = KV_BLOCK_STATE_USED \<longrightarrow> list_all e_live l"
  shows "block_log j l s'"
proof -
  have "flash s' a = flash s a" if "a \<noteq> blk_start j + 1" for a
    using that by (auto simp: assms(2) page_program_def)
  then have "log_at (flash s') (blk_start j + 4) l (blk_start j + 262144)"
    using assms(1) log_at_cong [of "blk_start j + 4" "blk_start j + 262144" "flash s'" "flash s" l]
    by (simp add: block_log_def)
  moreover have "flash s' (blk_start j + 1) = st" "flash s' (blk_start j) = flash s (blk_start j)"
    using assms by (simp_all add: page_program_def block_log_def)
  ultimately show ?thesis using assms state_distinct by (auto simp: block_log_def)
qed

subsection \<open>Searching\<close>

definition found :: "nat \<Rightarrow> entry list \<Rightarrow> entry \<Rightarrow> kv_item" where
  "found i xs e = (item_at (blk_start i + 4 + length (encs xs)) e)\<lparr>it_store := e_key e @ e_val e\<rparr>"

lemma found_sel [simp]:
  "it_hdr (found i xs e) = e_hdr e" "it_pos (found i xs e) = blk_start i + 4 + length (encs xs)"
  "it_store (found i xs e) = e_key e @ e_val e"
  by (simp_all add: found_def)

lemma find_in_block:
  assumes "block_log i l s" "mem_ok s"
  shows "kv_item_traverse (item_find_cb key) i s = (find_entry key (blk_start i + 4) l, s)"
  unfolding kv_item_traverse_next
  using assms block_bounds [OF assms(1)] by (intro find_log) (auto simp: block_log_def)

lemma search_in_cases:
  assumes "kv_logs L s" "set is \<subseteq> {..<16}"
  shows "search_in key is s = (None, s) \<and> (\<forall>i \<in> set is. \<forall>e \<in> set (L i). e_live e \<longrightarrow> e_key e \<noteq> key) \<or>
    (\<exists>i xs e ys. i < 16 \<and> L i = xs @ e # ys \<and> e_live e \<and> e_key e = key \<and> search_in key is s = (Some (found i xs e), s))"
  using assms(2)
proof (induction "is")
  case (Cons i "is")
  have b: "block_log i (L i) s" "mem_ok s" using assms(1) Cons.prems by (auto simp: kv_logs_def)
  show ?case
  proof (cases "find_entry key (blk_start i + 4) (L i)")
    case None
    then have "search_in key (i # is) s = search_in key is s" by (simp add: find_in_block [OF b])
    moreover have "\<forall>e \<in> set (L i). e_live e \<longrightarrow> e_key e \<noteq> key" using None by (simp add: find_entry_None)
    ultimately show ?thesis using Cons by auto
  next
    case (Some item)
    then obtain xs e ys where e: "L i = xs @ e # ys" "e_live e" "e_key e = key" "item = found i xs e"
      using find_entry_Some [OF Some] by (auto simp: found_def)
    then have "blk_state s i \<noteq> KV_BLOCK_STATE_CLEAN" using b by (auto simp: block_log_def)
    then have "search_in key (i # is) s = (Some (found i xs e), s)"
      using Some e by (simp add: find_in_block [OF b])
    then show ?thesis using e Cons.prems by auto
  qed
qed simp

definition no_live :: "bytes \<Rightarrow> (nat \<Rightarrow> entry list) \<Rightarrow> bool" where
  "no_live key L \<longleftrightarrow> (\<forall>i<16. \<forall>e \<in> set (L i). e_live e \<longrightarrow> e_key e \<noteq> key)"

lemma kv_item_search_cases:
  assumes "kv_logs L s"
  obtains (none) "kv_item_search key s = (None, s)" "no_live key L"
  | (some) i xs e ys where "i < 16" "L i = xs @ e # ys" "e_live e" "e_key e = key"
      "kv_item_search key s = (Some (found i xs e), s)"
proof -
  have "kv_item_search key s = (None, s) \<and> no_live key L \<or>
    (\<exists>i xs e ys. i < 16 \<and> L i = xs @ e # ys \<and> e_live e \<and> e_key e = key \<and> kv_item_search key s = (Some (found i xs e), s))"
    using search_in_cases [OF assms, of "[0..<16]" key] unfolding kv_item_search_def no_live_def
    by (simp add: Ball_def atLeast0LessThan)
  then show thesis using none some by auto
qed

subsection \<open>Deleting\<close>

lemma page_program_commute: "page_program a x (page_program b y fl) = page_program b y (page_program a x fl)"
  by (rule ext) (simp add: page_program_def ac_simps)

lemma kv_set_block_state_eq:
  "flash_ok s \<Longrightarrow> kv_set_block_state i st s =
   (0, s\<lparr>flash := page_program (blk_start i + 1) [st] (flash s), blk_state := (blk_state s)(i := st)\<rparr>)"
  by (simp add: kv_set_block_state_def kv_flash_write_eq)

lemma write_end_upd: "length (encs l) = length (encs (L i)) \<Longrightarrow> write_end (L(i := l)) b = write_end L b"
  by (simp add: write_end_def)

lemma used_to_dirty: "KV_BLOCK_STATE_USED AND KV_BLOCK_STATE_DIRTY = KV_BLOCK_STATE_DIRTY"
  "KV_BLOCK_STATE_CLEAN AND KV_BLOCK_STATE_USED = KV_BLOCK_STATE_USED"
  by (simp_all add: kv_consts)

text \<open>What marking an item as deleted does: its state byte, and the state of a used block.\<close>

definition marked :: "nat \<Rightarrow> nat \<Rightarrow> kv_mgr \<Rightarrow> kv_mgr" where
  "marked i off s =
     (if blk_state s i = KV_BLOCK_STATE_USED
      then s\<lparr>flash := page_program (off + 1) [0] (page_program (blk_start i + 1) [KV_BLOCK_STATE_DIRTY] (flash s)),
             blk_state := (blk_state s)(i := KV_BLOCK_STATE_DIRTY)\<rparr>
      else s\<lparr>flash := page_program (off + 1) [0] (flash s)\<rparr>)"

lemma item_mark_eq: "flash_ok s \<Longrightarrow> blk_of off = i \<Longrightarrow> item_mark off s = (KV_OK, marked i off s)"
  by (simp add: item_mark_def kv_set_item_state_def kv_flash_write_eq kv_set_block_state_eq marked_def
      KV_ITEM_STATE_DELETE_def page_program_commute [of "Suc off"])

lemma marked_fields [simp]:
  "mem_ok (marked i off s) = mem_ok s" "flash_ok (marked i off s) = flash_ok s" "write_pos (marked i off s) = write_pos s"
  "blk_space (marked i off s) = blk_space s" "clean_blk_nums (marked i off s) = clean_blk_nums s"
  "gc_trigger (marked i off s) = gc_trigger s" "k \<noteq> i \<Longrightarrow> blk_state (marked i off s) k = blk_state s k"
  by (simp_all add: marked_def)

lemma marked_clean: "blk_state (marked i off s) k = KV_BLOCK_STATE_CLEAN \<longleftrightarrow> blk_state s k = KV_BLOCK_STATE_CLEAN"
  using state_distinct by (auto simp: marked_def)

lemma marked_outside:
  "a \<noteq> off + 1 \<Longrightarrow> a \<noteq> blk_start i + 1 \<Longrightarrow> flash (marked i off s) a = flash s a"
  by (auto simp: marked_def page_program_def)

lemma block_marked:
  assumes "block_log i (xs @ e # ys) s" "off = blk_start i + 4 + length (encs xs)"
  shows "block_log i (xs @ kill e # ys) (marked i off s)"
proof (cases "blk_state s i = KV_BLOCK_STATE_USED")
  case False
  then show ?thesis using block_kill [OF assms(1), of "marked i off s"] by (simp add: marked_def assms(2))
next
  case True
  define t where "t = s\<lparr>flash := page_program (blk_start i + 1) [KV_BLOCK_STATE_DIRTY] (flash s),
              blk_state := (blk_state s)(i := KV_BLOCK_STATE_DIRTY)\<rparr>"
  have "block_log i (xs @ e # ys) t"
    using True used_to_dirty(1) state_distinct block_set_state [OF assms(1), of t KV_BLOCK_STATE_DIRTY]
    by (simp add: t_def)
  then show ?thesis
    using True state_distinct block_kill [of i xs e ys t "marked i off s"] by (simp add: marked_def t_def assms(2))
qed

lemma block_marked_other:
  assumes "block_log k l s" "k \<noteq> i" "blk_start i \<le> off" "off + 1 < blk_start i + 262144"
  shows "block_log k l (marked i off s)"
proof -
  have "flash (marked i off s) a = flash s a" if "blk_start k \<le> a" "a < blk_start k + 262144" for a
    using other_block [of i k a] that assms(2-4) by (intro marked_outside) auto
  then show ?thesis using assms(1,2) block_log_cong [of k "marked i off s" s l] by simp
qed

lemma entry_fits:
  assumes "block_log i (xs @ e # ys) s"
  shows "blk_of (blk_start i + 4 + length (encs xs)) = i"
    and "blk_start i + 4 + length (encs xs) + 10 + length (e_key e) \<le> blk_start i + 262144"
proof -
  show "blk_of (blk_start i + 4 + length (encs xs)) = i"
    using block_bounds [OF assms] blk_of_start [of "4 + length (encs xs)" i] by (simp add: add.assoc)
  have "10 + length (e_key e) + length (e_val e) \<le> e_len e" unfolding e_len_def by (rule KV_ALIGN_ge)
  then show "blk_start i + 4 + length (encs xs) + 10 + length (e_key e) \<le> blk_start i + 262144"
    using block_bounds [OF assms] by simp
qed

lemma item_mark_logs:
  assumes "kv_logs L s" "i < 16" "L i = xs @ e # ys"
  shows "\<exists>s'. item_mark (blk_start i + 4 + length (encs xs)) s = (KV_OK, s') \<and>
    kv_logs (L(i := xs @ kill e # ys)) s' \<and> gc_trigger s' = gc_trigger s"
proof -
  define off where "off = blk_start i + 4 + length (encs xs)"
  have bi: "block_log i (xs @ e # ys) s" using kv_logsD(3) [OF assms(1,2)] assms(3) by simp
  note fit = entry_fits [OF bi, folded off_def]
  have "kv_logs (L(i := xs @ kill e # ys)) (marked i off s)" (is "kv_logs ?L ?s")
  proof (rule kv_logs_transfer [OF assms(1)])
    fix k :: nat assume k: "k < 16"
    show "block_log k (?L k) ?s"
    proof (cases "k = i")
      case True
      then show ?thesis using block_marked [OF bi off_def] by simp
    next
      case False
      then show ?thesis using block_marked_other [OF kv_logsD(3) [OF assms(1) k] False, of off] fit by (simp add: off_def)
    qed
  next
    show "write_end ?L b = write_end L b" for b using assms(3) by (intro write_end_upd) simp
    show "mem_ok ?s" "flash_ok ?s" using kv_logsD(1,2) [OF assms(1)] by simp_all
    show "clean_blocks ?s = clean_blocks s" by (simp add: clean_blocks_def marked_clean)
  qed simp_all
  then show ?thesis
    using item_mark_eq [OF kv_logsD(2) [OF assms(1)] fit(1)] unfolding off_def by simp
qed

end
