(* ===== verification/KvSpace.thy ===== *)
theory KvSpace
  imports KvBlocks
begin

text \<open>
  Finding room and storing (kv_calc_position and kv_item_store of component/kv/kv.c): when the
  search for room returns, and what storing does to the logs.
\<close>

subsection \<open>The search for room\<close>

lemma scan_blocks_found:
  assumes "scan_blocks space len b i = Some (Some j)" "i \<le> 16"
  shows "j < 16 \<and> len < space j"
proof -
  have "i \<le> 16 \<longrightarrow> (\<forall>j. r = Some j \<longrightarrow> j < 16 \<and> len < space j)" if "scan_blocks space len b i = Some r" for r
    by (rule scan_blocks.raw_induct [where P = "\<lambda>space len b i r. i \<le> 16 \<longrightarrow> (\<forall>j. r = Some j \<longrightarrow> j < 16 \<and> len < space j)",
          OF _ that]) (auto simp: Let_def split: if_splits)
  then show ?thesis using assms by blast
qed

text \<open>From behind block 0 a search without success goes round for ever.\<close>

lemma scan_blocks_never:
  assumes "\<forall>i<16. space i \<le> len" "0 < i" "i \<le> 16"
  shows "scan_blocks space len 0 i = None"
proof (rule ccontr)
  assume "scan_blocks space len 0 i \<noteq> None"
  then obtain r where r: "scan_blocks space len 0 i = Some r" by blast
  have "b = 0 \<longrightarrow> 0 < i \<longrightarrow> i \<le> 16 \<longrightarrow> (\<forall>i<16. space i \<le> len) \<longrightarrow> False"
    if "scan_blocks space len b i = Some r" for b
    by (rule scan_blocks.raw_induct
        [where P = "\<lambda>space len b i r. b = 0 \<longrightarrow> 0 < i \<longrightarrow> i \<le> 16 \<longrightarrow> (\<forall>i<16. space i \<le> len) \<longrightarrow> False", OF _ that])
      (auto simp: Let_def split: if_splits dest!: leD, (metis leD less_irrefl neq0_conv zero_less_numeral le_neq_implies_less not_le)+)
  then show False using r assms by blast
qed

lemma scan_blocks_up:
  assumes "i \<le> b" "b < 16"
  shows "\<exists>r. scan_blocks space len b i = Some r"
  using assms
proof (induction "b - i" arbitrary: i)
  case (Suc n)
  then have "i \<noteq> b" "i \<noteq> 16" "\<exists>r. scan_blocks space len b (Suc i) = Some r" by auto
  then show ?case by (simp add: scan_blocks.simps [of space len b i] Let_def)
qed (simp add: scan_blocks.simps)

text \<open>From block \<open>i\<close> the search gets to any block with room behind it.\<close>

lemma scan_blocks_reach:
  assumes "i \<le> k" "len < space k" "k < 16" "b < i"
  shows "\<exists>r. scan_blocks space len b i = Some r"
  using assms
proof (induction "k - i" arbitrary: i)
  case 0
  then show ?case by (auto simp: scan_blocks.simps [of space len b i] Let_def)
next
  case (Suc n)
  then have "\<exists>r. scan_blocks space len b (Suc i) = Some r" by auto
  then show ?case using Suc by (auto simp: scan_blocks.simps [of space len b i] Let_def)
qed

lemma scan_blocks_round:
  assumes "0 < b" "b < i" "i \<le> 16" "b < 16"
  shows "\<exists>r. scan_blocks space len b i = Some r"
  using assms
proof (induction "16 - i" arbitrary: i)
  case 0
  then have "i = 16" "\<exists>r. scan_blocks space len b 1 = Some r" by (auto intro!: scan_blocks_up)
  then show ?case using 0 by (auto simp: scan_blocks.simps [of space len b 16] Let_def)
next
  case (Suc n)
  then have "\<exists>r. scan_blocks space len b (Suc i) = Some r" by auto
  then show ?case using Suc by (auto simp: scan_blocks.simps [of space len b i] Let_def)
qed

lemma scan_blocks_returns:
  assumes "b < 16" "space b \<le> len"
  shows "scan_blocks space len b (b + 1) = None \<longleftrightarrow> b = 0 \<and> (\<forall>i<16. space i \<le> len)"
proof (cases "b = 0")
  case False
  then show ?thesis using scan_blocks_round [of b "b + 1"] assms(1) by auto
next
  case True
  show ?thesis
  proof (cases "\<forall>i<16. space i \<le> len")
    case True
    then show ?thesis using scan_blocks_never [OF True, of 1] \<open>b = 0\<close> by simp
  next
    case False
    then obtain k where k: "k < 16" "len < space k" by (auto simp: not_le)
    then have "1 \<le> k" using True assms(2) by (cases k) auto
    then show ?thesis using scan_blocks_reach [of 1 k len space 0] k True False by auto
  qed
qed


subsection \<open>The position of an item\<close>

lemma kv_trigger_gc_fields [simp]:
  "flash (kv_trigger_gc s) = flash s" "mem_ok (kv_trigger_gc s) = mem_ok s" "flash_ok (kv_trigger_gc s) = flash_ok s"
  "blk_space (kv_trigger_gc s) = blk_space s" "blk_state (kv_trigger_gc s) = blk_state s"
  "write_pos (kv_trigger_gc s) = write_pos s" "clean_blk_nums (kv_trigger_gc s) = clean_blk_nums s"
  "kv_inited (kv_trigger_gc s) = kv_inited s"
  by (simp_all add: kv_trigger_gc_def)

text \<open>The logs do not depend on the state of the collection.\<close>

lemma block_log_fields:
  "flash s' = flash s \<Longrightarrow> blk_space s' = blk_space s \<Longrightarrow> blk_state s' = blk_state s \<Longrightarrow> block_log i l s' = block_log i l s"
  by (rule block_log_cong) simp_all

lemma kv_logs_fields:
  assumes "flash s' = flash s" "blk_space s' = blk_space s" "blk_state s' = blk_state s" "mem_ok s' = mem_ok s"
    "flash_ok s' = flash_ok s" "clean_blk_nums s' = clean_blk_nums s" "write_pos s' = write_pos s"
  shows "kv_logs L s' = kv_logs L s"
  using assms block_log_fields [OF assms(1-3)] by (simp add: kv_logs_def clean_blocks_def)

lemma kv_logs_trigger [simp]: "kv_logs L (kv_trigger_gc s) = kv_logs L s"
  by (rule kv_logs_fields) simp_all

lemma finite_clean: "finite (clean_blocks s)"
  by (simp add: clean_blocks_def)

lemma card_clean: "card (clean_blocks s) \<le> 16"
proof -
  have "card (clean_blocks s) \<le> card {..<16 :: nat}"
    by (rule card_mono) (auto simp: clean_blocks_def)
  then show ?thesis by simp
qed

lemma dec8_pos: "0 < n \<Longrightarrow> n \<le> 16 \<Longrightarrow> dec8 n = n - 1"
proof -
  assume n: "0 < n" "n \<le> 16"
  then have "n + 255 = n - 1 + 256" by simp
  then show ?thesis using n unfolding dec8_def by (simp only: mod_add_self2) simp
qed

lemma sub32_less: "b \<le> a \<Longrightarrow> a < 2 ^ 32 \<Longrightarrow> sub32 a b = a - b"
proof -
  assume ab: "b \<le> a" "a < 2 ^ 32"
  then have "a + 2 ^ 32 - b = a - b + 2 ^ 32" by simp
  then show ?thesis using ab unfolding sub32_def by (simp only: mod_add_self2) simp
qed

text \<open>The write position may move to the end of any block in use.\<close>

lemma kv_logs_move:
  assumes "kv_logs L s" "b < 16" "blk_state s b \<noteq> KV_BLOCK_STATE_CLEAN"
  shows "kv_logs L (s\<lparr>write_pos := write_end L b\<rparr>)"
  using assms block_log_fields [of "s\<lparr>write_pos := write_end L b\<rparr>" s] by (auto simp: kv_logs_def clean_blocks_def)

lemma kv_logs_use:
  assumes "kv_logs L s" "b < 16" "blk_state s b = KV_BLOCK_STATE_CLEAN"
  shows "kv_logs L (s\<lparr>flash := page_program (blk_start b + 1) [KV_BLOCK_STATE_USED] (flash s),
     blk_state := (blk_state s)(b := KV_BLOCK_STATE_USED), write_pos := write_end L b,
     clean_blk_nums := dec8 (clean_blk_nums s)\<rparr>)" (is "kv_logs L ?s")
proof -
  have e: "L b = []" using kv_logsD(3) [OF assms(1,2)] assms(3) by (simp add: block_log_def)
  have "block_log k (L k) ?s" if k: "k < 16" for k
  proof (cases "k = b")
    case True
    then show ?thesis
      using assms(3) e used_to_dirty(2) state_distinct
        block_set_state [OF kv_logsD(3) [OF assms(1) k], of ?s KV_BLOCK_STATE_USED] by simp
  next
    case False
    then show ?thesis
      by (intro program_other_block [OF kv_logsD(3) [OF assms(1) k], of b "blk_start b + 1"]) simp_all
  qed
  moreover have "clean_blocks ?s = clean_blocks s - {b}" "b \<in> clean_blocks s"
    using assms(2,3) state_distinct by (auto simp: clean_blocks_def)
  then have "dec8 (clean_blk_nums s) = card (clean_blocks ?s)"
    using card_clean [of s] finite_clean [of s] kv_logsD(4) [OF assms(1)] dec8_pos [of "card (clean_blocks s)"]
    by (simp add: card_gt_0_iff [THEN iffD2] card_Diff_singleton) (metis card_gt_0_iff empty_iff)
  ultimately show ?thesis
    using kv_logsD [OF assms(1)] assms(2) state_distinct unfolding kv_logs_def by auto
qed

lemma write_end_space: "block_log i (L i) s \<Longrightarrow> blk_start i + 262144 - blk_space s i = write_end L i"
  using block_bounds [of i "L i" s] by (simp add: block_log_def write_end_def)

lemma kv_calc_position_logs:
  assumes "kv_logs L s" "kv_calc_position len s = Some (pos, s')"
  shows "pos = 0 \<and> kv_logs L s' \<and> kv_trigger_gc s = s' \<or>
    (\<exists>b<16. pos = write_end L b \<and> kv_logs L s' \<and> write_pos s' = pos \<and> len < blk_space s' b
       \<and> blk_state s' b \<noteq> KV_BLOCK_STATE_CLEAN)"
proof -
  obtain b where b: "b < 16" "write_pos s = write_end L b" "blk_state s b \<noteq> KV_BLOCK_STATE_CLEAN"
    using kv_logs_write [OF assms(1)] .
  have blk: "blk_of (write_pos s) = b" using blk_of_write_end kv_logsD(3) [OF assms(1) b(1)] b(2) by simp
  show ?thesis
  proof (cases "len < blk_space s b")
    case True
    then have "pos = write_pos s" "s' = s \<or> s' = kv_trigger_gc s"
      using assms(2) blk by (auto simp: kv_calc_position_def Let_def split: if_splits)
    then show ?thesis using assms(1) b True by auto
  next
    case False
    then obtain r where r: "scan_blocks (blk_space s) len b (b + 1) = Some r"
      using assms(2) blk by (auto simp: kv_calc_position_def Let_def split: bind_splits)
    show ?thesis
    proof (cases r)
      case None
      then show ?thesis using assms r False blk by (auto simp: kv_calc_position_def Let_def)
    next
      case (Some i)
      have i: "i < 16" "len < blk_space s i" using scan_blocks_found [of "blk_space s" len b "b + 1" i] r Some b(1) by auto
      note w = write_end_space [of i L s, OF kv_logsD(3) [OF assms(1) i(1)]]
      show ?thesis
      proof (cases "blk_state s i = KV_BLOCK_STATE_CLEAN")
        case True
        then have "pos = write_end L i \<and> s' = s\<lparr>flash := page_program (blk_start i + 1) [KV_BLOCK_STATE_USED] (flash s),
            blk_state := (blk_state s)(i := KV_BLOCK_STATE_USED), write_pos := write_end L i,
            clean_blk_nums := dec8 (clean_blk_nums s)\<rparr>"
          using assms(2) r Some False blk kv_logsD(2) [OF assms(1)] w
          by (auto simp: kv_calc_position_def Let_def kv_set_block_state_eq)
        then show ?thesis using kv_logs_use [OF assms(1) i(1) True] i state_distinct by (intro disjI2 exI [of _ i]) simp
      next
        case False': False
        then have "pos = write_end L i \<and> s' = s\<lparr>write_pos := write_end L i\<rparr>"
          using assms(2) r Some False blk w by (auto simp: kv_calc_position_def Let_def)
        then show ?thesis using kv_logs_move [OF assms(1) i(1) False'] i False' by (intro disjI2 exI [of _ i]) simp
      qed
    qed
  qed
qed

subsection \<open>Storing\<close>

definition new_entry :: "nat \<Rightarrow> bytes \<Rightarrow> bytes \<Rightarrow> entry" where
  "new_entry origin key val = \<lparr>e_live = True, e_origin = origin, e_key = key, e_val = val\<rparr>"

lemma new_entry_sel [simp]:
  "e_live (new_entry origin key val)" "e_origin (new_entry origin key val) = origin"
  "e_key (new_entry origin key val) = key" "e_val (new_entry origin key val) = val"
  by (simp_all add: new_entry_def)

lemma item_bytes_enc: "item_bytes KV_ITEM_STATE_NORMAL origin key val = enc (new_entry origin key val)"
  by (simp add: enc_def live_state_def)

lemma logs_append:
  assumes "kv_logs L s" "b < 16" "ok_entry e" "e_live e" "e_len e < blk_space s b" "blk_state s b \<noteq> KV_BLOCK_STATE_CLEAN"
  shows "kv_logs (L(b := L b @ [e])) (s\<lparr>flash := page_program (write_end L b) (enc e) (flash s),
           write_pos := write_end L b + e_len e, blk_space := (blk_space s)(b := blk_space s b - e_len e)\<rparr>)"
    (is "kv_logs ?L ?s")
proof -
  note bb = kv_logsD(3) [OF assms(1,2)]
  have fit: "write_end L b + e_len e \<le> blk_start b + 262144"
    using block_bounds [OF bb] bb assms(5) by (simp add: block_log_def write_end_def)
  have "block_log k (?L k) ?s" if k: "k < 16" for k
  proof (cases "k = b")
    case True
    have "block_log b (L b @ [e]) ?s"
      by (rule block_append [OF bb assms(3,5,6)]) (simp_all add: assms(4) write_end_def)
    then show ?thesis using True by simp
  next
    case False
    have "block_log k (L k) ?s"
      by (rule program_other_block [OF kv_logsD(3) [OF assms(1) k] False, of "write_end L b" "enc e"])
        (use fit False in \<open>simp_all add: write_end_def\<close>)
    then show ?thesis using False by simp
  qed
  moreover have "clean_blocks ?s = clean_blocks s" by (simp add: clean_blocks_def)
  moreover have "write_pos ?s = write_end ?L b" by (simp add: write_end_def)
  ultimately show ?thesis
    using kv_logsD [OF assms(1)] assms(2,6) unfolding kv_logs_def by auto
qed

lemma kv_item_store_logs:
  assumes "kv_logs L s" "ok_entry (new_entry origin key val)" "kv_item_store key val origin s = Some (r, s')"
  shows "r = KV_ERR_NO_SPACE \<and> kv_logs L s' \<or>
    (\<exists>b<16. r = KV_OK \<and> kv_logs (L(b := L b @ [new_entry origin key val])) s')"
proof -
  let ?e = "new_entry origin key val"
  have "Option.bind (kv_calc_position (e_len ?e) s) (\<lambda>(pos, s). if 0 < pos then
      let (res, s) = kv_flash_write pos (enc ?e) s in
      if res = KV_OK then
        let s = s\<lparr>write_pos := pos + e_len ?e\<rparr>; idx = blk_of (write_pos s)
        in Some (res, s\<lparr>blk_space := (blk_space s)(idx := sub32 (blk_space s idx) (e_len ?e))\<rparr>)
      else Some (res, s) else Some (KV_ERR_NO_SPACE, s)) = Some (r, s')"
    using assms(3) kv_logsD(1) [OF assms(1)] unfolding kv_item_store_def item_bytes_enc Let_def length_enc by simp
  then obtain pos t where c: "kv_calc_position (e_len ?e) s = Some (pos, t)"
    and k: "(if 0 < pos then
      let (res, s) = kv_flash_write pos (enc ?e) t in
      if res = KV_OK then
        let s = s\<lparr>write_pos := pos + e_len ?e\<rparr>; idx = blk_of (write_pos s)
        in Some (res, s\<lparr>blk_space := (blk_space s)(idx := sub32 (blk_space s idx) (e_len ?e))\<rparr>)
      else Some (res, s) else Some (KV_ERR_NO_SPACE, t)) = Some (r, s')"
    by (auto simp: bind_eq_Some_conv)
  from kv_calc_position_logs [OF assms(1) c] show ?thesis
  proof (elim disjE exE conjE)
    assume "pos = 0" "kv_logs L t"
    then show ?thesis using k by auto
  next
    fix b assume b: "b < 16" "pos = write_end L b" "kv_logs L t" "write_pos t = pos"
      "e_len ?e < blk_space t b" "blk_state t b \<noteq> KV_BLOCK_STATE_CLEAN"
    note bb = kv_logsD(3) [OF b(3,1)]
    have pos: "0 < pos" by (simp add: b(2) write_end_def)
    have blk: "blk_of (pos + e_len ?e) = b"
      using blk_of_start [of "4 + length (encs (L b)) + e_len ?e" b] bb b(5)
      by (simp add: b(2) write_end_def block_log_def add.assoc)
    have "sub32 (blk_space t b) (e_len ?e) = blk_space t b - e_len ?e"
      using b(5) blk_space_pos [OF bb] by (intro sub32_less) simp_all
    then have "r = KV_OK \<and> s' = t\<lparr>flash := page_program (write_end L b) (enc ?e) (flash t),
           write_pos := write_end L b + e_len ?e, blk_space := (blk_space t)(b := blk_space t b - e_len ?e)\<rparr>"
      using k pos blk kv_logsD(2) [OF b(3)] by (auto simp: kv_flash_write_eq Let_def b(2))
    then show ?thesis using logs_append [OF b(3,1) assms(2) _ b(5,6)] b(1) by auto
  qed
qed

text \<open>Storing returns whenever some block has room.\<close>

lemma kv_calc_position_returns:
  assumes "blk_of (write_pos s) < 16"
  shows "kv_calc_position len s = None \<longleftrightarrow> blk_of (write_pos s) = 0 \<and> (\<forall>i<16. blk_space s i \<le> len)"
proof (cases "len < blk_space s (blk_of (write_pos s))")
  case True
  then show ?thesis using assms by (auto simp: kv_calc_position_def Let_def not_le)
next
  case False
  have "kv_calc_position len s = None \<longleftrightarrow>
      scan_blocks (blk_space s) len (blk_of (write_pos s)) (blk_of (write_pos s) + 1) = None"
    using False by (auto simp: kv_calc_position_def Let_def bind_eq_None_conv split: option.splits prod.splits)
  then show ?thesis using scan_blocks_returns [OF assms, of "blk_space s" len] False by simp
qed

end
