(* ===== verification/KvGc.thy ===== *)
theory KvGc
  imports KvSpace
begin

text \<open>
  Collecting garbage (kv_gc_task of component/kv/kv.c): the live entries of a dirty block are
  copied to a clean one, and the dirty block is erased.
\<close>

subsection \<open>Copying the live entries\<close>

definition lives :: "entry list \<Rightarrow> entry list" where
  "lives l = filter e_live l"

lemma lives_simps [simp]: "lives [] = []" "lives (e # l) = (if e_live e then e # lives l else lives l)"
  "lives (l @ m) = lives l @ lives m"
  by (simp_all add: lives_def)

lemma length_lives: "length (encs (lives l)) \<le> length (encs l)"
  by (induction l) auto

lemma list_all_lives: "list_all e_live (lives l)" "list_all ok_entry l \<Longrightarrow> list_all ok_entry (lives l)"
  by (auto simp: lives_def list_all_iff)

definition copied :: "nat \<Rightarrow> bytes \<Rightarrow> kv_mgr \<Rightarrow> kv_mgr" where
  "copied g bs s = s\<lparr>flash := page_program (write_pos s) bs (flash s), write_pos := write_pos s + length bs,
     blk_space := (blk_space s)(g := blk_space s g - length bs)\<rparr>"

lemma copied_nil [simp]: "copied g [] s = s"
  by (simp add: copied_def)

lemma copied_append: "copied g y (copied g x s) = copied g (x @ y) s"
  by (simp add: copied_def page_program_append add.assoc)

lemma copied_fields [simp]:
  "mem_ok (copied g b s) = mem_ok s" "flash_ok (copied g b s) = flash_ok s" "blk_state (copied g b s) = blk_state s"
  "write_pos (copied g b s) = write_pos s + length b" "clean_blk_nums (copied g b s) = clean_blk_nums s"
  "flash (copied g b s) = page_program (write_pos s) b (flash s)" "gc_trigger (copied g b s) = gc_trigger s"
  "blk_space (copied g b s) = (blk_space s)(g := blk_space s g - length b)"
  by (simp_all add: copied_def)

lemma item_gc_cb_copies:
  assumes "mem_ok s" "flash_ok s" "stored (flash s) pos (enc e)"
    and "blk_of (write_pos s + e_len e) = g" "e_len e \<le> blk_space s g" "blk_space s g < 2 ^ 32"
  shows "item_gc_cb (item_at pos e) s = (KV_LOOP_CONTINUE, item_at pos e, copied g (enc e) s)"
  using assms read_entry(3) [OF assms(3)] sub32_less [OF assms(5,6)]
  by (simp add: item_gc_cb_def Let_def kv_flash_write_eq e_len_def [symmetric] add.assoc [symmetric] copied_def)

lemma gc_log:
  assumes "mem_ok s" "flash_ok s" "log_at (flash s) pos l (blk_start i + 262144)"
    and "blk_state s i \<noteq> KV_BLOCK_STATE_USED" "blk_space s i = blk_start i + 262144 - (pos + length (encs l))"
    and "g \<noteq> i" "blk_start i \<le> pos" "blk_start g \<le> write_pos s"
    and "write_pos s + length (encs (lives l)) < blk_start g + 262144"
    and "length (encs (lives l)) \<le> blk_space s g" "blk_space s g < 2 ^ 32"
  shows "traverse_next item_gc_cb i pos s = (None, copied g (encs (lives l)) s)"
  using assms
proof (induction l arbitrary: pos s)
  case Nil
  then show ?case by (simp add: traverse_blank traverse_done_id)
next
  case (Cons e l)
  have e: "stored (flash s) pos (enc e)" "ok_entry e" and l: "log_at (flash s) (pos + e_len e) l (blk_start i + 262144)"
    using Cons.prems(3) by simp_all
  show ?case
  proof (cases "e_live e")
    case False
    then show ?thesis
      using Cons.prems l traverse_next_Cons [OF Cons.prems(3)] traverse_dead [OF Cons.prems(1) e False]
        Cons.IH [of s "pos + e_len e"] by (simp add: mark_dirty_id add.assoc)
  next
    case True
    obtain d where d: "write_pos s = blk_start g + d" using Cons.prems(8) le_Suc_ex by blast
    then have blk: "blk_of (write_pos s + e_len e) = g"
      using Cons.prems(9) True blk_of_start [of "d + e_len e" g] by (simp add: add.assoc)
    have cb: "item_gc_cb (item_at pos e) s = (KV_LOOP_CONTINUE, item_at pos e, copied g (enc e) s)"
      using Cons.prems True by (intro item_gc_cb_copies e blk) simp_all
    have same: "page_program (write_pos s) (enc e) (flash s) a = flash s a" if "pos + e_len e \<le> a" "a < blk_start i + 262144" for a
      using other_block [OF Cons.prems(6), of a] Cons.prems(7-9) that True
      by (intro page_program_outside) auto
    have "log_at (flash (copied g (enc e) s)) (pos + e_len e) l (blk_start i + 262144)"
      using l log_at_cong [of "pos + e_len e" "blk_start i + 262144" "flash (copied g (enc e) s)" "flash s" l] same by simp
    then have "traverse_next item_gc_cb i (pos + e_len e) (copied g (enc e) s) =
        (None, copied g (encs (lives l)) (copied g (enc e) s))"
      using Cons.prems True by (intro Cons.IH) (simp_all add: add.assoc)
    then show ?thesis
      using traverse_next_Cons [OF Cons.prems(3)] traverse_live [OF Cons.prems(1) e True] True
      by (simp add: cb copied_append)
  qed
qed

subsection \<open>Erasing a block\<close>

definition erased :: "nat \<Rightarrow> (nat \<Rightarrow> u8) \<Rightarrow> nat \<Rightarrow> u8" where
  "erased i fl = (\<lambda>a. if blk_start i \<le> a \<and> a < blk_start i + 262144 then 0xFF else fl a)"

definition blk_header :: bytes where
  "blk_header = [KV_BLOCK_MAGIC_NUM, KV_BLOCK_STATE_CLEAN, 0, 0]"

definition formatted :: "nat \<Rightarrow> kv_mgr \<Rightarrow> kv_mgr" where
  "formatted i s = s\<lparr>flash := page_program (blk_start i) blk_header (erased i (flash s)),
     blk_state := (blk_state s)(i := KV_BLOCK_STATE_CLEAN), blk_space := (blk_space s)(i := 262140),
     clean_blk_nums := inc8 (clean_blk_nums s)\<rparr>"

lemma kv_block_format_eq: "flash_ok s \<Longrightarrow> kv_block_format i s = (KV_OK, formatted i s)"
  by (simp add: kv_block_format_def kv_flash_erase_def kv_flash_write_eq formatted_def erased_def blk_header_def)

lemma block_formatted: "block_log i [] (formatted i s)"
proof -
  have "blank (flash (formatted i s)) (blk_start i + 4) (blk_start i + 262144)"
    by (auto simp: blank_def formatted_def page_program_outside erased_def blk_header_def)
  moreover have "stored (flash (formatted i s)) (blk_start i) blk_header"
    unfolding formatted_def by (simp, intro stored_program) (auto simp: blank_def erased_def blk_header_def)
  ultimately show ?thesis
    by (auto simp: block_log_def formatted_def stored_def blk_header_def dest: spec [of _ 0] spec [of _ 1])
qed

lemma formatted_outside: "a < blk_start i \<or> blk_start i + 262144 \<le> a \<Longrightarrow> flash (formatted i s) a = flash s a"
  by (auto simp: formatted_def page_program_def erased_def blk_header_def)

lemma formatted_other:
  assumes "k \<noteq> i"
  shows "block_log k l (formatted i s) = block_log k l s"
proof (rule block_log_cong)
  fix a assume "blk_start k \<le> a" "a < blk_start k + 262144"
  then show "flash (formatted i s) a = flash s a"
    using other_block [of i k a] assms by (intro formatted_outside) simp
qed (simp_all add: formatted_def assms)

lemma logs_append_list:
  assumes "kv_logs L s" "g < 16" "list_all ok_entry es" "list_all e_live es" "length (encs es) < blk_space s g"
    and "blk_state s g \<noteq> KV_BLOCK_STATE_CLEAN" "write_pos s = write_end L g"
  shows "kv_logs (L(g := L g @ es)) (copied g (encs es) s)"
  using assms
proof (induction es arbitrary: L s)
  case (Cons e es)
  define M where "M = L(g := L g @ [e])"
  have "copied g (enc e) s = s\<lparr>flash := page_program (write_end L g) (enc e) (flash s),
      write_pos := write_end L g + e_len e, blk_space := (blk_space s)(g := blk_space s g - e_len e)\<rparr>"
    using Cons.prems(7) by (simp add: copied_def)
  moreover have "ok_entry e" "e_live e" "e_len e < blk_space s g" using Cons.prems(3-5) by simp_all
  ultimately have "kv_logs M (copied g (enc e) s)"
    using logs_append [OF Cons.prems(1,2) _ _ _ Cons.prems(6), of e] unfolding M_def by metis
  moreover have "M g = L g @ [e]" by (simp add: M_def)
  ultimately have "kv_logs (M(g := M g @ es)) (copied g (encs es) (copied g (enc e) s))"
    by (intro Cons.IH) (use Cons.prems in \<open>simp_all add: write_end_def\<close>)
  moreover have "M(g := M g @ es) = L(g := L g @ e # es)" by (simp add: M_def)
  ultimately have "kv_logs (L(g := L g @ e # es)) (copied g (encs (e # es)) s)" by (simp add: copied_append)
  then show ?case by (simp add: fun_upd_def)
qed simp

lemma inc8_less: "n \<le> 16 \<Longrightarrow> inc8 n = n + 1"
  by (simp add: inc8_def)

lemma logs_format:
  assumes "kv_logs L s" "i < 16" "blk_state s i \<noteq> KV_BLOCK_STATE_CLEAN" "b < 16" "write_pos s = write_end L b" "b \<noteq> i"
    and "blk_state s b \<noteq> KV_BLOCK_STATE_CLEAN"
  shows "kv_logs (L(i := [])) (formatted i s)" (is "kv_logs ?L ?s")
proof -
  have "block_log k (?L k) ?s" if "k < 16" for k
    using block_formatted [of i s] formatted_other [of k i "L k" s] kv_logsD(3) [OF assms(1) that] by (cases "k = i") simp_all
  moreover have "clean_blocks ?s = insert i (clean_blocks s)" "i \<notin> clean_blocks s"
    using assms(2,3) by (auto simp: clean_blocks_def formatted_def)
  then have "clean_blk_nums ?s = card (clean_blocks ?s)"
    using finite_clean [of s] kv_logsD(4) [OF assms(1)] inc8_less [OF card_clean [of s]] by (simp add: formatted_def)
  moreover have "write_pos ?s = write_end ?L b" using assms(5,6) by (simp add: write_end_def formatted_def)
  moreover have "blk_state ?s b \<noteq> KV_BLOCK_STATE_CLEAN" using assms(6,7) by (simp add: formatted_def)
  moreover have "mem_ok ?s" "flash_ok ?s" using kv_logsD(1,2) [OF assms(1)] by (simp_all add: formatted_def)
  ultimately show ?thesis using assms(4) unfolding kv_logs_def by blast
qed

subsection \<open>One collection\<close>

text \<open>Programming one block and formatting another may be exchanged.\<close>

lemma formatted_program_commute:
  assumes "g \<noteq> i" "blk_start g \<le> off" "off + length b \<le> blk_start g + 262144"
  shows "page_program off b (page_program (blk_start i) blk_header (erased i fl)) =
         page_program (blk_start i) blk_header (erased i (page_program off b fl))"
proof -
  have "page_program off b (erased i fl) = erased i (page_program off b fl)"
  proof
    fix a show "page_program off b (erased i fl) a = erased i (page_program off b fl) a"
      using other_block [OF assms(1)[symmetric], of a] assms(2,3) by (auto simp: page_program_def erased_def)
  qed
  then show ?thesis by (simp only: page_program_commute [of off])
qed

lemma gc_collect_eq:
  assumes "kv_logs L s" "g < 16" "i < 16" "g \<noteq> i" "blk_state s g = KV_BLOCK_STATE_CLEAN"
    and "blk_state s i = KV_BLOCK_STATE_DIRTY" "t = s\<lparr>write_pos := blk_start g + 4\<rparr>"
  shows "gc_collect g i t = (let u = formatted i (copied g (encs (lives (L i))) t) in
    u\<lparr>flash := page_program (blk_start g + 1) [KV_BLOCK_STATE_USED] (flash u),
      blk_state := (blk_state u)(g := KV_BLOCK_STATE_USED), clean_blk_nums := dec8 (clean_blk_nums u)\<rparr>)"
proof -
  note bi = kv_logsD(3) [OF assms(1,3)] and bg = kv_logsD(3) [OF assms(1,2)]
  have "length (encs (lives (L i))) < 262140" using length_lives [of "L i"] block_bounds [OF bi] by simp
  then have "traverse_next item_gc_cb i (blk_start i + 4) t = (None, copied g (encs (lives (L i))) t)"
    using assms bi bg kv_logsD(1,2) [OF assms(1)] state_distinct by (intro gc_log) (auto simp: block_log_def)
  moreover have "flash_ok (formatted i (copied g x t))" for x
    using kv_logsD(2) [OF assms(1)] assms(7) by (simp add: formatted_def)
  ultimately show ?thesis
    using kv_logsD(2) [OF assms(1)] assms(7)
    by (simp add: gc_collect_def kv_item_traverse_next kv_block_format_eq kv_set_block_state_eq Let_def)
qed

lemma gc_collect_logs:
  assumes "kv_logs L s" "g < 16" "i < 16" "g \<noteq> i" "blk_state s g = KV_BLOCK_STATE_CLEAN"
    and "blk_state s i = KV_BLOCK_STATE_DIRTY"
  shows "kv_logs (L(g := lives (L i), i := [])) (gc_collect g i (s\<lparr>write_pos := blk_start g + 4\<rparr>))"
proof -
  let ?bs = "encs (lives (L i))"
  note bi = kv_logsD(3) [OF assms(1,3)] and bg = kv_logsD(3) [OF assms(1,2)]
  have n: "length ?bs < 262140" using length_lives [of "L i"] block_bounds [OF bi] by simp
  have Lg: "L g = []" and sp: "blk_space s g = 262140" using bg assms(5) by (simp_all add: block_log_def)
  define u where "u = s\<lparr>flash := page_program (blk_start g + 1) [KV_BLOCK_STATE_USED] (flash s),
     blk_state := (blk_state s)(g := KV_BLOCK_STATE_USED), write_pos := write_end L g,
     clean_blk_nums := dec8 (clean_blk_nums s)\<rparr>"
  have "kv_logs L u" unfolding u_def by (rule kv_logs_use [OF assms(1,2,5)])
  then have "kv_logs (L(g := L g @ lives (L i))) (copied g ?bs u)"
    using n sp state_distinct assms(2) bi list_all_lives [of "L i"]
    by (intro logs_append_list) (auto simp: u_def block_log_def log_at_def)
  then have l: "kv_logs ((L(g := lives (L i)))(i := [])) (formatted i (copied g ?bs u))"
    using assms(2-6) Lg state_distinct
    by (intro logs_format [where b = g]) (simp_all add: u_def write_end_def)
  have "0 < clean_blk_nums s" "clean_blk_nums s \<le> 16"
    using kv_logsD(4) [OF assms(1)] card_clean [of s] assms(2,5) finite_clean [of s]
    by (auto simp: card_gt_0_iff clean_blocks_def)
  then have c: "inc8 (dec8 (clean_blk_nums s)) = dec8 (inc8 (clean_blk_nums s))"
    using dec8_pos [of "clean_blk_nums s"] by (simp add: dec8_def inc8_def)
  have f: "page_program (blk_start g + 1) [KV_BLOCK_STATE_USED] (page_program (blk_start i) blk_header
       (erased i (page_program (blk_start g + 4) ?bs (flash s)))) = page_program (blk_start i) blk_header
       (erased i (page_program (blk_start g + 4) ?bs (page_program (blk_start g + 1) [KV_BLOCK_STATE_USED] (flash s))))"
    by (subst formatted_program_commute [OF assms(4)]) (simp_all add: page_program_commute [of "Suc (blk_start g)"])
  have "gc_collect g i (s\<lparr>write_pos := blk_start g + 4\<rparr>) = formatted i (copied g ?bs u)"
    unfolding gc_collect_eq [OF assms refl] Let_def
    using Lg assms(4) c f by (simp add: formatted_def copied_def u_def write_end_def fun_upd_twist)
  then show ?thesis using l by simp
qed

subsection \<open>The task\<close>

lemma first_clean_Some: "first_clean st is = Some g \<Longrightarrow> g \<in> set is \<and> st g = KV_BLOCK_STATE_CLEAN"
  by (induction "is") (auto split: if_splits)

lemma gc_victim_Some: "gc_victim st is = Some i \<Longrightarrow> i \<in> set is \<and> st i = KV_BLOCK_STATE_DIRTY"
  by (induction "is") (auto split: if_splits)

lemma gc_order_less: "i \<in> set (gc_order b) \<Longrightarrow> i < 16"
  by (auto simp: gc_order_def)

text \<open>What a collection may do to the logs.\<close>

definition gc_moves :: "(nat \<Rightarrow> entry list) \<Rightarrow> (nat \<Rightarrow> entry list) \<Rightarrow> bool" where
  "gc_moves L M \<longleftrightarrow> M = L \<or> (\<exists>g i. g < 16 \<and> i < 16 \<and> g \<noteq> i \<and> L g = [] \<and> M = L(g := lives (L i), i := []))"

lemma kv_gc_task_logs:
  assumes "kv_logs L s"
  shows "\<exists>M. gc_moves L M \<and> kv_logs M (kv_gc_task s) \<and> \<not> gc_trigger (kv_gc_task s)"
proof -
  have same: "kv_logs L (s\<lparr>gc_trigger := False\<rparr>)"
    using assms kv_logs_fields [of "s\<lparr>gc_trigger := False\<rparr>" s L] by simp
  show ?thesis
  proof (cases "clean_blk_nums s = 0")
    case True
    then show ?thesis using same by (auto simp: kv_gc_task_def gc_moves_def)
  next
    case c: False
    show ?thesis
    proof (cases "first_clean (blk_state s) [0..<16]")
      case None
      then show ?thesis using same c by (auto simp: kv_gc_task_def gc_moves_def)
    next
      case (Some g)
      note fc = Some
      then have g: "g < 16" "blk_state s g = KV_BLOCK_STATE_CLEAN" using first_clean_Some by fastforce+
      show ?thesis
      proof (cases "gc_victim (blk_state s) (gc_order (blk_of (write_pos s)))")
        case None
        then show ?thesis using same c fc by (auto simp: kv_gc_task_def gc_moves_def)
      next
        case (Some i)
        then have i: "i < 16" "blk_state s i = KV_BLOCK_STATE_DIRTY" using gc_victim_Some gc_order_less by fastforce+
        then have gi: "g \<noteq> i" using g(2) state_distinct by auto
        let ?M = "L(g := lives (L i), i := [])" and ?t = "gc_collect g i (s\<lparr>write_pos := blk_start g + 4\<rparr>)"
        have "kv_logs ?M ?t" by (rule gc_collect_logs [OF assms g(1) i(1) gi g(2) i(2)])
        then have "kv_logs ?M (?t\<lparr>gc_trigger := False\<rparr>)"
          using kv_logs_fields [of "?t\<lparr>gc_trigger := False\<rparr>" ?t ?M] by simp
        moreover have "L g = []" using kv_logsD(3) [OF assms g(1)] g(2) by (simp add: block_log_def)
        ultimately show ?thesis using c fc Some g i gi by (auto simp: kv_gc_task_def gc_moves_def)
      qed
    qed
  qed
qed

lemma kv_gc_wait_logs:
  assumes "kv_logs L s"
  shows "\<exists>M. gc_moves L M \<and> kv_logs M (kv_gc_wait s)"
proof (cases "gc_trigger s")
  case True
  have "kv_logs L (s\<lparr>gc_waiter := inc8 (gc_waiter s)\<rparr>)"
    using assms kv_logs_fields [of "s\<lparr>gc_waiter := inc8 (gc_waiter s)\<rparr>" s L] by simp
  then show ?thesis using kv_gc_task_logs True by (auto simp: kv_gc_wait_def)
qed (use assms in \<open>auto simp: kv_gc_wait_def gc_moves_def\<close>)

end
