(* ===== verification/KvRefine.thy ===== *)
theory KvRefine
  imports KvGc
begin

text \<open>
  The abstract store: a finite map from keys to values. A store refines a map when the live
  entries of its logs are exactly the pairs of the map, each once. The operations of
  component/kv/kv.c are simulated by the operations on maps.
\<close>

definition kv_pairs :: "(nat \<Rightarrow> entry list) \<Rightarrow> (bytes \<times> bytes) multiset" where
  "kv_pairs L = (\<Sum>i<16. image_mset (\<lambda>e. (e_key e, e_val e)) (mset (lives (L i))))"

lemma kv_pairs_upd:
  assumes "i < 16"
  shows "kv_pairs (L(i := l)) + image_mset (\<lambda>e. (e_key e, e_val e)) (mset (lives (L i))) =
         kv_pairs L + image_mset (\<lambda>e. (e_key e, e_val e)) (mset (lives l))"
proof -
  have "kv_pairs M = image_mset (\<lambda>e. (e_key e, e_val e)) (mset (lives (M i))) +
      (\<Sum>k \<in> {..<16} - {i}. image_mset (\<lambda>e. (e_key e, e_val e)) (mset (lives (M k))))" for M
    using assms unfolding kv_pairs_def by (subst sum.remove [of _ i]) simp_all
  from this [of L] this [of "L(i := l)"] show ?thesis by (simp add: ac_simps)
qed

lemma kv_pairs_append:
  "b < 16 \<Longrightarrow> kv_pairs (L(b := L b @ [new_entry off key val])) = add_mset (key, val) (kv_pairs L)"
  using kv_pairs_upd [of b L "L b @ [new_entry off key val]"] by simp

lemma kv_pairs_kill:
  "i < 16 \<Longrightarrow> L i = xs @ e # ys \<Longrightarrow> e_live e \<Longrightarrow>
   kv_pairs (L(i := xs @ kill e # ys)) + {#(e_key e, e_val e)#} = kv_pairs L"
  using kv_pairs_upd [of i L "xs @ kill e # ys"] by simp

lemma kv_pairs_gc: "gc_moves L M \<Longrightarrow> kv_pairs M = kv_pairs L"
proof (unfold gc_moves_def, elim disjE exE conjE)
  fix g i assume *: "g < 16" "i < 16" "g \<noteq> i" "L g = []" "M = L(g := lives (L i), i := [])"
  have "lives (lives (L i)) = lives (L i)" by (simp add: lives_def)
  then show "kv_pairs M = kv_pairs L"
    using kv_pairs_upd [OF *(1), of L "lives (L i)"] kv_pairs_upd [OF *(2), of "L(g := lives (L i))" "[]"] * by simp
qed simp

definition kv_refines :: "(bytes \<rightharpoonup> bytes) \<Rightarrow> kv_mgr \<Rightarrow> bool" where
  "kv_refines m s \<longleftrightarrow> finite (dom m) \<and> (\<exists>L. kv_logs L s \<and> kv_pairs L = mset_set (Map.graph m))"

lemma finite_graph: "finite (dom m) \<Longrightarrow> finite (Map.graph m)"
  by (simp add: finite_graph_iff_finite_dom)

lemma graph_insert: "m k = None \<Longrightarrow> Map.graph (m(k \<mapsto> v)) = insert (k, v) (Map.graph m)"
  by (auto simp: Map.graph_def split: if_splits)

lemma graph_remove: "m k = Some v \<Longrightarrow> Map.graph (m(k := None)) = Map.graph m - {(k, v)}"
  by (auto simp: Map.graph_def split: if_splits)

lemma mset_graph_insert:
  assumes "m k = None" "finite (dom m)"
  shows "mset_set (Map.graph (m(k \<mapsto> v))) = add_mset (k, v) (mset_set (Map.graph m))"
proof -
  have "(k, v) \<notin> Map.graph m" using assms(1) by (simp add: Map.graph_def)
  then show ?thesis using finite_graph [OF assms(2)] assms(1) by (simp add: fun_upd_idem)
qed

lemma in_kv_pairs:
  "(k, v) \<in># kv_pairs L \<longleftrightarrow> (\<exists>i<16. \<exists>e \<in> set (L i). e_live e \<and> e_key e = k \<and> e_val e = v)"
proof -
  have "(k, v) \<in># kv_pairs L \<longleftrightarrow>
      (\<exists>i<16. (k, v) \<in># image_mset (\<lambda>e. (e_key e, e_val e)) (mset (lives (L i))))"
    unfolding kv_pairs_def by (subst set_mset_sum) auto
  then show ?thesis by (auto simp: lives_def)
qed

lemma in_graph: "finite (dom m) \<Longrightarrow> (k, v) \<in># mset_set (Map.graph m) \<longleftrightarrow> m k = Some v"
  using finite_graph [of m] by (simp add: Map.graph_def)

lemma live_in_map:
  assumes "kv_pairs L = mset_set (Map.graph m)" "finite (dom m)" "i < 16" "e \<in> set (L i)" "e_live e"
  shows "m (e_key e) = Some (e_val e)"
  using in_kv_pairs [of "e_key e" "e_val e" L] in_graph [OF assms(2)] assms by auto

lemma no_live_map:
  assumes "kv_pairs L = mset_set (Map.graph m)" "finite (dom m)" "no_live key L"
  shows "m key = None"
proof (rule ccontr)
  assume "m key \<noteq> None"
  then obtain v where "(key, v) \<in># kv_pairs L" using in_graph [OF assms(2)] assms(1) by auto
  then show False using assms(3) unfolding in_kv_pairs no_live_def by auto
qed

subsection \<open>Reading, storing and deleting\<close>

lemma kv_item_get_refines:
  assumes "kv_refines m s" "0 < n"
  shows "kv_item_get key n s =
    ((case m key of None \<Rightarrow> (KV_ERR_NOT_FOUND, [], n)
      | Some v \<Rightarrow> if n < int (length v) then (KV_ERR_NO_SPACE, [], int (length v)) else (KV_OK, v, int (length v))), s)"
proof -
  obtain L where L: "finite (dom m)" "kv_logs L s" "kv_pairs L = mset_set (Map.graph m)"
    using assms(1) by (auto simp: kv_refines_def)
  show ?thesis
  proof (cases rule: kv_item_search_cases [OF L(2), of key, case_names none some])
    case none
    then show ?thesis using no_live_map [OF L(3,1)] assms(2) by (simp add: kv_item_get_def)
  next
    case (some i xs e ys)
    then have "m key = Some (e_val e)" using live_in_map [OF L(3,1) some(1), of e] by simp
    then show ?thesis using some assms(2) by (simp add: kv_item_get_def Let_def)
  qed
qed

lemma kv_refines_gc:
  assumes "kv_refines m s"
  shows "kv_refines m (kv_gc_wait s)"
  using assms kv_gc_wait_logs kv_pairs_gc unfolding kv_refines_def by metis

lemma store_refines:
  assumes "kv_logs L s" "kv_pairs L = mset_set (Map.graph m)" "finite (dom m)" "no_live key L"
    and "ok_entry (new_entry 0 key val)" "kv_item_store key val 0 s = Some (r, s')"
  shows "r = KV_OK \<and> kv_refines (m(key \<mapsto> val)) s' \<or> r = KV_ERR_NO_SPACE \<and> kv_refines m s'"
proof -
  have m: "m key = None" by (rule no_live_map [OF assms(2,3,4)])
  from kv_item_store_logs [OF assms(1,5,6)] show ?thesis
  proof (elim disjE exE conjE)
    fix b assume b: "b < 16" "r = KV_OK" "kv_logs (L(b := L b @ [new_entry 0 key val])) s'"
    have "kv_pairs (L(b := L b @ [new_entry 0 key val])) = mset_set (Map.graph (m(key \<mapsto> val)))"
      using assms(2) by (simp only: kv_pairs_append [OF b(1)] mset_graph_insert [of m key val, OF m assms(3)])
    then show ?thesis using b assms(3) by (auto simp: kv_refines_def)
  qed (use assms in \<open>auto simp: kv_refines_def\<close>)
qed

text \<open>An entry is where it was after another one has been appended.\<close>

lemma append_keeps:
  "L i = xs @ e # ys \<Longrightarrow> \<exists>zs. (L(b := L b @ [x])) i = xs @ e # zs"
  by (cases "i = b") auto

text \<open>Appending an entry with the key of a live one, and deleting that one, is an update.\<close>

lemma kv_pairs_replace:
  assumes "kv_pairs L = mset_set (Map.graph m)" "finite (dom m)" "b < 16" "i < 16"
    and "M = L(b := L b @ [new_entry off key val])" "M i = xs @ e # zs" "e_live e" "e_key e = key"
    and "m key = Some (e_val e)"
  shows "kv_pairs (M(i := xs @ kill e # zs)) = mset_set (Map.graph (m(key \<mapsto> val)))"
proof -
  have "kv_pairs (M(i := xs @ kill e # zs)) + {#(key, e_val e)#} = add_mset (key, val) (kv_pairs L)"
    using kv_pairs_kill [of i M, OF assms(4,6,7)] kv_pairs_append [OF assms(3), of L] assms(8) by (simp add: assms(5))
  moreover have "mset_set (Map.graph m) = add_mset (key, e_val e) (mset_set (Map.graph (m(key := None))))"
    using mset_graph_insert [of "m(key := None)" key "e_val e"] assms(2,9) by (simp add: fun_upd_idem)
  ultimately have "kv_pairs (M(i := xs @ kill e # zs)) = add_mset (key, val) (mset_set (Map.graph (m(key := None))))"
    using assms(1) by (simp add: add_mset_commute)
  also have "\<dots> = mset_set (Map.graph (m(key \<mapsto> val)))"
    using mset_graph_insert [of "m(key := None)" key val] assms(2) by simp
  finally show ?thesis .
qed

lemma update_refines:
  assumes "kv_logs L s" "kv_pairs L = mset_set (Map.graph m)" "finite (dom m)"
    and "i < 16" "L i = xs @ e # ys" "e_live e" "0 < length val" "length val \<le> 512"
    and "kv_item_update (found i xs e) (e_key e) val s = Some (r, s')"
  shows "r = KV_OK \<and> kv_refines (m(e_key e \<mapsto> val)) s' \<or> r = KV_ERR_NO_SPACE \<and> kv_refines m s'"
proof -
  let ?key = "e_key e" and ?off = "blk_start i + 4 + length (encs xs)"
  have m: "m ?key = Some (e_val e)" using live_in_map [OF assms(2,3,4)] assms(5,6) by simp
  show ?thesis
  proof (cases "e_val e = val")
    case True
    then have "r = KV_OK" "s' = s" using assms(9) by (auto simp: kv_item_update_def)
    moreover have "m(?key \<mapsto> val) = m" using m True by (simp add: fun_upd_idem)
    ultimately show ?thesis using assms(1-3) by (auto simp: kv_refines_def)
  next
    case False
    note bi = kv_logsD(3) [OF assms(1,4)]
    have ok: "ok_entry e" using bi assms(5) by (simp add: block_log_def log_at_def)
    have off: "origin_ok ?off (length ?key)"
      using entry_fits(2) [of i xs e ys s] bi assms(4,5)
      unfolding origin_ok_def by (intro disjI2 exI [of _ i]) simp
    have n: "ok_entry (new_entry ?off ?key val)" using ok off assms(7,8) by (simp add: ok_entry_def)
    obtain r1 t where st: "kv_item_store ?key val ?off s = Some (r1, t)"
      and r1: "(if r1 \<noteq> KV_OK then Some (r1, t) else Some (kv_item_del (found i xs e) KV_DELETE_FLAG t)) = Some (r, s')"
      using assms(9) False by (auto simp: kv_item_update_def bind_eq_Some_conv split: if_splits)
    from kv_item_store_logs [OF assms(1) n st] show ?thesis
    proof (elim disjE exE conjE)
      fix b assume b: "b < 16" "r1 = KV_OK" "kv_logs (L(b := L b @ [new_entry ?off ?key val])) t"
      define M where "M = L(b := L b @ [new_entry ?off ?key val])"
      have M: "kv_logs M t" using b(3) by (simp only: M_def)
      obtain zs where zs: "M i = xs @ e # zs"
        using append_keeps [of L i xs e ys b, OF assms(5)] unfolding M_def by blast
      obtain u where u: "item_mark ?off t = (KV_OK, u)" "kv_logs (M(i := xs @ kill e # zs)) u"
        using item_mark_logs [OF M assms(4) zs] by blast
      have "kv_pairs (M(i := xs @ kill e # zs)) = mset_set (Map.graph (m(?key \<mapsto> val)))"
        by (rule kv_pairs_replace [OF assms(2,3) b(1) assms(4) M_def zs assms(6) refl m])
      then have "kv_refines (m(?key \<mapsto> val)) u" using u(2) assms(3) unfolding kv_refines_def by auto
      then show ?thesis using r1 b(2) u(1) by auto
    qed (use r1 assms(2,3) in \<open>auto simp: kv_refines_def\<close>)
  qed
qed

lemma kv_item_set_refines:
  assumes "kv_refines m s" "key \<noteq> []" "kv_item_set key val s = Some (r, s')"
  shows "r = KV_ERR_INVALID_PARAM \<and> s' = s \<and> (val = [] \<or> 128 < length key \<or> 512 < length val) \<or>
    r = KV_OK \<and> kv_refines (m(key \<mapsto> val)) s' \<or> r = KV_ERR_NO_SPACE \<and> kv_refines m s'"
proof (cases "val = [] \<or> 128 < length key \<or> 512 < length val")
  case True
  then show ?thesis using assms(3) by (auto simp: kv_item_set_def)
next
  case False
  obtain L where L: "finite (dom m)" "kv_logs L (kv_gc_wait s)" "kv_pairs L = mset_set (Map.graph m)"
    using kv_refines_gc [OF assms(1)] unfolding kv_refines_def by blast
  have set: "(case kv_item_search key (kv_gc_wait s) of (Some item, s) \<Rightarrow> kv_item_update item key val s
      | (None, s) \<Rightarrow> kv_item_store key val 0 s) = Some (r, s')"
    using assms(3) False unfolding kv_item_set_def Let_def by (auto split: prod.splits option.splits)
  show ?thesis
  proof (cases rule: kv_item_search_cases [OF L(2), of key, case_names none some])
    case none
    then have "kv_item_store key val 0 (kv_gc_wait s) = Some (r, s')" using set by simp
    moreover have "ok_entry (new_entry 0 key val)" using False assms(2) by (auto simp: ok_entry_def)
    ultimately show ?thesis using store_refines [OF L(2,3,1) none(2)] by blast
  next
    case (some i xs e ys)
    then have "kv_item_update (found i xs e) (e_key e) val (kv_gc_wait s) = Some (r, s')" using set by simp
    moreover have "0 < length val" "length val \<le> 512" using False by auto
    ultimately show ?thesis using update_refines [OF L(2,3,1) some(1-3)] some(4) by blast
  qed
qed

lemma kv_item_delete_refines:
  assumes "kv_refines m s"
  shows "\<exists>s'. kv_item_delete key s = (if m key = None then KV_ERR_NOT_FOUND else KV_OK, s') \<and>
    kv_refines (m(key := None)) s' \<and> (m key = None \<longrightarrow> s' = s)"
proof -
  obtain L where L: "finite (dom m)" "kv_logs L s" "kv_pairs L = mset_set (Map.graph m)"
    using assms unfolding kv_refines_def by blast
  show ?thesis
  proof (cases rule: kv_item_search_cases [OF L(2), of key, case_names none some])
    case none
    have "m key = None" by (rule no_live_map [OF L(3,1) none(2)])
    then show ?thesis using none assms by (simp add: kv_item_delete_def fun_upd_idem)
  next
    case (some i xs e ys)
    have m: "m key = Some (e_val e)" using live_in_map [OF L(3,1) some(1), of e] some(2-4) by simp
    obtain u where u: "item_mark (blk_start i + 4 + length (encs xs)) s = (KV_OK, u)"
      "kv_logs (L(i := xs @ kill e # ys)) u"
      using item_mark_logs [OF L(2) some(1,2)] by blast
    have "mset_set (Map.graph m) = add_mset (key, e_val e) (mset_set (Map.graph (m(key := None))))"
      using mset_graph_insert [of "m(key := None)" key "e_val e"] m L(1) by (simp add: fun_upd_idem)
    then have "kv_pairs (L(i := xs @ kill e # ys)) = mset_set (Map.graph (m(key := None)))"
      using kv_pairs_kill [of i L, OF some(1-3)] L(3) some(4) by simp
    then have "kv_refines (m(key := None)) u" using u(2) L(1) unfolding kv_refines_def by auto
    then show ?thesis using some(5) u(1) m by (simp add: kv_item_delete_def)
  qed
qed

subsection \<open>Deleting by prefix\<close>

definition has_prefix :: "bytes \<Rightarrow> bytes \<Rightarrow> bool" where
  "has_prefix p k \<longleftrightarrow> take (length p) k = p"

definition kill_prefix :: "bytes \<Rightarrow> entry \<Rightarrow> entry" where
  "kill_prefix p e = (if e_live e \<and> has_prefix p (e_key e) then kill e else e)"

lemma has_prefix_length: "has_prefix p k \<Longrightarrow> length p \<le> length k"
  unfolding has_prefix_def by (metis length_take min.cobounded1)

lemma prefix_cb_entry:
  assumes "mem_ok s" "stored (flash s) pos (enc e)"
  shows "item_del_by_prefix_cb p (item_at pos e) s =
    (KV_LOOP_CONTINUE, item_at pos e, if has_prefix p (e_key e) then snd (item_mark pos s) else s)"
  using assms read_entry(2) [OF assms(2)] has_prefix_length [of p "e_key e"]
  by (auto simp: item_del_by_prefix_cb_def has_prefix_def)

lemma kill_prefix_len [simp]: "e_len (kill_prefix p e) = e_len e"
  by (simp add: kill_prefix_def)

lemma prefix_log:
  assumes "kv_logs L s" "i < 16" "L i = xs @ l"
  shows "\<exists>s'. traverse_next (item_del_by_prefix_cb p) i (blk_start i + 4 + length (encs xs)) s = (None, s') \<and>
    kv_logs (L(i := xs @ map (kill_prefix p) l)) s'"
  using assms
proof (induction l arbitrary: xs L s)
  case Nil
  note bi = kv_logsD(3) [OF Nil.prems(1,2)]
  then have "traverse_done i (blk_start i + 4 + length (encs xs)) s = s"
    using block_bounds [OF bi] Nil.prems(3) by (intro traverse_done_id) (simp_all add: block_log_def)
  then show ?case
    using bi Nil.prems kv_logsD(1) [OF Nil.prems(1)]
    by (simp add: traverse_blank block_log_def log_at_def fun_upd_idem)
next
  case (Cons e l)
  define pos where "pos = blk_start i + 4 + length (encs xs)"
  note bi = kv_logsD(3) [OF Cons.prems(1,2)]
  have log: "log_at (flash s) pos (e # l) (blk_start i + 262144)"
    using bi Cons.prems(3) by (simp add: block_log_def log_at_append pos_def)
  then have e: "stored (flash s) pos (enc e)" "ok_entry e" by simp_all
  have go: "\<exists>s'. traverse_next (item_del_by_prefix_cb p) i (pos + e_len e) t = (None, s') \<and>
      kv_logs (L(i := xs @ map (kill_prefix p) (e # l))) s'"
    if "kv_logs M t" "M i = (xs @ [kill_prefix p e]) @ l" "M(i := []) = L(i := [])" for M t
  proof -
    note M = that
    have "M(i := x) = L(i := x)" for x using M(3) by (metis fun_upd_upd)
    moreover obtain s' where
      "traverse_next (item_del_by_prefix_cb p) i (blk_start i + 4 + length (encs (xs @ [kill_prefix p e]))) t = (None, s')"
      "kv_logs (M(i := (xs @ [kill_prefix p e]) @ map (kill_prefix p) l)) s'"
      using Cons.IH [OF M(1) Cons.prems(2) M(2)] by blast
    ultimately show ?thesis by (intro exI [of _ s']) (simp add: pos_def add.assoc)
  qed
  show ?case
  proof (cases "e_live e \<and> has_prefix p (e_key e)")
    case True
    obtain u where u: "item_mark pos s = (KV_OK, u)" "kv_logs (L(i := xs @ kill e # l)) u"
      using item_mark_logs [OF Cons.prems(1,2,3)] unfolding pos_def by blast
    have "traverse_next (item_del_by_prefix_cb p) i pos s = traverse_next (item_del_by_prefix_cb p) i (pos + e_len e) u"
      using True u(1) traverse_next_Cons [OF log] traverse_live [OF kv_logsD(1) [OF Cons.prems(1)] e]
      by (simp add: prefix_cb_entry [OF kv_logsD(1) [OF Cons.prems(1)] e(1)])
    moreover have "kill_prefix p e = kill e" using True by (simp add: kill_prefix_def)
    ultimately have "\<exists>s'. traverse_next (item_del_by_prefix_cb p) i pos s = (None, s') \<and>
        kv_logs (L(i := xs @ map (kill_prefix p) (e # l))) s'" using go [OF u(2)] by simp
    then show ?thesis unfolding pos_def by blast
  next
    case False
    have "mark_dirty i s = s" if "\<not> e_live e"
      using that bi Cons.prems(3) by (intro mark_dirty_id) (auto simp: block_log_def)
    then have "traverse_next (item_del_by_prefix_cb p) i pos s = traverse_next (item_del_by_prefix_cb p) i (pos + e_len e) s"
      using False traverse_next_Cons [OF log] traverse_live [OF kv_logsD(1) [OF Cons.prems(1)] e]
        traverse_dead [OF kv_logsD(1) [OF Cons.prems(1)] e]
      by (cases "e_live e") (simp_all add: prefix_cb_entry [OF kv_logsD(1) [OF Cons.prems(1)] e(1)])
    moreover have "kill_prefix p e = e" using False by (auto simp: kill_prefix_def)
    ultimately have "\<exists>s'. traverse_next (item_del_by_prefix_cb p) i pos s = (None, s') \<and>
        kv_logs (L(i := xs @ map (kill_prefix p) (e # l))) s'" using go [OF Cons.prems(1)] Cons.prems(3) by simp
    then show ?thesis unfolding pos_def by blast
  qed
qed

lemma prefix_block:
  assumes "kv_logs L s" "i < 16"
  shows "kv_logs (L(i := map (kill_prefix p) (L i))) (snd (kv_item_traverse (item_del_by_prefix_cb p) i s))"
  using prefix_log [OF assms, of "[]" "L i" p] unfolding kv_item_traverse_next by auto

lemma prefix_blocks:
  assumes "kv_logs L s" "set is \<subseteq> {..<16}" "distinct is"
  shows "kv_logs (\<lambda>i. if i \<in> set is then map (kill_prefix p) (L i) else L i)
    (fold (\<lambda>i s. snd (kv_item_traverse (item_del_by_prefix_cb p) i s)) is s)"
  using assms
proof (induction "is" arbitrary: L s)
  case (Cons i "is")
  define M where "M = L(i := map (kill_prefix p) (L i))"
  have e: "(\<lambda>k. if k \<in> set is then map (kill_prefix p) (M k) else M k) =
      (\<lambda>k. if k \<in> set (i # is) then map (kill_prefix p) (L k) else L k)"
    using Cons.prems(3) by (auto simp: M_def)
  have "kv_logs M (snd (kv_item_traverse (item_del_by_prefix_cb p) i s))"
    unfolding M_def using Cons.prems by (intro prefix_block) auto
  then have "kv_logs (\<lambda>k. if k \<in> set is then map (kill_prefix p) (M k) else M k)
      (fold (\<lambda>i s. snd (kv_item_traverse (item_del_by_prefix_cb p) i s)) is
        (snd (kv_item_traverse (item_del_by_prefix_cb p) i s)))"
    using Cons.prems(2,3) by (intro Cons.IH) auto
  then show ?case unfolding e by simp
qed simp

lemma filter_mset_sum: "finite A \<Longrightarrow> filter_mset P (\<Sum>i\<in>A. f i) = (\<Sum>i\<in>A. filter_mset P (f i))"
  by (induction A rule: finite_induct) simp_all

lemma kill_prefix_pairs:
  "image_mset (\<lambda>e. (e_key e, e_val e)) (mset (lives (map (kill_prefix p) l))) =
   filter_mset (\<lambda>(k, v). \<not> has_prefix p k) (image_mset (\<lambda>e. (e_key e, e_val e)) (mset (lives l)))"
  by (induction l) (auto simp: kill_prefix_def)

definition without_prefix :: "bytes \<Rightarrow> (bytes \<rightharpoonup> bytes) \<Rightarrow> bytes \<rightharpoonup> bytes" where
  "without_prefix p m = (\<lambda>k. if has_prefix p k then None else m k)"

lemma kv_item_delete_by_prefix_refines:
  assumes "kv_refines m s"
  shows "\<exists>s'. kv_item_delete_by_prefix p s = (KV_OK, s') \<and> kv_refines (without_prefix p m) s'"
proof -
  obtain L where L: "finite (dom m)" "kv_logs L s" "kv_pairs L = mset_set (Map.graph m)"
    using assms unfolding kv_refines_def by blast
  define M where "M = (\<lambda>i. if i \<in> set [0..<16] then map (kill_prefix p) (L i) else L i)"
  have "kv_logs M (snd (kv_item_delete_by_prefix p s))"
    unfolding M_def kv_item_delete_by_prefix_def snd_conv using L(2) by (intro prefix_blocks) auto
  moreover have "kv_pairs M = filter_mset (\<lambda>(k, v). \<not> has_prefix p k) (kv_pairs L)"
    unfolding kv_pairs_def by (simp add: filter_mset_sum M_def kill_prefix_pairs)
  moreover have "{x \<in> Map.graph m. case x of (k, v) \<Rightarrow> \<not> has_prefix p k} = Map.graph (without_prefix p m)"
    by (auto simp: Map.graph_def without_prefix_def split: if_splits)
  moreover have "finite (dom (without_prefix p m))"
    using L(1) by (rule finite_subset [rotated]) (auto simp: without_prefix_def split: if_splits)
  ultimately have "kv_refines (without_prefix p m) (snd (kv_item_delete_by_prefix p s))"
    using L(3) finite_graph [OF L(1)] unfolding kv_refines_def by (intro conjI exI [of _ M]) simp_all
  then show ?thesis by (simp add: kv_item_delete_by_prefix_def)
qed

end
