(* ===== verification/KvInit.thy ===== *)
theory KvInit
  imports KvRefine
begin

text \<open>
  Starting the store (kv_init of component/kv/kv.c): on a flash without blocks, on the flash a
  store has left, and on the flash of a store that lost power between the two writes of an update.
\<close>

subsection \<open>What the flash alone says\<close>

definition block_raw :: "nat \<Rightarrow> entry list \<Rightarrow> (nat \<Rightarrow> u8) \<Rightarrow> bool" where
  "block_raw i l fl \<longleftrightarrow> log_at fl (blk_start i + 4) l (blk_start i + 262144) \<and> fl (blk_start i) = KV_BLOCK_MAGIC_NUM
     \<and> fl (blk_start i + 1) \<in> {KV_BLOCK_STATE_USED, KV_BLOCK_STATE_CLEAN, KV_BLOCK_STATE_DIRTY}
     \<and> (fl (blk_start i + 1) = KV_BLOCK_STATE_CLEAN \<longrightarrow> l = [])"

lemma block_log_raw: "block_log i l s \<Longrightarrow> block_raw i l (flash s)"
  by (auto simp: block_log_def block_raw_def)

lemma block_raw_cong:
  assumes "\<And>a. blk_start i \<le> a \<Longrightarrow> a < blk_start i + 262144 \<Longrightarrow> fl' a = fl a"
  shows "block_raw i l fl' = block_raw i l fl"
proof -
  have "log_at fl' (blk_start i + 4) l (blk_start i + 262144) = log_at fl (blk_start i + 4) l (blk_start i + 262144)"
    using assms by (intro log_at_cong) simp
  then show ?thesis using assms [of "blk_start i"] assms [of "blk_start i + 1"] by (simp add: block_raw_def)
qed

text \<open>The part of the flash that can hold entries.\<close>

definition in_body :: "nat \<Rightarrow> bool" where
  "in_body a \<longleftrightarrow> (\<exists>k<16. blk_start k + 4 \<le> a \<and> a < blk_start k + 262144)"

text \<open>The check of an update: is there a live item with the same key at the origin?\<close>

definition origin_hit :: "(nat \<Rightarrow> u8) \<Rightarrow> nat \<Rightarrow> bytes \<Rightarrow> bool" where
  "origin_hit fl off key \<longleftrightarrow> fl off = KV_ITEM_MAGIC_NUM \<and> fl (off + 1) = KV_ITEM_STATE_NORMAL
     \<and> unat (fl (off + 3)) = length key \<and> stored fl (off + 10) key"

definition origin_clear :: "(nat \<Rightarrow> u8) \<Rightarrow> nat \<Rightarrow> entry \<Rightarrow> bool" where
  "origin_clear fl pos e \<longleftrightarrow> e_origin e = 0 \<or> e_origin e = pos \<or> \<not> origin_hit fl (e_origin e) (e_key e)"

fun clear_from :: "(nat \<Rightarrow> u8) \<Rightarrow> nat \<Rightarrow> entry list \<Rightarrow> bool" where
  "clear_from fl pos [] = True"
| "clear_from fl pos (e # l) = ((e_live e \<longrightarrow> origin_clear fl pos e) \<and> clear_from fl (pos + e_len e) l)"

lemma clear_from_append: "clear_from fl pos (l @ m) \<longleftrightarrow> clear_from fl pos l \<and> clear_from fl (pos + length (encs l)) m"
  by (induction l arbitrary: pos) (simp_all add: add.assoc)

lemma origin_hit_cong:
  assumes "origin_ok off (length key)" "off \<noteq> 0" "\<And>a. in_body a \<Longrightarrow> fl' a = fl a"
  shows "origin_hit fl' off key = origin_hit fl off key"
proof -
  obtain k where k: "k < 16" "blk_start k + 4 \<le> off" "off + 10 + length key \<le> blk_start k + 262144"
    using assms(1,2) by (auto simp: origin_ok_def)
  then have b: "in_body (off + j)" if "j < 10 + length key" for j
    unfolding in_body_def using that by (intro exI [of _ k]) simp
  have "fl' off = fl off" "fl' (off + 1) = fl (off + 1)" "fl' (off + 3) = fl (off + 3)"
    using assms(3) b [of 0] b [of 1] b [of 3] by simp_all
  moreover have "stored fl' (off + 10) key = stored fl (off + 10) key"
  proof (rule stored_cong)
    fix a assume "off + 10 \<le> a" "a < off + 10 + length key"
    then show "fl' a = fl a" using assms(3) b [of "a - off"] by simp
  qed
  ultimately show ?thesis by (simp add: origin_hit_def)
qed

lemma clear_from_cong:
  assumes "list_all ok_entry l" "\<And>a. in_body a \<Longrightarrow> fl' a = fl a"
  shows "clear_from fl' pos l = clear_from fl pos l"
  using assms(1)
proof (induction l arbitrary: pos)
  case (Cons e l)
  then have "origin_hit fl' (e_origin e) (e_key e) = origin_hit fl (e_origin e) (e_key e)" if "e_origin e \<noteq> 0"
    using that assms(2) by (intro origin_hit_cong) (auto simp: ok_entry_def)
  then show ?case using Cons by (auto simp: origin_clear_def)
qed simp

text \<open>Clearing a byte makes no item appear, as keys hold no zero.\<close>

lemma origin_hit_zero:
  assumes "origin_hit (page_program q [0] fl) off key" "0 \<notin> set key" "key \<noteq> []"
  shows "origin_hit fl off key"
proof -
  have z: "page_program q [0] fl a = (if a = q then 0 else fl a)" for a
    by (simp add: page_program_def)
  have "(0 :: u8) \<noteq> KV_ITEM_MAGIC_NUM" "(0 :: u8) \<noteq> KV_ITEM_STATE_NORMAL" by (simp_all add: kv_consts)
  moreover have "key ! j \<noteq> 0" if "j < length key" for j using assms(2) that nth_mem by metis
  ultimately show ?thesis
    using assms(1,3) by (auto simp: origin_hit_def z stored_def split: if_splits)
qed

lemma clear_from_zero:
  assumes "clear_from fl pos l" "\<forall>e \<in> set l. e_live e \<longrightarrow> 0 \<notin> set (e_key e) \<and> e_key e \<noteq> []"
  shows "clear_from (page_program q [0] fl) pos l"
  using assms
proof (induction l arbitrary: pos)
  case (Cons e l)
  then show ?case using origin_hit_zero [of q fl "e_origin e" "e_key e"] by (auto simp: origin_clear_def)
qed simp

subsection \<open>Recovering a block\<close>

lemma stored_iff: "stored fl p bs \<longleftrightarrow> map fl [p..<p + length bs] = bs"
proof
  assume r: "map fl [p..<p + length bs] = bs"
  have "fl (p + j) = bs ! j" if "j < length bs" for j
    using arg_cong [OF r, of "\<lambda>l. l ! j"] that by simp
  then show "stored fl p bs" by (simp add: stored_def)
qed (rule stored_read)

lemma recovery_clear:
  assumes "mem_ok s" "stored (flash s) pos (enc e)" "origin_clear (flash s) pos e"
  shows "item_recovery_cb (item_at pos e) s = (KV_LOOP_CONTINUE, item_at pos e, s)"
proof -
  let ?o = "e_origin e"
  have keep: "kv_item_del (item_at pos e) KV_UPDATE_FLAG s = (KV_OK, s)" if "?o \<noteq> 0" "?o \<noteq> pos"
  proof -
    have n: "\<not> origin_hit (flash s) ?o (e_key e)" using assms(3) that by (simp add: origin_clear_def)
    have h: "h_magic (read_hdr ?o s) = flash s ?o" "h_state (read_hdr ?o s) = flash s (?o + 1)"
      "key_len (read_hdr ?o s) = unat (flash s (?o + 3))"
      by (simp_all add: read_hdr_def hdr_of_def kv_flash_read_def)
    have "stored (flash s) (?o + 10) (e_key e) \<longleftrightarrow> kv_flash_read (?o + 10) (length (e_key e)) s = e_key e"
      by (simp add: stored_iff kv_flash_read_def)
    then have "h_magic (read_hdr ?o s) \<noteq> KV_ITEM_MAGIC_NUM \<or> h_state (read_hdr ?o s) \<noteq> KV_ITEM_STATE_NORMAL
        \<or> key_len (read_hdr ?o s) \<noteq> length (e_key e) \<or> kv_flash_read (?o + 10) (length (e_key e)) s \<noteq> e_key e"
      using n unfolding h origin_hit_def by blast
    then show ?thesis
      using assms(1) read_entry(2) [OF assms(2)]
      by (cases "key_len (read_hdr ?o s) = length (e_key e)") (simp_all add: Let_def)
  qed
  show ?thesis
    using assms(1) read_entry(1) [OF assms(2)] keep
    by (cases "?o \<noteq> 0 \<and> ?o \<noteq> pos") (auto simp: item_recovery_cb_def Let_def simp del: kv_item_del.simps)
qed

lemma mark_dirty_eq:
  assumes "flash_ok s"
  shows "mark_dirty i s = (if blk_state s i = KV_BLOCK_STATE_USED
    then s\<lparr>flash := page_program (blk_start i + 1) [KV_BLOCK_STATE_DIRTY] (flash s),
           blk_state := (blk_state s)(i := KV_BLOCK_STATE_DIRTY)\<rparr> else s)"
  using assms by (simp add: mark_dirty_def kv_set_block_state_eq)

lemma mark_dirty_twice: "flash_ok s \<Longrightarrow> mark_dirty i (mark_dirty i s) = mark_dirty i s"
  using state_distinct by (simp add: mark_dirty_eq)

lemma mark_dirty_fields [simp]:
  "flash_ok s \<Longrightarrow> mem_ok (mark_dirty i s) = mem_ok s" "flash_ok s \<Longrightarrow> flash_ok (mark_dirty i s)"
  "flash_ok s \<Longrightarrow> blk_space (mark_dirty i s) = blk_space s"
  "flash_ok s \<Longrightarrow> clean_blk_nums (mark_dirty i s) = clean_blk_nums s"
  by (simp_all add: mark_dirty_eq)

lemma mark_dirty_body: "flash_ok s \<Longrightarrow> a \<noteq> blk_start i + 1 \<Longrightarrow> flash (mark_dirty i s) a = flash s a"
  by (auto simp: mark_dirty_eq page_program_def)

lemma header_not_body: "i < 16 \<Longrightarrow> \<not> in_body (blk_start i + 1)"
proof
  assume "i < 16" "in_body (blk_start i + 1)"
  then obtain k where "blk_start k + 4 \<le> blk_start i + 1" "blk_start i + 1 < blk_start k + 262144"
    by (auto simp: in_body_def)
  moreover have "blk_start k + 262144 \<le> blk_start i" if "k < i"
    using mult_le_mono1 [of "Suc k" i 262144] that by (simp add: blk_start_def)
  moreover have "blk_start i \<le> blk_start k" if "\<not> k < i" using that by (simp add: blk_start_def)
  ultimately show False by force
qed

definition seen_dead :: "nat \<Rightarrow> entry list \<Rightarrow> kv_mgr \<Rightarrow> kv_mgr" where
  "seen_dead i l s = (if list_all e_live l then s else mark_dirty i s)"

text \<open>Recovery goes through entries with clear origins and only notices the deleted ones.\<close>

lemma recover_prefix:
  assumes "i < 16" "mem_ok s" "flash_ok s" "log_at (flash s) pos (l @ m) (blk_start i + 262144)"
    and "blk_start i + 4 \<le> pos" "clear_from (flash s) pos l"
  shows "traverse_next item_recovery_cb i pos s =
         traverse_next item_recovery_cb i (pos + length (encs l)) (seen_dead i l s)"
  using assms
proof (induction l arbitrary: pos s)
  case Nil
  then show ?case by (simp add: seen_dead_def)
next
  case (Cons e l)
  have e: "stored (flash s) pos (enc e)" "ok_entry e" and l: "log_at (flash s) (pos + e_len e) (l @ m) (blk_start i + 262144)"
    using Cons.prems(4) by simp_all
  note step = traverse_next_Cons [of s pos e "l @ m" i item_recovery_cb]
  show ?case
  proof (cases "e_live e")
    case True
    then have "traverse_next item_recovery_cb i pos s = traverse_next item_recovery_cb i (pos + e_len e) s"
      using step Cons.prems traverse_live [OF Cons.prems(2) e True] recovery_clear [OF Cons.prems(2) e(1)] by simp
    then show ?thesis using Cons.IH [of s "pos + e_len e"] Cons.prems l True by (simp add: seen_dead_def add.assoc)
  next
    case False
    let ?t = "mark_dirty i s"
    have same: "flash ?t a = flash s a" if "in_body a \<or> pos \<le> a" for a
      using that header_not_body [OF Cons.prems(1)] Cons.prems(3,5) by (intro mark_dirty_body) auto
    have "log_at (flash ?t) (pos + e_len e) (l @ m) (blk_start i + 262144)"
      using l log_at_cong [of "pos + e_len e" "blk_start i + 262144" "flash ?t" "flash s"] same by simp
    moreover have "clear_from (flash ?t) (pos + e_len e) l"
      using Cons.prems(4,6) clear_from_cong [of l "flash ?t" "flash s"] same by (simp add: log_at_append)
    ultimately have "traverse_next item_recovery_cb i (pos + e_len e) ?t =
        traverse_next item_recovery_cb i (pos + e_len e + length (encs l)) (seen_dead i l ?t)"
      using Cons.prems by (intro Cons.IH) simp_all
    moreover have "seen_dead i l ?t = seen_dead i (e # l) s"
      using False mark_dirty_twice [OF Cons.prems(3)] by (simp add: seen_dead_def)
    ultimately show ?thesis
      using step Cons.prems(4) traverse_dead [OF Cons.prems(2) e False] by (simp add: add.assoc)
  qed
qed

subsection \<open>The loop over the blocks\<close>

definition clean_below :: "nat \<Rightarrow> kv_mgr \<Rightarrow> nat set" where
  "clean_below n s = {k. k < n \<and> blk_state s k = KV_BLOCK_STATE_CLEAN}"

definition booting :: "nat \<Rightarrow> (nat \<Rightarrow> entry list) \<Rightarrow> kv_mgr \<Rightarrow> bool" where
  "booting n N s \<longleftrightarrow> mem_ok s \<and> flash_ok s \<and> (\<forall>k<n. block_log k (N k) s)
     \<and> (\<forall>k. n \<le> k \<and> k < 16 \<longrightarrow> block_raw k (N k) (flash s) \<and> blk_state s k = 0)
     \<and> clean_blk_nums s = card (clean_below n s)"

lemma bootingD:
  assumes "booting n N s"
  shows "mem_ok s" "flash_ok s" "\<And>k. k < n \<Longrightarrow> block_log k (N k) s"
    "\<And>k. n \<le> k \<Longrightarrow> k < 16 \<Longrightarrow> block_raw k (N k) (flash s)" "\<And>k. n \<le> k \<Longrightarrow> k < 16 \<Longrightarrow> blk_state s k = 0"
    "clean_blk_nums s = card (clean_below n s)"
  using assms by (simp_all add: booting_def)

definition boot_block :: "nat \<Rightarrow> entry list \<Rightarrow> kv_mgr \<Rightarrow> kv_mgr" where
  "boot_block n l s = (let s = s\<lparr>blk_state := (blk_state s)(n := flash s (blk_start n + 1))\<rparr>;
       s = traverse_done n (blk_start n + 4 + length (encs l)) (seen_dead n l s)
     in if blk_state s n = KV_BLOCK_STATE_CLEAN then s\<lparr>clean_blk_nums := inc8 (clean_blk_nums s)\<rparr> else s)"

lemma seen_dead_fields [simp]:
  "flash_ok s \<Longrightarrow> mem_ok (seen_dead i l s) = mem_ok s" "flash_ok s \<Longrightarrow> flash_ok (seen_dead i l s)"
  "flash_ok s \<Longrightarrow> blk_space (seen_dead i l s) = blk_space s"
  "flash_ok s \<Longrightarrow> clean_blk_nums (seen_dead i l s) = clean_blk_nums s"
  "flash_ok s \<Longrightarrow> k \<noteq> i \<Longrightarrow> blk_state (seen_dead i l s) k = blk_state s k"
  by (simp_all add: seen_dead_def mark_dirty_eq)

lemma seen_dead_flash: "flash_ok s \<Longrightarrow> a \<noteq> blk_start i + 1 \<Longrightarrow> flash (seen_dead i l s) a = flash s a"
  using mark_dirty_body [of s a i] by (simp add: seen_dead_def)

lemma boot_block_flash:
  assumes "flash_ok s" "a \<noteq> blk_start n + 1"
  shows "flash (boot_block n l s) a = flash s a"
  using assms seen_dead_flash [of "s\<lparr>blk_state := (blk_state s)(n := flash s (blk_start n + 1))\<rparr>" a n l]
  by (simp add: boot_block_def Let_def traverse_done_def)

lemma boot_block_fields:
  assumes "flash_ok s"
  shows "mem_ok (boot_block n l s) = mem_ok s" "flash_ok (boot_block n l s)"
    "k \<noteq> n \<Longrightarrow> blk_state (boot_block n l s) k = blk_state s k" "k \<noteq> n \<Longrightarrow> blk_space (boot_block n l s) k = blk_space s k"
  using assms by (simp_all add: boot_block_def Let_def traverse_done_def)

lemma boot_block_log:
  assumes "block_raw n l (flash s)" "flash_ok s"
  shows "block_log n l (boot_block n l s)"
proof -
  let ?st = "flash s (blk_start n + 1)" and ?t = "boot_block n l s"
  have log: "log_at (flash s) (blk_start n + 4) l (blk_start n + 262144)" using assms(1) by (simp add: block_raw_def)
  then have "log_at (flash ?t) (blk_start n + 4) l (blk_start n + 262144)"
    using log_at_cong [of "blk_start n + 4" "blk_start n + 262144" "flash ?t" "flash s" l]
      boot_block_flash [OF assms(2), of _ n l] by simp
  moreover have "blk_space ?t n = 262140 - length (encs l)"
    using log_at_less [OF log] assms(2) by (simp add: boot_block_def Let_def traverse_done_def)
  moreover have "flash ?t (blk_start n) = KV_BLOCK_MAGIC_NUM"
    using assms boot_block_flash [of s "blk_start n" n l] by (simp add: block_raw_def)
  moreover have st: "blk_state ?t n = (if list_all e_live l \<or> ?st \<noteq> KV_BLOCK_STATE_USED then ?st else KV_BLOCK_STATE_DIRTY)"
    using assms(2) by (simp add: boot_block_def Let_def traverse_done_def seen_dead_def mark_dirty_eq)
  moreover have "flash ?t (blk_start n + 1) = blk_state ?t n"
    using assms(2) used_to_dirty(1)
    by (auto simp: boot_block_def Let_def traverse_done_def seen_dead_def mark_dirty_eq page_program_def)
  ultimately show ?thesis using assms(1) state_distinct by (auto simp: block_log_def block_raw_def)
qed

text \<open>Recovering a block with clear origins is one step of the loop.\<close>

lemma boot_traverse:
  assumes "block_raw n l (flash s)" "n < 16" "mem_ok s" "flash_ok s" "clear_from (flash s) (blk_start n + 4) l"
  shows "kv_item_traverse item_recovery_cb n s =
    (None, traverse_done n (blk_start n + 4 + length (encs l)) (seen_dead n l s))"
proof -
  have log: "log_at (flash s) (blk_start n + 4) (l @ []) (blk_start n + 262144)"
    using assms(1) by (simp add: block_raw_def)
  then have "blank (flash (seen_dead n l s)) (blk_start n + 4 + length (encs l)) (blk_start n + 262144)"
    using blank_cong [of "blk_start n + 4 + length (encs l)" "blk_start n + 262144" "flash (seen_dead n l s)" "flash s"]
      seen_dead_flash [OF assms(4), of _ n l] by (simp add: log_at_def)
  then show ?thesis
    using recover_prefix [OF assms(2,3,4) log _ assms(5)] assms(3,4)
    by (simp add: kv_item_traverse_next traverse_blank)
qed

lemma clean_below_Suc: "clean_below (Suc n) s = (if blk_state s n = KV_BLOCK_STATE_CLEAN
    then insert n (clean_below n s) else clean_below n s)"
  by (auto simp: clean_below_def less_Suc_eq)

lemma card_clean_below: "finite (clean_below n s) \<and> card (clean_below n s) \<le> n"
proof -
  have "clean_below n s \<subseteq> {..<n}" by (auto simp: clean_below_def)
  then show ?thesis using card_mono [of "{..<n}" "clean_below n s"] finite_subset by auto
qed

lemma boot_step_booting:
  assumes "booting n N s" "n < 16"
  shows "booting (Suc n) N (boot_block n (N n) s)"
proof -
  let ?t = "boot_block n (N n) s"
  note b = bootingD [OF assms(1)]
  have raw: "block_raw n (N n) (flash s)" using b(4) assms(2) by simp
  have same: "flash ?t a = flash s a" if "k \<noteq> n" "blk_start k \<le> a" "a < blk_start k + 262144" for k a
    using other_block [OF that(1)[symmetric] that(2,3)] by (intro boot_block_flash b(2)) auto
  have "block_log k (N k) ?t" if "k < Suc n" for k
  proof (cases "k = n")
    case True
    then show ?thesis using boot_block_log [OF raw b(2)] by simp
  next
    case False
    then have "block_log k (N k) ?t = block_log k (N k) s"
      using same boot_block_fields [OF b(2)] by (intro block_log_cong) auto
    then show ?thesis using b(3) that False by simp
  qed
  moreover have "block_raw k (N k) (flash ?t) \<and> blk_state ?t k = 0" if "Suc n \<le> k" "k < 16" for k
    using block_raw_cong [of k "flash ?t" "flash s"] same [of k] b(4,5) that boot_block_fields(3) [OF b(2)] by simp
  moreover have same_below: "clean_below n ?t = clean_below n s" "n \<notin> clean_below n s"
    using boot_block_fields(3) [OF b(2)] by (auto simp: clean_below_def)
  have "clean_blk_nums ?t =
      (if blk_state ?t n = KV_BLOCK_STATE_CLEAN then inc8 (clean_blk_nums s) else clean_blk_nums s)"
    using b(2) by (simp add: boot_block_def Let_def traverse_done_def)
  then have "clean_blk_nums ?t = card (clean_below (Suc n) ?t)"
    using b(6) card_clean_below [of n s] assms(2) inc8_less [of "card (clean_below n s)"] same_below
    by (simp add: clean_below_Suc)
  ultimately show ?thesis using boot_block_fields(1,2) [OF b(2)] b(1) by (auto simp: booting_def)
qed

lemma init_blocks_step:
  assumes "booting n N s" "n < 16" "clear_from (flash s) (blk_start n + 4) (N n)"
  shows "init_blocks (n # is) [] s = init_blocks is [] (boot_block n (N n) s)"
proof -
  let ?st = "flash s (blk_start n + 1)" and ?s = "s\<lparr>blk_state := (blk_state s)(n := flash s (blk_start n + 1))\<rparr>"
  note b = bootingD [OF assms(1)]
  have raw: "block_raw n (N n) (flash s)" using b(4) assms(2) by simp
  have h: "kv_flash_read (blk_start n) 4 s ! 0 = KV_BLOCK_MAGIC_NUM" "kv_flash_read (blk_start n) 4 s ! 1 = ?st"
    "\<not> invalid_blk_state ?st"
    using raw by (auto simp: block_raw_def kv_flash_read_def invalid_blk_state_def)
  have t: "kv_item_traverse item_recovery_cb n ?s =
      (None, traverse_done n (blk_start n + 4 + length (encs (N n))) (seen_dead n (N n) ?s))"
    using raw assms(2,3) b(1,2) by (intro boot_traverse) simp_all
  show ?thesis
  proof (cases "?st = KV_BLOCK_STATE_CLEAN")
    case True
    then have "N n = []" using raw by (simp add: block_raw_def)
    then show ?thesis using True h t by (simp add: boot_block_def Let_def seen_dead_def traverse_done_def)
  next
    case False
    then have "blk_state (seen_dead n (N n) ?s) n \<noteq> KV_BLOCK_STATE_CLEAN"
      using b(2) state_distinct by (simp add: seen_dead_def mark_dirty_eq)
    then show ?thesis using False h t by (simp add: boot_block_def Let_def traverse_done_def)
  qed
qed

lemma boot_block_clear:
  assumes "booting n N s" "n < 16" "n < k" "k < 16" "clear_from (flash s) (blk_start k + 4) (N k)"
  shows "clear_from (flash (boot_block n (N n) s)) (blk_start k + 4) (N k)"
proof -
  note b = bootingD [OF assms(1)]
  have "list_all ok_entry (N k)" using b(4) [of k] assms(3,4) by (simp add: block_raw_def log_at_def)
  moreover have "flash (boot_block n (N n) s) a = flash s a" if "in_body a" for a
    using that header_not_body [OF assms(2)] by (intro boot_block_flash b(2)) auto
  ultimately show ?thesis using clear_from_cong assms(5) by blast
qed

text \<open>Starting never makes a clean block look used, nor the other way round.\<close>

definition clean_hdr :: "(nat \<Rightarrow> u8) \<Rightarrow> nat \<Rightarrow> bool" where
  "clean_hdr fl c \<longleftrightarrow> fl (blk_start c + 1) = KV_BLOCK_STATE_CLEAN"

lemma blk_start_inj: "blk_start a = blk_start b \<longleftrightarrow> a = b"
  by (simp add: blk_start_def)

lemma boot_block_hdr:
  assumes "flash_ok s"
  shows "clean_hdr (flash (boot_block n l s)) c = clean_hdr (flash s) c"
proof (cases "c = n")
  case True
  then show ?thesis
    using assms used_to_dirty(1) state_distinct
    by (auto simp: clean_hdr_def boot_block_def Let_def traverse_done_def seen_dead_def mark_dirty_eq page_program_def)
next
  case False
  then show ?thesis
    using boot_block_flash [OF assms, of "blk_start c + 1" n l] by (simp add: clean_hdr_def blk_start_inj)
qed

lemma boot_range:
  assumes "booting n N s" "n \<le> j" "j \<le> 16" "\<forall>k. n \<le> k \<and> k < j \<longrightarrow> clear_from (flash s) (blk_start k + 4) (N k)"
  shows "\<exists>t. init_blocks ([n..<j] @ is) [] s = init_blocks is [] t \<and> booting j N t \<and>
    (\<forall>a. in_body a \<longrightarrow> flash t a = flash s a) \<and> (\<forall>c. clean_hdr (flash t) c = clean_hdr (flash s) c)"
  using assms
proof (induction "j - n" arbitrary: n s)
  case (Suc d)
  then have n: "n < 16" "n < j" by simp_all
  let ?t = "boot_block n (N n) s"
  note ok = bootingD(2) [OF Suc.prems(1)]
  have same: "flash ?t a = flash s a" if "in_body a" for a
    using that header_not_body [OF n(1)] by (intro boot_block_flash ok) auto
  have "clear_from (flash ?t) (blk_start k + 4) (N k)" if "Suc n \<le> k" "k < j" for k
    using boot_block_clear [OF Suc.prems(1) n(1), of k] Suc.prems(3,4) that by simp
  moreover have "d = j - Suc n" using Suc.hyps(2) by simp
  ultimately obtain t where t: "init_blocks ([Suc n..<j] @ is) [] ?t = init_blocks is [] t" "booting j N t"
    "\<forall>a. in_body a \<longrightarrow> flash t a = flash ?t a" "\<forall>c. clean_hdr (flash t) c = clean_hdr (flash ?t) c"
    using Suc.hyps(1) [of "Suc n" ?t] boot_step_booting [OF Suc.prems(1) n(1)] Suc.prems(3) n by auto
  have "init_blocks ([n..<j] @ is) [] s = init_blocks ([Suc n..<j] @ is) [] ?t"
    using init_blocks_step [OF Suc.prems(1) n(1)] Suc.prems(4) n by (simp add: upt_rec [of n])
  then show ?case using t same boot_block_hdr [OF ok, of n "N n"] by auto
qed auto

subsection \<open>An entry that replaces another\<close>

lemma recovery_hit:
  assumes "mem_ok s" "flash_ok s" "stored (flash s) pos (enc e)" "e_origin e \<noteq> 0" "e_origin e \<noteq> pos"
    and "stored (flash s) (e_origin e) (enc old)" "ok_entry old" "e_live old" "e_key old = e_key e"
  shows "item_recovery_cb (item_at pos e) s = (KV_LOOP_CONTINUE, item_at pos e, snd (item_mark (e_origin e) s))"
proof -
  have "kv_item_del (item_at pos e) KV_UPDATE_FLAG s = item_mark (e_origin e) s"
    using assms(1,8,9) read_hdr_enc [OF assms(6,7)] read_entry(2) [OF assms(6)] read_entry(2) [OF assms(3)]
    by (simp add: Let_def)
  then show ?thesis
    using assms(1,4,5) read_entry(1) [OF assms(3)]
    by (simp add: item_recovery_cb_def Let_def del: kv_item_del.simps)
qed

lemma raw_marked:
  assumes "block_raw i (xs @ e # ys) (flash s)" "blk_state s i \<noteq> KV_BLOCK_STATE_USED" "off = blk_start i + 4 + length (encs xs)"
  shows "block_raw i (xs @ kill e # ys) (flash (marked i off s))"
proof -
  have f: "flash (marked i off s) = page_program (blk_start i + 4 + length (encs xs) + 1) [0] (flash s)"
    using assms(2,3) by (simp add: marked_def)
  have "log_at (flash (marked i off s)) (blk_start i + 4) (xs @ kill e # ys) (blk_start i + 262144)"
    unfolding f using assms(1) by (intro log_kill) (simp add: block_raw_def)
  moreover have "flash (marked i off s) (blk_start i) = flash s (blk_start i)"
    "flash (marked i off s) (blk_start i + 1) = flash s (blk_start i + 1)"
    unfolding f by (simp_all add: page_program_outside)
  ultimately show ?thesis using assms(1) by (auto simp: block_raw_def)
qed

lemma raw_fits:
  assumes "block_raw i (xs @ e # ys) fl"
  shows "blk_start i + 4 + length (encs xs) + 10 + length (e_key e) \<le> blk_start i + 262144"
    and "blk_of (blk_start i + 4 + length (encs xs)) = i" "ok_entry e"
proof -
  have l: "list_all ok_entry (xs @ e # ys)" "4 + length (encs xs) + e_len e + length (encs ys) < 262144"
    using assms by (simp_all add: block_raw_def log_at_def)
  show "ok_entry e" using l(1) by simp
  have "10 + length (e_key e) + length (e_val e) \<le> e_len e" unfolding e_len_def by (rule KV_ALIGN_ge)
  then show "blk_start i + 4 + length (encs xs) + 10 + length (e_key e) \<le> blk_start i + 262144" using l(2) by simp
  show "blk_of (blk_start i + 4 + length (encs xs)) = i"
    using l(2) blk_of_start [of "4 + length (encs xs)" i] by (simp add: add.assoc)
qed

lemma booting_raw: "booting n N s \<Longrightarrow> k < 16 \<Longrightarrow> block_raw k (N k) (flash s)"
  using bootingD(3,4) block_log_raw by (metis not_le)

lemma boot_marked:
  assumes "booting n N s" "n \<le> 16" "i < 16" "N i = xs @ e # ys" "off = blk_start i + 4 + length (encs xs)"
  shows "booting n (N(i := xs @ kill e # ys)) (marked i off s)" (is "booting n ?N ?s")
proof -
  note b = bootingD [OF assms(1)]
  have raw: "block_raw i (xs @ e # ys) (flash s)" using booting_raw [OF assms(1,3)] assms(4) by simp
  note fit = raw_fits [OF raw, folded assms(5)]
  have "block_log k (?N k) ?s" if "k < n" for k
  proof (cases "k = i")
    case True
    then show ?thesis using block_marked [of i xs e ys s off] b(3) [OF that] assms(4,5) by simp
  next
    case False
    then show ?thesis using block_marked_other [OF b(3) [OF that] False, of off] fit assms(5) by simp
  qed
  moreover have "block_raw k (?N k) (flash ?s) \<and> blk_state ?s k = 0" if "n \<le> k" "k < 16" for k
  proof (cases "k = i")
    case True
    have "(0 :: u8) \<noteq> KV_BLOCK_STATE_USED" by (simp add: kv_consts)
    then show ?thesis using raw_marked [OF raw _ assms(5)] b(5) [OF that] True by (simp add: marked_def)
  next
    case False
    have "flash ?s a = flash s a" if "blk_start k \<le> a" "a < blk_start k + 262144" for a
      using other_block [of i k a] False that fit assms(5) by (intro marked_outside) auto
    then show ?thesis using block_raw_cong [of k "flash ?s" "flash s"] b(4,5) that False by simp
  qed
  moreover have "clean_below n ?s = clean_below n s" by (simp add: clean_below_def marked_clean)
  ultimately show ?thesis using b(1,2,6) unfolding booting_def by simp
qed

text \<open>The recovery of a block whose last entry replaces an older one, wherever that is.\<close>

lemma traverse_done_marked: "traverse_done n p (marked i off s) = marked i off (traverse_done n p s)"
  by (simp add: traverse_done_def marked_def)

lemma boot_replace:
  assumes "booting b N s" "b < 16" "i < 16" "N i = xs @ old # zs" "e_live old" "e_key old = e_key new"
    and "N b = ys @ [new]" "e_live new" "e_origin new = blk_start i + 4 + length (encs xs)"
    and "blk_start b + 4 + length (encs ys) \<noteq> e_origin new" "clear_from (flash s) (blk_start b + 4) ys"
  shows "init_blocks (b # is) [] s = init_blocks is [] (marked i (e_origin new) (boot_block b (N b) s))"
proof -
  let ?st = "flash s (blk_start b + 1)" and ?s = "s\<lparr>blk_state := (blk_state s)(b := flash s (blk_start b + 1))\<rparr>"
    and ?p = "blk_start b + 4 + length (encs ys)" and ?e = "blk_start b + 4 + length (encs (N b))"
    and ?o = "e_origin new"
  note bt = bootingD [OF assms(1)]
  have raw: "block_raw b (ys @ [new]) (flash s)" using booting_raw [OF assms(1,2)] assms(7) by simp
  have h: "kv_flash_read (blk_start b) 4 s ! 0 = KV_BLOCK_MAGIC_NUM" "kv_flash_read (blk_start b) 4 s ! 1 = ?st"
    "\<not> invalid_blk_state ?st" "?st \<noteq> KV_BLOCK_STATE_CLEAN"
    using raw by (auto simp: block_raw_def kv_flash_read_def invalid_blk_state_def)
  define t where "t = seen_dead b ys ?s"
  have t: "mem_ok t" "flash_ok t" using bt(1,2) by (simp_all add: t_def)
  have bb: "boot_block b (N b) s = traverse_done b ?e t"
    using h(4) bt(2) state_distinct assms(7,8)
    by (auto simp: boot_block_def Let_def traverse_done_def t_def seen_dead_def mark_dirty_eq)
  have "booting (Suc b) (N(i := xs @ kill old # zs)) (marked i ?o (traverse_done b ?e t))"
    using boot_marked [OF boot_step_booting [OF assms(1,2)] _ assms(3,4,9)] assms(2) bb by simp
  then have "block_raw b ((N(i := xs @ kill old # zs)) b) (flash (marked i ?o (traverse_done b ?e t)))"
    by (rule booting_raw) (rule assms(2))
  moreover have "flash (marked i ?o (traverse_done b ?e t)) = flash (marked i ?o t)"
    by (simp add: traverse_done_def marked_def)
  ultimately have "block_raw b ((N(i := xs @ kill old # zs)) b) (flash (marked i ?o t))" by simp
  moreover have "length (encs ((N(i := xs @ kill old # zs)) b)) = length (encs (N b))" using assms(4) by simp
  ultimately have blank: "blank (flash (marked i ?o t)) ?e (blk_start b + 262144)"
    by (simp add: block_raw_def log_at_def)
  have same: "flash t a = flash s a" if "a \<noteq> blk_start b + 1" for a
    using seen_dead_flash [of ?s a b ys] that bt(2) by (simp add: t_def)
  have log: "log_at (flash t) ?p [new] (blk_start b + 262144)"
    using raw log_at_cong [of ?p "blk_start b + 262144" "flash t" "flash s" "[new]"] same
    by (simp add: block_raw_def log_at_append)
  have old: "stored (flash t) ?o (enc old)"
  proof -
    have ro: "block_raw i (xs @ old # zs) (flash s)" using booting_raw [OF assms(1,3)] assms(4) by simp
    then have "stored (flash s) ?o (enc old)" "?o + e_len old < blk_start i + 262144"
      by (simp_all add: block_raw_def log_at_def assms(9))
    moreover have "blk_start b + 1 < ?o \<or> ?o + e_len old \<le> blk_start b + 1"
      using other_block [of b i ?o] other_block [of b i "?o + e_len old"] calculation(2) assms(9) by (cases "b = i") auto
    ultimately show ?thesis using stored_cong [of ?o "enc old" "flash t" "flash s"] same by auto
  qed
  have "ok_entry old" using booting_raw [OF assms(1,3)] assms(4) raw_fits(3) by metis
  then have cb: "item_recovery_cb (item_at ?p new) t = (KV_LOOP_CONTINUE, item_at ?p new, snd (item_mark ?o t))"
    using log assms(5,6,9,10) old t by (intro recovery_hit [where old = old]) simp_all
  have blk: "blk_of ?o = i" using booting_raw [OF assms(1,3)] assms(4) raw_fits(2) unfolding assms(9) by metis
  have "traverse_next item_recovery_cb b ?p t = (None, traverse_done b ?e (marked i ?o t))"
    using traverse_next_Cons [OF log] traverse_live [OF t(1) _ _ assms(8)] log cb
      traverse_blank [of "marked i ?o t" ?e b] blank t assms(7)
    by (simp add: item_mark_eq [OF t(2) blk] add.assoc)
  moreover have "traverse_next item_recovery_cb b (blk_start b + 4) ?s = traverse_next item_recovery_cb b ?p t"
    using recover_prefix [of b ?s "blk_start b + 4" ys "[new]"] assms(2,11) bt(1,2) raw
    by (simp add: block_raw_def t_def)
  ultimately have "kv_item_traverse item_recovery_cb b ?s = (None, marked i ?o (boot_block b (N b) s))"
    by (simp add: kv_item_traverse_next traverse_done_marked bb)
  then show ?thesis using h by simp
qed

subsection \<open>The end of the initialisation\<close>

text \<open>The last part of kv_init_internal: the first position to write to.\<close>

definition boot_tail :: "kv_mgr \<Rightarrow> int \<times> kv_mgr" where
  "boot_tail s =
     (if clean_blk_nums s = 16 then
        let (res, s) = kv_set_block_state 0 KV_BLOCK_STATE_USED (s\<lparr>write_pos := 4\<rparr>) in
        if res \<noteq> KV_OK then (res, s) else (KV_OK, s\<lparr>clean_blk_nums := dec8 (clean_blk_nums s)\<rparr>)
      else (KV_OK, init_write_pos [0..<16] s))"

lemma clean_below_16: "clean_below 16 s = clean_blocks s"
  by (simp add: clean_below_def clean_blocks_def)

lemma booting_fields:
  assumes "booting 16 N s"
  shows "mem_ok s" "flash_ok s" "\<And>i. i < 16 \<Longrightarrow> block_log i (N i) s" "clean_blk_nums s = card (clean_blocks s)"
  using assms by (simp_all add: booting_def clean_below_16)

lemma init_write_pos_found:
  assumes "i \<in> set is" "blk_state s i \<in> {KV_BLOCK_STATE_USED, KV_BLOCK_STATE_DIRTY}"
    "blk_state s (if i + 1 = 16 then 0 else i + 1) = KV_BLOCK_STATE_CLEAN"
  shows "\<exists>k \<in> set is. blk_state s k \<noteq> KV_BLOCK_STATE_CLEAN \<and>
           init_write_pos is s = s\<lparr>write_pos := blk_start k + 262144 - blk_space s k\<rparr>"
  using assms
proof (induction "is")
  case (Cons j js)
  define now where "now \<longleftrightarrow> (blk_state s j = KV_BLOCK_STATE_USED \<or> blk_state s j = KV_BLOCK_STATE_DIRTY)
    \<and> blk_state s (if j + 1 = 16 then 0 else j + 1) = KV_BLOCK_STATE_CLEAN"
  have e: "init_write_pos (j # js) s =
      (if now then s\<lparr>write_pos := blk_start j + 262144 - blk_space s j\<rparr> else init_write_pos js s)"
    by (simp only: init_write_pos.simps now_def)
  show ?case
  proof (cases now)
    case True
    then have "blk_state s j \<noteq> KV_BLOCK_STATE_CLEAN" using state_distinct by (auto simp: now_def)
    then show ?thesis using True unfolding e by (intro bexI [of _ j]) auto
  next
    case False
    then have "j \<noteq> i" using Cons.prems(2,3) by (auto simp: now_def)
    then have "i \<in> set js" using Cons.prems(1) by simp
    then show ?thesis using Cons.IH Cons.prems(2,3) False unfolding e by auto
  qed
qed simp

text \<open>Going round, a block in use is followed by a clean one somewhere.\<close>

lemma use_before_clean:
  assumes "c < (16 :: nat)" "P c" "d < 16" "\<not> P d"
  shows "\<exists>i<16. \<not> P i \<and> P (if i + 1 = 16 then 0 else i + 1)"
proof (rule ccontr)
  assume "\<not> ?thesis"
  then have none: "\<not> P (if i + 1 = 16 then 0 else i + 1)" if "i < 16" "\<not> P i" for i using that by blast
  have "\<not> P ((d + j) mod 16)" for j
  proof (induction j)
    case (Suc j)
    have e: "(d + Suc j) mod 16 = (if (d + j) mod 16 + 1 = 16 then 0 else (d + j) mod 16 + 1)"
      by (simp add: mod_Suc)
    have "\<not> P (if (d + j) mod 16 + 1 = 16 then 0 else (d + j) mod 16 + 1)"
      by (rule none [OF _ Suc]) simp
    then show ?case unfolding e .
  qed (use assms in simp)
  from this [of "c + 16 - d"] show False using assms by simp
qed

lemma boot_tail_clean:
  assumes "booting 16 N s" "clean_blk_nums s = 16"
  shows "\<exists>u. boot_tail s = (KV_OK, u) \<and> kv_logs N u \<and> clean_blk_nums u = 15"
proof -
  note b = booting_fields [OF assms(1)]
  have "clean_blocks s = {..<16}"
    using b(4) assms(2) by (intro card_subset_eq) (auto simp: clean_blocks_def)
  then have cl: "blk_state s k = KV_BLOCK_STATE_CLEAN" if "k < 16" for k
    using that by (auto simp: clean_blocks_def)
  then have N: "N k = []" if "k < 16" for k using b(3) [OF that] that by (simp add: block_log_def)
  define u where "u = s\<lparr>flash := page_program (blk_start 0 + 1) [KV_BLOCK_STATE_USED] (flash s),
     blk_state := (blk_state s)(0 := KV_BLOCK_STATE_USED), write_pos := 4, clean_blk_nums := dec8 (clean_blk_nums s)\<rparr>"
  have "boot_tail s = (KV_OK, u)" using assms(2) b(2) by (simp add: boot_tail_def kv_set_block_state_eq u_def)
  moreover have "block_log k (N k) u" if k: "k < 16" for k
  proof (cases "k = 0")
    case True
    then show ?thesis
      using cl [OF k] N [OF k] used_to_dirty(2) state_distinct
        block_set_state [OF b(3) [OF k], of u KV_BLOCK_STATE_USED] by (simp add: u_def)
  next
    case False
    then show ?thesis
      by (intro program_other_block [OF b(3) [OF k], of 0 "blk_start 0 + 1" "[KV_BLOCK_STATE_USED]"]) (simp_all add: u_def)
  qed
  moreover have "clean_blocks u = {1..<16}" using cl state_distinct by (auto simp: clean_blocks_def u_def)
  then have "clean_blk_nums u = card (clean_blocks u)" using assms(2) by (simp add: u_def dec8_def)
  moreover have "write_pos u = write_end N 0" "blk_state u 0 \<noteq> KV_BLOCK_STATE_CLEAN"
    using N [of 0] state_distinct by (simp_all add: u_def write_end_def blk_start_def)
  moreover have "mem_ok u" "flash_ok u" using b(1,2) by (simp_all add: u_def)
  moreover have "clean_blk_nums u = 15" using assms(2) by (simp add: u_def dec8_def)
  ultimately show ?thesis unfolding kv_logs_def by (metis zero_less_numeral)
qed

lemma boot_tail_logs:
  assumes "booting 16 N s" "c < 16" "blk_state s c = KV_BLOCK_STATE_CLEAN"
  shows "\<exists>u. boot_tail s = (KV_OK, u) \<and> kv_logs N u"
proof (cases "clean_blk_nums s = 16")
  case False
  note b = booting_fields [OF assms(1)]
  have "clean_blocks s \<subseteq> {..<16}" by (auto simp: clean_blocks_def)
  moreover have "clean_blocks s \<noteq> {..<16}" using b(4) False by force
  ultimately obtain d where "d \<in> {..<16}" "d \<notin> clean_blocks s" by blast
  then have d: "d < 16" "blk_state s d \<noteq> KV_BLOCK_STATE_CLEAN" by (simp_all add: clean_blocks_def)
  obtain i where i: "i < 16" "blk_state s i \<noteq> KV_BLOCK_STATE_CLEAN"
    "blk_state s (if i + 1 = 16 then 0 else i + 1) = KV_BLOCK_STATE_CLEAN"
    using use_before_clean [of c "\<lambda>k. blk_state s k = KV_BLOCK_STATE_CLEAN" d] assms(2,3) d by auto
  then have "blk_state s i \<in> {KV_BLOCK_STATE_USED, KV_BLOCK_STATE_DIRTY}" using b(3) [of i] by (auto simp: block_log_def)
  then obtain k where k: "k < 16" "blk_state s k \<noteq> KV_BLOCK_STATE_CLEAN"
    "init_write_pos [0..<16] s = s\<lparr>write_pos := blk_start k + 262144 - blk_space s k\<rparr>"
    using init_write_pos_found [of i "[0..<16]" s] i by auto
  let ?u = "s\<lparr>write_pos := write_end N k\<rparr>"
  have "boot_tail s = (KV_OK, ?u)"
    using False k(3) write_end_space [of k N s, OF b(3) [OF k(1)]] by (simp add: boot_tail_def)
  moreover have "kv_logs N ?u"
    using b k block_log_fields [of ?u s] by (auto simp: kv_logs_def clean_blocks_def)
  ultimately show ?thesis by blast
qed (use boot_tail_clean [OF assms(1)] in blast)

lemma kv_init_internal_tail:
  assumes "init_blocks [0..<16] [] s = (Inr [], t)"
  shows "kv_init_internal s = (if clean_blk_nums t = 0 then
      let (res, u) = kv_block_format 0 t in if res \<noteq> KV_OK then (res, u) else boot_tail u else boot_tail t)"
  using assms by (simp add: kv_init_internal_def boot_tail_def Let_def split: prod.split)

text \<open>What \<open>kv_init\<close> does with the result.\<close>

lemma kv_init_logs:
  assumes "\<not> kv_inited s" "kv_init_internal (kv_mgr_zero s) = (KV_OK, u)" "kv_logs N u"
  shows "\<exists>v. kv_init s = (KV_OK, v) \<and> kv_logs N v \<and> kv_inited v \<and> clean_blk_nums v = clean_blk_nums u"
proof -
  have "kv_logs N (u\<lparr>kv_inited := True\<rparr>)"
    using assms(3) kv_logs_fields [of "u\<lparr>kv_inited := True\<rparr>" u N] by simp
  then show ?thesis using assms(1,2) by (simp add: kv_init_def Let_def)
qed

subsection \<open>Starting on an empty flash\<close>

lemma fresh_step:
  assumes "flash_ok s" "flash s (blk_start i) \<noteq> KV_BLOCK_MAGIC_NUM"
  shows "init_blocks (i # is) [] s = init_blocks is [] (formatted i s)"
  using assms by (simp add: kv_flash_read_def Let_def kv_block_format_eq)

lemma fresh_range:
  assumes "flash_ok s" "mem_ok s" "n \<le> 16" "\<forall>k<n. block_log k [] s \<and> blk_state s k = KV_BLOCK_STATE_CLEAN"
    and "\<forall>k. n \<le> k \<and> k < 16 \<longrightarrow> flash s (blk_start k) \<noteq> KV_BLOCK_MAGIC_NUM" "clean_blk_nums s = n"
  shows "\<exists>t. init_blocks [n..<16] [] s = (Inr [], t) \<and> booting 16 (\<lambda>_. []) t \<and> clean_blk_nums t = 16"
  using assms
proof (induction "16 - n" arbitrary: n s)
  case 0
  then have "n = 16" "clean_below 16 s = {..<16}" by (auto simp: clean_below_def)
  then show ?case using 0 by (auto simp: booting_def)
next
  case (Suc d)
  then have n: "n < 16" by simp
  let ?t = "formatted n s"
  have "block_log k [] ?t \<and> blk_state ?t k = KV_BLOCK_STATE_CLEAN" if "k < Suc n" for k
    using that Suc.prems(4) block_formatted [of n s] formatted_other [of k n "[]" s]
    by (cases "k = n") (auto simp: formatted_def)
  moreover have "flash ?t (blk_start k) \<noteq> KV_BLOCK_MAGIC_NUM" if "Suc n \<le> k" "k < 16" for k
    using that Suc.prems(5) other_block [of n k "blk_start k"] formatted_outside [of "blk_start k" n s] by simp
  moreover have "clean_blk_nums ?t = Suc n" using n Suc.prems(6) by (simp add: formatted_def inc8_def)
  moreover have "flash_ok ?t" "mem_ok ?t" using Suc.prems(1,2) by (simp_all add: formatted_def)
  moreover have "d = 16 - Suc n" using Suc.hyps(2) by simp
  ultimately obtain t where "init_blocks [Suc n..<16] [] ?t = (Inr [], t)" "booting 16 (\<lambda>_. []) t" "clean_blk_nums t = 16"
    using Suc.hyps(1) [of "Suc n" ?t] n by auto
  moreover have "init_blocks [n..<16] [] s = init_blocks [Suc n..<16] [] ?t"
    using fresh_step [of s n] Suc.prems(1,5) n by (simp add: upt_rec [of n])
  ultimately show ?case by simp
qed

lemma kv_init_fresh:
  assumes "\<not> kv_inited s" "flash_ok s" "mem_ok s" "\<forall>k<16. flash s (blk_start k) \<noteq> KV_BLOCK_MAGIC_NUM"
  shows "\<exists>u. kv_init s = (KV_OK, u) \<and> kv_logs (\<lambda>_. []) u \<and> clean_blk_nums u = 15"
proof -
  obtain t where t: "init_blocks [0..<16] [] (kv_mgr_zero s) = (Inr [], t)" "booting 16 (\<lambda>_. []) t" "clean_blk_nums t = 16"
    using fresh_range [of "kv_mgr_zero s" 0] assms by (auto simp: kv_mgr_zero_def)
  obtain u where u: "boot_tail t = (KV_OK, u)" "kv_logs (\<lambda>_. []) u" "clean_blk_nums u = 15"
    using boot_tail_clean [OF t(2,3)] by blast
  have "kv_init_internal (kv_mgr_zero s) = (KV_OK, u)" using kv_init_internal_tail [OF t(1)] t(3) u(1) by simp
  then show ?thesis using kv_init_logs [OF assms(1)] u(2,3) by fastforce
qed

subsection \<open>Starting on the flash of a store\<close>

lemma booting_zero:
  assumes "kv_logs L s" "flash p = flash s" "flash_ok p" "mem_ok p"
  shows "booting 0 L (kv_mgr_zero p)"
  using assms kv_logsD(3) [OF assms(1)] block_log_raw
  by (auto simp: booting_def kv_mgr_zero_def clean_below_def)

lemma booted_state: "booting 16 N t \<Longrightarrow> c < 16 \<Longrightarrow> blk_state t c = KV_BLOCK_STATE_CLEAN \<longleftrightarrow> clean_hdr (flash t) c"
  using bootingD(3) by (fastforce simp: block_log_def clean_hdr_def)

lemma kv_init_booted:
  assumes "\<not> kv_inited p" "init_blocks [0..<16] [] (kv_mgr_zero p) = (Inr [], t)" "booting 16 N t"
    and "c < 16" "clean_hdr (flash t) c"
  shows "\<exists>u. kv_init p = (KV_OK, u) \<and> kv_logs N u"
proof -
  have c: "blk_state t c = KV_BLOCK_STATE_CLEAN" using booted_state [OF assms(3,4)] assms(5) by simp
  then have "clean_blk_nums t \<noteq> 0"
    using booting_fields(4) [OF assms(3)] assms(4) finite_clean [of t] by (auto simp: clean_blocks_def)
  moreover obtain u where u: "boot_tail t = (KV_OK, u)" "kv_logs N u"
    using boot_tail_logs [OF assms(3,4) c] by blast
  ultimately have "kv_init_internal (kv_mgr_zero p) = (KV_OK, u)" using kv_init_internal_tail [OF assms(2)] by simp
  then show ?thesis using kv_init_logs [OF assms(1)] u(2) by blast
qed

lemma kv_init_restart:
  assumes "kv_logs L s" "flash p = flash s" "flash_ok p" "mem_ok p" "\<not> kv_inited p"
    and "\<forall>k<16. clear_from (flash s) (blk_start k + 4) (L k)" "c < 16" "blk_state s c = KV_BLOCK_STATE_CLEAN"
  shows "\<exists>u. kv_init p = (KV_OK, u) \<and> kv_logs L u"
proof -
  have f: "flash (kv_mgr_zero p) = flash s" using assms(2) by (simp add: kv_mgr_zero_def)
  obtain t where t: "init_blocks ([0..<16] @ []) [] (kv_mgr_zero p) = init_blocks [] [] t" "booting 16 L t"
    "\<forall>c. clean_hdr (flash t) c = clean_hdr (flash s) c"
    using boot_range [OF booting_zero [OF assms(1-4)], of 16 "[]"] assms(6) f by auto
  have "clean_hdr (flash s) c" using kv_logsD(3) [OF assms(1,7)] assms(8) by (simp add: block_log_def clean_hdr_def)
  then show ?thesis using kv_init_booted [OF assms(5) _ t(2) assms(7)] t by simp
qed

subsection \<open>Starting after a power loss within an update\<close>

lemma clear_from_kill:
  "clear_from fl pos (xs @ e # ys) \<Longrightarrow> clear_from fl pos (xs @ kill e # ys)"
  by (simp add: clear_from_append)

lemma marked_hdr:
  assumes "block_raw i (xs @ e # ys) (flash s)"
    and "blk_state s i = KV_BLOCK_STATE_USED \<longrightarrow> flash s (blk_start i + 1) = KV_BLOCK_STATE_USED"
    and "off = blk_start i + 4 + length (encs xs)"
  shows "clean_hdr (flash (marked i off s)) c = clean_hdr (flash s) c"
proof -
  have "off + 1 \<noteq> blk_start c + 1"
  proof
    assume "off + 1 = blk_start c + 1"
    then have "off = blk_start c" by simp
    moreover from this have "c = i" using raw_fits(2) [OF assms(1)] assms(3) blk_of_start [of 0 c] by simp
    ultimately show False using assms(3) by simp
  qed
  then show ?thesis
    using used_to_dirty(1) state_distinct assms(2)
    by (cases "c = i") (auto simp: clean_hdr_def marked_def page_program_byte blk_start_inj)
qed

lemma kv_init_replaced:
  assumes "kv_logs M t" "flash p = flash t" "flash_ok p" "mem_ok p" "\<not> kv_inited p"
    and b: "b < 16" "M b = ys @ [new]" "e_live new"
    and i: "i < 16" "M i = xs @ old # zs" "e_live old" "e_key old = e_key new"
    and o: "e_origin new = blk_start i + 4 + length (encs xs)" "blk_start b + 4 + length (encs ys) \<noteq> e_origin new"
    and clear: "\<forall>k<16. k \<noteq> b \<longrightarrow> clear_from (flash t) (blk_start k + 4) (M k)" "clear_from (flash t) (blk_start b + 4) ys"
    and keys: "\<forall>k<16. \<forall>e \<in> set (M k). e_live e \<longrightarrow> 0 \<notin> set (e_key e)"
    and c: "c < 16" "blk_state t c = KV_BLOCK_STATE_CLEAN"
  shows "\<exists>u. kv_init p = (KV_OK, u) \<and> kv_logs (M(i := xs @ kill old # zs)) u"
proof -
  define N where "N = M(i := xs @ kill old # zs)"
  have f: "flash (kv_mgr_zero p) = flash t" using assms(2) by (simp add: kv_mgr_zero_def)
  have split: "[0..<16] = [0..<b] @ b # [Suc b..<16]"
    using upt_add_eq_append [of 0 b "16 - b"] upt_conv_Cons [OF b(1)] b(1) by simp
  obtain s1 where s1: "init_blocks [0..<16] [] (kv_mgr_zero p) = init_blocks (b # [Suc b..<16]) [] s1" "booting b M s1"
    "\<forall>a. in_body a \<longrightarrow> flash s1 a = flash t a" "\<forall>c. clean_hdr (flash s1) c = clean_hdr (flash t) c"
    using boot_range [OF booting_zero [OF assms(1-4)], of b "b # [Suc b..<16]"] clear(1) b(1) f unfolding split by auto
  define s2 where "s2 = boot_block b (M b) s1"
  define s3 where "s3 = marked i (e_origin new) s2"
  note ok = bootingD(2) [OF s1(2)]
  have okl: "list_all ok_entry (M k)" if "k < 16" for k
    using booting_raw [OF s1(2) that] by (simp add: block_raw_def log_at_def)
  have "clear_from (flash s1) (blk_start b + 4) ys"
    using clear_from_cong [of ys "flash s1" "flash t"] okl [OF b(1)] b(2) s1(3) clear(2) by simp
  then have step: "init_blocks (b # [Suc b..<16]) [] s1 = init_blocks [Suc b..<16] [] s3"
    unfolding s3_def s2_def by (rule boot_replace [OF s1(2) b(1) i b(2,3) o])
  have s2: "booting (Suc b) M s2" unfolding s2_def by (rule boot_step_booting [OF s1(2) b(1)])
  then have s3: "booting (Suc b) N s3"
    unfolding N_def s3_def using b(1) i(1,2) o(1) by (intro boot_marked) simp_all
  have raw: "block_raw i (xs @ old # zs) (flash s2)" using booting_raw [OF s2 i(1)] i(2) by simp
  have body: "flash s3 a = page_program (e_origin new + 1) [0] (flash t) a" if "in_body a" for a
  proof -
    have "a \<noteq> blk_start k + 1" if "k < 16" for k using \<open>in_body a\<close> header_not_body that by auto
    then have "flash s3 a = page_program (e_origin new + 1) [0] (flash s2) a" "flash s2 a = flash s1 a"
      using i(1) b(1) boot_block_flash [OF ok, of a b "M b"]
      by (auto simp: s3_def s2_def marked_def page_program_byte)
    then show ?thesis using s1(3) that by (simp add: page_program_def)
  qed
  have "clear_from (flash s3) (blk_start k + 4) (N k)" if k: "Suc b \<le> k" "k < 16" for k
  proof -
    have "clear_from (flash t) (blk_start k + 4) (N k)"
      using clear(1) k i(2) clear_from_kill by (auto simp: N_def)
    moreover have "\<forall>e \<in> set (N k). e_live e \<longrightarrow> 0 \<notin> set (e_key e) \<and> e_key e \<noteq> []"
      using keys okl [OF k(2)] okl [OF i(1)] k(2) i(1,2)
      by (cases "k = i") (auto simp: N_def list_all_iff ok_entry_def)
    ultimately have "clear_from (page_program (e_origin new + 1) [0] (flash t)) (blk_start k + 4) (N k)"
      by (rule clear_from_zero)
    moreover have "list_all ok_entry (N k)" using booting_raw [OF s3 k(2)] by (simp add: block_raw_def log_at_def)
    ultimately show ?thesis using clear_from_cong body by blast
  qed
  then obtain s4 where s4: "init_blocks ([Suc b..<16] @ []) [] s3 = init_blocks [] [] s4" "booting 16 N s4"
    "\<forall>c. clean_hdr (flash s4) c = clean_hdr (flash s3) c"
    using boot_range [OF s3, of 16 "[]"] b(1) by auto
  have "clean_hdr (flash s4) c"
  proof -
    have "blk_state s2 i = KV_BLOCK_STATE_USED \<longrightarrow> flash s2 (blk_start i + 1) = KV_BLOCK_STATE_USED"
      using bootingD(3,5) [OF s2, of i] i(1) by (cases "i \<le> b") (auto simp: block_log_def kv_consts)
    then have "clean_hdr (flash s3) c = clean_hdr (flash s2) c"
      unfolding s3_def by (rule marked_hdr [OF raw _ o(1)])
    moreover have "clean_hdr (flash t) c" using kv_logsD(3) [OF assms(1) c(1)] c(2) by (simp add: block_log_def clean_hdr_def)
    ultimately show ?thesis using s4(3) s1(4) boot_block_hdr [OF ok] by (simp add: s2_def)
  qed
  then show ?thesis
    using kv_init_booted [OF assms(5) _ s4(2) c(1)] s1(1) step s4(1) unfolding N_def [symmetric] by simp
qed

end
