(* ===== verification/KvProps.thy ===== *)
theory KvProps
  imports KvInit
begin

text \<open>
  The properties of the flash store: it is a map, and stays one over garbage collections,
  restarts and a loss of power within an update; and when a store operation never returns.
\<close>

subsection \<open>The interface of a map\<close>

definition kv_get :: "bytes \<Rightarrow> kv_mgr \<Rightarrow> bytes option" where
  "kv_get key s = (case kv_item_get key 512 s of ((r, v, n), _) \<Rightarrow> if r = KV_OK then Some v else None)"

definition kv_put :: "bytes \<Rightarrow> bytes \<Rightarrow> kv_mgr \<Rightarrow> (bool \<times> kv_mgr) option" where
  "kv_put key val s = map_option (\<lambda>(r, t). (r = KV_OK, t)) (kv_item_set key val s)"

definition kv_del :: "bytes \<Rightarrow> kv_mgr \<Rightarrow> kv_mgr" where
  "kv_del key s = snd (kv_item_delete key s)"

definition kv_valid :: "bytes \<Rightarrow> bytes \<Rightarrow> bool" where
  "kv_valid key val \<longleftrightarrow> key \<noteq> [] \<and> length key \<le> 128 \<and> val \<noteq> [] \<and> length val \<le> 512"

lemma kv_refines_val:
  assumes "kv_refines m s" "m k = Some v"
  shows "kv_valid k v"
proof -
  obtain L where L: "finite (dom m)" "kv_logs L s" "kv_pairs L = mset_set (Map.graph m)"
    using assms(1) unfolding kv_refines_def by blast
  then obtain i e where e: "i < 16" "e \<in> set (L i)" "e_key e = k" "e_val e = v"
    using in_graph [OF L(1), of k v] assms(2) in_kv_pairs [of k v L] by auto
  have "ok_entry e" using kv_logsD(3) [OF L(2) e(1)] e(2) by (auto simp: block_log_def log_at_def list_all_iff)
  then show ?thesis using e(3,4) by (auto simp: ok_entry_def kv_valid_def)
qed

lemma kv_get_refines: "kv_refines m s \<Longrightarrow> kv_get k s = m k"
  using kv_item_get_refines [of m s 512 k] kv_refines_val [of m s k]
  by (auto simp: kv_get_def kv_valid_def split: option.splits)

lemma kv_put_refines:
  "kv_refines m s \<Longrightarrow> kv_valid k v \<Longrightarrow> kv_put k v s = Some (b, t) \<Longrightarrow> kv_refines (if b then m(k \<mapsto> v) else m) t"
  using kv_item_set_refines [of m s k v] by (fastforce simp: kv_put_def kv_valid_def)

lemma kv_del_refines: "kv_refines m s \<Longrightarrow> kv_refines (m(k := None)) (kv_del k s)"
  using kv_item_delete_refines [of m s k] by (auto simp: kv_del_def)

interpretation kvs: map_refinement kv_refines kv_valid kv_get kv_put kv_del
  by unfold_locales (fact kv_get_refines, fact kv_put_refines, fact kv_del_refines)

subsection \<open>A store to start from\<close>

definition blank_mgr :: kv_mgr where
  "blank_mgr = \<lparr>flash = (\<lambda>_. 0xFF), flash_ok = True, mem_ok = True, kv_inited = False, gc_trigger = False,
     gc_waiter = 0, clean_blk_nums = 0, write_pos = 0, blk_space = (\<lambda>_. 0), blk_state = (\<lambda>_. 0)\<rparr>"

lemma blank_started:
  obtains u where "kv_init blank_mgr = (KV_OK, u)" "kv_logs (\<lambda>_. []) u" "clean_blk_nums u = 15"
  using kv_init_fresh [of blank_mgr] by (auto simp: blank_mgr_def kv_consts)

lemma logs_refine_empty: "kv_logs (\<lambda>_. []) u \<Longrightarrow> kv_refines Map.empty u"
  unfolding kv_refines_def by (auto simp: kv_pairs_def intro!: exI [of _ "\<lambda>_. []"])

text \<open>With room in the current block an item is stored there.\<close>

lemma store_in_place:
  assumes "kv_logs L s" "ok_entry (new_entry off key val)"
    and "e_len (new_entry off key val) < blk_space s (blk_of (write_pos s))"
  shows "\<exists>t b. kv_item_store key val off s = Some (KV_OK, t) \<and> b < 16 \<and>
    kv_logs (L(b := L b @ [new_entry off key val])) t \<and> blk_state t = blk_state s"
proof -
  let ?e = "new_entry off key val"
  obtain c where c: "kv_calc_position (e_len ?e) s = Some (write_pos s, c)" "c = s \<or> c = kv_trigger_gc s"
    using assms(3) by (auto simp: kv_calc_position_def Let_def)
  obtain b where b: "b < 16" "write_pos s = write_end L b" using kv_logs_write [OF assms(1)] .
  have pos: "0 < write_pos s" by (simp add: b(2) write_end_def)
  have "kv_flash_write (write_pos s) (enc ?e) c = (0, c\<lparr>flash := page_program (write_pos s) (enc ?e) (flash c)\<rparr>)"
    using c(2) kv_logsD(2) [OF assms(1)] by (intro kv_flash_write_eq) auto
  then obtain t where t: "kv_item_store key val off s = Some (KV_OK, t)" "blk_state t = blk_state s"
    using c pos kv_logsD(1) [OF assms(1)] unfolding kv_item_store_def item_bytes_enc Let_def length_enc by auto
  from kv_item_store_logs [OF assms(1,2) t(1)] show ?thesis using t by auto
qed

lemma empty_room:
  assumes "kv_logs L s" "\<And>i. i < 16 \<Longrightarrow> L i = []"
  shows "blk_space s (blk_of (write_pos s)) = 262140"
proof -
  obtain b where b: "b < 16" "write_pos s = write_end L b" using kv_logs_write [OF assms(1)] .
  then have "blk_of (write_pos s) = b" using blk_of_write_end [of b L s] kv_logsD(3) [OF assms(1) b(1)] by simp
  then show ?thesis using kv_logsD(3) [OF assms(1) b(1)] assms(2) [OF b(1)] by (simp add: block_log_def)
qed

text \<open>The first entry of an empty store.\<close>

lemma first_put:
  assumes "kv_logs (\<lambda>_. []) u" "kv_valid key val"
  shows "\<exists>t b. kv_item_set key val u = Some (KV_OK, t) \<and> b < 16 \<and> kv_logs ((\<lambda>_. [])(b := [new_entry 0 key val])) t
    \<and> (\<not> gc_trigger u \<longrightarrow> blk_state t = blk_state u)"
proof -
  have ok: "ok_entry (new_entry 0 key val)" using assms(2) by (auto simp: ok_entry_def kv_valid_def)
  obtain M where M: "gc_moves (\<lambda>_. []) M" "kv_logs M (kv_gc_wait u)" using kv_gc_wait_logs [OF assms(1)] by blast
  then have e: "M = (\<lambda>_. [])" by (auto simp: gc_moves_def)
  have room: "e_len (new_entry 0 key val) < blk_space (kv_gc_wait u) (blk_of (write_pos (kv_gc_wait u)))"
    using empty_room [OF M(2)] e_len_bounds [OF ok] e by simp
  obtain t b where t: "kv_item_store key val 0 (kv_gc_wait u) = Some (KV_OK, t)" "b < 16"
    "kv_logs (M(b := M b @ [new_entry 0 key val])) t" "blk_state t = blk_state (kv_gc_wait u)"
    using store_in_place [OF M(2) ok room] by blast
  have "kv_item_search key (kv_gc_wait u) = (None, kv_gc_wait u)"
    by (rule kv_item_search_cases [OF M(2), of key]) (use e in auto)
  then have "kv_item_set key val u = Some (KV_OK, t)"
    using t(1) assms(2) by (auto simp: kv_item_set_def kv_valid_def)
  then show ?thesis using t e by (intro exI [of _ t] exI [of _ b]) (auto simp: kv_gc_wait_def)
qed

subsection \<open>The properties\<close>

text \<open>C3. The store is a map. After any sequence of sets and deletes that returns, with keys and
  values of admissible lengths and with the garbage collections it starts, reading a key gives
  what the accepted operations have left of it; a refused set changes no key.\<close>

theorem kv_store_is_a_map:
  assumes "kv_refines m s" "list_all kvs.put_ok ps" "store_run kv_put kv_del ps s = Some (bs, t)"
  shows "kv_get k t = fold map_op (accepted ps bs) m k"
  by (rule kvs.get_run [OF assms])

theorem kv_store_is_a_map_witness:
  "\<exists>u t. kv_init blank_mgr = (KV_OK, u) \<and> store_run kv_put kv_del [Put [1] [7], Del [2]] u = Some ([True, True], t)
     \<and> kv_get [1] t = Some [7]"
proof -
  obtain u where u: "kv_init blank_mgr = (KV_OK, u)" "kv_logs (\<lambda>_. []) u" by (rule blank_started)
  obtain t where "kv_item_set [1] [7] u = Some (KV_OK, t)" using first_put [OF u(2), of "[1]" "[7]"] by (auto simp: kv_valid_def)
  then have r: "store_run kv_put kv_del [Put [1] [7], Del [2]] u = Some ([True, True], kv_del [2] t)"
    by (simp add: kv_put_def)
  have "kv_get [1] (kv_del [2] t) = fold map_op (accepted [Put [1] [7], Del [2 :: u8]] [True, True]) Map.empty [1]"
    by (rule kv_store_is_a_map [OF logs_refine_empty [OF u(2)] _ r]) (simp add: kv_valid_def)
  then show ?thesis using u(1) r by auto
qed

text \<open>C5. When storing never returns. The search for room comes back except in one case: the
  current block is block 0 and no block has room; then it goes round the blocks for ever.\<close>

theorem kv_store_returns:
  assumes "blk_of (write_pos s) < 16" "mem_ok s"
  shows "kv_item_store key val off s = None \<longleftrightarrow> blk_of (write_pos s) = 0 \<and>
    (\<forall>i<16. blk_space s i \<le> KV_ALIGN (KV_ITEM_HDR_SIZE + length key + length val))"
proof -
  have "kv_item_store key val off s = None \<longleftrightarrow> kv_calc_position (e_len (new_entry off key val)) s = None"
    using assms(2) unfolding kv_item_store_def item_bytes_enc Let_def length_enc
    by (auto simp: bind_eq_None_conv split: if_splits prod.splits)
  then show ?thesis using kv_calc_position_returns [OF assms(1)] by (simp add: e_len_def)
qed

theorem kv_store_returns_witness:
  "kv_item_store [1] [7] 0 (blank_mgr\<lparr>write_pos := 262140\<rparr>) = None \<and>
   kv_item_store [1] [7] 0 (blank_mgr\<lparr>write_pos := 524284\<rparr>) \<noteq> None"
  using kv_store_returns [of "blank_mgr\<lparr>write_pos := 262140\<rparr>" "[1]" "[7]" 0]
    kv_store_returns [of "blank_mgr\<lparr>write_pos := 524284\<rparr>" "[1]" "[7]" 0]
  by (simp add: blank_mgr_def blk_of_def)

text \<open>The contents of a store, with its logs, whose origins name no item by accident.\<close>

definition kv_contents :: "(nat \<Rightarrow> entry list) \<Rightarrow> (bytes \<rightharpoonup> bytes) \<Rightarrow> kv_mgr \<Rightarrow> bool" where
  "kv_contents L m s \<longleftrightarrow> finite (dom m) \<and> kv_logs L s \<and> kv_pairs L = mset_set (Map.graph m)"

definition clear_origins :: "(nat \<Rightarrow> entry list) \<Rightarrow> kv_mgr \<Rightarrow> bool" where
  "clear_origins L s \<longleftrightarrow> (\<forall>k<16. clear_from (flash s) (blk_start k + 4) (L k))"

text \<open>The memory after a power cycle: what the flash held is all that is left.\<close>

definition power_cycled :: "kv_mgr \<Rightarrow> kv_mgr" where
  "power_cycled s = blank_mgr\<lparr>flash := flash s\<rparr>"

lemma power_cycled_fields [simp]:
  "flash (power_cycled s) = flash s" "flash_ok (power_cycled s)" "mem_ok (power_cycled s)" "\<not> kv_inited (power_cycled s)"
  by (simp_all add: power_cycled_def blank_mgr_def)

lemma kv_contents_refines: "kv_contents L m s \<Longrightarrow> kv_refines m s"
  by (auto simp: kv_contents_def kv_refines_def)

lemma clear_origin_0: "\<forall>k. \<forall>e \<in> set (L k). e_origin e = 0 \<Longrightarrow> clear_origins L s"
proof -
  have "clear_from fl pos l" if "\<forall>e \<in> set l. e_origin e = 0" for fl pos l
    using that by (induction l arbitrary: pos) (auto simp: origin_clear_def)
  moreover assume "\<forall>k. \<forall>e \<in> set (L k). e_origin e = 0"
  ultimately show ?thesis by (simp add: clear_origins_def)
qed

lemma first_contents:
  assumes "kv_logs ((\<lambda>_. [])(b := [new_entry 0 key val])) t" "b < 16"
  shows "kv_contents ((\<lambda>_. [])(b := [new_entry 0 key val])) [key \<mapsto> val] t"
    and "clear_origins ((\<lambda>_. [])(b := [new_entry 0 key val])) t"
proof -
  have "kv_pairs ((\<lambda>_. [])(b := [new_entry 0 key val])) = {#(key, val)#}"
    using kv_pairs_append [OF assms(2), of "\<lambda>_. []" 0 key val] by (simp add: kv_pairs_def)
  moreover have "Map.graph [key \<mapsto> val] = {(key, val)}" by (auto simp: Map.graph_def split: if_splits)
  ultimately show "kv_contents ((\<lambda>_. [])(b := [new_entry 0 key val])) [key \<mapsto> val] t"
    using assms(1) by (simp add: kv_contents_def)
  show "clear_origins ((\<lambda>_. [])(b := [new_entry 0 key val])) t" by (rule clear_origin_0) simp
qed







lemma kv_init_full:
  assumes "kv_logs L s" "clear_origins L s" "\<forall>i<16. blk_state s i \<noteq> KV_BLOCK_STATE_CLEAN"
  shows "\<exists>u. kv_init (power_cycled s) = (KV_OK, u) \<and> kv_logs (L(0 := [])) u"
proof -
  let ?z = "kv_mgr_zero (power_cycled s)"
  have f: "flash ?z = flash s" by (simp add: kv_mgr_zero_def)
  obtain t where t: "init_blocks ([0..<16] @ []) [] ?z = init_blocks [] [] t" "booting 16 L t"
    "\<forall>c. clean_hdr (flash t) c = clean_hdr (flash s) c"
    using boot_range [OF booting_zero [OF assms(1), of "power_cycled s"], of 16 "[]"] assms(2) f
    by (auto simp: clear_origins_def)
  have "\<not> clean_hdr (flash s) c" if "c < 16" for c
    using kv_logsD(3) [OF assms(1) that] assms(3) that by (simp add: block_log_def clean_hdr_def)
  then have nc: "blk_state t c \<noteq> KV_BLOCK_STATE_CLEAN" if "c < 16" for c
    using booted_state [OF t(2) that] t(3) that by simp
  note b = booting_fields [OF t(2)]
  have z: "clean_blk_nums t = 0" using b(4) nc by (auto simp: clean_blocks_def card_eq_0_iff)
  let ?v = "formatted 0 t"
  have "block_log k ((L(0 := [])) k) ?v" if "k < 16" for k
    using block_formatted [of 0 t] formatted_other [of k 0 "L k" t] b(3) [OF that] by (cases "k = 0") auto
  moreover have "clean_below 16 ?v = {0}" using nc by (auto simp: clean_below_def formatted_def split: if_splits)
  then have "clean_blk_nums ?v = card (clean_below 16 ?v)" using z by (simp add: formatted_def inc8_def)
  moreover have "mem_ok ?v" "flash_ok ?v" using b(1,2) by (simp_all add: formatted_def)
  ultimately have "booting 16 (L(0 := [])) ?v" unfolding booting_def by (metis not_le)
  then obtain u where "boot_tail ?v = (KV_OK, u)" "kv_logs (L(0 := [])) u"
    using boot_tail_logs [of "L(0 := [])" ?v 0] by (auto simp: formatted_def)
  moreover have "kv_init_internal ?z = boot_tail ?v"
    using kv_init_internal_tail [of ?z t] t(1) z kv_block_format_eq [OF b(2)] by simp
  ultimately show ?thesis using kv_init_logs [of "power_cycled s" u] by fastforce
qed

lemma drop_block_0:
  assumes "kv_contents L m s"
  shows "kv_pairs (L(0 := [])) = mset_set (Map.graph (\<lambda>k. if \<exists>e \<in> set (L 0). e_live e \<and> e_key e = k then None else m k))"
    (is "_ = mset_set (Map.graph ?m)")
proof -
  have c: "finite (dom m)" "kv_pairs L = mset_set (Map.graph m)" using assms by (simp_all add: kv_contents_def)
  let ?old = "image_mset (\<lambda>e. (e_key e, e_val e)) (mset (lives (L 0)))"
  have sum: "kv_pairs (L(0 := [])) + ?old = mset_set (Map.graph m)" using kv_pairs_upd [of 0 L "[]"] c(2) by simp
  let ?P = "\<lambda>(k, v). \<exists>e \<in> set (L 0). e_live e \<and> e_key e = k"
  have none: "\<not> ?P x" if "x \<in># kv_pairs (L(0 := []))" for x
  proof
    assume "?P x"
    obtain k v where x: "x = (k, v)" by (cases x)
    then obtain e where e: "e \<in> set (L 0)" "e_live e" "e_key e = k" using \<open>?P x\<close> by auto
    have "x \<in># mset_set (Map.graph m)" unfolding sum [symmetric] using that by simp
    then have "m k = Some v" using in_graph [OF c(1)] x by simp
    then have "e_val e = v" using live_in_map [OF c(2,1), of 0 e] e by simp
    then have "x \<in># ?old" using e x by (auto simp: lives_def)
    then have "0 < count ?old x" "0 < count (kv_pairs (L(0 := []))) x"
      using that by (simp_all only: count_greater_zero_iff)
    then have "1 < count (mset_set (Map.graph m)) x" unfolding sum [symmetric] count_union by linarith
    then show False using count_mset_set' [of "Map.graph m" x] by (auto split: if_splits)
  qed
  have "filter_mset (\<lambda>x. \<not> ?P x) (kv_pairs (L(0 := []))) = filter_mset (\<lambda>_. True) (kv_pairs (L(0 := [])))"
    using none by (intro filter_mset_cong refl) auto
  moreover have "filter_mset (\<lambda>x. \<not> ?P x) ?old = {#}"
    by (auto simp: multiset_eq_iff count_eq_zero_iff lives_def)
  ultimately have "filter_mset (\<lambda>x. \<not> ?P x) (kv_pairs (L(0 := [])) + ?old) = kv_pairs (L(0 := []))"
    by (simp only: filter_union_mset filter_mset_True empty_neutral)
  then have "kv_pairs (L(0 := [])) = mset_set {x \<in> Map.graph m. \<not> ?P x}"
    unfolding sum using finite_graph [OF c(1)] by simp
  also have "{x \<in> Map.graph m. \<not> ?P x} = Map.graph ?m" by (auto simp: Map.graph_def split: if_splits)
  finally show ?thesis .
qed

text \<open>C7. A full store loses block 0. When no block is clean, starting again formats block 0
  first, and every key that has its item there is gone.\<close>

theorem kv_full_store_restart_loses_block_0:
  assumes "kv_contents L m s" "clear_origins L s" "\<forall>i<16. blk_state s i \<noteq> KV_BLOCK_STATE_CLEAN"
  shows "\<exists>u. kv_init (power_cycled s) = (KV_OK, u) \<and>
    kv_refines (\<lambda>k. if \<exists>e \<in> set (L 0). e_live e \<and> e_key e = k then None else m k) u"
proof -
  obtain u where u: "kv_init (power_cycled s) = (KV_OK, u)" "kv_logs (L(0 := [])) u"
    using kv_init_full [of L s] assms by (auto simp: kv_contents_def)
  have "finite (dom (\<lambda>k. if \<exists>e \<in> set (L 0). e_live e \<and> e_key e = k then None else m k))"
    using assms(1) unfolding kv_contents_def by (elim conjE finite_subset [rotated]) (auto split: if_splits)
  then show ?thesis using u drop_block_0 [OF assms(1)] unfolding kv_refines_def by auto
qed

text \<open>A full store: every clean block is put to use.\<close>

lemma fill_blocks:
  assumes "kv_logs L s"
  shows "\<exists>t. kv_logs L t \<and> (\<forall>i<16. blk_state t i \<noteq> KV_BLOCK_STATE_CLEAN)"
  using assms
proof (induction "card (clean_blocks s)" arbitrary: s)
  case 0
  then have "clean_blocks s = {}" using finite_clean [of s] by simp
  then show ?case using 0 by (auto simp: clean_blocks_def)
next
  case (Suc n)
  then have "clean_blocks s \<noteq> {}" by auto
  then obtain c where c: "c < 16" "blk_state s c = KV_BLOCK_STATE_CLEAN" by (auto simp: clean_blocks_def)
  from kv_logs_use [OF Suc.prems c] obtain t where t: "kv_logs L t"
    "blk_state t = (blk_state s)(c := KV_BLOCK_STATE_USED)" by (metis (no_types, lifting) kv_mgr.select_convs(10)
        kv_mgr.surjective kv_mgr.update_convs(1,7,8,10))
  then have "clean_blocks t = clean_blocks s - {c}" using state_distinct by (auto simp: clean_blocks_def)
  then have "n = card (clean_blocks t)" using Suc.hyps(2) c by (simp add: clean_blocks_def)
  then show ?case using Suc.hyps(1) t(1) by blast
qed

theorem kv_full_store_restart_loses_block_0_witness:
  "\<exists>s u. kv_get [1] s = Some [7] \<and> kv_init (power_cycled s) = (KV_OK, u) \<and> kv_get [1] u = None"
proof -
  have ok: "ok_entry (new_entry 0 [1] [7])" by (simp add: ok_entry_def)
  obtain u where "kv_logs (\<lambda>_. []) u" by (rule blank_started)
  then obtain t where t: "kv_logs (\<lambda>_. []) t" "\<forall>i<16. blk_state t i \<noteq> KV_BLOCK_STATE_CLEAN"
    using fill_blocks by blast
  have "e_len (new_entry 0 [1] [7]) < blk_space t 0"
    using kv_logsD(3) [OF t(1), of 0] e_len_bounds [OF ok] by (simp add: block_log_def)
  from logs_append [OF t(1) _ ok _ this] t(2) obtain s where s: "kv_logs ((\<lambda>_. [])(0 := [new_entry 0 [1] [7]])) s"
    "blk_state s = blk_state t" by fastforce
  note f = first_contents [OF s(1)]
  from kv_full_store_restart_loses_block_0 [OF f] t(2) s(2) obtain v where v: "kv_init (power_cycled s) = (KV_OK, v)"
    "kv_refines (\<lambda>k. if \<exists>e \<in> set (((\<lambda>_. [])(0 := [new_entry 0 [1] [7]])) 0). e_live e \<and> e_key e = k then None
       else [[1] \<mapsto> [7]] k) v" by auto
  then show ?thesis
    using kv_get_refines [OF kv_contents_refines [OF f(1)], of "[1]"] kv_get_refines [OF v(2), of "[1]"] by auto
qed

end
