(* ===== verification/MqttClient.thy ===== *)
theory MqttClient
  imports MqttDeserialize MqttTopic LinkkitUtil
begin

text \<open>
  The MQTT client (linkkit/mqtt/iotx_mqtt_client.c): its state and its traffic with the network.
  The build has dynamic memory, dynamic buffers and QoS 1 (infra_config.h, iotx_mqtt_config.h),
  no topic compression and no asynchronous protocol stack.

  What the client asks of its surroundings is a parameter: the record \<open>mqtt_env\<close> answers the
  n-th call with the uptime, with whether an allocation or a mutex succeeds, with the bytes of a
  socket read (\<open>None\<close> is an error; the client only looks at the sign of the code), with the
  return code of a socket write and of a connection attempt, and with the contents of an
  uninitialised variable. Every call advances \<open>mc_tick\<close>; what leaves the client (writes,
  connects, disconnects, delays, callbacks) is appended to \<open>mc_trace\<close>. A callback is an output:
  it does not call back into the client. The locks only order the threads and are not modelled,
  except for which of them exist.

  An operation is \<open>None\<close> when it touches memory outside a buffer or does not return.
\<close>

subsection \<open>Return codes\<close>

abbreviation (input) MQTT_CONNECT_BLOCK :: int where "MQTT_CONNECT_BLOCK \<equiv> -44"
abbreviation (input) MQTT_PUSH_TO_LIST_ERROR :: int where "MQTT_PUSH_TO_LIST_ERROR \<equiv> -42"
abbreviation (input) MQTT_TOPIC_FORMAT_ERROR :: int where "MQTT_TOPIC_FORMAT_ERROR \<equiv> -41"
abbreviation (input) MQTT_CONNACK_UNKNOWN_ERROR :: int where "MQTT_CONNACK_UNKNOWN_ERROR \<equiv> -39"
abbreviation (input) MQTT_CONANCK_UNACCEPTABLE_PROTOCOL_VERSION_ERROR :: int where
  "MQTT_CONANCK_UNACCEPTABLE_PROTOCOL_VERSION_ERROR \<equiv> -38"
abbreviation (input) MQTT_CONNACK_IDENTIFIER_REJECTED_ERROR :: int where
  "MQTT_CONNACK_IDENTIFIER_REJECTED_ERROR \<equiv> -37"
abbreviation (input) MQTT_CONNACK_SERVER_UNAVAILABLE_ERROR :: int where
  "MQTT_CONNACK_SERVER_UNAVAILABLE_ERROR \<equiv> -36"
abbreviation (input) MQTT_CONNACK_BAD_USERDATA_ERROR :: int where
  "MQTT_CONNACK_BAD_USERDATA_ERROR \<equiv> -35"
abbreviation (input) MQTT_CONNACK_NOT_AUTHORIZED_ERROR :: int where
  "MQTT_CONNACK_NOT_AUTHORIZED_ERROR \<equiv> -34"
abbreviation (input) MQTT_CONNECT_ERROR :: int where "MQTT_CONNECT_ERROR \<equiv> -33"
abbreviation (input) MQTT_PING_PACKET_ERROR :: int where "MQTT_PING_PACKET_ERROR \<equiv> -31"
abbreviation (input) MQTT_CONNECT_PACKET_ERROR :: int where "MQTT_CONNECT_PACKET_ERROR \<equiv> -30"
abbreviation (input) MQTT_CONNECT_ACK_PACKET_ERROR :: int where "MQTT_CONNECT_ACK_PACKET_ERROR \<equiv> -29"
abbreviation (input) MQTT_NETWORK_CONNECT_ERROR :: int where "MQTT_NETWORK_CONNECT_ERROR \<equiv> -28"
abbreviation (input) MQTT_STATE_ERROR :: int where "MQTT_STATE_ERROR \<equiv> -27"
abbreviation (input) MQTT_SUBSCRIBE_PACKET_ERROR :: int where "MQTT_SUBSCRIBE_PACKET_ERROR \<equiv> -26"
abbreviation (input) MQTT_SUBSCRIBE_ACK_PACKET_ERROR :: int where
  "MQTT_SUBSCRIBE_ACK_PACKET_ERROR \<equiv> -25"
abbreviation (input) MQTT_UNSUBSCRIBE_PACKET_ERROR :: int where "MQTT_UNSUBSCRIBE_PACKET_ERROR \<equiv> -22"
abbreviation (input) MQTT_PUBLISH_PACKET_ERROR :: int where "MQTT_PUBLISH_PACKET_ERROR \<equiv> -21"
abbreviation (input) MQTT_PUBLISH_QOS_ERROR :: int where "MQTT_PUBLISH_QOS_ERROR \<equiv> -20"
abbreviation (input) MQTT_PUBLISH_ACK_PACKET_ERROR :: int where "MQTT_PUBLISH_ACK_PACKET_ERROR \<equiv> -19"
abbreviation (input) MQTT_UNSUBSCRIBE_ACK_PACKET_ERROR :: int where
  "MQTT_UNSUBSCRIBE_ACK_PACKET_ERROR \<equiv> -15"
abbreviation (input) MQTT_NETWORK_ERROR :: int where "MQTT_NETWORK_ERROR \<equiv> -14"
abbreviation (input) MQTT_PUBLISH_ACK_TYPE_ERROR :: int where "MQTT_PUBLISH_ACK_TYPE_ERROR \<equiv> -13"
abbreviation (input) MC_NULL_VALUE_ERROR :: int where "MC_NULL_VALUE_ERROR \<equiv> -2"
abbreviation (input) ERROR_MALLOC :: int where "ERROR_MALLOC \<equiv> -1014"
abbreviation (input) MQTTPACKET_READ_ERROR :: int where "MQTTPACKET_READ_ERROR \<equiv> -1"

subsection \<open>Data\<close>

datatype iotx_mc_state =
    IOTX_MC_STATE_INVALID | IOTX_MC_STATE_INITIALIZED | IOTX_MC_STATE_CONNECTED
  | IOTX_MC_STATE_DISCONNECTED | IOTX_MC_STATE_DISCONNECTED_RECONNECTING | IOTX_MC_STATE_CONNECT_BLOCK

datatype iotx_mc_node = IOTX_MC_NODE_STATE_NORMANL | IOTX_MC_NODE_STATE_INVALID

text \<open>A callback: which function (\<open>None\<close> is the null pointer) and its context.\<close>

record event_handle =
  h_fp :: "nat option"
  pcontext :: nat

text \<open>A received or published message; a pointer is what is stored from it on.\<close>

record topic_info =
  ti_packet_id :: u16
  ti_qos :: u8
  ti_dup :: u8
  ti_retain :: u8
  ti_topic_len :: u16
  ti_topic :: "bytes option"
  ti_payload_len :: u32
  ti_payload :: "bytes option"

text \<open>The events with their message.\<close>

datatype mqtt_event =
    EVENT_DISCONNECT | EVENT_RECONNECT | EVENT_SUBCRIBE_SUCCESS u16 | EVENT_SUBCRIBE_NACK u16
  | EVENT_UNSUBCRIBE_SUCCESS u16 | EVENT_PUBLISH_SUCCESS u16 | EVENT_PUBLISH_RECEIVED topic_info
  | EVENT_BUFFER_OVERFLOW

fun event_type :: "mqtt_event \<Rightarrow> u8" where
  "event_type EVENT_DISCONNECT = 1" | "event_type EVENT_RECONNECT = 2"
| "event_type (EVENT_SUBCRIBE_SUCCESS i) = 3" | "event_type (EVENT_SUBCRIBE_NACK i) = 5"
| "event_type (EVENT_UNSUBCRIBE_SUCCESS i) = 6" | "event_type (EVENT_PUBLISH_SUCCESS i) = 9"
| "event_type (EVENT_PUBLISH_RECEIVED m) = 12" | "event_type EVENT_BUFFER_OVERFLOW = 13"

datatype mqtt_out =
    OutWrite bytes int | OutConnect int | OutDisconnect | OutSleep nat | OutEvent event_handle mqtt_event

record topic_handle =
  topic_filter :: string
  handle :: event_handle

record pub_info =
  pub_start_time :: u32
  node_state :: iotx_mc_node
  msg_id :: u16
  pub_buf :: bytes

record sub_sync_node =
  sn_packet_id :: int
  sn_ack_type :: u8

datatype mc_lock = LockGeneric | LockListPub | LockYield | LockWriteBuf | LockReadBuf

record mqtt_client =
  mc_locks :: "mc_lock list"
  packet_id :: u32
  request_timeout_ms :: u32
  cycle_timeout_ms :: u32
  buf_size_send :: u32
  buf_size_send_max :: u32
  buf_size_read_max :: u32
  buf_size_read :: u32
  keepalive_probes :: u8
  buf_send :: "bytes option"
  buf_read :: "bytes option"
  list_sub_handle :: "topic_handle list"
  next_ping_time :: u32
  client_state :: iotx_mc_state
  reconnect_next_time :: u32
  reconnect_time_interval_ms :: u32
  connect_data :: MQTTPacket_connectData
  list_pub_wait_ack :: "pub_info list"
  list_sub_sync_ack :: "sub_sync_node list"
  handle_event :: event_handle
  mc_in_yield_cb :: bool
  mc_tick :: nat
  mc_trace :: "mqtt_out list"

record mqtt_env =
  env_uptime :: "nat \<Rightarrow> u64"
  env_malloc :: "nat \<Rightarrow> bool"
  env_mutex :: "nat \<Rightarrow> bool"
  env_read :: "nat \<Rightarrow> nat \<Rightarrow> u32 \<Rightarrow> bytes option"
  env_write :: "nat \<Rightarrow> bytes \<Rightarrow> u32 \<Rightarrow> int"
  env_connect :: "nat \<Rightarrow> int"
  env_garbage :: "nat \<Rightarrow> u32"

definition IOTX_MC_REPUB_NUM_MAX :: nat where "IOTX_MC_REPUB_NUM_MAX = 20"
definition IOTX_MC_PACKET_ID_MAX :: u32 where "IOTX_MC_PACKET_ID_MAX = 65535"
definition IOTX_MC_RECONNECT_INTERVAL_MIN_MS :: u32 where "IOTX_MC_RECONNECT_INTERVAL_MIN_MS = 1000"
definition IOTX_MC_RECONNECT_INTERVAL_MAX_MS :: u32 where "IOTX_MC_RECONNECT_INTERVAL_MAX_MS = 60000"
definition IOTX_MC_KEEPALIVE_PROBE_MAX :: u8 where "IOTX_MC_KEEPALIVE_PROBE_MAX = 2"
definition MUTLI_SUBSCIRBE_MAX :: nat where "MUTLI_SUBSCIRBE_MAX = 5"

text \<open>Characters and bytes.\<close>

definition str_bytes :: "string \<Rightarrow> bytes" where "str_bytes s = map of_char s"
definition bytes_str :: "bytes \<Rightarrow> string" where "bytes_str bs = map (\<lambda>b. char_of (unat b)) bs"


subsection \<open>Calls to the surroundings\<close>

definition uptime :: "mqtt_env \<Rightarrow> mqtt_client \<Rightarrow> u64 \<times> mqtt_client" where
  "uptime env c = (env_uptime env (mc_tick c), c\<lparr>mc_tick := Suc (mc_tick c)\<rparr>)"

definition time_expired :: "mqtt_env \<Rightarrow> u32 \<Rightarrow> mqtt_client \<Rightarrow> bool \<times> mqtt_client" where
  "time_expired env timer c = (let (now, c) = uptime env c in (utils_time_is_expired now timer, c))"

definition countdown_ms :: "mqtt_env \<Rightarrow> u32 \<Rightarrow> mqtt_client \<Rightarrow> u32 \<times> mqtt_client" where
  "countdown_ms env ms c = (let (now, c) = uptime env c in (utils_time_countdown_ms now ms, c))"

text \<open>The time left, and at least 1, as every read and write gets it.\<close>

definition time_left :: "mqtt_env \<Rightarrow> u32 \<Rightarrow> mqtt_client \<Rightarrow> u32 \<times> mqtt_client" where
  "time_left env timer c = (let (now, c) = uptime env c in (iotx_time_left now timer, c))"

definition left_t :: "mqtt_env \<Rightarrow> u32 \<Rightarrow> mqtt_client \<Rightarrow> u32 \<times> mqtt_client" where
  "left_t env timer c = (let (l, c) = time_left env timer c in (if l = 0 then 1 else l, c))"

definition mqtt_malloc :: "mqtt_env \<Rightarrow> mqtt_client \<Rightarrow> bool \<times> mqtt_client" where
  "mqtt_malloc env c = (env_malloc env (mc_tick c), c\<lparr>mc_tick := Suc (mc_tick c)\<rparr>)"

definition emit :: "mqtt_out \<Rightarrow> mqtt_client \<Rightarrow> mqtt_client" where
  "emit out c = c\<lparr>mc_tick := Suc (mc_tick c), mc_trace := mc_trace c @ [out]\<rparr>"

definition net_read :: "mqtt_env \<Rightarrow> nat \<Rightarrow> u32 \<Rightarrow> mqtt_client \<Rightarrow> bytes option \<times> mqtt_client" where
  "net_read env n timeout c =
     (map_option (take n) (env_read env (mc_tick c) n timeout), c\<lparr>mc_tick := Suc (mc_tick c)\<rparr>)"

definition net_write :: "mqtt_env \<Rightarrow> bytes \<Rightarrow> u32 \<Rightarrow> mqtt_client \<Rightarrow> int \<times> mqtt_client" where
  "net_write env bs timeout c =
     (let rc = env_write env (mc_tick c) bs timeout in (rc, emit (OutWrite bs rc) c))"

definition net_connect :: "mqtt_env \<Rightarrow> mqtt_client \<Rightarrow> int \<times> mqtt_client" where
  "net_connect env c = (let rc = env_connect env (mc_tick c) in (rc, emit (OutConnect rc) c))"

text \<open>\<open>ipstack.read\<close> into the read buffer at \<open>pos\<close>; the return code is the number of bytes.\<close>

definition read_into :: "mqtt_env \<Rightarrow> nat \<Rightarrow> nat \<Rightarrow> u32 \<Rightarrow> mqtt_client \<Rightarrow> (int \<times> mqtt_client) option" where
  "read_into env pos n timeout c =
     do { b \<leftarrow> buf_read c;
          if length b < pos + n then None
          else case net_read env n timeout c of
              (None, c) \<Rightarrow> Some (-1, c)
            | (Some bs, c) \<Rightarrow>
                Some (int (length bs), c\<lparr>buf_read := Some (take pos b @ bs @ drop (pos + length bs) b)\<rparr>) }"

text \<open>\<open>_handle_event\<close> on a callback that is not null.\<close>

definition handle_event_msg :: "event_handle \<Rightarrow> mqtt_event \<Rightarrow> mqtt_client \<Rightarrow> int \<times> mqtt_client" where
  "handle_event_msg h msg c =
     (if h_fp h = None then (FAIL_RETURN, c)
      else (0, (emit (OutEvent h msg) (c\<lparr>mc_in_yield_cb := True\<rparr>))\<lparr>mc_in_yield_cb := False\<rparr>))"

definition iotx_mc_set_client_state :: "iotx_mc_state \<Rightarrow> mqtt_client \<Rightarrow> mqtt_client" where
  "iotx_mc_set_client_state newState c = c\<lparr>client_state := newState\<rparr>"

definition wrapper_mqtt_check_state :: "mqtt_client \<Rightarrow> bool" where
  "wrapper_mqtt_check_state c \<longleftrightarrow> client_state c = IOTX_MC_STATE_CONNECTED"

definition iotx_mc_get_next_packetid :: "mqtt_client \<Rightarrow> u32 \<times> mqtt_client" where
  "iotx_mc_get_next_packetid c =
     (let i = (if packet_id c = IOTX_MC_PACKET_ID_MAX then 1 else packet_id c + 1)
      in (i, c\<lparr>packet_id := i\<rparr>))"

subsection \<open>The dynamic buffers\<close>

definition reset_send_buffer :: "mqtt_client \<Rightarrow> mqtt_client" where
  "reset_send_buffer c =
     (if buf_send c = None then c else c\<lparr>buf_send := None, buf_size_send := 0\<rparr>)"

definition reset_recv_buffer :: "mqtt_client \<Rightarrow> mqtt_client" where
  "reset_recv_buffer c =
     (if buf_read c = None then c else c\<lparr>buf_read := None, buf_size_read := 0\<rparr>)"

definition MQTT_DYNBUF_SEND_MARGIN :: u32 where "MQTT_DYNBUF_SEND_MARGIN = 64"
definition MQTT_DYNBUF_RECV_MARGIN :: u32 where "MQTT_DYNBUF_RECV_MARGIN = 8"

definition alloc_send_buffer :: "mqtt_env \<Rightarrow> int \<Rightarrow> mqtt_client \<Rightarrow> int \<times> mqtt_client" where
  "alloc_send_buffer env len c =
     (let tmp_len = MQTT_DYNBUF_SEND_MARGIN + word_of_int len;
          tmp_len = (if buf_size_send_max c < tmp_len then buf_size_send_max c else tmp_len);
          (ok, c) = mqtt_malloc env c
      in if \<not> ok then (ERROR_MALLOC, c\<lparr>buf_send := None\<rparr>)
         else (SUCCESS_RETURN, c\<lparr>buf_send := Some (replicate (unat tmp_len) 0), buf_size_send := tmp_len\<rparr>))"

definition alloc_recv_buffer :: "mqtt_env \<Rightarrow> int \<Rightarrow> mqtt_client \<Rightarrow> int \<times> mqtt_client" where
  "alloc_recv_buffer env len c =
     (let tmp_len = MQTT_DYNBUF_RECV_MARGIN + word_of_int len;
          tmp_len = (if buf_size_read_max c < tmp_len then buf_size_read_max c else tmp_len);
          (ok, c) = mqtt_malloc env c
      in if \<not> ok then (ERROR_MALLOC, c)
         else let b = (case buf_read c of None \<Rightarrow> replicate (unat tmp_len) 0
                       | Some old \<Rightarrow>
                           let kept = take (if buf_size_read c < tmp_len then unat (buf_size_read c) else unat tmp_len) old
                           in kept @ replicate (unat tmp_len - length kept) 0)
              in (SUCCESS_RETURN, c\<lparr>buf_read := Some b, buf_size_read := tmp_len\<rparr>))"


subsection \<open>Sending a packet\<close>

text \<open>The loop of \<open>iotx_mc_send_packet\<close>: the number of bytes sent when it ends.\<close>

partial_function (option) send_loop ::
    "mqtt_env \<Rightarrow> bytes \<Rightarrow> nat \<Rightarrow> u32 \<Rightarrow> nat \<Rightarrow> mqtt_client \<Rightarrow> (nat \<times> mqtt_client) option" where
  "send_loop env buf len timer sent c =
     (if \<not> sent < len then Some (sent, c)
      else case time_expired env timer c of (expired, c) \<Rightarrow>
        if expired then Some (sent, c)
        else case left_t env timer c of (l, c) \<Rightarrow>
          case net_write env (take (len - sent) (drop sent buf)) l c of (rc, c) \<Rightarrow>
            if rc < 0 then Some (sent, c)
            else send_loop env buf len timer (sent + nat rc) c)"

declare send_loop.simps [code]

definition iotx_mc_send_packet ::
    "mqtt_env \<Rightarrow> bytes \<Rightarrow> int \<Rightarrow> u32 \<Rightarrow> mqtt_client \<Rightarrow> (int \<times> mqtt_client) option" where
  "iotx_mc_send_packet env buf len timer c =
     (if int (length buf) < len then None
      else do { (sent, c) \<leftarrow> send_loop env buf (nat len) timer 0 c;
                Some (if int sent = len then SUCCESS_RETURN else MQTT_NETWORK_ERROR, c) })"

subsection \<open>Reading a packet\<close>

text \<open>The loop of \<open>iotx_mc_decode_packet\<close>: the return code and the value read so far.\<close>

fun mc_decode_loop ::
    "mqtt_env \<Rightarrow> u32 \<Rightarrow> nat \<Rightarrow> int \<Rightarrow> int \<Rightarrow> int \<Rightarrow> mqtt_client \<Rightarrow> int \<times> int \<times> mqtt_client" where
  "mc_decode_loop env timeout 0 len value multiplier c = (MQTTPACKET_READ_ERROR, value, c)"
| "mc_decode_loop env timeout (Suc k) len value multiplier c =
     (case net_read env 1 (if timeout = 0 then 1 else timeout) c of
        (None, c) \<Rightarrow> (MQTT_NETWORK_ERROR, value, c)
      | (Some [], c) \<Rightarrow> (FAIL_RETURN, value, c)
      | (Some (i # _), c) \<Rightarrow>
          let value = value + uint (i AND 127) * multiplier in
          if i AND 128 \<noteq> 0 then mc_decode_loop env timeout k (len + 1) value (multiplier * 128) c
          else (len + 1, value, c))"

definition iotx_mc_decode_packet :: "mqtt_env \<Rightarrow> u32 \<Rightarrow> mqtt_client \<Rightarrow> int \<times> int \<times> mqtt_client" where
  "iotx_mc_decode_packet env timeout c = mc_decode_loop env timeout 4 0 0 1 c"

text \<open>
  The packet does not fit: the buffer is filled, the rest of the packet is read into a second
  buffer and dropped. The packet type keeps the value it had before the call.
\<close>

definition read_overflow ::
    "mqtt_env \<Rightarrow> int \<Rightarrow> int \<Rightarrow> u32 \<Rightarrow> u32 \<Rightarrow> mqtt_client \<Rightarrow> (int \<times> u32 \<times> mqtt_client) option" where
  "read_overflow env len rem_len timer packet_type c =
     (let needReadLen = uint (buf_size_read c) - len;
          (l, c) = left_t env timer c in
      if needReadLen < 0 then None
      else
        do { (rc, c) \<leftarrow> read_into env (nat len) (nat needReadLen) l c;
             if rc < 0 then Some (MQTT_NETWORK_ERROR, packet_type, c)
             else if rc \<noteq> needReadLen then Some (FAIL_RETURN, packet_type, c)
             else
               let remainDataLen = rem_len - needReadLen;
                   (ok, c) = mqtt_malloc env c in
               if \<not> ok then Some (FAIL_RETURN, packet_type, c)
               else
                 let (l, c) = left_t env timer c in
                 case net_read env (nat remainDataLen) l c of
                     (None, c) \<Rightarrow> Some (MQTT_NETWORK_ERROR, packet_type, c)
                   | (Some bs, c) \<Rightarrow>
                       if int (length bs) \<noteq> remainDataLen then Some (FAIL_RETURN, packet_type, c)
                       else Some (SUCCESS_RETURN, packet_type,
                             snd (handle_event_msg (handle_event c) EVENT_BUFFER_OVERFLOW c)) })"

text \<open>The packet fits: its rest is read behind the fixed header and closed with a zero.\<close>

definition read_rest ::
    "mqtt_env \<Rightarrow> int \<Rightarrow> int \<Rightarrow> u32 \<Rightarrow> u32 \<Rightarrow> mqtt_client \<Rightarrow> (int \<times> u32 \<times> mqtt_client) option" where
  "read_rest env len rem_len timer packet_type c =
     (let (l, c) = left_t env timer c in
      do { (rc, c) \<leftarrow> read_into env (nat len) (nat rem_len) l c;
           if 0 < rem_len \<and> rc < 0 then Some (MQTT_NETWORK_ERROR, packet_type, c)
           else if 0 < rem_len \<and> rc \<noteq> rem_len then Some (FAIL_RETURN, packet_type, c)
           else
             do { b \<leftarrow> buf_read c;
                  h \<leftarrow> rd b 0;
                  let c = (if len + rem_len < uint (buf_size_read c)
                           then c\<lparr>buf_read := Some (b[nat (len + rem_len) := 0])\<rparr> else c);
                  Some (SUCCESS_RETURN, ucast (MQTT_HEADER_GET_TYPE h), c) } })"

definition iotx_mc_read_packet ::
    "mqtt_env \<Rightarrow> u32 \<Rightarrow> u32 \<Rightarrow> mqtt_client \<Rightarrow> (int \<times> u32 \<times> mqtt_client) option" where
  "iotx_mc_read_packet env timer packet_type c =
     (let (rc, c) = alloc_recv_buffer env 0 c in
      if rc < 0 then Some (FAIL_RETURN, packet_type, c)
      else
        let (l, c) = left_t env timer c in
        do { (rc, c) \<leftarrow> read_into env 0 1 l c;
             if rc = 0 then Some (SUCCESS_RETURN, 0, c)
             else if rc \<noteq> 1 then Some (MQTT_NETWORK_ERROR, packet_type, c)
             else
               let (l, c) = left_t env timer c;
                   (rc, rem_len, c) = iotx_mc_decode_packet env l c in
               if rc < 0 then Some (rc, packet_type, c)
               else
                 do { b \<leftarrow> buf_read c;
                      let enc = MQTTPacket_encode rem_len;
                      (b, pos) \<leftarrow> wr enc (b, 1);
                      let len = 1 + int (length enc);
                      let (rc, c) = alloc_recv_buffer env (rem_len + len) (c\<lparr>buf_read := Some b\<rparr>);
                      if rc < 0 then Some (FAIL_RETURN, packet_type, c)
                      else if 0 < rem_len \<and> uint (buf_size_read c) < rem_len + len
                      then read_overflow env len rem_len timer packet_type c
                      else read_rest env len rem_len timer packet_type c } })"

end
