(* ===== verification/MqttClientRecv.thy ===== *)
theory MqttClientRecv
  imports MqttClient
begin

text \<open>
  The MQTT client (linkkit/mqtt/iotx_mqtt_client.c): handling received packets, the list of
  publications that wait for their acknowledgement, and one cycle of the client.
\<close>

subsection \<open>Publications waiting for an acknowledgement\<close>

text \<open>The result also says whether a node was appended (\<open>*node\<close> was set).\<close>

definition iotx_mc_push_pubInfo_to :: "mqtt_env \<Rightarrow> int \<Rightarrow> u16 \<Rightarrow> mqtt_client \<Rightarrow> (int \<times> mqtt_client) option" where
  "iotx_mc_push_pubInfo_to env len msgId c =
     (if len < 0 \<or> uint (buf_size_send c) < len then Some (FAIL_RETURN, c)
      else if IOTX_MC_REPUB_NUM_MAX \<le> length (list_pub_wait_ack c) then Some (FAIL_RETURN, c)
      else
        let (ok, c) = mqtt_malloc env c in
        if \<not> ok then Some (FAIL_RETURN, c)
        else
          let (now, c) = uptime env c in
          do { b \<leftarrow> buf_send c;
               if int (length b) < len then None
               else Some (SUCCESS_RETURN, c\<lparr>list_pub_wait_ack := list_pub_wait_ack c @
                 [\<lparr>pub_start_time = iotx_time_start now, node_state = IOTX_MC_NODE_STATE_NORMANL,
                   msg_id = msgId, pub_buf = take (nat len) b\<rparr>]\<rparr>) })"

definition iotx_mc_mask_pubInfo_from :: "u16 \<Rightarrow> mqtt_client \<Rightarrow> mqtt_client" where
  "iotx_mc_mask_pubInfo_from msgId c =
     c\<lparr>list_pub_wait_ack := map (\<lambda>node. if msg_id node = msgId
          then node\<lparr>node_state := IOTX_MC_NODE_STATE_INVALID\<rparr> else node) (list_pub_wait_ack c)\<rparr>"

definition MQTTRePublish :: "mqtt_env \<Rightarrow> bytes \<Rightarrow> mqtt_client \<Rightarrow> (int \<times> mqtt_client) option" where
  "MQTTRePublish env buf c =
     (let (timer, c) = countdown_ms env (request_timeout_ms c) c in
      do { (rc, c) \<leftarrow> iotx_mc_send_packet env buf (int (length buf)) timer c;
           Some (if rc \<noteq> SUCCESS_RETURN then MQTT_NETWORK_ERROR else SUCCESS_RETURN, c) })"

text \<open>The walk over the list in \<open>MQTTPubInfoProc\<close>; it gives the nodes that stay.\<close>

fun pub_info_loop ::
    "mqtt_env \<Rightarrow> pub_info list \<Rightarrow> mqtt_client \<Rightarrow> (pub_info list \<times> mqtt_client) option" where
  "pub_info_loop env [] c = Some ([], c)"
| "pub_info_loop env (node # nodes) c =
     (if node_state node = IOTX_MC_NODE_STATE_INVALID then pub_info_loop env nodes c
      else if client_state c \<noteq> IOTX_MC_STATE_CONNECTED
      then do { (kept, c) \<leftarrow> pub_info_loop env nodes c; Some (node # kept, c) }
      else
        let (now, c) = uptime env c in
        if utils_time_spend now (pub_start_time node) \<le> request_timeout_ms c * 2
        then do { (kept, c) \<leftarrow> pub_info_loop env nodes c; Some (node # kept, c) }
        else
          do { (rc, c) \<leftarrow> MQTTRePublish env (pub_buf node) c;
               let (now, c) = uptime env c;
               let node = node\<lparr>pub_start_time := iotx_time_start now\<rparr>;
               if rc = MQTT_NETWORK_ERROR
               then Some (node # nodes, iotx_mc_set_client_state IOTX_MC_STATE_DISCONNECTED c)
               else do { (kept, c) \<leftarrow> pub_info_loop env nodes c; Some (node # kept, c) } })"

definition MQTTPubInfoProc :: "mqtt_env \<Rightarrow> mqtt_client \<Rightarrow> (int \<times> mqtt_client) option" where
  "MQTTPubInfoProc env c =
     do { (nodes, c) \<leftarrow> pub_info_loop env (list_pub_wait_ack c) c;
          Some (SUCCESS_RETURN, c\<lparr>list_pub_wait_ack := nodes\<rparr>) }"

subsection \<open>Acknowledgements\<close>

definition iotx_mc_handle_recv_CONNACK :: "mqtt_client \<Rightarrow> int option" where
  "iotx_mc_handle_recv_CONNACK c =
     do { b \<leftarrow> buf_read c;
          (rc, res) \<leftarrow> MQTTDeserialize_connack b;
          if rc \<noteq> 1 then Some MQTT_CONNECT_ACK_PACKET_ERROR
          else
            let connack_rc = (case res of None \<Rightarrow> 255 | Some (sessionPresent, k) \<Rightarrow> k) in
            Some (if connack_rc = 0 then SUCCESS_RETURN
                  else if connack_rc = 1 then MQTT_CONANCK_UNACCEPTABLE_PROTOCOL_VERSION_ERROR
                  else if connack_rc = 2 then MQTT_CONNACK_IDENTIFIER_REJECTED_ERROR
                  else if connack_rc = 3 then MQTT_CONNACK_SERVER_UNAVAILABLE_ERROR
                  else if connack_rc = 4 then MQTT_CONNACK_BAD_USERDATA_ERROR
                  else if connack_rc = 5 then MQTT_CONNACK_NOT_AUTHORIZED_ERROR
                  else MQTT_CONNACK_UNKNOWN_ERROR) }"

text \<open>A packet identifier a deserialiser has not set is what its variable happened to hold.\<close>

definition packetid_out :: "mqtt_env \<Rightarrow> mqtt_client \<Rightarrow> int option \<Rightarrow> u16" where
  "packetid_out env c i = (case i of Some i \<Rightarrow> word_of_int i | None \<Rightarrow> ucast (env_garbage env (mc_tick c)))"

definition iotx_mc_handle_recv_PUBACK :: "mqtt_env \<Rightarrow> mqtt_client \<Rightarrow> (int \<times> mqtt_client) option" where
  "iotx_mc_handle_recv_PUBACK env c =
     do { b \<leftarrow> buf_read c;
          (rc, type, dup, i) \<leftarrow> MQTTDeserialize_ack b;
          if rc \<noteq> 1 then Some (MQTT_PUBLISH_ACK_PACKET_ERROR, c)
          else
            let mypacketid = packetid_out env c i;
                c = iotx_mc_mask_pubInfo_from mypacketid c in
            Some (SUCCESS_RETURN, snd (handle_event_msg (handle_event c) (EVENT_PUBLISH_SUCCESS mypacketid) c)) }"

text \<open>\<open>_iotx_mqtt_event_handle_sub\<close>: the outcome is noted for a waiting subscription.\<close>

definition iotx_mqtt_event_handle_sub :: "u16 \<Rightarrow> mqtt_event \<Rightarrow> mqtt_client \<Rightarrow> mqtt_client" where
  "iotx_mqtt_event_handle_sub i msg c =
     c\<lparr>list_sub_sync_ack := map (\<lambda>node. if sn_packet_id node = uint i
          then node\<lparr>sn_ack_type := event_type msg\<rparr> else node) (list_sub_sync_ack c)\<rparr>"

text \<open>The loop over the return codes; every code sets the flag anew.\<close>

definition suback_fail_flag :: "int list \<Rightarrow> int" where
  "suback_fail_flag grantedQoS = foldl (\<lambda>fail_flag q. if (word_of_int q :: u8) = 0x80 then 1 else 0) (-1) grantedQoS"

definition iotx_mc_handle_recv_SUBACK :: "mqtt_env \<Rightarrow> mqtt_client \<Rightarrow> (int \<times> mqtt_client) option" where
  "iotx_mc_handle_recv_SUBACK env c =
     do { b \<leftarrow> buf_read c;
          (rc, res) \<leftarrow> MQTTDeserialize_suback MUTLI_SUBSCIRBE_MAX b;
          if rc < 0 then Some (MQTT_SUBSCRIBE_ACK_PACKET_ERROR, c)
          else
            let mypacketid = packetid_out env c (map_option fst res);
                grantedQoS = (case res of None \<Rightarrow> [] | Some (i, qs) \<Rightarrow> qs);
                msg = (if suback_fail_flag grantedQoS = 1 then EVENT_SUBCRIBE_NACK mypacketid
                       else EVENT_SUBCRIBE_SUCCESS mypacketid);
                c = iotx_mqtt_event_handle_sub mypacketid msg c in
            Some (SUCCESS_RETURN, snd (handle_event_msg (handle_event c) msg c)) }"

definition iotx_mc_handle_recv_UNSUBACK :: "mqtt_env \<Rightarrow> mqtt_client \<Rightarrow> (int \<times> mqtt_client) option" where
  "iotx_mc_handle_recv_UNSUBACK env c =
     do { b \<leftarrow> buf_read c;
          (rc, i) \<leftarrow> MQTTDeserialize_unsuback b;
          if rc \<noteq> 1 then Some (MQTT_UNSUBSCRIBE_ACK_PACKET_ERROR, c)
          else
            let mypacketid = (case i of Some i \<Rightarrow> word_of_int i | None \<Rightarrow> 0) in
            Some (SUCCESS_RETURN, snd (handle_event_msg (handle_event c) (EVENT_UNSUBCRIBE_SUCCESS mypacketid) c)) }"

subsection \<open>Delivering a message\<close>

text \<open>The characters of a received topic; following a null pointer is an access outside a buffer.\<close>

definition topic_chars :: "MQTTString \<Rightarrow> string option" where
  "topic_chars t =
     (case lenstring_data t of
        None \<Rightarrow> if 0 < lenstring_len t then None else Some []
      | Some d \<Rightarrow> if int (length d) < lenstring_len t then None
                  else Some (bytes_str (take (nat (lenstring_len t)) d)))"

text \<open>The test for one subscription: the same text, or the filter matches.\<close>

definition topic_hit :: "MQTTString \<Rightarrow> string \<Rightarrow> bool option" where
  "topic_hit topicName topicFilter =
     do { same \<leftarrow> MQTTPacket_equals topicName (str_bytes topicFilter);
          if same then Some True
          else do { name \<leftarrow> topic_chars topicName; Some (iotx_mc_is_topic_matched topicFilter name) } }"

fun deliver_loop ::
    "MQTTString \<Rightarrow> topic_info \<Rightarrow> topic_handle list \<Rightarrow> bool \<Rightarrow> mqtt_client \<Rightarrow> (bool \<times> mqtt_client) option" where
  "deliver_loop topicName topic_msg [] flag_matched c = Some (flag_matched, c)"
| "deliver_loop topicName topic_msg (node # nodes) flag_matched c =
     do { hit \<leftarrow> topic_hit topicName (topic_filter node);
          if hit \<and> h_fp (handle node) \<noteq> None
          then deliver_loop topicName topic_msg nodes True
                 (snd (handle_event_msg (handle node) (EVENT_PUBLISH_RECEIVED topic_msg) c))
          else deliver_loop topicName topic_msg nodes flag_matched c }"

definition iotx_mc_deliver_message ::
    "MQTTString \<Rightarrow> topic_info \<Rightarrow> mqtt_client \<Rightarrow> mqtt_client option" where
  "iotx_mc_deliver_message topicName topic_msg c =
     (let topic_msg = topic_msg\<lparr>ti_topic := lenstring_data topicName,
            ti_topic_len := word_of_int (lenstring_len topicName)\<rparr> in
      do { (flag_matched, c) \<leftarrow> deliver_loop topicName topic_msg (list_sub_handle c) False c;
           Some (if flag_matched then c
                 else snd (handle_event_msg (handle_event c) (EVENT_PUBLISH_RECEIVED topic_msg) c)) })"

text \<open>Only the acknowledgement of QoS 1 is compiled in.\<close>

definition MQTTPuback :: "mqtt_env \<Rightarrow> u16 \<Rightarrow> msgTypes \<Rightarrow> mqtt_client \<Rightarrow> (int \<times> mqtt_client) option" where
  "MQTTPuback env msgId type c =
     (let (timer, c) = countdown_ms env (request_timeout_ms c) c in
      if type \<noteq> PUBACK then Some (MQTT_PUBLISH_ACK_TYPE_ERROR, c)
      else
        let (rc, c) = alloc_send_buffer env 0 c in
        if rc < 0 then Some (FAIL_RETURN, c)
        else
          do { b \<leftarrow> buf_send c;
               (len, b) \<leftarrow> MQTTSerialize_ack b (uint (buf_size_send c)) (cpt PUBACK) 0 msgId;
               let c = c\<lparr>buf_send := Some b\<rparr>;
               if len \<le> 0 then Some (MQTT_PUBLISH_ACK_PACKET_ERROR, reset_send_buffer c)
               else
                 do { (rc, c) \<leftarrow> iotx_mc_send_packet env b len timer c;
                      Some (if rc \<noteq> SUCCESS_RETURN then MQTT_NETWORK_ERROR else SUCCESS_RETURN,
                            reset_send_buffer c) } })"

definition deliver_and_ack :: "mqtt_env \<Rightarrow> MQTTString \<Rightarrow> topic_info \<Rightarrow> mqtt_client \<Rightarrow> (int \<times> mqtt_client) option" where
  "deliver_and_ack env topicName topic_msg c =
     do { c \<leftarrow> iotx_mc_deliver_message topicName topic_msg c;
          if ti_qos topic_msg = 0 then Some (SUCCESS_RETURN, c)
          else if ti_qos topic_msg = 1 then MQTTPuback env (ti_packet_id topic_msg) PUBACK c
          else if ti_qos topic_msg = 2 then MQTTPuback env (ti_packet_id topic_msg) PUBREC c
          else Some (MQTT_PUBLISH_QOS_ERROR, c) }"

text \<open>
  A topic that overruns a short packet leaves \<open>MQTTDeserialize_publish\<close> with the return code 1:
  the message is then taken as received, with the flags of the header, the length read for the
  topic, and null pointers for topic and payload.
\<close>

definition publish_malformed :: "bytes \<Rightarrow> (MQTTString \<times> topic_info) option" where
  "publish_malformed b =
     do { h \<leftarrow> readChar b 0;
          (n, mylen) \<leftarrow> MQTTPacket_decodeBuf b 1;
          (ok, tlen, tpos, cur) \<leftarrow> readMQTTLenString b (1 + n) (1 + int n + mylen);
          Some (\<lparr>cstring = None, lenstring_len = tlen, lenstring_data = None\<rparr>,
            \<lparr>ti_packet_id = 0, ti_qos = MQTT_HEADER_GET_QOS h, ti_dup = MQTT_HEADER_GET_DUP h,
             ti_retain = MQTT_HEADER_GET_RETAIN h, ti_topic_len = 0, ti_topic = None,
             ti_payload_len = 0, ti_payload = None\<rparr>) }"

definition iotx_mc_handle_recv_PUBLISH :: "mqtt_env \<Rightarrow> mqtt_client \<Rightarrow> (int \<times> mqtt_client) option" where
  "iotx_mc_handle_recv_PUBLISH env c =
     do { b \<leftarrow> buf_read c;
          (rc, res) \<leftarrow> MQTTDeserialize_publish b;
          if rc \<noteq> 1 then Some (MQTT_PUBLISH_PACKET_ERROR, c)
          else
            do { (topicName, topic_msg) \<leftarrow>
                   (case res of
                      None \<Rightarrow> publish_malformed b
                    | Some d \<Rightarrow>
                        Some (\<lparr>cstring = None, lenstring_len = pd_topic_len d,
                               lenstring_data = Some (drop (pd_topic d) b)\<rparr>,
                          \<lparr>ti_packet_id = (case pd_packetid d of Some i \<Rightarrow> word_of_int i | None \<Rightarrow> 0),
                           ti_qos = pd_qos d, ti_dup = pd_dup d, ti_retain = pd_retained d,
                           ti_topic_len = 0, ti_topic = None,
                           ti_payload_len = word_of_int (pd_payloadlen d),
                           ti_payload = Some (drop (pd_payload d) b)\<rparr>));
                 deliver_and_ack env topicName topic_msg c } }"

subsection \<open>A cycle\<close>

definition packet_type_is :: "u32 \<Rightarrow> msgTypes \<Rightarrow> bool" where
  "packet_type_is packet_type m \<longleftrightarrow> packet_type = ucast (cpt m)"

definition dispatch_packet :: "mqtt_env \<Rightarrow> u32 \<Rightarrow> mqtt_client \<Rightarrow> (int \<times> mqtt_client) option" where
  "dispatch_packet env packetType c =
     (if packet_type_is packetType CONNACK then Some (SUCCESS_RETURN, c)
      else if packet_type_is packetType PUBACK then iotx_mc_handle_recv_PUBACK env c
      else if packet_type_is packetType SUBACK then iotx_mc_handle_recv_SUBACK env c
      else if packet_type_is packetType PUBLISH then iotx_mc_handle_recv_PUBLISH env c
      else if packet_type_is packetType UNSUBACK then iotx_mc_handle_recv_UNSUBACK env c
      else if packet_type_is packetType PINGRESP then Some (SUCCESS_RETURN, c)
      else Some (FAIL_RETURN, c))"

definition iotx_mc_cycle :: "mqtt_env \<Rightarrow> u32 \<Rightarrow> mqtt_client \<Rightarrow> (int \<times> mqtt_client) option" where
  "iotx_mc_cycle env timer c =
     (if client_state c \<noteq> IOTX_MC_STATE_CONNECTED then Some (MQTT_STATE_ERROR, c)
      else
        let c = (if IOTX_MC_KEEPALIVE_PROBE_MAX < keepalive_probes c
                 then (iotx_mc_set_client_state IOTX_MC_STATE_DISCONNECTED c)\<lparr>keepalive_probes := 0\<rparr> else c) in
        do { (rc, packetType, c) \<leftarrow> iotx_mc_read_packet env timer (env_garbage env (mc_tick c)) c;
             if rc \<noteq> SUCCESS_RETURN
             then
               let c = reset_recv_buffer c in
               Some (MQTT_NETWORK_ERROR,
                 if rc = MQTT_NETWORK_ERROR then iotx_mc_set_client_state IOTX_MC_STATE_DISCONNECTED c else c)
             else if packet_type_is packetType MQTT_CPT_RESERVED then Some (SUCCESS_RETURN, reset_recv_buffer c)
             else
               do { (rc, c) \<leftarrow> dispatch_packet env packetType (c\<lparr>keepalive_probes := 0\<rparr>);
                    Some (rc, reset_recv_buffer c) } })"

text \<open>\<open>_mqtt_cycle\<close>: cycles until the timer of the call has expired.\<close>

partial_function (option) mqtt_cycle_loop :: "mqtt_env \<Rightarrow> u32 \<Rightarrow> mqtt_client \<Rightarrow> mqtt_client option" where
  "mqtt_cycle_loop env timer c =
     do { (rc, c) \<leftarrow> iotx_mc_cycle env timer c;
          c \<leftarrow> (if rc = SUCCESS_RETURN then map_option snd (MQTTPubInfoProc env c) else Some c);
          case time_left env timer c of (l, c) \<Rightarrow>
            let c = emit (OutSleep (if l < 10 then unat l else 10)) c in
            case time_expired env timer c of (expired, c) \<Rightarrow>
              if expired then Some c else mqtt_cycle_loop env timer c }"

declare mqtt_cycle_loop.simps [code]

definition mqtt_cycle :: "mqtt_env \<Rightarrow> mqtt_client \<Rightarrow> mqtt_client option" where
  "mqtt_cycle env c =
     (let (timer, c) = countdown_ms env (cycle_timeout_ms c) c in mqtt_cycle_loop env timer c)"

end
