(* ===== verification/MqttClientApi.thy ===== *)
theory MqttClientApi
  imports MqttClientRecv
begin

text \<open>
  The MQTT client (linkkit/mqtt/iotx_mqtt_client.c): connecting and reconnecting, the keep-alive,
  and the operations of the interface (\<open>wrapper_mqtt_*\<close>) on a client that is not null.
\<close>

subsection \<open>Initialisation\<close>

record mqtt_param =
  mp_host :: "bytes option"
  mp_client_id :: "bytes option"
  mp_username :: "bytes option"
  mp_password :: "bytes option"
  mp_clean_session :: u8
  mp_request_timeout_ms :: u32
  mp_keepalive_interval_ms :: u32
  mp_write_buf_size :: u32
  mp_read_buf_size :: u32
  mp_handle_event :: event_handle

definition CONFIG_MQTT_KEEPALIVE_INTERVAL :: u16 where "CONFIG_MQTT_KEEPALIVE_INTERVAL = 60"
definition CONFIG_MQTT_REQUEST_TIMEOUT :: u32 where "CONFIG_MQTT_REQUEST_TIMEOUT = 2000"
definition CONFIG_MQTT_REQ_TIMEOUT_MIN :: u32 where "CONFIG_MQTT_REQ_TIMEOUT_MIN = 500"
definition CONFIG_MQTT_REQ_TIMEOUT_MAX :: u32 where "CONFIG_MQTT_REQ_TIMEOUT_MAX = 5000"
definition CONFIG_MQTT_KEEPALIVE_INTERVAL_MIN :: u16 where "CONFIG_MQTT_KEEPALIVE_INTERVAL_MIN = 30"
definition CONFIG_MQTT_KEEPALIVE_INTERVAL_MAX :: u16 where "CONFIG_MQTT_KEEPALIVE_INTERVAL_MAX = 180"

definition empty_MQTTString :: MQTTString where
  "empty_MQTTString = \<lparr>cstring = None, lenstring_len = 0, lenstring_data = None\<rparr>"

definition connectData_initializer :: MQTTPacket_connectData where
  "connectData_initializer =
     \<lparr>MQTTVersion = 4, clientID = empty_MQTTString,
      keepAliveInterval = CONFIG_MQTT_KEEPALIVE_INTERVAL_MIN, cleansession = 1, willFlag = 0,
      will = \<lparr>will_topicName = empty_MQTTString, will_message = empty_MQTTString,
              will_retained = 0, will_qos = 0\<rparr>,
      username = empty_MQTTString, password = empty_MQTTString\<rparr>"

definition iotx_mc_set_connect_params :: "MQTTPacket_connectData \<Rightarrow> mqtt_client \<Rightarrow> mqtt_client" where
  "iotx_mc_set_connect_params p c =
     c\<lparr>connect_data := p\<lparr>keepAliveInterval :=
         (if keepAliveInterval p < CONFIG_MQTT_KEEPALIVE_INTERVAL_MIN then CONFIG_MQTT_KEEPALIVE_INTERVAL
          else if CONFIG_MQTT_KEEPALIVE_INTERVAL_MAX < keepAliveInterval p then CONFIG_MQTT_KEEPALIVE_INTERVAL
          else keepAliveInterval p)\<rparr>\<rparr>"

text \<open>Creating the mutexes in turn; the first failure stops.\<close>

fun create_locks :: "mqtt_env \<Rightarrow> mc_lock list \<Rightarrow> mqtt_client \<Rightarrow> bool \<times> mqtt_client" where
  "create_locks env [] c = (True, c)"
| "create_locks env (l # ls) c =
     (if env_mutex env (mc_tick c)
      then create_locks env ls (c\<lparr>mc_locks := mc_locks c @ [l], mc_tick := Suc (mc_tick c)\<rparr>)
      else (False, c\<lparr>mc_tick := Suc (mc_tick c)\<rparr>))"

text \<open>The end of \<open>iotx_mc_init\<close> after a failure: all mutexes but the generic one are destroyed.\<close>

definition init_failed :: "mqtt_client \<Rightarrow> mqtt_client" where
  "init_failed c =
     (iotx_mc_set_client_state IOTX_MC_STATE_INVALID c)
       \<lparr>buf_send := None, buf_read := None, mc_locks := filter (\<lambda>l. l = LockGeneric) (mc_locks c)\<rparr>"

definition iotx_mc_init :: "mqtt_env \<Rightarrow> mqtt_param \<Rightarrow> mqtt_client \<Rightarrow> int \<times> mqtt_client" where
  "iotx_mc_init env p c =
     (if mp_write_buf_size p = 0 \<or> mp_read_buf_size p = 0 then (MC_NULL_VALUE_ERROR, c)
      else
        let (ok, c) = create_locks env [LockGeneric] c in
        if \<not> ok then (FAIL_RETURN, c)
        else
          let (ok, c) = create_locks env [LockListPub, LockYield, LockWriteBuf, LockReadBuf] c in
          if \<not> ok then (FAIL_RETURN, init_failed c)
          else
            let str = (\<lambda>s. \<lparr>cstring = s, lenstring_len = 0, lenstring_data = None\<rparr>);
                connectdata = connectData_initializer\<lparr>MQTTVersion := 4,
                  keepAliveInterval := ucast (mp_keepalive_interval_ms p div 1000),
                  clientID := str (mp_client_id p), username := str (mp_username p),
                  password := str (mp_password p), cleansession := mp_clean_session p\<rparr>;
                c = c\<lparr>request_timeout_ms :=
                    (if mp_request_timeout_ms p < CONFIG_MQTT_REQ_TIMEOUT_MIN
                        \<or> CONFIG_MQTT_REQ_TIMEOUT_MAX < mp_request_timeout_ms p
                     then CONFIG_MQTT_REQUEST_TIMEOUT else mp_request_timeout_ms p),
                  buf_size_send_max := mp_write_buf_size p, buf_size_read_max := mp_read_buf_size p,
                  keepalive_probes := 0, handle_event := mp_handle_event p,
                  reconnect_time_interval_ms := IOTX_MC_RECONNECT_INTERVAL_MIN_MS,
                  list_pub_wait_ack := [], list_sub_handle := [], list_sub_sync_ack := []\<rparr>;
                c = iotx_mc_set_connect_params connectdata c;
                c = c\<lparr>next_ping_time := iotx_time_init, reconnect_next_time := iotx_time_init\<rparr> in
            if mp_host p = None then (-1, init_failed c)
            else (SUCCESS_RETURN, iotx_mc_set_client_state IOTX_MC_STATE_INITIALIZED c))"

text \<open>The zeroed structure, and the handle \<open>wrapper_mqtt_init\<close> returns at a point of time.\<close>

definition zero_client :: "nat \<Rightarrow> mqtt_client" where
  "zero_client t =
     \<lparr>mc_locks = [], packet_id = 0, request_timeout_ms = 0, cycle_timeout_ms = 0, buf_size_send = 0,
      buf_size_send_max = 0, buf_size_read_max = 0, buf_size_read = 0, keepalive_probes = 0,
      buf_send = None, buf_read = None, list_sub_handle = [], next_ping_time = 0,
      client_state = IOTX_MC_STATE_INVALID, reconnect_next_time = 0, reconnect_time_interval_ms = 0,
      connect_data = connectData_initializer\<lparr>MQTTVersion := 0, keepAliveInterval := 0, cleansession := 0\<rparr>,
      list_pub_wait_ack = [], list_sub_sync_ack = [], handle_event = \<lparr>h_fp = None, pcontext = 0\<rparr>,
      mc_in_yield_cb = False, mc_tick = t, mc_trace = []\<rparr>"

definition wrapper_mqtt_init :: "mqtt_env \<Rightarrow> mqtt_param \<Rightarrow> nat \<Rightarrow> mqtt_client option" where
  "wrapper_mqtt_init env p t =
     (if \<not> env_malloc env t then None
      else let (err, c) = iotx_mc_init env p (zero_client (Suc t)) in
           if err \<noteq> SUCCESS_RETURN then None else Some c)"

subsection \<open>Connecting\<close>

definition MQTTConnect :: "mqtt_env \<Rightarrow> mqtt_client \<Rightarrow> (int \<times> mqtt_client) option" where
  "MQTTConnect env c =
     (let len = MQTTPacket_len (MQTTSerialize_connectLength (connect_data c));
          (rc, c) = alloc_send_buffer env len c in
      if rc \<noteq> SUCCESS_RETURN then Some (FAIL_RETURN, c)
      else
        do { b \<leftarrow> buf_send c;
             (len, b) \<leftarrow> MQTTSerialize_connect b (uint (buf_size_send c)) (connect_data c);
             let c = c\<lparr>buf_send := Some b\<rparr>;
             if len \<le> 0 then Some (MQTT_CONNECT_PACKET_ERROR, reset_send_buffer c)
             else
               let (timer, c) = countdown_ms env (request_timeout_ms c) c in
               do { (rc, c) \<leftarrow> iotx_mc_send_packet env b len timer c;
                    Some (if rc \<noteq> SUCCESS_RETURN then MQTT_NETWORK_ERROR else SUCCESS_RETURN,
                          reset_send_buffer c) } })"

text \<open>The loop of \<open>iotx_mc_wait_CONNACK\<close>; \<open>k\<close> of the ten packets may still be read.\<close>

fun wait_connack_loop :: "mqtt_env \<Rightarrow> u32 \<Rightarrow> nat \<Rightarrow> u32 \<Rightarrow> mqtt_client \<Rightarrow> (int \<times> mqtt_client) option" where
  "wait_connack_loop env timer 0 packetType c =
     do { (rc, packetType, c) \<leftarrow> iotx_mc_read_packet env timer packetType c;
          Some (if rc \<noteq> SUCCESS_RETURN then rc else MQTT_NETWORK_ERROR, c) }"
| "wait_connack_loop env timer (Suc k) packetType c =
     do { (rc, packetType, c) \<leftarrow> iotx_mc_read_packet env timer packetType c;
          if rc \<noteq> SUCCESS_RETURN then Some (rc, c)
          else if \<not> packet_type_is packetType CONNACK then wait_connack_loop env timer k packetType c
          else do { rc \<leftarrow> iotx_mc_handle_recv_CONNACK c; Some (rc, c) } }"

definition iotx_mc_wait_CONNACK :: "mqtt_env \<Rightarrow> mqtt_client \<Rightarrow> (int \<times> mqtt_client) option" where
  "iotx_mc_wait_CONNACK env c =
     (let (timer, c) = countdown_ms env (request_timeout_ms c) c in
      do { (rc, c) \<leftarrow> wait_connack_loop env timer 10 0 c; Some (rc, reset_recv_buffer c) })"

text \<open>The loop of \<open>_mqtt_connect\<close>; \<open>k\<close> of the eight attempts are left.\<close>

fun connect_loop :: "mqtt_env \<Rightarrow> nat \<Rightarrow> mqtt_client \<Rightarrow> (int \<times> mqtt_client) option" where
  "connect_loop env 0 c = Some (MQTT_CONNECT_ERROR, c)"
| "connect_loop env (Suc k) c =
     do { (rc, c) \<leftarrow> MQTTConnect env c;
          if rc \<noteq> SUCCESS_RETURN then Some (rc, emit OutDisconnect c)
          else
            do { (rc, c) \<leftarrow> iotx_mc_wait_CONNACK env c;
                 if rc \<le> MQTT_CONNACK_NOT_AUTHORIZED_ERROR \<and> MQTT_CONANCK_UNACCEPTABLE_PROTOCOL_VERSION_ERROR \<le> rc
                 then Some (MQTT_CONNECT_ERROR, emit OutDisconnect c)
                 else if rc \<noteq> SUCCESS_RETURN
                 then connect_loop env k (snd (net_connect env (emit OutDisconnect (emit (OutSleep 2000) c))))
                 else Some (SUCCESS_RETURN, c) } }"

definition keepalive_ms :: "mqtt_client \<Rightarrow> u32" where
  "keepalive_ms c = ucast (keepAliveInterval (connect_data c)) * 1000"

definition mqtt_connect :: "mqtt_env \<Rightarrow> mqtt_client \<Rightarrow> (int \<times> mqtt_client) option" where
  "mqtt_connect env c =
     do { (rc, c) \<leftarrow> connect_loop env 8 c;
          if rc \<noteq> SUCCESS_RETURN then Some (rc, c)
          else
            let c = iotx_mc_set_client_state IOTX_MC_STATE_CONNECTED (c\<lparr>keepalive_probes := 0\<rparr>);
                (t, c) = countdown_ms env (keepalive_ms c) c in
            Some (SUCCESS_RETURN, c\<lparr>next_ping_time := t\<rparr>) }"

text \<open>The loop of \<open>wrapper_mqtt_connect\<close>; its return code is overwritten by the next call.\<close>

fun tcp_connect_loop :: "mqtt_env \<Rightarrow> nat \<Rightarrow> mqtt_client \<Rightarrow> mqtt_client" where
  "tcp_connect_loop env 0 c = c"
| "tcp_connect_loop env (Suc k) c =
     (let (rc, c) = net_connect env c in
      if rc \<noteq> SUCCESS_RETURN then tcp_connect_loop env k (emit (OutSleep 1000) (emit OutDisconnect c)) else c)"

definition wrapper_mqtt_connect :: "mqtt_env \<Rightarrow> mqtt_client \<Rightarrow> (int \<times> mqtt_client) option" where
  "wrapper_mqtt_connect env c = mqtt_connect env (tcp_connect_loop env 3 c)"


subsection \<open>Keep-alive and reconnection\<close>

text \<open>A request without a body: the ping (with its own timeout) and the disconnect.\<close>

definition MQTTKeepalive :: "mqtt_env \<Rightarrow> mqtt_client \<Rightarrow> (int \<times> mqtt_client) option" where
  "MQTTKeepalive env c =
     (let (timer, c) = countdown_ms env 1000 c;
          (rc, c) = alloc_send_buffer env 0 c in
      if rc < 0 then Some (FAIL_RETURN, c)
      else
        do { b \<leftarrow> buf_send c;
             (len, b) \<leftarrow> MQTTSerialize_pingreq b (uint (buf_size_send c));
             let c = c\<lparr>buf_send := Some b\<rparr>;
             if len \<le> 0 then Some (MQTT_PING_PACKET_ERROR, reset_send_buffer c)
             else
               do { (rc, c) \<leftarrow> iotx_mc_send_packet env b len timer c;
                    Some (if rc \<noteq> SUCCESS_RETURN then MQTT_NETWORK_ERROR else SUCCESS_RETURN,
                          reset_send_buffer c) } })"

definition iotx_mc_keepalive_sub :: "mqtt_env \<Rightarrow> mqtt_client \<Rightarrow> (int \<times> mqtt_client) option" where
  "iotx_mc_keepalive_sub env c =
     (if \<not> wrapper_mqtt_check_state c then Some (SUCCESS_RETURN, c)
      else
        let (expired, c) = time_expired env (next_ping_time c) c in
        if \<not> expired then Some (SUCCESS_RETURN, c)
        else
          let (t, c) = countdown_ms env (keepalive_ms c) c;
              c = c\<lparr>next_ping_time := t\<rparr> in
          do { (rc, c) \<leftarrow> MQTTKeepalive env c;
               if rc \<noteq> SUCCESS_RETURN
               then Some (rc, if rc = MQTT_NETWORK_ERROR
                              then iotx_mc_set_client_state IOTX_MC_STATE_DISCONNECTED c else c)
               else Some (SUCCESS_RETURN, c\<lparr>keepalive_probes := keepalive_probes c + 1\<rparr>) })"

definition iotx_mc_attempt_reconnect :: "mqtt_env \<Rightarrow> mqtt_client \<Rightarrow> (int \<times> mqtt_client) option" where
  "iotx_mc_attempt_reconnect env c = wrapper_mqtt_connect env (emit OutDisconnect c)"

text \<open>The waiting time after a failed attempt: doubled up to its bound.\<close>

definition reconnect_backoff :: "u32 \<Rightarrow> u32" where
  "reconnect_backoff interval =
     (if interval < IOTX_MC_RECONNECT_INTERVAL_MAX_MS then interval * 2 else IOTX_MC_RECONNECT_INTERVAL_MAX_MS)"

definition iotx_mc_handle_reconnect :: "mqtt_env \<Rightarrow> mqtt_client \<Rightarrow> (int \<times> mqtt_client) option" where
  "iotx_mc_handle_reconnect env c =
     (let (expired, c) = time_expired env (reconnect_next_time c) c in
      if \<not> expired then Some (FAIL_RETURN, emit (OutSleep 100) c)
      else
        do { (rc, c) \<leftarrow> iotx_mc_attempt_reconnect env c;
             if rc = SUCCESS_RETURN
             then Some (SUCCESS_RETURN, iotx_mc_set_client_state IOTX_MC_STATE_CONNECTED c)
             else if rc = MQTT_CONNECT_BLOCK then Some (rc, c)
             else
               let c = c\<lparr>reconnect_time_interval_ms := reconnect_backoff (reconnect_time_interval_ms c)\<rparr>;
                   interval_ms = (if IOTX_MC_RECONNECT_INTERVAL_MAX_MS < reconnect_time_interval_ms c
                                  then IOTX_MC_RECONNECT_INTERVAL_MAX_MS else reconnect_time_interval_ms c);
                   (t, c) = countdown_ms env interval_ms c in
               Some (rc, c\<lparr>reconnect_next_time := t\<rparr>) })"

text \<open>The callbacks of \<open>iotx_mc_keepalive\<close> do not set the flag of \<open>_handle_event\<close>.\<close>

definition client_callback :: "mqtt_event \<Rightarrow> mqtt_client \<Rightarrow> mqtt_client" where
  "client_callback msg c =
     (if h_fp (handle_event c) = None then c else emit (OutEvent (handle_event c) msg) c)"

definition iotx_mc_keepalive :: "mqtt_env \<Rightarrow> mqtt_client \<Rightarrow> mqtt_client option" where
  "iotx_mc_keepalive env c =
     do { (rc, c) \<leftarrow> iotx_mc_keepalive_sub env c;
          if client_state c = IOTX_MC_STATE_DISCONNECTED_RECONNECTING \<or> client_state c = IOTX_MC_STATE_CONNECT_BLOCK
          then
            do { (rc, c) \<leftarrow> iotx_mc_handle_reconnect env c;
                 Some (if rc \<noteq> SUCCESS_RETURN then c
                       else (client_callback EVENT_RECONNECT c)
                              \<lparr>reconnect_time_interval_ms := IOTX_MC_RECONNECT_INTERVAL_MIN_MS\<rparr>) }
          else if client_state c = IOTX_MC_STATE_DISCONNECTED
          then
            let c = (client_callback EVENT_DISCONNECT c)\<lparr>reconnect_time_interval_ms := IOTX_MC_RECONNECT_INTERVAL_MIN_MS\<rparr>;
                (t, c) = countdown_ms env (reconnect_time_interval_ms c) c;
                c = emit OutDisconnect (c\<lparr>reconnect_next_time := t\<rparr>) in
            Some (iotx_mc_set_client_state IOTX_MC_STATE_DISCONNECTED_RECONNECTING c)
          else Some c }"

text \<open>The return code of \<open>wrapper_mqtt_yield\<close> is -1 for a negative time, else 0.\<close>

definition wrapper_mqtt_yield :: "mqtt_env \<Rightarrow> int \<Rightarrow> mqtt_client \<Rightarrow> (int \<times> mqtt_client) option" where
  "wrapper_mqtt_yield env timeout_ms c =
     (if timeout_ms < 0 then Some (-1, c)
      else
        let timeout_ms = (if timeout_ms = 0 then 10 else timeout_ms) in
        do { c \<leftarrow> iotx_mc_keepalive env (c\<lparr>cycle_timeout_ms := word_of_int timeout_ms\<rparr>);
             c \<leftarrow> mqtt_cycle env c;
             Some (0, c) })"

subsection \<open>Subscribing\<close>

text \<open>\<open>iotx_mc_check_handle_is_identical\<close> is 0 for the same filter, function and context.\<close>

definition iotx_mc_check_handle_is_identical_ex :: "topic_handle \<Rightarrow> topic_handle \<Rightarrow> int" where
  "iotx_mc_check_handle_is_identical_ex h1 h2 =
     (if length (topic_filter h1) \<noteq> length (topic_filter h2) then 1
      else if topic_filter h1 \<noteq> topic_filter h2 then 1 else 0)"

definition iotx_mc_check_handle_is_identical :: "topic_handle \<Rightarrow> topic_handle \<Rightarrow> int" where
  "iotx_mc_check_handle_is_identical h1 h2 =
     (if iotx_mc_check_handle_is_identical_ex h1 h2 \<noteq> 0 then 1
      else if h_fp (handle h1) \<noteq> h_fp (handle h2) then 1
      else if pcontext (handle h1) \<noteq> pcontext (handle h2) then 1 else 0)"

definition cstr :: "string \<Rightarrow> MQTTString" where
  "cstr s = \<lparr>cstring = Some (str_bytes s), lenstring_len = 0, lenstring_data = None\<rparr>"

definition add_handler :: "topic_handle \<Rightarrow> mqtt_client \<Rightarrow> mqtt_client" where
  "add_handler h c =
     (if \<exists>node\<in>set (list_sub_handle c). iotx_mc_check_handle_is_identical node h = 0 then c
      else c\<lparr>list_sub_handle := list_sub_handle c @ [h]\<rparr>)"

definition MQTTSubscribe ::
    "mqtt_env \<Rightarrow> string \<Rightarrow> int \<Rightarrow> u32 \<Rightarrow> event_handle \<Rightarrow> mqtt_client \<Rightarrow> (int \<times> mqtt_client) option" where
  "MQTTSubscribe env topicFilter qos msgId h c =
     (let (timer, c) = countdown_ms env (request_timeout_ms c) c;
          (ok1, c) = mqtt_malloc env c in
      if \<not> ok1 then Some (FAIL_RETURN, c)
      else
        let (ok2, c) = mqtt_malloc env c in
        if \<not> ok2 then Some (FAIL_RETURN, c)
        else
          let (rc, c) = alloc_send_buffer env (int (length topicFilter)) c in
          if rc < 0 then Some (FAIL_RETURN, c)
          else
            do { b \<leftarrow> buf_send c;
                 (len, b) \<leftarrow> MQTTSerialize_subscribe b (uint (buf_size_send c)) 0 (ucast msgId) [(cstr topicFilter, qos)];
                 let c = c\<lparr>buf_send := Some b\<rparr>;
                 if len \<le> 0 then Some (MQTT_SUBSCRIBE_PACKET_ERROR, reset_send_buffer c)
                 else
                   do { (rc, c) \<leftarrow> iotx_mc_send_packet env b len timer c;
                        let c = reset_send_buffer c;
                        if rc \<noteq> SUCCESS_RETURN then Some (MQTT_NETWORK_ERROR, c)
                        else Some (SUCCESS_RETURN, add_handler \<lparr>topic_filter = topicFilter, handle = h\<rparr> c) } })"

text \<open>The caller's reaction to a network error while sending.\<close>

definition note_network_error :: "int \<Rightarrow> mqtt_client \<Rightarrow> mqtt_client" where
  "note_network_error rc c =
     (if rc = MQTT_NETWORK_ERROR then iotx_mc_set_client_state IOTX_MC_STATE_DISCONNECTED c else c)"

definition wrapper_mqtt_subscribe ::
    "mqtt_env \<Rightarrow> string \<Rightarrow> int \<Rightarrow> event_handle \<Rightarrow> mqtt_client \<Rightarrow> (int \<times> mqtt_client) option" where
  "wrapper_mqtt_subscribe env topicFilter qos h c =
     (if topicFilter = [] \<or> h_fp h = None then Some (MC_NULL_VALUE_ERROR, c)
      else
        let (msgId, c) = iotx_mc_get_next_packetid c in
        if \<not> wrapper_mqtt_check_state c then Some (MQTT_STATE_ERROR, c)
        else if iotx_mc_check_topic topicFilter TOPIC_FILTER_TYPE \<noteq> 0 then Some (MQTT_TOPIC_FORMAT_ERROR, c)
        else
          do { (rc, c) \<leftarrow> MQTTSubscribe env topicFilter qos msgId h c;
               Some (if rc \<noteq> SUCCESS_RETURN then (rc, note_network_error rc c) else (uint msgId, c)) })"


subsection \<open>Unsubscribing\<close>

text \<open>Removing the handlers the topic hits; the length passed for it includes the closing zero.\<close>

definition unsubscribed_topic :: "string \<Rightarrow> MQTTString" where
  "unsubscribed_topic topicFilter =
     \<lparr>cstring = None, lenstring_len = int (length topicFilter) + 1,
      lenstring_data = Some (str_bytes topicFilter @ [0])\<rparr>"

fun remove_handlers :: "MQTTString \<Rightarrow> topic_handle list \<Rightarrow> topic_handle list option" where
  "remove_handlers topic [] = Some []"
| "remove_handlers topic (node # nodes) =
     do { hit \<leftarrow> topic_hit topic (topic_filter node);
          kept \<leftarrow> remove_handlers topic nodes;
          Some (if hit then kept else node # kept) }"

definition MQTTUnsubscribe :: "mqtt_env \<Rightarrow> string \<Rightarrow> u32 \<Rightarrow> mqtt_client \<Rightarrow> (int \<times> mqtt_client) option" where
  "MQTTUnsubscribe env topicFilter msgId c =
     (let (timer, c) = countdown_ms env (request_timeout_ms c) c;
          (ok1, c) = mqtt_malloc env c in
      if \<not> ok1 then Some (FAIL_RETURN, c)
      else
        let (ok2, c) = mqtt_malloc env c in
        if \<not> ok2 then Some (FAIL_RETURN, c)
        else
          let (rc, c) = alloc_send_buffer env (int (length topicFilter)) c in
          if rc < 0 then Some (FAIL_RETURN, c)
          else
            do { b \<leftarrow> buf_send c;
                 (len, b) \<leftarrow> MQTTSerialize_unsubscribe b (uint (buf_size_send c)) 0 (ucast msgId) [cstr topicFilter];
                 let c = c\<lparr>buf_send := Some b\<rparr>;
                 if len \<le> 0 then Some (MQTT_UNSUBSCRIBE_PACKET_ERROR, reset_send_buffer c)
                 else
                   do { (rc, c) \<leftarrow> iotx_mc_send_packet env b len timer c;
                        if rc \<noteq> SUCCESS_RETURN then Some (MQTT_NETWORK_ERROR, reset_send_buffer c)
                        else
                          do { kept \<leftarrow> remove_handlers (unsubscribed_topic topicFilter) (list_sub_handle c);
                               Some (SUCCESS_RETURN, reset_send_buffer (c\<lparr>list_sub_handle := kept\<rparr>)) } } })"

definition wrapper_mqtt_unsubscribe ::
    "mqtt_env \<Rightarrow> string \<Rightarrow> mqtt_client \<Rightarrow> (int \<times> mqtt_client) option" where
  "wrapper_mqtt_unsubscribe env topicFilter c =
     (let (msgId, c) = iotx_mc_get_next_packetid c in
      if iotx_mc_check_topic topicFilter TOPIC_FILTER_TYPE \<noteq> 0 then Some (MQTT_TOPIC_FORMAT_ERROR, c)
      else if \<not> wrapper_mqtt_check_state c then Some (MQTT_STATE_ERROR, c)
      else
        do { (rc, c) \<leftarrow> MQTTUnsubscribe env topicFilter msgId c;
             Some (if rc \<noteq> SUCCESS_RETURN then (rc, note_network_error rc c) else (uint msgId, c)) })"

subsection \<open>Publishing\<close>

text \<open>The part of \<open>MQTTPublish\<close> behind the serialiser: waiting and sending.\<close>

definition publish_send ::
    "mqtt_env \<Rightarrow> topic_info \<Rightarrow> u32 \<Rightarrow> int \<Rightarrow> bytes \<Rightarrow> mqtt_client \<Rightarrow> (int \<times> mqtt_client) option" where
  "publish_send env topic_msg timer len b c =
     do { (rc, c) \<leftarrow> (if 0 < ti_qos topic_msg
                       then iotx_mc_push_pubInfo_to env len (ti_packet_id topic_msg) c
                       else Some (SUCCESS_RETURN, c));
          if rc \<noteq> SUCCESS_RETURN then Some (MQTT_PUSH_TO_LIST_ERROR, reset_send_buffer c)
          else
            do { (rc, c) \<leftarrow> iotx_mc_send_packet env b len timer c;
                 if rc \<noteq> SUCCESS_RETURN
                 then
                   let c = (if 0 < ti_qos topic_msg
                            then c\<lparr>list_pub_wait_ack := butlast (list_pub_wait_ack c)\<rparr> else c) in
                   Some (MQTT_NETWORK_ERROR, reset_send_buffer c)
                 else Some (SUCCESS_RETURN, reset_send_buffer c) } }"

definition MQTTPublish ::
    "mqtt_env \<Rightarrow> string \<Rightarrow> topic_info \<Rightarrow> bytes \<Rightarrow> mqtt_client \<Rightarrow> (int \<times> mqtt_client) option" where
  "MQTTPublish env topicName topic_msg payload c =
     (let (timer, c) = countdown_ms env (request_timeout_ms c) c;
          (rc, c) = alloc_send_buffer env (int (length topicName) + uint (ti_payload_len topic_msg)) c in
      if rc < 0 then Some (FAIL_RETURN, c)
      else
        do { b \<leftarrow> buf_send c;
             (len, b) \<leftarrow> MQTTSerialize_publish b (uint (buf_size_send c)) 0 (uint (ti_qos topic_msg))
                (ti_retain topic_msg) (ti_packet_id topic_msg) (cstr topicName) payload
                (sint (ti_payload_len topic_msg));
             let c = c\<lparr>buf_send := Some b\<rparr>;
             if len \<le> 0 then Some (MQTT_PUBLISH_PACKET_ERROR, reset_send_buffer c)
             else publish_send env topic_msg timer len b c })"

text \<open>The payload is a null pointer (\<open>None\<close>) or the array behind its pointer.\<close>

definition wrapper_mqtt_publish ::
    "mqtt_env \<Rightarrow> string \<Rightarrow> topic_info \<Rightarrow> mqtt_client \<Rightarrow> (int \<times> mqtt_client) option" where
  "wrapper_mqtt_publish env topicName topic_msg c =
     (case ti_payload topic_msg of
        None \<Rightarrow> Some (MC_NULL_VALUE_ERROR, c)
      | Some payload \<Rightarrow>
          if iotx_mc_check_topic topicName TOPIC_NAME_TYPE \<noteq> 0 then Some (MQTT_TOPIC_FORMAT_ERROR, c)
          else if \<not> wrapper_mqtt_check_state c then Some (MQTT_STATE_ERROR, c)
          else
            let (msg_id, topic_msg, c) =
                  (if ti_qos topic_msg = 1 \<or> ti_qos topic_msg = 2
                   then let (i, c) = iotx_mc_get_next_packetid c
                        in (ucast i, topic_msg\<lparr>ti_packet_id := ucast i\<rparr>, c)
                   else (0 :: u16, topic_msg, c)) in
            if ti_qos topic_msg = 2 then Some (MQTT_PUBLISH_QOS_ERROR, c)
            else
              do { (rc, c) \<leftarrow> MQTTPublish env topicName topic_msg payload c;
                   Some (if rc \<noteq> SUCCESS_RETURN then (rc, note_network_error rc c) else (uint msg_id, c)) })"

subsection \<open>Disconnecting\<close>

definition MQTTDisconnect :: "mqtt_env \<Rightarrow> mqtt_client \<Rightarrow> (int \<times> mqtt_client) option" where
  "MQTTDisconnect env c =
     (let (rc, c) = alloc_send_buffer env 0 c in
      if rc < 0 then Some (FAIL_RETURN, c)
      else
        do { b \<leftarrow> buf_send c;
             (len, b) \<leftarrow> MQTTSerialize_disconnect b (uint (buf_size_send c));
             let (timer, c) = countdown_ms env (request_timeout_ms c) (c\<lparr>buf_send := Some b\<rparr>);
             (rc, c) \<leftarrow> (if 0 < len then iotx_mc_send_packet env b len timer c else Some (FAIL_RETURN, c));
             Some (rc, reset_send_buffer c) })"

definition iotx_mc_disconnect :: "mqtt_env \<Rightarrow> mqtt_client \<Rightarrow> (int \<times> mqtt_client) option" where
  "iotx_mc_disconnect env c =
     do { c \<leftarrow> (if wrapper_mqtt_check_state c then map_option snd (MQTTDisconnect env c) else Some c);
          Some (SUCCESS_RETURN, iotx_mc_set_client_state IOTX_MC_STATE_INITIALIZED (emit OutDisconnect c)) }"

text \<open>What is left of the client when its memory is given back.\<close>

definition wrapper_mqtt_release :: "mqtt_env \<Rightarrow> mqtt_client \<Rightarrow> (int \<times> mqtt_client) option" where
  "wrapper_mqtt_release env c =
     do { (rc, c) \<leftarrow> iotx_mc_disconnect env (emit (OutSleep 100) c);
          let c = emit (OutSleep 100) (iotx_mc_set_client_state IOTX_MC_STATE_INVALID c);
          Some (SUCCESS_RETURN, c\<lparr>list_sub_handle := [], mc_locks := [], list_pub_wait_ack := [],
            buf_send := None, buf_read := None\<rparr>) }"

subsection \<open>Subscribing and waiting for the acknowledgement\<close>

text \<open>
  The look at the first waiting node after each yield; the results are the value to return, if the
  wait is over, the new \<open>ret\<close> and whether the node was taken off (\<open>subed\<close> is cleared).
\<close>

definition sync_check :: "int \<Rightarrow> sub_sync_node list \<Rightarrow> int option \<times> int \<times> bool \<times> sub_sync_node list" where
  "sync_check ret nodes =
     (case nodes of
        [] \<Rightarrow> (None, ret, False, [])
      | node # rest \<Rightarrow>
          if sn_packet_id node \<noteq> ret then (None, ret, False, nodes)
          else if sn_ack_type node = 3 then (Some ret, ret, True, rest)
          else if sn_ack_type node = 5 then (None, -1, True, rest)
          else if sn_ack_type node = 4 then (None, -1, True, rest)
          else (None, ret, False, nodes))"

partial_function (option) subscribe_sync_loop ::
    "mqtt_env \<Rightarrow> string \<Rightarrow> int \<Rightarrow> event_handle \<Rightarrow> u32 \<Rightarrow> int \<Rightarrow> bool \<Rightarrow> mqtt_client \<Rightarrow> (int \<times> mqtt_client) option" where
  "subscribe_sync_loop env topicFilter qos h timer ret subed c =
     do { (back, ret, c) \<leftarrow>
            (if ret < 0
             then do { (ret, c) \<leftarrow> wrapper_mqtt_subscribe env topicFilter qos h c;
                       Some (mc_in_yield_cb c \<or> qos = 3, ret, c) }
             else Some (False, ret, c));
          if back then Some (ret, c)
          else
            case (if \<not> subed \<and> 0 \<le> ret
                  then case mqtt_malloc env c of (ok, c) \<Rightarrow>
                    if ok then (True, c\<lparr>list_sub_sync_ack := list_sub_sync_ack c @
                                  [\<lparr>sn_packet_id = ret, sn_ack_type = 0\<rparr>]\<rparr>)
                    else (subed, c)
                  else (subed, c)) of (subed, c) \<Rightarrow>
              do { (rc, c) \<leftarrow> wrapper_mqtt_yield env 100 c;
                   case sync_check ret (list_sub_sync_ack c) of (result, ret, taken, nodes) \<Rightarrow>
                     let c = c\<lparr>list_sub_sync_ack := nodes\<rparr> in
                     case result of
                       Some r \<Rightarrow> Some (r, c)
                     | None \<Rightarrow>
                         case time_expired env timer c of (expired, c) \<Rightarrow>
                           if expired
                           then Some (-1, c\<lparr>list_sub_sync_ack := filter (\<lambda>n. sn_packet_id n \<noteq> ret) (list_sub_sync_ack c)\<rparr>)
                           else subscribe_sync_loop env topicFilter qos h timer ret (subed \<and> \<not> taken) c } }"

declare subscribe_sync_loop.simps [code]

definition wrapper_mqtt_subscribe_sync ::
    "mqtt_env \<Rightarrow> string \<Rightarrow> int \<Rightarrow> event_handle \<Rightarrow> int \<Rightarrow> mqtt_client \<Rightarrow> (int \<times> mqtt_client) option" where
  "wrapper_mqtt_subscribe_sync env topicFilter qos h timeout_ms c =
     (let qos = (if 2 < qos then 0 else qos);
          (timer, c) = countdown_ms env (word_of_int timeout_ms) c in
      subscribe_sync_loop env topicFilter qos h timer (-1) False c)"

end
