(* ===== verification/MqttClientNet.thy ===== *)
theory MqttClientNet
  imports MqttClientApi
begin

text \<open>
  What the operations of the MQTT client leave alone, what they put on the wire, and that sending
  ends on a running clock.
\<close>

named_theorems mc_env "calls to the surroundings, unfolded"

lemmas mc_env_defs [mc_env] =
  uptime_def time_expired_def countdown_ms_def time_left_def left_t_def mqtt_malloc_def emit_def
  net_read_def net_write_def net_connect_def handle_event_msg_def client_callback_def
  iotx_mc_set_client_state_def reset_send_buffer_def reset_recv_buffer_def

subsection \<open>Postconditions\<close>

text \<open>
  \<open>post m Q\<close>: if \<open>m\<close> has a result, it satisfies \<open>Q\<close>. The rules for the constructs of the model
  and one rule for each operation, collected in \<open>wp\<close>, take a body apart from its front.
\<close>

definition post :: "'a option \<Rightarrow> ('a \<Rightarrow> bool) \<Rightarrow> bool" where
  "post m Q \<longleftrightarrow> (\<forall>x. m = Some x \<longrightarrow> Q x)"

named_theorems wp "rules for postconditions"

lemma postD: "post m Q \<Longrightarrow> m = Some x \<Longrightarrow> Q x"
  by (simp add: post_def)

lemma post_Some [wp]: "Q x \<Longrightarrow> post (Some x) Q"
  by (simp add: post_def)

lemma post_None [wp]: "post None Q"
  by (simp add: post_def)

lemma post_if [wp]: "(b \<Longrightarrow> post m Q) \<Longrightarrow> (\<not> b \<Longrightarrow> post n Q) \<Longrightarrow> post (if b then m else n) Q"
  by simp

lemma post_bind [wp]: "post m (\<lambda>x. post (f x) Q) \<Longrightarrow> post (Option.bind m f) Q"
  by (auto simp: post_def bind_eq_Some_conv)

lemma post_let [wp]: "post (f e) Q \<Longrightarrow> post (let x = e in f x) Q"
  by (simp add: Let_def)

lemma post_prod [wp]: "(\<And>a b. p = (a, b) \<Longrightarrow> post (f a b) Q) \<Longrightarrow> post (case p of (a, b) \<Rightarrow> f a b) Q"
  by (cases p) simp

lemma post_option [wp]:
  "(x = None \<Longrightarrow> post m Q) \<Longrightarrow> (\<And>y. x = Some y \<Longrightarrow> post (f y) Q) \<Longrightarrow>
   post (case x of None \<Rightarrow> m | Some y \<Rightarrow> f y) Q"
  by (cases x) simp_all

lemma post_map [wp]: "post m (\<lambda>x. Q (f x)) \<Longrightarrow> post (map_option f m) Q"
  by (auto simp: post_def)

lemma post_any: "(\<And>x. m = Some x \<Longrightarrow> Q x) \<Longrightarrow> post m Q"
  by (simp add: post_def)

text \<open>The rule of an operation, from what it guarantees.\<close>

lemma post_rule: "(\<And>x. m = Some x \<Longrightarrow> P x) \<Longrightarrow> (\<And>x. m = Some x \<Longrightarrow> P x \<Longrightarrow> Q x) \<Longrightarrow> post m Q"
  by (simp add: post_def)

text \<open>The part of the state that traffic and buffers do not touch.\<close>

definition core :: "mqtt_client \<Rightarrow> mqtt_client" where
  "core c = c\<lparr>mc_tick := 0, mc_trace := [], buf_send := None, buf_size_send := 0, buf_read := None,
     buf_size_read := 0, mc_in_yield_cb := False\<rparr>"

lemma core_simps [simp]:
  "core (c\<lparr>mc_tick := t\<rparr>) = core c" "core (c\<lparr>mc_trace := tr\<rparr>) = core c"
  "core (c\<lparr>buf_send := b\<rparr>) = core c" "core (c\<lparr>buf_size_send := n\<rparr>) = core c"
  "core (c\<lparr>buf_read := b\<rparr>) = core c" "core (c\<lparr>buf_size_read := n\<rparr>) = core c"
  "core (c\<lparr>mc_in_yield_cb := y\<rparr>) = core c"
  by (simp_all add: core_def)

lemma core_keeps:
  "list_pub_wait_ack (core c) = list_pub_wait_ack c"
  "list_sub_handle (core c) = list_sub_handle c"
  "client_state (core c) = client_state c"
  "keepalive_probes (core c) = keepalive_probes c"
  "request_timeout_ms (core c) = request_timeout_ms c"
  "list_sub_sync_ack (core c) = list_sub_sync_ack c"
  "handle_event (core c) = handle_event c"
  "connect_data (core c) = connect_data c"
  "packet_id (core c) = packet_id c"
  "buf_size_send_max (core c) = buf_size_send_max c"
  "reconnect_time_interval_ms (core c) = reconnect_time_interval_ms c"
  "reconnect_next_time (core c) = reconnect_next_time c"
  "next_ping_time (core c) = next_ping_time c"
  by (simp_all add: core_def)

lemma core_fields:
  assumes "core c' = core c"
  shows
  "list_pub_wait_ack c' = list_pub_wait_ack c"
  "list_sub_handle c' = list_sub_handle c"
  "client_state c' = client_state c"
  "keepalive_probes c' = keepalive_probes c"
  "request_timeout_ms c' = request_timeout_ms c"
  "list_sub_sync_ack c' = list_sub_sync_ack c"
  "handle_event c' = handle_event c"
  "connect_data c' = connect_data c"
  "packet_id c' = packet_id c"
  "buf_size_send_max c' = buf_size_send_max c"
  "reconnect_time_interval_ms c' = reconnect_time_interval_ms c"
  "reconnect_next_time c' = reconnect_next_time c"
  "next_ping_time c' = next_ping_time c"
  by (simp_all only: core_keeps [symmetric, of c] core_keeps [symmetric, of c'] assms)

lemma emit_keeps [simp]:
  "core (emit out c) = core c" "buf_send (emit out c) = buf_send c" "buf_read (emit out c) = buf_read c"
  "buf_size_send (emit out c) = buf_size_send c" "buf_size_read (emit out c) = buf_size_read c"
  by (simp_all add: emit_def)

lemma event_keeps [simp]:
  "core (snd (handle_event_msg h msg c)) = core c" "buf_send (snd (handle_event_msg h msg c)) = buf_send c"
  "buf_read (snd (handle_event_msg h msg c)) = buf_read c"
  by (simp_all add: handle_event_msg_def)

lemma callback_keeps [simp]:
  "core (client_callback msg c) = core c" "buf_send (client_callback msg c) = buf_send c"
  "buf_read (client_callback msg c) = buf_read c"
  by (simp_all add: client_callback_def)

lemma reset_keeps [simp]:
  "core (reset_send_buffer c) = core c" "core (reset_recv_buffer c) = core c"
  "buf_send (reset_send_buffer c) = None" "buf_read (reset_recv_buffer c) = None"
  "buf_read (reset_send_buffer c) = buf_read c" "buf_send (reset_recv_buffer c) = buf_send c"
  by (simp_all add: reset_send_buffer_def reset_recv_buffer_def)

lemma core_alloc_send:
  "alloc_send_buffer env len c = (rc, c') \<Longrightarrow> core c' = core c \<and> buf_read c' = buf_read c \<and>
     (rc < 0 \<and> buf_send c' = None \<or>
      rc = 0 \<and> buf_send c' = Some (replicate (unat (buf_size_send c')) 0) \<and> buf_size_send c' \<le> buf_size_send_max c)"
  by (auto simp: alloc_send_buffer_def mqtt_malloc_def Let_def split: if_splits)

lemma core_alloc_recv:
  "alloc_recv_buffer env len c = (rc, c') \<Longrightarrow> core c' = core c \<and> buf_send c' = buf_send c"
  by (auto simp: alloc_recv_buffer_def mqtt_malloc_def Let_def split: if_splits)


subsection \<open>Sending\<close>

text \<open>The bytes the transport has accepted.\<close>

definition accepted_bytes :: "mqtt_out \<Rightarrow> bytes" where
  "accepted_bytes out = (case out of OutWrite bs rc \<Rightarrow> take (nat rc) bs | _ \<Rightarrow> [])"

definition wire :: "mqtt_client \<Rightarrow> bytes" where
  "wire c = concat (map accepted_bytes (mc_trace c))"

text \<open>The transport accepts no more than it is given.\<close>

definition write_ok :: "mqtt_env \<Rightarrow> bool" where
  "write_ok env \<longleftrightarrow> (\<forall>n bs l. env_write env n bs l \<le> int (length bs))"

definition ticked :: "mqtt_client \<Rightarrow> mqtt_client \<Rightarrow> bool" where
  "ticked c c' \<longleftrightarrow> (\<exists>t tr. c' = c\<lparr>mc_tick := t, mc_trace := tr\<rparr>)"

lemma tickedI: "c' = c\<lparr>mc_tick := t, mc_trace := tr\<rparr> \<Longrightarrow> ticked c c'"
  by (auto simp: ticked_def)

lemma ticked_upd [simp]: "ticked c (c\<lparr>mc_tick := t, mc_trace := tr\<rparr>)" "ticked c (c\<lparr>mc_tick := t\<rparr>)" "ticked c c"
  by (rule tickedI, rule refl)
    (rule tickedI [where t = t and tr = "mc_trace c"] tickedI [where t = "mc_tick c" and tr = "mc_trace c"], simp)+

lemma ticked_trans: "ticked a b \<Longrightarrow> ticked b c \<Longrightarrow> ticked a c"
  unfolding ticked_def by clarsimp blast

lemma ticked_core: "ticked c c' \<Longrightarrow> core c' = core c"
  by (auto simp: ticked_def)

lemma ticked_buf:
  "ticked c c' \<Longrightarrow> buf_send c' = buf_send c" "ticked c c' \<Longrightarrow> buf_read c' = buf_read c"
  "ticked c c' \<Longrightarrow> buf_size_send c' = buf_size_send c"
  by (auto simp: ticked_def)

text \<open>One round of the loop, with its clock readings and its write carried out.\<close>

definition send_round :: "mqtt_env \<Rightarrow> bytes \<Rightarrow> nat \<Rightarrow> u32 \<Rightarrow> nat \<Rightarrow> mqtt_client \<Rightarrow> int \<times> mqtt_client" where
  "send_round env buf len timer sent c =
     net_write env (take (len - sent) (drop sent buf)) (fst (left_t env timer (snd (time_expired env timer c))))
       (snd (left_t env timer (snd (time_expired env timer c))))"

lemma send_loop_unfold:
  "send_loop env buf len timer sent c =
     (if \<not> sent < len then Some (sent, c)
      else if fst (time_expired env timer c) then Some (sent, snd (time_expired env timer c))
      else let (rc, c') = send_round env buf len timer sent c in
        if rc < 0 then Some (sent, c') else send_loop env buf len timer (sent + nat rc) c')"
  by (subst send_loop.simps) (simp add: send_round_def case_prod_beta Let_def)

lemma send_round_ticked: "send_round env buf len timer sent c = (rc, c') \<Longrightarrow> ticked c c'"
  by (auto simp: send_round_def mc_env Let_def case_prod_beta)

lemma send_round_wire:
  "send_round env buf len timer sent c = (rc, c') \<Longrightarrow>
   wire c' = wire c @ take (nat rc) (take (len - sent) (drop sent buf))"
  by (auto simp: send_round_def mc_env Let_def case_prod_beta wire_def accepted_bytes_def)

lemma write_okD: "write_ok env \<Longrightarrow> env_write env n bs l \<le> int (length bs)"
  by (simp add: write_ok_def)

lemma send_round_rc:
  "send_round env buf len timer sent c = (rc, c') \<Longrightarrow> write_ok env \<Longrightarrow> len \<le> length buf \<Longrightarrow>
   rc \<le> int (len - sent)"
proof -
  assume r: "send_round env buf len timer sent c = (rc, c')" and w: "write_ok env" "len \<le> length buf"
  then obtain n l where "rc = env_write env n (take (len - sent) (drop sent buf)) l"
    by (auto simp: send_round_def net_write_def Let_def)
  then show "rc \<le> int (len - sent)"
    using write_okD [OF w(1), of n "take (len - sent) (drop sent buf)" l] w(2) by simp
qed

text \<open>What a step of the loop makes of an outcome of its remainder.\<close>

definition send_outcome ::
    "mqtt_env \<Rightarrow> bytes \<Rightarrow> nat \<Rightarrow> nat \<Rightarrow> mqtt_client \<Rightarrow> nat \<times> mqtt_client \<Rightarrow> bool" where
  "send_outcome env buf len sent c r \<longleftrightarrow> ticked c (snd r) \<and>
     (write_ok env \<longrightarrow> sent \<le> len \<longrightarrow> len \<le> length buf \<longrightarrow>
        sent \<le> fst r \<and> fst r \<le> len \<and> wire (snd r) = wire c @ take (fst r - sent) (drop sent buf))"

lemma send_outcome_stop:
  "ticked c c' \<Longrightarrow> wire c' = wire c \<Longrightarrow> send_outcome env buf len sent c (sent, c')"
  by (simp add: send_outcome_def)

lemma send_outcome_round:
  assumes r: "send_round env buf len timer sent c = (rc, c')" "0 \<le> rc"
    and o: "send_outcome env buf len (sent + nat rc) c' res"
  shows "send_outcome env buf len sent c res"
proof -
  have "ticked c (snd res)"
    using ticked_trans [OF send_round_ticked [OF r(1)]] o by (simp add: send_outcome_def)
  moreover
  { assume w: "write_ok env" "sent \<le> len" "len \<le> length buf"
    have n: "nat rc \<le> len - sent" using send_round_rc [OF r(1) w(1,3)] r(2) by simp
    then have "sent + nat rc \<le> fst res" "fst res \<le> len"
      and "wire (snd res) = wire c' @ take (fst res - (sent + nat rc)) (drop (sent + nat rc) buf)"
      using o w by (simp_all add: send_outcome_def)
    moreover have "take (nat rc) (take (len - sent) (drop sent buf)) = take (nat rc) (drop sent buf)"
      using n by (simp add: min_def)
    moreover have "take (fst res - sent) (drop sent buf) =
        take (nat rc) (drop sent buf) @ take (fst res - (sent + nat rc)) (drop (sent + nat rc) buf)"
      using calculation(1) take_add [of "nat rc" "fst res - (sent + nat rc)" "drop sent buf"]
      by (simp add: add.commute)
    ultimately have "sent \<le> fst res \<and> fst res \<le> len \<and> wire (snd res) = wire c @ take (fst res - sent) (drop sent buf)"
      using send_round_wire [OF r(1)] by simp }
  ultimately show ?thesis by (simp add: send_outcome_def)
qed

lemma send_loop_outcome:
  assumes "send_loop env buf len timer sent c = Some r"
  shows "send_outcome env buf len sent c r"
proof (rule send_loop.raw_induct
    [where P = "\<lambda>env buf len timer sent c r. send_outcome env buf len sent c r", OF _ assms])
  fix f env buf len timer sent c r
  assume IH: "\<And>env buf len timer sent c r. f env buf len timer sent c = Some r \<Longrightarrow> send_outcome env buf len sent c r"
    and e: "(if \<not> sent < len then Some (sent, c)
      else case time_expired env timer c of (expired, c) \<Rightarrow>
        if expired then Some (sent, c)
        else case left_t env timer c of (l, c) \<Rightarrow>
          case net_write env (take (len - sent) (drop sent buf)) l c of (rc, c) \<Rightarrow>
            if rc < 0 then Some (sent, c) else f env buf len timer (sent + nat rc) c) = Some r"
  then show "send_outcome env buf len sent c r"
  proof -
    define c1 where "c1 = snd (time_expired env timer c)"
    obtain rc c2 where c2: "send_round env buf len timer sent c = (rc, c2)" by fastforce
    have c1: "ticked c c1" "wire c1 = wire c" "ticked c c2"
      using send_round_ticked [OF c2] by (simp_all add: c1_def mc_env Let_def ticked_upd wire_def)
    from e consider "r = (sent, c)" | "r = (sent, c1)" | "r = (sent, c2)" "rc < 0"
      | "0 \<le> rc" "f env buf len timer (sent + nat rc) c2 = Some r"
      using c2 by (auto simp: send_round_def c1_def case_prod_beta split: if_splits)
    then show ?thesis
    proof cases
      case 3
      then show ?thesis using send_round_wire [OF c2] c1(3) by (auto intro: send_outcome_stop)
    next
      case 4
      then show ?thesis using send_outcome_round [OF c2] IH by blast
    qed (auto intro: send_outcome_stop c1 ticked_upd)
  qed
qed

lemma send_packet_outcome:
  assumes "iotx_mc_send_packet env buf len timer c = Some (rc, c')"
  shows "ticked c c'" "rc = 0 \<or> rc = -14"
    and "write_ok env \<Longrightarrow> 0 \<le> len \<Longrightarrow> \<exists>n. wire c' = wire c @ take n (take (nat len) buf)"
    and "write_ok env \<Longrightarrow> rc = 0 \<Longrightarrow> wire c' = wire c @ take (nat len) buf"
proof -
  obtain sent where l: "int (length buf) \<ge> len" "send_loop env buf (nat len) timer 0 c = Some (sent, c')"
      "rc = (if int sent = len then 0 else -14)"
    using assms by (auto simp: iotx_mc_send_packet_def bind_eq_Some_conv split: if_splits)
  have o: "send_outcome env buf (nat len) 0 c (sent, c')" by (rule send_loop_outcome [OF l(2)])
  show "ticked c c'" using o by (simp add: send_outcome_def)
  show "rc = 0 \<or> rc = -14" using l(3) by simp
  have w: "sent \<le> nat len \<and> wire c' = wire c @ take sent buf" if "write_ok env"
    using o that l(1) by (simp add: send_outcome_def)
  then show "\<exists>n. wire c' = wire c @ take n (take (nat len) buf)" if "write_ok env" "0 \<le> len"
    using that by (intro exI [of _ sent]) (simp add: min_absorb1)
  show "wire c' = wire c @ take (nat len) buf" if "write_ok env" "rc = 0"
    using w that l(3) by (simp split: if_splits) (metis nat_int)
qed

subsection \<open>Receiving\<close>

text \<open>What a call to the surroundings leaves alone.\<close>

definition calls :: "mqtt_client \<Rightarrow> mqtt_client \<Rightarrow> bool" where
  "calls c c' \<longleftrightarrow> core c' = core c \<and> buf_send c' = buf_send c \<and> buf_read c' = buf_read c \<and>
     buf_size_send c' = buf_size_send c"

lemma core_left_t: "left_t env timer c = (l, c') \<Longrightarrow> calls c c'"
  by (auto simp: mc_env Let_def calls_def split: if_splits)

lemma core_time_left: "time_left env timer c = (l, c') \<Longrightarrow> calls c c'"
  by (auto simp: mc_env Let_def calls_def split: if_splits)

lemma core_uptime: "uptime env c = (t, c') \<Longrightarrow> calls c c'"
  by (auto simp: mc_env calls_def)

lemma core_countdown: "countdown_ms env ms c = (t, c') \<Longrightarrow> calls c c'"
  by (auto simp: mc_env Let_def calls_def)

lemma core_expired: "time_expired env t c = (b, c') \<Longrightarrow> calls c c'"
  by (auto simp: mc_env Let_def calls_def)

lemma core_malloc: "mqtt_malloc env c = (b, c') \<Longrightarrow> calls c c'"
  by (auto simp: mc_env calls_def)

lemma core_net_read: "net_read env n l c = (r, c') \<Longrightarrow> calls c c'"
  by (auto simp: mc_env calls_def)

lemma core_net_connect: "net_connect env c = (r, c') \<Longrightarrow> calls c c'"
  by (auto simp: mc_env Let_def calls_def)

lemma decode_packet_core: "iotx_mc_decode_packet env l c = (rc, v, c') \<Longrightarrow> calls c c'"
proof -
  have "calls c c'" if "mc_decode_loop env l k len v0 m c = (rc, v, c')" for k len v0 m
    using that
  proof (induction k arbitrary: len v0 m c)
    case (Suc k)
    then show ?case
      by (auto simp: net_read_def Let_def calls_def split: option.split_asm list.split_asm if_split_asm dest!: Suc.IH)
  qed (simp add: calls_def)
  then show "iotx_mc_decode_packet env l c = (rc, v, c') \<Longrightarrow> calls c c'"
    unfolding iotx_mc_decode_packet_def by blast
qed

lemmas core_calls =
  core_left_t core_time_left core_uptime core_countdown core_expired core_malloc core_net_read
  core_net_connect core_alloc_send core_alloc_recv decode_packet_core

lemma wp_buf [wp]: "(\<And>b. buf_read c = Some b \<Longrightarrow> Q b) \<Longrightarrow> post (buf_read c) Q"
  "(\<And>b. buf_send c = Some b \<Longrightarrow> Q b) \<Longrightarrow> post (buf_send c) Q"
  by (simp_all add: post_def)

lemma wp_read_into [wp]:
  "(\<And>rc c'. core c' = core c \<Longrightarrow> buf_send c' = buf_send c \<Longrightarrow> Q (rc, c')) \<Longrightarrow> post (read_into env pos n l c) Q"
  unfolding read_into_def by (auto intro!: wp dest!: core_calls simp: calls_def)

lemma wp_rd_wr [wp]: "(\<And>x. rd b i = Some x \<Longrightarrow> Q x) \<Longrightarrow> post (rd b i) Q"
  "(\<And>w'. wr bs w = Some w' \<Longrightarrow> R w') \<Longrightarrow> post (wr bs w) R"
  by (simp_all add: post_def)

lemma wp_read_overflow [wp]:
  "(\<And>rc pt' c'. core c' = core c \<Longrightarrow> buf_send c' = buf_send c \<Longrightarrow> Q (rc, pt', c')) \<Longrightarrow> post (read_overflow env len rem timer pt c) Q"
  unfolding read_overflow_def by (auto intro!: wp dest!: core_calls simp: calls_def)

lemma wp_read_rest [wp]:
  "(\<And>rc pt' c'. core c' = core c \<Longrightarrow> buf_send c' = buf_send c \<Longrightarrow> Q (rc, pt', c')) \<Longrightarrow> post (read_rest env len rem timer pt c) Q"
  unfolding read_rest_def by (auto intro!: wp dest!: core_calls simp: calls_def)

lemma wp_read_packet [wp]:
  "(\<And>rc pt' c'. core c' = core c \<Longrightarrow> buf_send c' = buf_send c \<Longrightarrow> Q (rc, pt', c')) \<Longrightarrow> post (iotx_mc_read_packet env timer pt c) Q"
  unfolding iotx_mc_read_packet_def by (auto intro!: wp dest!: core_calls simp: calls_def)

lemma send_packet_calls:
  "iotx_mc_send_packet env buf len timer c = Some (rc, c') \<Longrightarrow> calls c c'"
  unfolding calls_def using ticked_core ticked_buf send_packet_outcome(1) by blast

lemma wp_send_packet [wp]:
  "(\<And>rc c'. calls c c' \<Longrightarrow> rc = 0 \<or> rc = -14 \<Longrightarrow> Q (rc, c')) \<Longrightarrow>
   post (iotx_mc_send_packet env buf len timer c) Q"
proof (rule post_any)
  fix x assume Q: "\<And>rc c'. calls c c' \<Longrightarrow> rc = 0 \<or> rc = -14 \<Longrightarrow> Q (rc, c')"
    and x: "iotx_mc_send_packet env buf len timer c = Some x"
  obtain rc c' where "x = (rc, c')" by (cases x)
  then show "Q x" using Q send_packet_calls send_packet_outcome(2) x by metis
qed

end
