(* ===== verification/MqttClientInv.thy ===== *)
theory MqttClientInv
  imports MqttClientNet
begin

text \<open>
  The well-formedness of the MQTT client: what every operation keeps of its configuration, its
  subscriptions, its waiting publications and its connection state.
\<close>

subsection \<open>The invariant\<close>

text \<open>A waiting publication holds its whole packet, with its own packet identifier.\<close>

definition publish_packet :: "int \<Rightarrow> u8 \<Rightarrow> u16 \<Rightarrow> string \<Rightarrow> bytes \<Rightarrow> bytes" where
  "publish_packet q r i topic payload =
     mqtt_packet (mqtt_header (cpt PUBLISH) 0 (word_of_int q) r) (publish_body q i (str_bytes topic) payload)"

definition wait_ok :: "pub_info \<Rightarrow> bool" where
  "wait_ok n \<longleftrightarrow> (\<exists>q r topic payload. 0 < q \<and> q < 256 \<and> pub_buf n = publish_packet q r (msg_id n) topic payload)"

definition handler_ok :: "topic_handle \<Rightarrow> bool" where
  "handler_ok h \<longleftrightarrow> topic_filter h \<noteq> [] \<and> iotx_mc_check_topic (topic_filter h) TOPIC_FILTER_TYPE = 0 \<and>
     h_fp (handle h) \<noteq> None"

definition cfg_inv :: "mqtt_client \<Rightarrow> bool" where
  "cfg_inv c \<longleftrightarrow>
     packet_id c \<le> IOTX_MC_PACKET_ID_MAX \<and>
     length (list_pub_wait_ack c) \<le> IOTX_MC_REPUB_NUM_MAX \<and> (\<forall>n\<in>set (list_pub_wait_ack c). wait_ok n) \<and>
     distinct (list_sub_handle c) \<and> (\<forall>h\<in>set (list_sub_handle c). handler_ok h) \<and>
     500 \<le> request_timeout_ms c \<and> request_timeout_ms c \<le> 5000 \<and>
     30 \<le> keepAliveInterval (connect_data c) \<and> keepAliveInterval (connect_data c) \<le> 180 \<and>
     1000 \<le> reconnect_time_interval_ms c \<and> reconnect_time_interval_ms c < 120000 \<and>
     buf_size_send_max c < 268435456"

abbreviation cfg_ok :: "mqtt_client \<Rightarrow> bool" where "cfg_ok c \<equiv> cfg_inv (core c)"

lemma core_upds [simp]:
  "core (c\<lparr>list_pub_wait_ack := w\<rparr>) = (core c)\<lparr>list_pub_wait_ack := w\<rparr>"
  "core (c\<lparr>list_sub_handle := l\<rparr>) = (core c)\<lparr>list_sub_handle := l\<rparr>"
  "core (c\<lparr>list_sub_sync_ack := y\<rparr>) = (core c)\<lparr>list_sub_sync_ack := y\<rparr>"
  "core (c\<lparr>client_state := s\<rparr>) = (core c)\<lparr>client_state := s\<rparr>"
  "core (c\<lparr>keepalive_probes := k\<rparr>) = (core c)\<lparr>keepalive_probes := k\<rparr>"
  "core (c\<lparr>next_ping_time := t\<rparr>) = (core c)\<lparr>next_ping_time := t\<rparr>"
  "core (c\<lparr>reconnect_next_time := t\<rparr>) = (core c)\<lparr>reconnect_next_time := t\<rparr>"
  "core (c\<lparr>reconnect_time_interval_ms := t\<rparr>) = (core c)\<lparr>reconnect_time_interval_ms := t\<rparr>"
  "core (c\<lparr>cycle_timeout_ms := t\<rparr>) = (core c)\<lparr>cycle_timeout_ms := t\<rparr>"
  "core (c\<lparr>packet_id := i\<rparr>) = (core c)\<lparr>packet_id := i\<rparr>"
  by (simp_all add: core_def)

lemma core_set_state [simp]: "core (iotx_mc_set_client_state s c) = (core c)\<lparr>client_state := s\<rparr>"
    "buf_send (iotx_mc_set_client_state s c) = buf_send c" "buf_read (iotx_mc_set_client_state s c) = buf_read c"
  by (simp_all add: iotx_mc_set_client_state_def)

lemma cfg_upds [simp]:
  "cfg_inv (c\<lparr>client_state := s\<rparr>) = cfg_inv c" "cfg_inv (c\<lparr>keepalive_probes := k\<rparr>) = cfg_inv c"
  "cfg_inv (c\<lparr>next_ping_time := t\<rparr>) = cfg_inv c" "cfg_inv (c\<lparr>reconnect_next_time := t\<rparr>) = cfg_inv c"
  "cfg_inv (c\<lparr>cycle_timeout_ms := t\<rparr>) = cfg_inv c" "cfg_inv (c\<lparr>list_sub_sync_ack := y\<rparr>) = cfg_inv c"
  by (simp_all add: cfg_inv_def)

text \<open>The connection can go down at any time; only connecting brings it up.\<close>

definition down :: "iotx_mc_state \<Rightarrow> iotx_mc_state \<Rightarrow> bool" where
  "down s s' \<longleftrightarrow> s' = s \<or> s = IOTX_MC_STATE_CONNECTED \<and> s' = IOTX_MC_STATE_DISCONNECTED"

lemma down_refl [simp]: "down s s"
  by (simp add: down_def)

lemma down_trans: "down a b \<Longrightarrow> down b c \<Longrightarrow> down a c"
  by (auto simp: down_def)

definition keeps :: "mqtt_client \<Rightarrow> mqtt_client \<Rightarrow> bool" where
  "keeps c c' \<longleftrightarrow> (cfg_ok c \<longrightarrow> cfg_ok c') \<and> (buf_send c = None \<longrightarrow> buf_send c' = None) \<and>
     down (client_state (core c)) (client_state (core c')) \<and>
     (keepalive_probes (core c) \<le> 2 \<longrightarrow> keepalive_probes (core c') \<le> 2)"

lemma keeps_refl [simp]: "keeps c c"
  by (simp add: keeps_def)

lemma keeps_trans: "keeps a b \<Longrightarrow> keeps b c \<Longrightarrow> keeps a c"
  unfolding keeps_def by (blast intro: down_trans)

lemma keeps_core: "core c' = core c \<Longrightarrow> (buf_send c = None \<Longrightarrow> buf_send c' = None) \<Longrightarrow> keeps c c'"
  by (simp add: keeps_def)

lemma keeps_calls: "calls c c' \<Longrightarrow> keeps c c'"
  by (simp add: calls_def keeps_core)

lemma calls_trans: "calls a b \<Longrightarrow> calls b c \<Longrightarrow> calls a c"
  by (simp add: calls_def)

subsection \<open>Receiving\<close>

lemma wp_any [wp]:
  "(\<And>x. MQTTDeserialize_connack b = Some x \<Longrightarrow> Q1 x) \<Longrightarrow> post (MQTTDeserialize_connack b) Q1"
  "(\<And>x. MQTTDeserialize_ack b = Some x \<Longrightarrow> Q2 x) \<Longrightarrow> post (MQTTDeserialize_ack b) Q2"
  "(\<And>x. MQTTDeserialize_suback k b = Some x \<Longrightarrow> Q3 x) \<Longrightarrow> post (MQTTDeserialize_suback k b) Q3"
  "(\<And>x. MQTTDeserialize_unsuback b = Some x \<Longrightarrow> Q4 x) \<Longrightarrow> post (MQTTDeserialize_unsuback b) Q4"
  "(\<And>x. MQTTDeserialize_publish b = Some x \<Longrightarrow> Q5 x) \<Longrightarrow> post (MQTTDeserialize_publish b) Q5"
  "(\<And>x. publish_malformed b = Some x \<Longrightarrow> Q6 x) \<Longrightarrow> post (publish_malformed b) Q6"
  "(\<And>x. topic_hit t f = Some x \<Longrightarrow> Q7 x) \<Longrightarrow> post (topic_hit t f) Q7"
  "(\<And>x. MQTTSerialize_ack b n ty d i = Some x \<Longrightarrow> Q8 x) \<Longrightarrow> post (MQTTSerialize_ack b n ty d i) Q8"
  by (simp_all add: post_def)

lemma wp_republish [wp]:
  "(\<And>rc c'. calls c c' \<Longrightarrow> Q (rc, c')) \<Longrightarrow> post (MQTTRePublish env b c) Q"
  unfolding MQTTRePublish_def by (auto intro!: wp dest!: core_calls simp: calls_def)

lemma wp_handle_CONNACK [wp]: "(\<And>rc. Q rc) \<Longrightarrow> post (iotx_mc_handle_recv_CONNACK c) Q"
  by (simp add: post_def)

lemma wait_ok_mask: "wait_ok (n\<lparr>node_state := s\<rparr>) = wait_ok n" "wait_ok (n\<lparr>pub_start_time := t\<rparr>) = wait_ok n"
  by (simp_all add: wait_ok_def)

lemma cfg_mask: "cfg_ok c \<Longrightarrow> cfg_ok (iotx_mc_mask_pubInfo_from i c)"
  by (auto simp: cfg_inv_def iotx_mc_mask_pubInfo_from_def core_keeps wait_ok_mask)

lemma keeps_mask [simp]: "keeps c (iotx_mc_mask_pubInfo_from i c)"
  using cfg_mask by (auto simp: keeps_def) (simp_all add: iotx_mc_mask_pubInfo_from_def)

lemma keeps_event [simp]: "keeps c d \<Longrightarrow> keeps c (snd (handle_event_msg h msg d))"
  by (simp add: keeps_def)

lemma wp_handle_PUBACK [wp]:
  "(\<And>rc c'. keeps c c' \<Longrightarrow> Q (rc, c')) \<Longrightarrow> post (iotx_mc_handle_recv_PUBACK env c) Q"
  unfolding iotx_mc_handle_recv_PUBACK_def by (auto intro!: wp)

lemma keeps_sub [simp]: "keeps c (iotx_mqtt_event_handle_sub i msg c)"
  by (simp add: keeps_def iotx_mqtt_event_handle_sub_def)

lemma wp_handle_SUBACK [wp]:
  "(\<And>rc c'. keeps c c' \<Longrightarrow> Q (rc, c')) \<Longrightarrow> post (iotx_mc_handle_recv_SUBACK env c) Q"
  unfolding iotx_mc_handle_recv_SUBACK_def by (auto intro!: wp)

lemma wp_handle_UNSUBACK [wp]:
  "(\<And>rc c'. keeps c c' \<Longrightarrow> Q (rc, c')) \<Longrightarrow> post (iotx_mc_handle_recv_UNSUBACK env c) Q"
  unfolding iotx_mc_handle_recv_UNSUBACK_def by (auto intro!: wp)

lemma wp_deliver_loop:
  "(\<And>m c'. core c' = core c \<Longrightarrow> buf_send c' = buf_send c \<Longrightarrow> Q (m, c')) \<Longrightarrow> post (deliver_loop t msg nodes m0 c) Q"
proof (induction nodes arbitrary: m0 c)
  case (Cons n ns)
  then show ?case by (auto intro!: wp)
qed (auto intro!: wp)

lemma wp_deliver [wp]:
  "(\<And>c'. core c' = core c \<Longrightarrow> buf_send c' = buf_send c \<Longrightarrow> Q c') \<Longrightarrow> post (iotx_mc_deliver_message t msg c) Q"
  unfolding iotx_mc_deliver_message_def by (auto intro!: wp wp_deliver_loop)

lemma wp_puback [wp]:
  "(\<And>rc c'. keeps c c' \<Longrightarrow> Q (rc, c')) \<Longrightarrow> post (MQTTPuback env i t c) Q"
  unfolding MQTTPuback_def by (auto intro!: wp dest!: core_calls simp: calls_def keeps_core)

lemma wp_puback_from:
  assumes "keeps a c" and "\<And>rc c'. keeps a c' \<Longrightarrow> Q (rc, c')"
  shows "post (MQTTPuback env i t c) Q"
  using assms by (auto intro!: wp_puback intro: keeps_trans)

lemma wp_deliver_and_ack [wp]:
  "(\<And>rc c'. keeps c c' \<Longrightarrow> Q (rc, c')) \<Longrightarrow> post (deliver_and_ack env t msg c) Q"
  unfolding deliver_and_ack_def
  by (auto intro!: wp_puback_from [of c] wp_deliver post_bind post_if post_Some simp: keeps_core)

lemma wp_handle_PUBLISH [wp]:
  "(\<And>rc c'. keeps c c' \<Longrightarrow> Q (rc, c')) \<Longrightarrow> post (iotx_mc_handle_recv_PUBLISH env c) Q"
  unfolding iotx_mc_handle_recv_PUBLISH_def by (auto intro!: wp)

lemma wp_dispatch [wp]:
  "(\<And>rc c'. keeps c c' \<Longrightarrow> Q (rc, c')) \<Longrightarrow> post (dispatch_packet env t c) Q"
  unfolding dispatch_packet_def by (auto intro!: wp)


subsection \<open>Resending and the cycle\<close>

text \<open>A node that stays keeps its identifier and its packet.\<close>

definition same_packet :: "pub_info \<Rightarrow> pub_info \<Rightarrow> bool" where
  "same_packet n m \<longleftrightarrow> msg_id m = msg_id n \<and> pub_buf m = pub_buf n \<and> node_state m = node_state n"

definition resent :: "mqtt_client \<Rightarrow> mqtt_client \<Rightarrow> bool" where
  "resent c c' \<longleftrightarrow> calls c c' \<or>
     client_state (core c) = IOTX_MC_STATE_CONNECTED \<and>
     calls (c\<lparr>client_state := IOTX_MC_STATE_DISCONNECTED\<rparr>) c'"

lemma resent_refl [simp]: "resent c c"
  by (simp add: resent_def calls_def)

lemma resent_trans: "calls a b \<Longrightarrow> resent b c \<Longrightarrow> resent a c"
  by (auto simp: resent_def calls_def)

lemma resent_calls: "calls a b \<Longrightarrow> resent a b"
  by (simp add: resent_def)

lemma resent_down: "calls a b \<Longrightarrow> client_state a = IOTX_MC_STATE_CONNECTED \<Longrightarrow>
    resent a (iotx_mc_set_client_state IOTX_MC_STATE_DISCONNECTED b)"
  by (simp add: resent_def calls_def core_keeps) (simp add: iotx_mc_set_client_state_def)

text \<open>
  What the walk does to the list: acknowledged nodes go, the others stay in their order; only when
  the network failed, the rest of the list is as it was.
\<close>

definition walked :: "pub_info list \<Rightarrow> mqtt_client \<Rightarrow> pub_info list \<Rightarrow> mqtt_client \<Rightarrow> bool" where
  "walked nodes c kept c' \<longleftrightarrow> resent c c' \<and>
     (\<exists>past rest. nodes = past @ rest \<and> (rest \<noteq> [] \<longrightarrow> client_state (core c') \<noteq> client_state (core c)) \<and>
        list_all2 same_packet (filter (\<lambda>n. node_state n \<noteq> IOTX_MC_NODE_STATE_INVALID) past @ rest) kept)"


lemma walked_skip:
  assumes "node_state n = IOTX_MC_NODE_STATE_INVALID" "walked ns c kept c'"
  shows "walked (n # ns) c kept c'"
proof -
  obtain past rest where "ns = past @ rest" "rest \<noteq> [] \<longrightarrow> client_state (core c') \<noteq> client_state (core c)"
      "list_all2 same_packet (filter (\<lambda>n. node_state n \<noteq> IOTX_MC_NODE_STATE_INVALID) past @ rest) kept" "resent c c'"
    using assms(2) by (auto simp: walked_def)
  then show ?thesis using assms(1) unfolding walked_def
    by (intro conjI exI [of _ "n # past"] exI [of _ rest]) simp_all
qed

lemma walked_keep:
  assumes "walked ns c1 kept c'" "node_state n \<noteq> IOTX_MC_NODE_STATE_INVALID" "calls c c1" "same_packet n n'"
  shows "walked (n # ns) c (n' # kept) c'"
proof -
  obtain past rest where "ns = past @ rest" "rest \<noteq> [] \<longrightarrow> client_state (core c') \<noteq> client_state (core c1)"
      "list_all2 same_packet (filter (\<lambda>n. node_state n \<noteq> IOTX_MC_NODE_STATE_INVALID) past @ rest) kept" "resent c1 c'"
    using assms(1) by (auto simp: walked_def)
  then show ?thesis using assms(2,4) resent_trans [OF assms(3)] assms(3) unfolding walked_def calls_def
    by (intro conjI exI [of _ "n # past"] exI [of _ rest]) simp_all
qed

lemma same_packet_refl [simp]: "same_packet n n" "same_packet n (n\<lparr>pub_start_time := t\<rparr>)"
  by (simp_all add: same_packet_def)

lemma same_packets_refl: "list_all2 same_packet ns ns"
  by (simp add: list_all2_same)

lemma walked_stop:
  assumes "node_state n \<noteq> IOTX_MC_NODE_STATE_INVALID" "client_state c = IOTX_MC_STATE_CONNECTED" "calls c c1"
  shows "walked (n # ns) c (n\<lparr>pub_start_time := t\<rparr> # ns) (iotx_mc_set_client_state IOTX_MC_STATE_DISCONNECTED c1)"
  using assms(1,2) resent_down [OF assms(3,2)] unfolding walked_def
  by (intro conjI exI [of _ "[n]"] exI [of _ ns]) (simp_all add: same_packets_refl core_keeps)

lemma pub_info_loop_walked:
  "post (pub_info_loop env nodes c) (\<lambda>(kept, c'). walked nodes c kept c')"
proof (induction nodes arbitrary: c)
  case Nil
  then show ?case by (auto intro!: wp simp: walked_def)
next
  case (Cons n ns)
  have IH: "\<And>Q. (\<And>kept c'. walked ns c1 kept c' \<Longrightarrow> Q (kept, c')) \<Longrightarrow> post (pub_info_loop env ns c1) Q" for c1
    using Cons.IH [of c1] by (auto simp: post_def)
  show ?case
    by (auto intro!: wp IH dest!: core_uptime)
      ((erule (1) walked_skip | (erule walked_keep, assumption, simp add: calls_def, simp) |
        (rule walked_stop, assumption, assumption, simp add: calls_def))+)
qed


lemma wait_ok_same: "same_packet n m \<Longrightarrow> wait_ok n \<Longrightarrow> wait_ok m"
  by (simp add: same_packet_def wait_ok_def)

lemma all2_partner: "list_all2 R xs ys \<Longrightarrow> y \<in> set ys \<Longrightarrow> \<exists>x\<in>set xs. R x y"
  by (induction rule: list_all2_induct) auto

lemma walked_waits:
  assumes "walked nodes c kept c'" "\<forall>n\<in>set nodes. wait_ok n"
  shows "length kept \<le> length nodes" "\<forall>n\<in>set kept. wait_ok n"
proof -
  obtain past rest where p: "nodes = past @ rest"
      "list_all2 same_packet (filter (\<lambda>n. node_state n \<noteq> IOTX_MC_NODE_STATE_INVALID) past @ rest) kept"
    using assms(1) by (auto simp: walked_def)
  show "length kept \<le> length nodes"
    using list_all2_lengthD [OF p(2)] length_filter_le [of "\<lambda>n. node_state n \<noteq> IOTX_MC_NODE_STATE_INVALID" past]
    unfolding p(1) length_append by linarith
  show "\<forall>n\<in>set kept. wait_ok n"
  proof
    fix m assume "m \<in> set kept"
    then obtain n where "n \<in> set nodes" "same_packet n m"
      using all2_partner [OF p(2)] p(1) by fastforce
    then show "wait_ok m" using assms(2) wait_ok_same by blast
  qed
qed

lemma resent_keeps: "resent c c' \<Longrightarrow> keeps c c'"
  by (auto simp: resent_def keeps_def calls_def down_def)

lemma walked_keeps:
  assumes "walked (list_pub_wait_ack c) c kept c'"
  shows "keeps c (c'\<lparr>list_pub_wait_ack := kept\<rparr>)"
proof -
  have r: "keeps c c'" using assms by (simp add: walked_def resent_keeps)
  have "cfg_ok (c'\<lparr>list_pub_wait_ack := kept\<rparr>)" if ok: "cfg_ok c"
  proof -
    have "\<forall>n\<in>set (list_pub_wait_ack c). wait_ok n" "length (list_pub_wait_ack c) \<le> IOTX_MC_REPUB_NUM_MAX"
      using ok by (simp_all add: cfg_inv_def core_keeps)
    then show ?thesis
      using r ok walked_waits [OF assms] by (simp add: keeps_def) (simp add: cfg_inv_def)
  qed
  then show ?thesis using r by (simp add: keeps_def)
qed

lemma wp_PubInfoProc [wp]:
  "(\<And>rc c'. keeps c c' \<Longrightarrow> Q (rc, c')) \<Longrightarrow> post (MQTTPubInfoProc env c) Q"
  unfolding MQTTPubInfoProc_def
  using pub_info_loop_walked [of env "list_pub_wait_ack c" c] walked_keeps
  by (auto simp: post_def bind_eq_Some_conv)

text \<open>
  A cycle also takes back the marks of the keep-alive: three unanswered pings end the connection.
\<close>

definition cycled :: "mqtt_client \<Rightarrow> mqtt_client \<Rightarrow> bool" where
  "cycled c c' \<longleftrightarrow> keeps c c' \<and> (buf_read c = None \<longrightarrow> buf_read c' = None) \<and>
     (client_state (core c) = IOTX_MC_STATE_CONNECTED \<longrightarrow> keepalive_probes (core c') \<le> 2)"

lemma wp_cycle [wp]:
  assumes "\<And>rc c'. cycled c c' \<Longrightarrow> Q (rc, c')"
  shows "post (iotx_mc_cycle env timer c) Q"
proof -
  have c: "cycled c c'" if "iotx_mc_cycle env timer c = Some (rc, c')" for rc c'
  proof (cases "client_state c = IOTX_MC_STATE_CONNECTED")
    case False
    then show ?thesis using that by (auto simp: iotx_mc_cycle_def cycled_def core_keeps)
  next
    case True
    define c1 where "c1 = (if IOTX_MC_KEEPALIVE_PROBE_MAX < keepalive_probes c
                 then (iotx_mc_set_client_state IOTX_MC_STATE_DISCONNECTED c)\<lparr>keepalive_probes := 0\<rparr> else c)"
    have T: "client_state (core c) = IOTX_MC_STATE_CONNECTED" using True by (simp add: core_keeps)
    have c1: "cfg_ok c1 = cfg_ok c" "buf_send c1 = buf_send c" "keepalive_probes (core c1) \<le> 2"
        "down IOTX_MC_STATE_CONNECTED (client_state (core c1))"
      using True by (auto simp: c1_def core_keeps IOTX_MC_KEEPALIVE_PROBE_MAX_def down_def iotx_mc_set_client_state_def)
    have m: "iotx_mc_cycle env timer c =
       do { (rc, packetType, c) \<leftarrow> iotx_mc_read_packet env timer (env_garbage env (mc_tick c1)) c1;
             if rc \<noteq> SUCCESS_RETURN
             then
               let c = reset_recv_buffer c in
               Some (MQTT_NETWORK_ERROR,
                 if rc = MQTT_NETWORK_ERROR then iotx_mc_set_client_state IOTX_MC_STATE_DISCONNECTED c else c)
             else if packet_type_is packetType MQTT_CPT_RESERVED then Some (SUCCESS_RETURN, reset_recv_buffer c)
             else
               do { (rc, c) \<leftarrow> dispatch_packet env packetType (c\<lparr>keepalive_probes := 0\<rparr>);
                    Some (rc, reset_recv_buffer c) } }"
      using True by (simp add: iotx_mc_cycle_def c1_def Let_def)
    have "post (iotx_mc_cycle env timer c) (\<lambda>(rc, c'). cycled c c')"
      unfolding m using c1 T
      by (auto intro!: wp simp: cycled_def keeps_def down_def split: if_split_asm)
    then show ?thesis using that by (simp add: post_def)
  qed
  show ?thesis by (rule post_any) (use c assms in force)
qed


lemma cycled_keeps: "cycled c c' \<Longrightarrow> keeps c c'"
  by (simp add: cycled_def)

lemma cycled_then: "cycled a b \<Longrightarrow> keeps b c \<Longrightarrow> buf_read c = buf_read b \<Longrightarrow> cycled a c"
  using keeps_trans [of a b c] by (simp add: cycled_def) (auto simp: keeps_def)

lemma cycled_trans: "cycled a b \<Longrightarrow> cycled b c \<Longrightarrow> cycled a c"
  using keeps_trans [of a b c] by (simp add: cycled_def) (auto simp: keeps_def)

lemma PubInfoProc_buf: "MQTTPubInfoProc env c = Some (rc, c') \<Longrightarrow> buf_read c' = buf_read c"
  using pub_info_loop_walked [of env "list_pub_wait_ack c" c]
  by (auto simp: MQTTPubInfoProc_def bind_eq_Some_conv post_def walked_def resent_def calls_def)

text \<open>The round of \<open>_mqtt_cycle\<close>.\<close>

lemma wp_cycle_proc:
  assumes "cycled c c1" "\<And>rc c'. cycled c c' \<Longrightarrow> Q (rc, c')"
  shows "post (MQTTPubInfoProc env c1) Q"
proof -
  have "cycled c c2" if "MQTTPubInfoProc env c1 = Some (r, c2)" for r c2
    using wp_PubInfoProc [of c1 "\<lambda>x. keeps c1 (snd x)"] that PubInfoProc_buf [OF that]
    by (intro cycled_then [OF assms(1)]) (auto simp: post_def)
  then show ?thesis using assms(2) by (auto simp: post_def)
qed

lemma cycle_loop_cycled:
  assumes "mqtt_cycle_loop env timer c = Some c'"
  shows "cycled c c'"
proof (rule mqtt_cycle_loop.raw_induct [where P = "\<lambda>env timer c c'. cycled c c'", OF _ assms])
  fix f env timer c c'
  assume IH: "\<And>env timer c c'. f env timer c = Some c' \<Longrightarrow> cycled c c'"
    and e: "do { (rc, c) \<leftarrow> iotx_mc_cycle env timer c;
          c \<leftarrow> (if rc = SUCCESS_RETURN then map_option snd (MQTTPubInfoProc env c) else Some c);
          case time_left env timer c of (l, c) \<Rightarrow>
            let c = emit (OutSleep (if l < 10 then unat l else 10)) c in
            case time_expired env timer c of (expired, c) \<Rightarrow>
              if expired then Some c else f env timer c } = Some c'"
  have calm: "cycled a d" if "cycled a b" "calls (emit out b') d" "calls b b'" for a b b' d :: mqtt_client and out
    using that by (intro cycled_then [OF that(1)] keeps_calls) (simp_all add: calls_def)
  have wpf: "post (f env timer c1) (\<lambda>c'. cycled c c')" if "cycled c c1" for c1
    using IH cycled_trans [OF that] by (auto simp: post_def)
  have "post (do { (rc, c) \<leftarrow> iotx_mc_cycle env timer c;
          c \<leftarrow> (if rc = SUCCESS_RETURN then map_option snd (MQTTPubInfoProc env c) else Some c);
          case time_left env timer c of (l, c) \<Rightarrow>
            let c = emit (OutSleep (if l < 10 then unat l else 10)) c in
            case time_expired env timer c of (expired, c) \<Rightarrow>
              if expired then Some c else f env timer c }) (\<lambda>c'. cycled c c')"
    by (auto intro!: post_bind wp_cycle post_prod wp_cycle_proc [where c = c] post_map post_let post_if post_Some wpf
        dest!: core_time_left core_expired intro: calm)
  then show "cycled c c'" using e by (simp add: post_def)
qed

lemma wp_mqtt_cycle [wp]:
  "(\<And>c'. cycled c c' \<Longrightarrow> Q c') \<Longrightarrow> post (mqtt_cycle env c) Q"
proof -
  assume Q: "\<And>c'. cycled c c' \<Longrightarrow> Q c'"
  have "cycled c c'" if "calls c c1" "cycled c1 c'" for c1 c'
    using keeps_trans [OF keeps_calls [OF that(1)], of c'] that by (simp add: cycled_def calls_def)
  then show ?thesis unfolding mqtt_cycle_def
    by (auto intro!: post_any Q dest!: core_countdown cycle_loop_cycled split: prod.split_asm)
qed

end
