(* ===== verification/MqttClientSafe.thy ===== *)
theory MqttClientSafe
  imports MqttClientInv
begin

text \<open>
  The operations of the MQTT client's interface keep it well formed, and the connection state
  moves along the edges the code intends.
\<close>

subsection \<open>Connecting\<close>

lemma wp_any_api [wp]:
  "(\<And>x. MQTTSerialize_connect b n d = Some x \<Longrightarrow> Q1 x) \<Longrightarrow> post (MQTTSerialize_connect b n d) Q1"
  "(\<And>x. MQTTSerialize_pingreq b n = Some x \<Longrightarrow> Q2 x) \<Longrightarrow> post (MQTTSerialize_pingreq b n) Q2"
  "(\<And>x. MQTTSerialize_disconnect b n = Some x \<Longrightarrow> Q2 x) \<Longrightarrow> post (MQTTSerialize_disconnect b n) Q2"
  "(\<And>x. MQTTSerialize_subscribe b n dup i fs = Some x \<Longrightarrow> Q3 x) \<Longrightarrow> post (MQTTSerialize_subscribe b n dup i fs) Q3"
  "(\<And>x. MQTTSerialize_unsubscribe b n dup i ts = Some x \<Longrightarrow> Q4 x) \<Longrightarrow> post (MQTTSerialize_unsubscribe b n dup i ts) Q4"
  by (simp_all add: post_def)

text \<open>The state is kept, and no buffer is left behind.\<close>

definition frees :: "mqtt_client \<Rightarrow> mqtt_client \<Rightarrow> bool" where
  "frees c c' \<longleftrightarrow> (buf_send c = None \<longrightarrow> buf_send c' = None) \<and> (buf_read c = None \<longrightarrow> buf_read c' = None)"

definition quiet :: "mqtt_client \<Rightarrow> mqtt_client \<Rightarrow> bool" where
  "quiet c c' \<longleftrightarrow> core c' = core c \<and> frees c c'"

lemma quietI: "core c' = core c \<Longrightarrow> frees c c' \<Longrightarrow> quiet c c'"
  by (simp add: quiet_def)

lemma frees_simps [simp]: "frees c c" "buf_send d = None \<Longrightarrow> buf_read d = None \<Longrightarrow> frees c d"
    "buf_send d = buf_send c \<Longrightarrow> buf_read d = buf_read c \<Longrightarrow> frees c d"
    "buf_send d = None \<Longrightarrow> buf_read d = buf_read c \<Longrightarrow> frees c d"
    "buf_send d = buf_send c \<Longrightarrow> buf_read d = None \<Longrightarrow> frees c d"
  by (simp_all add: frees_def)

lemma quiet_trans: "quiet a b \<Longrightarrow> quiet b c \<Longrightarrow> quiet a c"
  by (auto simp: quiet_def frees_def)

lemma wp_MQTTConnect [wp]:
  "(\<And>rc c'. quiet c c' \<Longrightarrow> Q (rc, c')) \<Longrightarrow> post (MQTTConnect env c) Q"
  unfolding MQTTConnect_def by (auto intro!: wp dest!: core_calls simp: calls_def quiet_def)

lemma wp_wait_connack_loop:
  "(\<And>rc c'. core c' = core c \<Longrightarrow> buf_send c' = buf_send c \<Longrightarrow> Q (rc, c')) \<Longrightarrow> post (wait_connack_loop env timer k t c) Q"
  by (induction k arbitrary: c t) (auto intro!: wp)

lemma wp_wait_CONNACK [wp]:
  "(\<And>rc c'. quiet c c' \<Longrightarrow> Q (rc, c')) \<Longrightarrow> post (iotx_mc_wait_CONNACK env c) Q"
  unfolding iotx_mc_wait_CONNACK_def
  by (auto intro!: wp wp_wait_connack_loop dest!: core_calls simp: calls_def quiet_def)

lemma connect_loop_quiet: "post (connect_loop env k c) (\<lambda>(rc, c'). quiet c c')"
proof (induction k arbitrary: c)
  case (Suc k)
  have IH: "post (connect_loop env k c1) (\<lambda>(rc, c'). quiet c c')" if "quiet c c1" for c1
    using Suc quiet_trans [OF that] by (fastforce simp: post_def)
  have out: "quiet c (emit o2 c2)" "quiet c (snd (net_connect env (emit o1 (emit o2 c2))))" if "quiet c c2" for c2 o1 o2
    using that by (simp_all add: quiet_def frees_def net_connect_def Let_def)
  show ?case
    by (auto intro!: wp IH out intro: quiet_trans)
qed (auto intro!: wp simp: quiet_def)

lemma tcp_connect_quiet: "quiet c (tcp_connect_loop env k c)"
proof (induction k arbitrary: c)
  case (Suc k)
  have "quiet c (emit o1 (emit o2 c1))" if "net_connect env c = (rc, c1)" for rc c1 o1 o2
    using core_net_connect [OF that] by (simp add: quiet_def calls_def)
  moreover have "quiet c c1" if "net_connect env c = (rc, c1)" for rc c1
    using core_net_connect [OF that] by (simp add: quiet_def calls_def)
  ultimately show ?case using Suc quiet_trans by (fastforce simp: Let_def split: prod.split)
qed (simp add: quiet_def)

text \<open>A connection attempt either changes nothing or brings the client up.\<close>

definition connected :: "mqtt_client \<Rightarrow> int \<Rightarrow> mqtt_client \<Rightarrow> bool" where
  "connected c rc c' \<longleftrightarrow> frees c c' \<and>
     (if rc = 0 then \<exists>t. core c' = (core c)\<lparr>keepalive_probes := 0, client_state := IOTX_MC_STATE_CONNECTED, next_ping_time := t\<rparr>
      else core c' = core c)"

lemma wp_connect_loop [wp]:
  "(\<And>rc c'. quiet c c' \<Longrightarrow> Q (rc, c')) \<Longrightarrow> post (connect_loop env k c) Q"
  using connect_loop_quiet [of env k c] by (auto simp: post_def)

lemma mqtt_connect_connected: "post (mqtt_connect env c) (\<lambda>(rc, c'). connected c rc c')"
proof -
  have up: "connected c 0 (c2\<lparr>next_ping_time := t\<rparr>)"
    if "quiet c c1" "calls (iotx_mc_set_client_state IOTX_MC_STATE_CONNECTED (c1\<lparr>keepalive_probes := 0\<rparr>)) c2" for c1 c2 t
    using that unfolding connected_def quiet_def calls_def frees_def by simp blast
  have no: "connected c rc c1" if "quiet c c1" "rc \<noteq> 0" for c1 rc
    using that by (simp add: connected_def quiet_def)
  show ?thesis unfolding mqtt_connect_def
    by (auto intro!: wp_connect_loop post_bind post_prod post_if post_let post_Some no up dest!: core_countdown)
qed

lemma wp_mqtt_connect [wp]:
  "(\<And>rc c'. connected c rc c' \<Longrightarrow> Q (rc, c')) \<Longrightarrow> post (mqtt_connect env c) Q"
  using mqtt_connect_connected [of env c] by (auto simp: post_def)

lemma connected_from: "quiet a b \<Longrightarrow> connected b rc c \<Longrightarrow> connected a rc c"
  by (auto simp: connected_def quiet_def frees_def)

lemma wp_wrapper_connect [wp]:
  "(\<And>rc c'. connected c rc c' \<Longrightarrow> Q (rc, c')) \<Longrightarrow> post (wrapper_mqtt_connect env c) Q"
  unfolding wrapper_mqtt_connect_def by (rule wp_mqtt_connect) (blast intro: connected_from tcp_connect_quiet)

subsection \<open>Keep-alive\<close>

lemma wp_MQTTKeepalive [wp]:
  "(\<And>rc c'. quiet c c' \<Longrightarrow> Q (rc, c')) \<Longrightarrow> post (MQTTKeepalive env c) Q"
  unfolding MQTTKeepalive_def by (auto intro!: wp dest!: core_calls simp: calls_def quiet_def)

lemma wp_MQTTDisconnect [wp]:
  "(\<And>rc c'. quiet c c' \<Longrightarrow> Q (rc, c')) \<Longrightarrow> post (MQTTDisconnect env c) Q"
  unfolding MQTTDisconnect_def by (auto intro!: wp dest!: core_calls simp: calls_def quiet_def)

text \<open>The marks after sending a ping: at most three, and then the next cycle sees a connected client.\<close>

definition pinged :: "mqtt_client \<Rightarrow> mqtt_client \<Rightarrow> bool" where
  "pinged c c' \<longleftrightarrow> cfg_ok c' = cfg_ok c \<and> frees c c' \<and> down (client_state (core c)) (client_state (core c')) \<and>
     reconnect_time_interval_ms (core c') = reconnect_time_interval_ms (core c) \<and>
     (keepalive_probes (core c) \<le> 2 \<longrightarrow>
        keepalive_probes (core c') \<le> 2 \<or> client_state (core c') = IOTX_MC_STATE_CONNECTED)"

lemma wp_keepalive_sub [wp]:
  "(\<And>rc c'. pinged c c' \<Longrightarrow> Q (rc, c')) \<Longrightarrow> post (iotx_mc_keepalive_sub env c) Q"
proof -
  assume Q: "\<And>rc c'. pinged c c' \<Longrightarrow> Q (rc, c')"
  have refl: "pinged c c" by (simp add: pinged_def)
  show ?thesis
  proof (cases "client_state c = IOTX_MC_STATE_CONNECTED")
    case False
    then show ?thesis
      by (auto simp: iotx_mc_keepalive_sub_def wrapper_mqtt_check_state_def intro!: wp Q refl)
  next
    case True
    then have "client_state (core c) = IOTX_MC_STATE_CONNECTED" by (simp add: core_keeps)
    then show ?thesis unfolding iotx_mc_keepalive_sub_def
      by (auto intro!: wp Q refl dest!: core_calls simp: calls_def quiet_def frees_def pinged_def down_def
          split: if_splits)
  qed
qed


subsection \<open>Reconnecting\<close>

lemma backoff_bounds:
  "1000 \<le> i \<Longrightarrow> i < 120000 \<Longrightarrow> 1000 \<le> reconnect_backoff i \<and> reconnect_backoff i < 120000"
proof (cases "i < 60000")
  case True
  then have "unat i < 60000" by (simp add: word_less_nat_alt)
  then have "unat (i * 2) = unat i * 2" by (simp add: unat_mult_lem [THEN iffD1])
  then show "1000 \<le> i \<Longrightarrow> ?thesis" using True
    by (simp add: reconnect_backoff_def IOTX_MC_RECONNECT_INTERVAL_MAX_MS_def word_le_nat_alt word_less_nat_alt)
qed (simp add: reconnect_backoff_def IOTX_MC_RECONNECT_INTERVAL_MAX_MS_def)

lemma cfg_interval:
  "cfg_inv c \<Longrightarrow> 1000 \<le> i \<Longrightarrow> i < 120000 \<Longrightarrow> cfg_inv (c\<lparr>reconnect_time_interval_ms := i\<rparr>)"
  by (simp add: cfg_inv_def)

lemma cfg_backoff: "cfg_ok c \<Longrightarrow> cfg_inv ((core c)\<lparr>reconnect_time_interval_ms := reconnect_backoff (reconnect_time_interval_ms c)\<rparr>)"
  using backoff_bounds [of "reconnect_time_interval_ms c"] by (intro cfg_interval) (auto simp: cfg_inv_def core_keeps)

text \<open>The edges of the connection state in one round of the keep-alive, and in one yield.\<close>

fun keepalive_edge :: "iotx_mc_state \<Rightarrow> iotx_mc_state \<Rightarrow> bool" where
  "keepalive_edge IOTX_MC_STATE_CONNECTED s =
     (s = IOTX_MC_STATE_CONNECTED \<or> s = IOTX_MC_STATE_DISCONNECTED_RECONNECTING)"
| "keepalive_edge IOTX_MC_STATE_DISCONNECTED s = (s = IOTX_MC_STATE_DISCONNECTED_RECONNECTING)"
| "keepalive_edge IOTX_MC_STATE_DISCONNECTED_RECONNECTING s =
     (s = IOTX_MC_STATE_DISCONNECTED_RECONNECTING \<or> s = IOTX_MC_STATE_CONNECTED)"
| "keepalive_edge IOTX_MC_STATE_CONNECT_BLOCK s = (s = IOTX_MC_STATE_CONNECT_BLOCK \<or> s = IOTX_MC_STATE_CONNECTED)"
| "keepalive_edge s0 s = (s = s0)"

definition kept_alive :: "mqtt_client \<Rightarrow> mqtt_client \<Rightarrow> bool" where
  "kept_alive c c' \<longleftrightarrow> (cfg_ok c \<longrightarrow> cfg_ok c') \<and> frees c c' \<and>
     keepalive_edge (client_state (core c)) (client_state (core c')) \<and>
     (keepalive_probes (core c) \<le> 2 \<longrightarrow>
        keepalive_probes (core c') \<le> 2 \<or> client_state (core c') = IOTX_MC_STATE_CONNECTED)"

text \<open>An attempt to reconnect.\<close>

definition retried :: "mqtt_client \<Rightarrow> int \<Rightarrow> mqtt_client \<Rightarrow> bool" where
  "retried c rc c' \<longleftrightarrow> (cfg_ok c \<longrightarrow> cfg_ok c') \<and> frees c c' \<and>
     (if rc = 0 then client_state (core c') = IOTX_MC_STATE_CONNECTED
      else client_state (core c') = client_state (core c) \<and> keepalive_probes (core c') = keepalive_probes (core c))"

lemma retried_up:
  assumes "connected c1 0 c2" "quiet c c1"
  shows "retried c 0 (iotx_mc_set_client_state IOTX_MC_STATE_CONNECTED c2)"
  using assms by (auto simp: retried_def connected_def quiet_def frees_def)

lemma retried_no:
  assumes "connected c1 rc c2" "quiet c c1" "rc \<noteq> 0"
    "calls (c2\<lparr>reconnect_time_interval_ms := reconnect_backoff (reconnect_time_interval_ms c2)\<rparr>) c3"
  shows "retried c rc (c3\<lparr>reconnect_next_time := t\<rparr>)"
proof -
  have "core c2 = core c" using assms(1-3) by (simp add: connected_def quiet_def)
  moreover have "frees c c2" using assms(1,2) by (auto simp: connected_def quiet_def frees_def)
  ultimately show ?thesis
    using assms(3,4) cfg_backoff [of c2] unfolding retried_def calls_def frees_def by auto
qed

lemma retried_block: "connected c1 rc c2 \<Longrightarrow> quiet c c1 \<Longrightarrow> rc \<noteq> 0 \<Longrightarrow> retried c rc c2"
  by (auto simp: retried_def connected_def quiet_def frees_def)

lemma wp_handle_reconnect [wp]:
  assumes Q: "\<And>rc c'. retried c rc c' \<Longrightarrow> Q (rc, c')"
  shows "post (iotx_mc_handle_reconnect env c) Q"
proof -
  have q: "quiet c (emit o1 c1)" if "calls c c1" for c1 o1
    using that by (simp add: quiet_def calls_def frees_def)
  have w: "retried c (-1) (emit o1 c1)" if "calls c c1" for c1 o1
    using that by (simp add: retried_def calls_def frees_def)
  show ?thesis
    unfolding iotx_mc_handle_reconnect_def iotx_mc_attempt_reconnect_def
    by (auto intro!: post_let post_prod post_if post_Some post_bind wp_wrapper_connect Q w
        intro: retried_up retried_no retried_block q dest!: core_expired core_countdown)
qed


lemma edge_stay: "s \<noteq> IOTX_MC_STATE_DISCONNECTED \<Longrightarrow> keepalive_edge s s"
  by (cases s) simp_all

lemma pinged_edge:
  "down s s' \<Longrightarrow> s' \<noteq> IOTX_MC_STATE_DISCONNECTED \<Longrightarrow> s' = s"
  "down s IOTX_MC_STATE_DISCONNECTED \<Longrightarrow> keepalive_edge s IOTX_MC_STATE_DISCONNECTED_RECONNECTING"
  by (auto simp: down_def)

lemma kept_up:
  assumes "pinged c c1" "client_state c1 = IOTX_MC_STATE_DISCONNECTED_RECONNECTING \<or> client_state c1 = IOTX_MC_STATE_CONNECT_BLOCK"
    and "retried c1 0 c2" "core c3 = core c2" "buf_send c3 = buf_send c2" "buf_read c3 = buf_read c2"
  shows "kept_alive c (c3\<lparr>reconnect_time_interval_ms := IOTX_MC_RECONNECT_INTERVAL_MIN_MS\<rparr>)"
proof -
  have "client_state (core c1) = client_state (core c)"
    using assms(1,2) pinged_edge(1) core_keeps(3) [of c1] by (force simp: pinged_def)
  then show ?thesis
    using assms core_keeps(3) [of c1] unfolding kept_alive_def pinged_def retried_def frees_def
    by (auto intro!: cfg_interval simp: IOTX_MC_RECONNECT_INTERVAL_MIN_MS_def)
qed

lemma kept_wait:
  assumes "pinged c c1" "client_state c1 = IOTX_MC_STATE_DISCONNECTED_RECONNECTING \<or> client_state c1 = IOTX_MC_STATE_CONNECT_BLOCK"
    and "retried c1 rc c2" "rc \<noteq> 0"
  shows "kept_alive c c2"
proof -
  have "client_state (core c1) = client_state (core c)"
    using assms(1,2) pinged_edge(1) core_keeps(3) [of c1] by (force simp: pinged_def)
  then show ?thesis
    using assms core_keeps(3) [of c1] unfolding kept_alive_def pinged_def retried_def frees_def by auto
qed

lemma kept_stay:
  assumes "pinged c c1" "client_state c1 \<noteq> IOTX_MC_STATE_DISCONNECTED"
  shows "kept_alive c c1"
proof -
  have "client_state (core c1) = client_state (core c)"
    using assms pinged_edge(1) core_keeps(3) [of c1] by (force simp: pinged_def)
  then show ?thesis using assms edge_stay core_keeps(3) [of c1] by (auto simp: kept_alive_def pinged_def)
qed

lemma kept_down:
  assumes "pinged c c1" "client_state c1 = IOTX_MC_STATE_DISCONNECTED"
    and "calls ((client_callback EVENT_DISCONNECT c1)\<lparr>reconnect_time_interval_ms := IOTX_MC_RECONNECT_INTERVAL_MIN_MS\<rparr>) c2"
  shows "kept_alive c (iotx_mc_set_client_state IOTX_MC_STATE_DISCONNECTED_RECONNECTING
    (emit OutDisconnect (c2\<lparr>reconnect_next_time := t\<rparr>)))"
  using assms pinged_edge(2) core_keeps(3) [of c1] unfolding kept_alive_def pinged_def calls_def frees_def
  by (auto intro!: cfg_interval simp: IOTX_MC_RECONNECT_INTERVAL_MIN_MS_def)

lemma wp_keepalive [wp]:
  assumes Q: "\<And>c'. kept_alive c c' \<Longrightarrow> Q c'"
  shows "post (iotx_mc_keepalive env c) Q"
  unfolding iotx_mc_keepalive_def
  by (auto intro!: post_let post_prod post_if post_Some post_bind wp_keepalive_sub wp_handle_reconnect Q
      intro: kept_stay kept_down dest!: core_countdown)
    ((erule kept_wait, simp, assumption, assumption | erule kept_up, simp, assumption, simp, simp, simp)+)

text \<open>What a yield does to the state of the connection.\<close>

definition yield_edge :: "iotx_mc_state \<Rightarrow> iotx_mc_state \<Rightarrow> bool" where
  "yield_edge s s' \<longleftrightarrow> keepalive_edge s s' \<or>
     s' = IOTX_MC_STATE_DISCONNECTED \<and> keepalive_edge s IOTX_MC_STATE_CONNECTED"

definition mc_ok :: "mqtt_client \<Rightarrow> bool" where
  "mc_ok c \<longleftrightarrow> cfg_ok c \<and> buf_send c = None \<and> buf_read c = None \<and> keepalive_probes (core c) \<le> 2"

lemma wp_yield:
  assumes "mc_ok c" "\<And>rc c'. mc_ok c' \<Longrightarrow> 0 \<le> timeout_ms \<Longrightarrow> yield_edge (client_state (core c)) (client_state (core c')) \<Longrightarrow> Q (rc, c')"
    "timeout_ms < 0 \<Longrightarrow> Q (-1, c)"
  shows "post (wrapper_mqtt_yield env timeout_ms c) Q"
proof -
  have e: "mc_ok c2 \<and> yield_edge (client_state (core c)) (client_state (core c2))"
    if "kept_alive (c\<lparr>cycle_timeout_ms := t\<rparr>) c1" "cycled c1 c2" for t c1 c2
    using that assms(1)
    by (auto simp: kept_alive_def cycled_def mc_ok_def frees_def keeps_def yield_edge_def down_def)
  show ?thesis
    unfolding wrapper_mqtt_yield_def
    by (auto intro!: post_let post_if post_bind post_Some wp_keepalive wp_mqtt_cycle assms(2,3) dest: e)
qed


subsection \<open>Subscribing\<close>

lemma mc_okI: "cfg_ok c' \<Longrightarrow> frees c c' \<Longrightarrow> keepalive_probes (core c') = keepalive_probes (core c) \<Longrightarrow>
    mc_ok c \<Longrightarrow> mc_ok c'"
  by (simp add: mc_ok_def frees_def)

lemma next_packetid:
  assumes "iotx_mc_get_next_packetid c = (i, c')" "mc_ok c"
  shows "mc_ok c'" "1 \<le> i" "i \<le> 65535" "client_state (core c') = client_state (core c)" "frees c c'"
proof -
  have p: "packet_id c \<le> 65535"
    using assms(2) by (simp add: mc_ok_def cfg_inv_def core_keeps IOTX_MC_PACKET_ID_MAX_def)
  have i: "i = (if packet_id c = 65535 then 1 else packet_id c + 1)" "c' = c\<lparr>packet_id := i\<rparr>"
    using assms(1) by (auto simp: iotx_mc_get_next_packetid_def Let_def IOTX_MC_PACKET_ID_MAX_def)
  have "unat (packet_id c + 1) = unat (packet_id c) + 1" "unat (packet_id c) + 1 \<le> 65535" if "packet_id c \<noteq> 65535"
  proof -
    have "packet_id c < 65535" using p that by simp
    then have u: "unat (packet_id c) < 65535" by (simp add: word_less_nat_alt)
    then show "unat (packet_id c) + 1 \<le> 65535" by simp
    show "unat (packet_id c + 1) = unat (packet_id c) + 1"
      using u by (simp add: unat_add_lem [THEN iffD1])
  qed
  then show r: "1 \<le> i" "i \<le> 65535"
    unfolding i(1) by (simp_all add: word_le_nat_alt)
  show "mc_ok c'" "client_state (core c') = client_state (core c)" "frees c c'"
    using assms(2) r(2) by (simp_all add: i(2) mc_ok_def cfg_inv_def IOTX_MC_PACKET_ID_MAX_def)
qed

text \<open>Identical handlers are equal.\<close>

lemma identical_iff: "iotx_mc_check_handle_is_identical h1 h2 = 0 \<longleftrightarrow> h1 = h2"
  by (cases h1; cases "handle h1"; cases h2; cases "handle h2")
    (auto simp: iotx_mc_check_handle_is_identical_def iotx_mc_check_handle_is_identical_ex_def)

lemma cfg_add_handler: "cfg_ok c \<Longrightarrow> handler_ok h \<Longrightarrow> cfg_ok (add_handler h c)"
  by (auto simp: add_handler_def identical_iff cfg_inv_def core_keeps)

lemma add_handler_keeps [simp]:
  "buf_send (add_handler h c) = buf_send c" "buf_read (add_handler h c) = buf_read c"
  "client_state (core (add_handler h c)) = client_state (core c)"
  "keepalive_probes (core (add_handler h c)) = keepalive_probes (core c)"
  by (simp_all add: add_handler_def)

text \<open>What a request of the interface keeps: it can only note that the network has failed.\<close>

definition requested :: "mqtt_client \<Rightarrow> mqtt_client \<Rightarrow> bool" where
  "requested c c' \<longleftrightarrow> mc_ok c' \<and> down (client_state (core c)) (client_state (core c'))"

lemma requested_refl: "mc_ok c \<Longrightarrow> requested c c"
  by (simp add: requested_def)

lemma requested_note: "mc_ok c' \<Longrightarrow> client_state (core c') = client_state (core c) \<Longrightarrow>
    client_state (core c) = IOTX_MC_STATE_CONNECTED \<Longrightarrow> requested c (note_network_error rc c')"
  by (auto simp: requested_def note_network_error_def mc_ok_def down_def iotx_mc_set_client_state_def)

text \<open>The outcome of \<open>MQTTSubscribe\<close>: at most the handler has been added.\<close>

definition subscribed :: "topic_handle \<Rightarrow> mqtt_client \<Rightarrow> mqtt_client \<Rightarrow> bool" where
  "subscribed h c c' \<longleftrightarrow> quiet c c' \<or> (\<exists>d. quiet c d \<and> c' = add_handler h d)"

lemma subscribedI: "quiet c c' \<Longrightarrow> subscribed h c c'" "quiet c d \<Longrightarrow> subscribed h c (add_handler h d)"
  by (auto simp: subscribed_def)

lemma MQTTSubscribe_outcome:
  "post (MQTTSubscribe env f qos i h c) (\<lambda>(rc, c'). subscribed \<lparr>topic_filter = f, handle = h\<rparr> c c')"
  unfolding MQTTSubscribe_def
  by (auto intro!: wp dest!: core_calls simp: calls_def subscribedI quiet_def)

lemma subscribed_ok:
  assumes "subscribed h c c'" "mc_ok c" "handler_ok h"
  shows "mc_ok c' \<and> client_state (core c') = client_state (core c)"
proof -
  have "mc_ok d" "client_state (core d) = client_state (core c)" if "quiet c d" for d
    using that assms(2) by (simp_all add: quiet_def mc_ok_def frees_def)
  moreover have "mc_ok (add_handler h d)" if "mc_ok d" for d
    using that cfg_add_handler [OF _ assms(3), of d] by (simp add: mc_ok_def)
  ultimately show ?thesis using assms(1) by (auto simp: subscribed_def)
qed

lemma wp_MQTTSubscribe:
  assumes "mc_ok c" "handler_ok \<lparr>topic_filter = f, handle = h\<rparr>"
    and "\<And>rc c'. mc_ok c' \<Longrightarrow> client_state (core c') = client_state (core c) \<Longrightarrow> Q (rc, c')"
  shows "post (MQTTSubscribe env f qos i h c) Q"
  using MQTTSubscribe_outcome [of env f qos i h c] subscribed_ok [OF _ assms(1,2)] assms(3)
  by (auto simp: post_def)

lemma wp_wrapper_subscribe:
  assumes "mc_ok c" "\<And>rc c'. requested c c' \<Longrightarrow> Q (rc, c')"
  shows "post (wrapper_mqtt_subscribe env f qos h c) Q"
proof -
  have "post (wrapper_mqtt_subscribe env f qos h c) (\<lambda>(rc, c'). requested c c')"
  proof (cases "f = [] \<or> h_fp h = None \<or> iotx_mc_check_topic f TOPIC_FILTER_TYPE \<noteq> 0")
    case True
    have "requested c c1" if "iotx_mc_get_next_packetid c = (i, c1)" for i c1
      using next_packetid [OF that assms(1)] by (simp add: requested_def)
    then show ?thesis using True requested_refl [OF assms(1)]
      by (auto simp: wrapper_mqtt_subscribe_def intro!: post_if post_let post_prod post_Some)
  next
    case False
    then have h: "handler_ok \<lparr>topic_filter = f, handle = h\<rparr>" by (simp add: handler_ok_def)
    have r: "requested c c1" if "iotx_mc_get_next_packetid c = (i, c1)" for i c1
      using next_packetid [OF that assms(1)] by (simp add: requested_def)
    have n: "requested c (note_network_error rc c2)" "requested c c2"
      if "iotx_mc_get_next_packetid c = (i, c1)" "wrapper_mqtt_check_state c1"
        "mc_ok c2" "client_state (core c2) = client_state (core c1)" for i c1 c2 rc
      using next_packetid [OF that(1) assms(1)] that requested_note [of c2 c rc]
      by (auto simp: wrapper_mqtt_check_state_def requested_def core_keeps)
    show ?thesis using False
      by (auto simp: wrapper_mqtt_subscribe_def
          intro!: post_if post_let post_prod post_Some post_bind wp_MQTTSubscribe h next_packetid(1) [OF _ assms(1)]
          intro: n r split: if_split_asm)
  qed
  then show ?thesis using assms(2) by (auto simp: post_def)
qed

end
