(* ===== verification/MqttClientPublish.thy ===== *)
theory MqttClientPublish
  imports MqttClientSafe
begin

text \<open>
  Publishing with the MQTT client: the packet that goes out, the node that waits for its
  acknowledgement, and that a publication returns on a running clock.
\<close>

subsection \<open>The packet\<close>

lemma str_bytes_length [simp]: "length (str_bytes s) = length s"
  by (simp add: str_bytes_def)

lemma mstr_cstr: "length s < 65536 \<Longrightarrow> mstr (str_bytes s) (cstr s)"
  by (simp add: mstr_def cstr_def)

lemma packet_len_ge: "0 \<le> n \<Longrightarrow> n \<le> MQTTPacket_len n"
  by (simp add: MQTTPacket_len_def Let_def)

text \<open>The serialiser refuses the packet or writes it to the start of the buffer.\<close>

lemma serialize_publish_cases:
  assumes "length topic < 65536" "length b < 268435456" "0 \<le> q"
  shows "MQTTSerialize_publish b (int (length b)) 0 q r i (cstr topic) payload (int (length payload)) = Some (-2, b) \<or>
    (\<exists>b'. MQTTSerialize_publish b (int (length b)) 0 q r i (cstr topic) payload (int (length payload)) =
       Some (int (length (publish_packet q r i topic payload)), b') \<and> length b' = length b \<and>
       take (length (publish_packet q r i topic payload)) b' = publish_packet q r i topic payload \<and>
       length (publish_packet q r i topic payload) \<le> length b)"
proof -
  let ?body = "publish_body q i (str_bytes topic) payload"
  have len: "MQTTSerialize_publishLength q (cstr topic) (int (length payload)) = int (length ?body)"
    by (rule publishLength_body [OF mstr_cstr [OF assms(1)]])
  show ?thesis
  proof (cases "int (length b) < MQTTPacket_len (int (length ?body))")
    case True
    then show ?thesis by (simp add: MQTTSerialize_publish_def len MQTTPACKET_BUFFER_TOO_SHORT_def)
  next
    case False
    then have room: "MQTTPacket_len (int (length ?body)) \<le> int (length b)" by simp
    have body: "length ?body < 268435456"
      using packet_len_ge [of "int (length ?body)"] room assms(2) by linarith
    have fits: "length (publish_packet q r i topic payload) \<le> length b"
      using length_mqtt_packet [OF body, of "mqtt_header (cpt PUBLISH) 0 (word_of_int q) r"] room
      unfolding publish_packet_def by linarith
    then show ?thesis
      using publish_written [OF mstr_cstr [OF assms(1)] body room, of 0 r]
      by (auto simp: publish_packet_def Let_def)
  qed
qed

text \<open>The caller states the true length of the payload.\<close>

definition payload_stated :: "topic_info \<Rightarrow> bytes \<Rightarrow> bool" where
  "payload_stated msg payload \<longleftrightarrow> ti_payload msg = Some payload \<and>
     unat (ti_payload_len msg) = length payload \<and> length payload < 2147483648"

lemma payload_stated_sint: "payload_stated msg payload \<Longrightarrow> sint (ti_payload_len msg) = int (length payload)"
  unfolding payload_stated_def sint_uint uint_nat
  by (simp add: signed_take_bit_int_eq_self)


subsection \<open>The outcome\<close>

text \<open>
  The outcome of \<open>MQTTPublish\<close> with return code \<open>rc\<close>: on success the transport has accepted the
  whole packet and, above QoS 0, a node with it waits at the end of the list; after a failure the
  list is as it was, and the transport has accepted a part of the packet, or nothing.
\<close>

definition sent_outcome :: "topic_info \<Rightarrow> bytes \<Rightarrow> mqtt_client \<Rightarrow> int \<Rightarrow> mqtt_client \<Rightarrow> bool" where
  "sent_outcome msg pkt c rc c' \<longleftrightarrow>
     (if rc = 0
      then wire c' = wire c @ pkt \<and>
        (if 0 < ti_qos msg
         then length (list_pub_wait_ack c) < IOTX_MC_REPUB_NUM_MAX \<and>
           (\<exists>t. core c' = (core c)\<lparr>list_pub_wait_ack := list_pub_wait_ack c @
            [\<lparr>pub_start_time = t, node_state = IOTX_MC_NODE_STATE_NORMANL,
              msg_id = ti_packet_id msg, pub_buf = pkt\<rparr>]\<rparr>)
         else core c' = core c)
      else core c' = core c \<and> (\<exists>n. wire c' = wire c @ take n pkt))"

definition published :: "string \<Rightarrow> topic_info \<Rightarrow> bytes \<Rightarrow> mqtt_client \<Rightarrow> int \<Rightarrow> mqtt_client \<Rightarrow> bool" where
  "published topic msg payload c rc c' \<longleftrightarrow> frees c c' \<and>
     sent_outcome msg (publish_packet (uint (ti_qos msg)) (ti_retain msg) (ti_packet_id msg) topic payload) c rc c'"

lemma sent_outcome_from:
  "sent_outcome msg pkt d rc c' \<Longrightarrow> core d = core c \<Longrightarrow> wire d = wire c \<Longrightarrow> list_pub_wait_ack d = list_pub_wait_ack c \<Longrightarrow>
   sent_outcome msg pkt c rc c'"
  by (auto simp: sent_outcome_def split: if_splits)

lemma wire_calls:
  "countdown_ms env ms c = (t, c') \<Longrightarrow> wire c' = wire c" "mqtt_malloc env c = (ok, c') \<Longrightarrow> wire c' = wire c"
  "uptime env c = (now, c') \<Longrightarrow> wire c' = wire c" "alloc_send_buffer env len c = (rc, c') \<Longrightarrow> wire c' = wire c"
  by (auto simp: mc_env Let_def wire_def alloc_send_buffer_def split: if_splits)

lemma wire_reset [simp]: "wire (reset_send_buffer c) = wire c" "wire (c\<lparr>list_pub_wait_ack := w\<rparr>) = wire c"
    "wire (c\<lparr>buf_send := b\<rparr>) = wire c"
  by (simp_all add: reset_send_buffer_def wire_def)

text \<open>Waiting: the node holds the packet.\<close>

lemma push_cases:
  assumes "buf_send c = Some b" "0 \<le> len" "nat len \<le> length b"
  shows "\<exists>rc c'. iotx_mc_push_pubInfo_to env len i c = Some (rc, c') \<and> wire c' = wire c \<and>
    buf_send c' = buf_send c \<and> buf_read c' = buf_read c \<and> mc_tick c \<le> mc_tick c' \<and> mc_tick c' \<le> mc_tick c + 2 \<and>
    (rc = 0 \<and> length (list_pub_wait_ack c) < IOTX_MC_REPUB_NUM_MAX \<and>
       (\<exists>t. core c' = (core c)\<lparr>list_pub_wait_ack := list_pub_wait_ack c @
         [\<lparr>pub_start_time = t, node_state = IOTX_MC_NODE_STATE_NORMANL, msg_id = i, pub_buf = take (nat len) b\<rparr>]\<rparr>) \<and>
       list_pub_wait_ack c' \<noteq> [] \<and> butlast (list_pub_wait_ack c') = list_pub_wait_ack c
     \<or> rc \<noteq> 0 \<and> core c' = core c)"
  using assms
  by (auto simp: iotx_mc_push_pubInfo_to_def mqtt_malloc_def uptime_def wire_def)


subsection \<open>A running clock\<close>

text \<open>
  The uptime never runs backwards, does not stand still for ever, and two readings are at most
  2 to the 20 milliseconds (17 minutes) apart.
\<close>

definition clock :: "mqtt_env \<Rightarrow> (nat \<Rightarrow> nat) \<Rightarrow> bool" where
  "clock env clk \<longleftrightarrow> (\<forall>n. env_uptime env n = word_of_nat (clk n)) \<and>
     (\<forall>n. clk n \<le> clk (Suc n) \<and> clk (Suc n) \<le> clk n + 2 ^ 20) \<and> (\<forall>t. \<exists>n. t \<le> clk n)"

lemma clock_mono: "clock env clk \<Longrightarrow> m \<le> n \<Longrightarrow> clk m \<le> clk n"
  by (rule lift_Suc_mono_le [of clk]) (auto simp: clock_def)

lemma clock_bound: "clock env clk \<Longrightarrow> clk (n + d) \<le> clk n + d * 2 ^ 20"
proof (induction d)
  case (Suc d)
  have "clk (Suc (n + d)) \<le> clk (n + d) + 2 ^ 20" using Suc.prems by (simp add: clock_def)
  then show ?case using Suc by simp
qed simp

lemma clock_expired:
  assumes "clock env clk" "N0 \<le> clk k" "clk k < N0 + 2 ^ 30" "unat ms \<le> 5000"
  shows "utils_time_is_expired (env_uptime env k) (utils_time_countdown_ms (word_of_nat N0) ms) \<longleftrightarrow> N0 + unat ms \<le> clk k"
proof -
  define e where "e = clk k - N0"
  have k: "clk k = N0 + e" "e < 2 ^ 30" using assms(2,3) by (simp_all add: e_def)
  have now: "env_uptime env k = word_of_nat N0 + word_of_nat e"
    using assms(1) by (simp add: clock_def k(1))
  obtain v where v: "unat ms = v" "uint ms = int v" by (simp add: uint_nat)
  then have u: "v \<le> 5000" using assms(4) by simp
  have m: "(int e - int v) mod 2 ^ 32 = (if int e < int v then int e - int v + 2 ^ 32 else int e - int v)"
  proof (cases "int e < int v")
    case True
    have "(int e - int v) mod 2 ^ 32 = (int e - int v + 2 ^ 32) mod 2 ^ 32" by simp
    also have "\<dots> = int e - int v + 2 ^ 32" using True u by (intro mod_pos_pos_trivial) simp_all
    finally show ?thesis using True by simp
  next
    case False
    then show ?thesis using k(2) by simp
  qed
  show ?thesis
    unfolding now expired_iff v m using k u by auto
qed

lemma send_round_tick: "send_round env buf len timer sent c = (rc, c') \<Longrightarrow> mc_tick c' = mc_tick c + 3"
  by (auto simp: send_round_def mc_env Let_def case_prod_beta)

lemma send_loop_returns:
  assumes "clock env clk" "timer = utils_time_countdown_ms (word_of_nat N0) ms" "unat ms \<le> 5000"
    "N0 \<le> clk (mc_tick c)" "clk (mc_tick c) < N0 + 2 ^ 30"
  shows "\<exists>r. send_loop env buf len timer sent c = Some r"
proof -
  obtain M where M: "N0 + unat ms \<le> clk M" using assms(1) unfolding clock_def by blast
  show ?thesis using assms(4,5)
  proof (induction "M - mc_tick c" arbitrary: sent c rule: less_induct)
    case less
    have tick: "time_expired env timer c =
        (utils_time_is_expired (env_uptime env (mc_tick c)) timer, c\<lparr>mc_tick := Suc (mc_tick c)\<rparr>)"
      by (simp add: mc_env)
    obtain rc c' where r: "send_round env buf len timer sent c = (rc, c')" by fastforce
    show ?case
    proof (cases "sent < len \<and> \<not> fst (time_expired env timer c) \<and> \<not> rc < 0")
      case True
      then have before: "clk (mc_tick c) < N0 + unat ms"
        using clock_expired [OF assms(1) less.prems assms(3)] tick assms(2) by simp
      have "mc_tick c < M"
        using before M clock_mono [OF assms(1), of M "mc_tick c"] by (cases "mc_tick c < M") simp_all
      moreover have "clk (mc_tick c') \<le> clk (mc_tick c) + 3 * 2 ^ 20" "clk (mc_tick c) \<le> clk (mc_tick c')"
        using clock_bound [OF assms(1), of "mc_tick c" 3] clock_mono [OF assms(1), of "mc_tick c" "mc_tick c'"]
        by (simp_all add: send_round_tick [OF r])
      ultimately have "\<exists>r. send_loop env buf len timer (sent + nat rc) c' = Some r"
        using less.prems before assms(3) send_round_tick [OF r] by (intro less.hyps) simp_all
      then show ?thesis using True r by (simp add: send_loop_unfold [of _ _ _ _ sent])
    next
      case False
      then show ?thesis using r by (auto simp: send_loop_unfold [of _ _ _ _ sent])
    qed
  qed
qed


lemma send_packet_returns:
  assumes "clock env clk" "timer = utils_time_countdown_ms (word_of_nat N0) ms" "unat ms \<le> 5000"
    "N0 \<le> clk (mc_tick c)" "clk (mc_tick c) < N0 + 2 ^ 30" "len \<le> int (length buf)"
  shows "\<exists>rc c'. iotx_mc_send_packet env buf len timer c = Some (rc, c')"
  using send_loop_returns [OF assms(1-5), of buf "nat len" 0] assms(6)
  by (auto simp: iotx_mc_send_packet_def)

text \<open>The clock has moved on only a little between two near calls.\<close>

lemma clock_near:
  assumes "clock env clk" "k \<le> k'" "k' \<le> k + d"
  shows "clk k \<le> clk k' \<and> clk k' \<le> clk k + d * 2 ^ 20"
  using clock_mono [OF assms(1,2)] clock_mono [OF assms(1,3)] clock_bound [OF assms(1), of k d] by simp

lemma waiting_drop:
  assumes "core c1 = (core c)\<lparr>list_pub_wait_ack := w @ [n]\<rparr>" "list_pub_wait_ack c = w" "calls c1 c2"
  shows "core (c2\<lparr>list_pub_wait_ack := butlast (list_pub_wait_ack c2)\<rparr>) = core c"
proof -
  have "list_pub_wait_ack c2 = w @ [n]"
    using assms(1,3) core_keeps(1) [of c2] by (simp add: calls_def)
  moreover have "(core c)\<lparr>list_pub_wait_ack := w\<rparr> = core c"
    using assms(2) by (simp add: core_def)
  ultimately show ?thesis using assms(1,3) by (simp add: calls_def)
qed

lemma publish_send_outcome:
  fixes msg :: topic_info and pkt :: bytes
  defines "node \<equiv> \<lambda>t. \<lparr>pub_start_time = t, node_state = IOTX_MC_NODE_STATE_NORMANL,
      msg_id = ti_packet_id msg, pub_buf = pkt\<rparr>"
  assumes ck: "clock env clk" "timer = utils_time_countdown_ms (word_of_nat N0) ms" "unat ms \<le> 5000"
      "N0 \<le> clk (mc_tick c)" "clk (mc_tick c) \<le> N0 + 2 * 2 ^ 20"
    and w: "write_ok env" and b: "buf_send c = Some b" "length pkt \<le> length b" "take (length pkt) b = pkt"
  shows "\<exists>rc c'. publish_send env msg timer (int (length pkt)) b c = Some (rc, c') \<and>
    buf_send c' = None \<and> buf_read c' = buf_read c \<and> rc \<le> 0 \<and> sent_outcome msg pkt c rc c'"
proof -
  have send: "\<exists>rc c2. iotx_mc_send_packet env b (int (length pkt)) timer c1 = Some (rc, c2) \<and> calls c1 c2 \<and>
      (rc = 0 \<and> wire c2 = wire c1 @ pkt \<or> rc = -14 \<and> (\<exists>n. wire c2 = wire c1 @ take n pkt))"
    if "mc_tick c \<le> mc_tick c1" "mc_tick c1 \<le> mc_tick c + 2" for c1
  proof -
    have near: "clk (mc_tick c) \<le> clk (mc_tick c1) \<and> clk (mc_tick c1) \<le> clk (mc_tick c) + 2 * 2 ^ 20"
      by (rule clock_near [OF ck(1) that])
    then obtain rc c2 where s: "iotx_mc_send_packet env b (int (length pkt)) timer c1 = Some (rc, c2)"
      using send_packet_returns [OF ck(1-3), of c1 "int (length pkt)" b] ck(4,5) b(2) by auto
    have t: "take (nat (int (length pkt))) b = pkt" using b(3) by simp
    have "rc = 0 \<and> wire c2 = wire c1 @ pkt \<or> rc = -14 \<and> (\<exists>n. wire c2 = wire c1 @ take n pkt)"
      using send_packet_outcome(2) [OF s] send_packet_outcome(3,4) [OF s w, unfolded t] by fastforce
    then show ?thesis using s send_packet_calls [OF s] by blast
  qed
  show ?thesis
  proof (cases "0 < ti_qos msg")
    case False
    obtain rc c2 where s: "iotx_mc_send_packet env b (int (length pkt)) timer c = Some (rc, c2)" "calls c c2"
      "rc = 0 \<and> wire c2 = wire c @ pkt \<or> rc = -14 \<and> (\<exists>n. wire c2 = wire c @ take n pkt)"
      using send [of c] by auto
    then have "publish_send env msg timer (int (length pkt)) b c = Some (rc, reset_send_buffer c2)"
      using False by (auto simp: publish_send_def)
    then show ?thesis using s(2,3) False by (auto simp: calls_def sent_outcome_def node_def)
  next
    case True
    obtain rc c1 where p: "iotx_mc_push_pubInfo_to env (int (length pkt)) (ti_packet_id msg) c = Some (rc, c1)"
      "wire c1 = wire c" "buf_read c1 = buf_read c" "mc_tick c \<le> mc_tick c1" "mc_tick c1 \<le> mc_tick c + 2"
      "rc = 0 \<and> length (list_pub_wait_ack c) < IOTX_MC_REPUB_NUM_MAX \<and>
         (\<exists>t. core c1 = (core c)\<lparr>list_pub_wait_ack := list_pub_wait_ack c @ [node t]\<rparr>) \<or> rc \<noteq> 0 \<and> core c1 = core c"
      using push_cases [OF b(1), of "int (length pkt)" env "ti_packet_id msg"] b(2,3) unfolding node_def by auto
    show ?thesis
    proof (cases "rc = 0")
      case False
      then have "publish_send env msg timer (int (length pkt)) b c = Some (-42, reset_send_buffer c1)"
        using p(1) True by (simp add: publish_send_def)
      then show ?thesis using p(2,3,6) False by (auto simp: sent_outcome_def intro!: exI [of _ 0])
    next
      case ok: True
      then obtain t where t: "core c1 = (core c)\<lparr>list_pub_wait_ack := list_pub_wait_ack c @ [node t]\<rparr>"
        using p(6) by blast
      obtain rc' c2 where s: "iotx_mc_send_packet env b (int (length pkt)) timer c1 = Some (rc', c2)" "calls c1 c2"
        "rc' = 0 \<and> wire c2 = wire c1 @ pkt \<or> rc' = -14 \<and> (\<exists>n. wire c2 = wire c1 @ take n pkt)"
        using send [OF p(4,5)] by auto
      show ?thesis
      proof (cases "rc' = 0")
        case True
        then have "publish_send env msg timer (int (length pkt)) b c = Some (0, reset_send_buffer c2)"
          using p(1) ok s(1) \<open>0 < ti_qos msg\<close> by (simp add: publish_send_def)
        then show ?thesis using s(2,3) True t p(2,3,6) ok \<open>0 < ti_qos msg\<close> by (auto simp: calls_def sent_outcome_def node_def)
      next
        case False
        then have "publish_send env msg timer (int (length pkt)) b c =
            Some (-14, reset_send_buffer (c2\<lparr>list_pub_wait_ack := butlast (list_pub_wait_ack c2)\<rparr>))"
          using p(1) ok s(1) \<open>0 < ti_qos msg\<close> by (simp add: publish_send_def)
        then show ?thesis using waiting_drop [OF t refl s(2)] s(2,3) False p(2,3)
          by (auto simp: calls_def sent_outcome_def)
      qed
    qed
  qed
qed


lemma alloc_send_tick: "alloc_send_buffer env len c = (rc, c') \<Longrightarrow> mc_tick c' = Suc (mc_tick c)"
  by (auto simp: alloc_send_buffer_def mqtt_malloc_def Let_def split: if_splits)

lemma request_timeout_bound: "mc_ok c \<Longrightarrow> unat (request_timeout_ms c) \<le> 5000"
  by (simp add: mc_ok_def cfg_inv_def core_keeps word_le_nat_alt)

lemma send_max_bound: "mc_ok c \<Longrightarrow> unat (buf_size_send_max c) < 268435456"
  by (simp add: mc_ok_def cfg_inv_def core_keeps word_less_nat_alt)

lemma core_send_max: "core c' = core c \<Longrightarrow> buf_size_send_max c' = buf_size_send_max c"
  by (rule core_fields(10))

text \<open>Up to the serialiser: the publication fails, or its packet is in the send buffer.\<close>

lemma MQTTPublish_cases:
  fixes msg :: topic_info and topic :: string and payload :: bytes
  defines "pkt \<equiv> publish_packet (uint (ti_qos msg)) (ti_retain msg) (ti_packet_id msg) topic payload"
  assumes ok: "mc_ok c" and pl: "payload_stated msg payload" and tp: "length topic < 65536"
  obtains (fail) rc c' where "MQTTPublish env topic msg payload c = Some (rc, c')" "rc < 0" "core c' = core c"
      "wire c' = wire c" "buf_send c' = None" "buf_read c' = None"
  | (send) b c2 where
      "MQTTPublish env topic msg payload c = publish_send env msg
         (utils_time_countdown_ms (env_uptime env (mc_tick c)) (request_timeout_ms c)) (int (length pkt)) b c2"
      "buf_send c2 = Some b" "length pkt \<le> length b" "take (length pkt) b = pkt"
      "core c2 = core c" "wire c2 = wire c" "buf_read c2 = None" "mc_tick c2 = mc_tick c + 2"
proof -
  obtain timer c1 where t: "countdown_ms env (request_timeout_ms c) c = (timer, c1)" by fastforce
  obtain rc c2 where a: "alloc_send_buffer env (int (length topic) + uint (ti_payload_len msg)) c1 = (rc, c2)" by fastforce
  have timer: "timer = utils_time_countdown_ms (env_uptime env (mc_tick c)) (request_timeout_ms c)"
      "mc_tick c1 = Suc (mc_tick c)"
    using t by (auto simp: countdown_ms_def uptime_def)
  have c2: "core c2 = core c" "wire c2 = wire c" "buf_read c2 = None" "mc_tick c2 = mc_tick c + 2"
    using core_countdown [OF t] core_alloc_send [OF a] wire_calls(1) [OF t] wire_calls(4) [OF a] ok
      alloc_send_tick [OF a] timer(2) by (simp_all add: calls_def mc_ok_def)
  show thesis
  proof (cases "rc < 0")
    case True
    then have "MQTTPublish env topic msg payload c = Some (-1, c2)" "buf_send c2 = None"
      using core_alloc_send [OF a] by (auto simp: MQTTPublish_def t a)
    then show thesis using fail [of "-1" c2] c2 by simp
  next
    case False
    define b where "b = replicate (unat (buf_size_send c2)) (0 :: u8)"
    have b: "buf_send c2 = Some b" "uint (buf_size_send c2) = int (length b)" "length b < 268435456"
      using core_alloc_send [OF a] False core_countdown [OF t] send_max_bound [OF ok]
        core_send_max [of c1 c] by (auto simp: b_def calls_def word_le_nat_alt)
    have unfold: "MQTTPublish env topic msg payload c =
       do { (len, b) \<leftarrow> MQTTSerialize_publish b (int (length b)) 0 (uint (ti_qos msg)) (ti_retain msg)
              (ti_packet_id msg) (cstr topic) payload (int (length payload));
            let c = c2\<lparr>buf_send := Some b\<rparr>;
            if len \<le> 0 then Some (-21, reset_send_buffer c)
            else publish_send env msg timer len b c }"
      using False by (simp add: MQTTPublish_def t a b(1) b(2) payload_stated_sint [OF pl])
    have "0 < length pkt" by (simp add: pkt_def publish_packet_def mqtt_packet_def)
    from serialize_publish_cases [OF tp b(3), of "uint (ti_qos msg)" "ti_retain msg" "ti_packet_id msg" payload]
    consider "MQTTPublish env topic msg payload c = Some (-21, reset_send_buffer (c2\<lparr>buf_send := Some b\<rparr>))"
      | b' where "MQTTPublish env topic msg payload c =
          publish_send env msg timer (int (length pkt)) b' (c2\<lparr>buf_send := Some b'\<rparr>)"
        "length pkt \<le> length b'" "take (length pkt) b' = pkt"
      using \<open>0 < length pkt\<close> by (auto simp: unfold pkt_def)
    then show thesis
      by cases (use fail [of "-21"] send c2 in \<open>simp_all add: timer(1)\<close>)
  qed
qed

lemma MQTTPublish_outcome:
  assumes ck: "clock env clk" and w: "write_ok env" and ok: "mc_ok c"
    and pl: "payload_stated msg payload" and tp: "length topic < 65536"
  shows "\<exists>rc c'. MQTTPublish env topic msg payload c = Some (rc, c') \<and> published topic msg payload c rc c' \<and> rc \<le> 0"
  using ok pl tp
proof (cases rule: MQTTPublish_cases [where env = env])
  case (fail rc c')
  then show ?thesis by (auto simp: published_def sent_outcome_def frees_def intro!: exI [of _ 0])
next
  case (send b c2)
  have timer: "utils_time_countdown_ms (env_uptime env (mc_tick c)) (request_timeout_ms c) =
      utils_time_countdown_ms (word_of_nat (clk (mc_tick c))) (request_timeout_ms c)"
    using ck by (simp add: clock_def)
  have near: "clk (mc_tick c) \<le> clk (mc_tick c2) \<and> clk (mc_tick c2) \<le> clk (mc_tick c) + 2 * 2 ^ 20"
    by (rule clock_near [OF ck]) (simp_all add: send(8))
  show ?thesis
    using publish_send_outcome [OF ck timer request_timeout_bound [OF ok] _ _ w send(2,3,4)] near send(1,7)
      sent_outcome_from [OF _ send(5,6) core_fields(1) [OF send(5)]]
    by (fastforce simp: published_def frees_def)
qed

end
