(* ===== verification/MqttClientReach.thy ===== *)
theory MqttClientReach
  imports MqttClientPublish
begin

text \<open>
  The steps of the MQTT client, as the calls of its interface, and its reachable states.
\<close>

subsection \<open>Publishing\<close>

text \<open>What \<open>publish_send\<close> makes of the list of waiting publications.\<close>

definition enlisted :: "topic_info \<Rightarrow> bytes \<Rightarrow> mqtt_client \<Rightarrow> mqtt_client \<Rightarrow> bool" where
  "enlisted msg pkt c c' \<longleftrightarrow> 0 < ti_qos msg \<and> length (list_pub_wait_ack c) < IOTX_MC_REPUB_NUM_MAX \<and>
     (\<exists>t. core c' = (core c)\<lparr>list_pub_wait_ack := list_pub_wait_ack c @
        [\<lparr>pub_start_time = t, node_state = IOTX_MC_NODE_STATE_NORMANL, msg_id = ti_packet_id msg, pub_buf = pkt\<rparr>]\<rparr>)"

lemma enlisted_core: "core d = core c' \<Longrightarrow> enlisted msg pkt c c' \<Longrightarrow> enlisted msg pkt c d"
  by (simp add: enlisted_def)

lemma enlisted_drop:
  assumes "enlisted msg pkt c c1" "calls c1 c2"
  shows "core (c2\<lparr>list_pub_wait_ack := butlast (list_pub_wait_ack c2)\<rparr>) = core c"
  using assms waiting_drop [OF _ refl assms(2)] by (auto simp: enlisted_def)

lemma wp_publish_send:
  assumes "buf_send c = Some b" "length pkt \<le> length b" "take (length pkt) b = pkt"
  shows "post (publish_send env msg timer (int (length pkt)) b c) (\<lambda>(rc, c'). buf_send c' = None \<and> buf_read c' = buf_read c \<and>
    (core c' = core c \<or> enlisted msg pkt c c'))"
proof (cases "0 < ti_qos msg")
  case False
  then show ?thesis
    by (auto simp: publish_send_def calls_def intro!: post_bind post_prod post_if post_let post_Some wp_send_packet)
next
  case True
  obtain rc c1 where p: "iotx_mc_push_pubInfo_to env (int (length pkt)) (ti_packet_id msg) c = Some (rc, c1)"
      "buf_read c1 = buf_read c" "rc = 0 \<and> enlisted msg pkt c c1 \<or> rc \<noteq> 0 \<and> core c1 = core c"
    using push_cases [OF assms(1), of "int (length pkt)" env "ti_packet_id msg"] assms(2,3) True
    unfolding enlisted_def by auto
  have keep: "enlisted msg pkt c (reset_send_buffer c2)" if "calls c1 c2" "rc = 0" for c2
    using p(3) that enlisted_core [of "reset_send_buffer c2" c1] by (simp add: calls_def)
  have drop: "core (c2\<lparr>list_pub_wait_ack := butlast (list_pub_wait_ack c2)\<rparr>) = core c" if "calls c1 c2" "rc = 0" for c2
    using p(3) that enlisted_drop by blast
  have "post (publish_send env msg timer (int (length pkt)) b c) (\<lambda>(rc, c'). buf_send c' = None \<and> buf_read c' = buf_read c \<and>
    (core c' = core c \<or> enlisted msg pkt c c'))" if "rc = 0"
    unfolding publish_send_def using True p(1,2) that
    by (auto intro!: post_bind post_prod post_if post_let post_Some wp_send_packet keep simp: calls_def drop simp del: core_upds)
  moreover have ?thesis if "rc \<noteq> 0"
    using that True p by (auto simp: publish_send_def post_def)
  ultimately show ?thesis by blast
qed

lemma cfg_enlisted:
  assumes "cfg_ok c" "enlisted msg (publish_packet (uint (ti_qos msg)) r (ti_packet_id msg) topic payload) c c'"
  shows "cfg_ok c'" "client_state (core c') = client_state (core c)"
    "keepalive_probes (core c') = keepalive_probes (core c)"
proof -
  let ?pkt = "publish_packet (uint (ti_qos msg)) r (ti_packet_id msg) topic payload"
  obtain t where t: "core c' = (core c)\<lparr>list_pub_wait_ack := list_pub_wait_ack (core c) @
        [\<lparr>pub_start_time = t, node_state = IOTX_MC_NODE_STATE_NORMANL, msg_id = ti_packet_id msg, pub_buf = ?pkt\<rparr>]\<rparr>"
    and q: "0 < ti_qos msg" "length (list_pub_wait_ack (core c)) < IOTX_MC_REPUB_NUM_MAX"
    using assms(2) by (auto simp: enlisted_def core_keeps)
  have "wait_ok \<lparr>pub_start_time = t, node_state = IOTX_MC_NODE_STATE_NORMANL, msg_id = ti_packet_id msg, pub_buf = ?pkt\<rparr>"
    unfolding wait_ok_def using q(1) uint_lt2p [of "ti_qos msg"]
    by (intro exI [of _ "uint (ti_qos msg)"] exI [of _ r] exI [of _ topic] exI [of _ payload])
      (simp add: word_less_def)
  then show "cfg_ok c'" using assms(1) q(2) unfolding t by (simp add: cfg_inv_def)
  show "client_state (core c') = client_state (core c)" "keepalive_probes (core c') = keepalive_probes (core c)"
    by (simp_all add: t)
qed

lemma wp_MQTTPublish:
  assumes "mc_ok c" "payload_stated msg payload" "length topic < 65536"
    and Q: "\<And>rc c'. mc_ok c' \<Longrightarrow> client_state (core c') = client_state (core c) \<Longrightarrow> Q (rc, c')"
  shows "post (MQTTPublish env topic msg payload c) Q"
  using assms(1-3)
proof (cases rule: MQTTPublish_cases [where env = env])
  case (fail rc c')
  then show ?thesis using assms(1) Q [of c' rc] by (simp add: post_def mc_ok_def)
next
  case (send b c2)
  let ?pkt = "publish_packet (uint (ti_qos msg)) (ti_retain msg) (ti_packet_id msg) topic payload"
  have same: "enlisted msg ?pkt c2 c' \<Longrightarrow> enlisted msg ?pkt c c'" for c'
    using send(5) core_fields(1) [OF send(5)] by (simp add: enlisted_def)
  have "Q (rc, c')" if "buf_send c' = None" "buf_read c' = None" "core c' = core c2 \<or> enlisted msg ?pkt c2 c'" for rc c'
    using that(3)
  proof
    assume "core c' = core c2"
    then show ?thesis using that(1,2) assms(1) send(5) by (intro Q) (simp_all add: mc_ok_def)
  next
    assume "enlisted msg ?pkt c2 c'"
    then show ?thesis using cfg_enlisted [OF _ same] that(1,2) assms(1) by (intro Q) (simp_all add: mc_ok_def)
  qed
  then show ?thesis
    using wp_publish_send [OF send(2-4), of env msg] send(7) unfolding send(1) by (auto simp: post_def)
qed


lemma check_topic_length: "iotx_mc_check_topic f t = 0 \<Longrightarrow> length f \<le> 128"
  by (auto simp: iotx_mc_check_topic_def CONFIG_MQTT_TOPIC_MAXLEN_def split: if_splits)

lemma next_packetid_requested:
  assumes "iotx_mc_get_next_packetid c = (i, c1)" "mc_ok c" "wrapper_mqtt_check_state c" "mc_ok c2"
    "client_state (core c2) = client_state (core c1)"
  shows "requested c (note_network_error rc c2)" "requested c c2"
  using next_packetid(4) [OF assms(1,2)] assms(3-5) requested_note [of c2 c rc]
  by (simp_all add: wrapper_mqtt_check_state_def requested_def core_keeps)

lemma wp_wrapper_publish:
  assumes ok: "mc_ok c" and pl: "\<And>payload. ti_payload msg = Some payload \<Longrightarrow> payload_stated msg payload"
    and Q: "\<And>rc c'. requested c c' \<Longrightarrow> Q (rc, c')"
  shows "post (wrapper_mqtt_publish env topic msg c) Q"
proof -
  have pls: "payload_stated (msg\<lparr>ti_packet_id := i\<rparr>) payload" if "ti_payload msg = Some payload" for i payload
    using pl [OF that] by (simp add: payload_stated_def)
  have n: "requested c (note_network_error rc c2)" "requested c c2"
    if "wrapper_mqtt_check_state c" "mc_ok c2" "client_state (core c2) = client_state (core c)" for c2 rc
    using that requested_note [of c2 c rc] by (simp_all add: wrapper_mqtt_check_state_def requested_def core_keeps)
  have r: "requested c c1" "mc_ok c1" if "iotx_mc_get_next_packetid c = (i, c1)" for i c1
    using next_packetid [OF that ok] by (simp_all add: requested_def)
  have "post (wrapper_mqtt_publish env topic msg c) (\<lambda>(rc, c'). requested c c')"
  proof (cases "ti_qos msg = 1 \<or> ti_qos msg = 2")
    case True
    obtain i c1 where i: "iotx_mc_get_next_packetid c = (i, c1)" by fastforce
    show ?thesis
      using True pls check_topic_length [of topic TOPIC_NAME_TYPE] n r [OF i] next_packetid_requested [OF i ok]
      by (auto simp: wrapper_mqtt_publish_def i requested_refl [OF ok] Let_def split: if_split_asm
          intro!: post_option post_if post_prod post_Some post_bind wp_MQTTPublish)
  next
    case False
    then show ?thesis using pl check_topic_length [of topic TOPIC_NAME_TYPE] n ok
      by (auto simp: wrapper_mqtt_publish_def requested_refl [OF ok] Let_def split: if_split_asm
          intro!: post_option post_if post_prod post_Some post_bind wp_MQTTPublish)
  qed
  then show ?thesis using Q by (auto simp: post_def)
qed

subsection \<open>Unsubscribing\<close>

text \<open>What stays of the handlers is what the topic does not hit.\<close>

definition not_hit :: "string \<Rightarrow> topic_handle \<Rightarrow> bool" where
  "not_hit f h \<longleftrightarrow> topic_hit (unsubscribed_topic f) (topic_filter h) = Some False"

lemma remove_handlers_filter:
  "remove_handlers (unsubscribed_topic f) hs = Some kept \<Longrightarrow> kept = filter (not_hit f) hs"
  by (induction hs arbitrary: kept) (auto simp: not_hit_def bind_eq_Some_conv split: if_splits)

definition unsubscribed :: "string \<Rightarrow> mqtt_client \<Rightarrow> mqtt_client \<Rightarrow> bool" where
  "unsubscribed f c c' \<longleftrightarrow> quiet c c' \<or>
     frees c c' \<and> core c' = (core c)\<lparr>list_sub_handle := filter (not_hit f) (list_sub_handle c)\<rparr>"

lemma unsubscribedI:
  "quiet c c' \<Longrightarrow> unsubscribed f c c'"
  "core c1 = core c \<Longrightarrow> buf_read c1 = buf_read c \<Longrightarrow> remove_handlers (unsubscribed_topic f) (list_sub_handle c1) = Some kept \<Longrightarrow>
     unsubscribed f c (reset_send_buffer (c1\<lparr>list_sub_handle := kept\<rparr>))"
proof -
  assume q: "core c1 = core c" "buf_read c1 = buf_read c" and r: "remove_handlers (unsubscribed_topic f) (list_sub_handle c1) = Some kept"
  have "list_sub_handle c1 = list_sub_handle c" by (rule core_fields(2) [OF q(1)])
  then have "core (reset_send_buffer (c1\<lparr>list_sub_handle := kept\<rparr>)) =
      (core c)\<lparr>list_sub_handle := filter (not_hit f) (list_sub_handle c)\<rparr>"
    using remove_handlers_filter [OF r] q(1) by simp
  moreover have "frees c (reset_send_buffer (c1\<lparr>list_sub_handle := kept\<rparr>))"
    using q(2) by simp
  ultimately show "unsubscribed f c (reset_send_buffer (c1\<lparr>list_sub_handle := kept\<rparr>))"
    unfolding unsubscribed_def by blast
qed (simp add: unsubscribed_def)

lemma post_remove: "(\<And>kept. remove_handlers t hs = Some kept \<Longrightarrow> Q kept) \<Longrightarrow> post (remove_handlers t hs) Q"
  by (simp add: post_def)

lemma MQTTUnsubscribe_outcome:
  "post (MQTTUnsubscribe env f i c) (\<lambda>(rc, c'). unsubscribed f c c')"
  unfolding MQTTUnsubscribe_def
  by (auto intro!: wp post_remove unsubscribedI(2) dest!: core_calls simp: calls_def quiet_def unsubscribedI(1))

lemma cfg_fewer_handlers: "cfg_inv c \<Longrightarrow> cfg_inv (c\<lparr>list_sub_handle := filter P (list_sub_handle c)\<rparr>)"
  by (simp add: cfg_inv_def)

lemma unsubscribed_ok:
  assumes "unsubscribed f c c'" "mc_ok c"
  shows "mc_ok c' \<and> client_state (core c') = client_state (core c)"
  using assms(1) unfolding unsubscribed_def
proof (elim disjE conjE)
  assume "quiet c c'"
  then show ?thesis using assms(2) by (simp add: mc_ok_def quiet_def frees_def)
next
  assume e: "frees c c'" "core c' = (core c)\<lparr>list_sub_handle := filter (not_hit f) (list_sub_handle c)\<rparr>"
  then show ?thesis using assms(2) cfg_fewer_handlers [of "core c" "not_hit f"] by (simp add: mc_ok_def frees_def core_keeps(2))
qed

lemma wp_wrapper_unsubscribe:
  assumes ok: "mc_ok c" and Q: "\<And>rc c'. requested c c' \<Longrightarrow> Q (rc, c')"
  shows "post (wrapper_mqtt_unsubscribe env f c) Q"
proof -
  obtain i c1 where i: "iotx_mc_get_next_packetid c = (i, c1)" by fastforce
  note p = next_packetid [OF i ok]
  have r: "requested c c1" using p by (simp add: requested_def)
  have w: "post (MQTTUnsubscribe env f i c1) R"
    if "\<And>rc c'. mc_ok c' \<Longrightarrow> client_state (core c') = client_state (core c1) \<Longrightarrow> R (rc, c')" for R
    using MQTTUnsubscribe_outcome [of env f i c1] unsubscribed_ok [OF _ p(1)] that by (auto simp: post_def)
  have "post (wrapper_mqtt_unsubscribe env f c) (\<lambda>(rc, c'). requested c c')"
  proof (cases "wrapper_mqtt_check_state c1")
    case True
    then have s: "wrapper_mqtt_check_state c"
      using p(4) by (simp add: wrapper_mqtt_check_state_def core_keeps)
    show ?thesis using r next_packetid_requested [OF i ok s]
      by (auto simp: wrapper_mqtt_unsubscribe_def i Let_def split: if_split_asm intro!: post_if post_prod post_Some post_bind w)
  next
    case False
    then show ?thesis using r
      by (auto simp: wrapper_mqtt_unsubscribe_def i Let_def intro!: post_if post_Some)
  qed
  then show ?thesis using Q by (auto simp: post_def)
qed


subsection \<open>Subscribing and waiting\<close>

text \<open>A client in use: well formed, and in one of the states that are reached.\<close>

definition live_state :: "iotx_mc_state \<Rightarrow> bool" where
  "live_state s \<longleftrightarrow> s \<noteq> IOTX_MC_STATE_INVALID \<and> s \<noteq> IOTX_MC_STATE_CONNECT_BLOCK"

definition mc_live :: "mqtt_client \<Rightarrow> bool" where
  "mc_live c \<longleftrightarrow> mc_ok c \<and> live_state (client_state (core c))"

lemma requested_live: "requested c c' \<Longrightarrow> mc_live c \<Longrightarrow> mc_live c'"
  by (auto simp: requested_def mc_live_def down_def live_state_def)

lemma live_edge: "keepalive_edge s s' \<Longrightarrow> live_state s \<Longrightarrow> live_state s'"
  by (cases s) (auto simp: live_state_def)

lemma yield_live: "yield_edge s s' \<Longrightarrow> live_state s \<Longrightarrow> live_state s'"
  using live_edge by (auto simp: yield_edge_def live_state_def)

lemma wp_subscribe_live:
  assumes "mc_live c" "\<And>rc c'. mc_live c' \<Longrightarrow> Q (rc, c')"
  shows "post (wrapper_mqtt_subscribe env f qos h c) Q"
  by (rule wp_wrapper_subscribe) (use assms requested_live in \<open>simp_all add: mc_live_def\<close>)

lemma wp_yield_live:
  assumes "mc_live c" "\<And>rc c'. mc_live c' \<Longrightarrow> Q (rc, c')"
  shows "post (wrapper_mqtt_yield env timeout_ms c) Q"
  by (rule wp_yield) (use assms yield_live in \<open>auto simp: mc_live_def\<close>)

lemma mc_live_syncs: "mc_live c \<Longrightarrow> mc_live (c\<lparr>list_sub_sync_ack := y\<rparr>)"
  by (simp add: mc_live_def mc_ok_def)

lemma mc_live_calls: "calls c c' \<Longrightarrow> mc_live c \<Longrightarrow> mc_live c'"
  by (simp add: mc_live_def mc_ok_def calls_def)

lemma subscribe_sync_loop_live:
  assumes "subscribe_sync_loop env f qos h timer ret subed c = Some (rc, c')" "mc_live c"
  shows "mc_live c'"
proof -
  have "mc_live c \<longrightarrow> mc_live (snd (rc, c'))"
  proof (rule subscribe_sync_loop.raw_induct [where P = "\<lambda>env f qos h timer ret subed c r. mc_live c \<longrightarrow> mc_live (snd r)", OF _ assms(1)], rule impI)
    fix loop :: "mqtt_env \<Rightarrow> string \<Rightarrow> int \<Rightarrow> event_handle \<Rightarrow> u32 \<Rightarrow> int \<Rightarrow> bool \<Rightarrow> mqtt_client \<Rightarrow> (int \<times> mqtt_client) option"
    fix env topicFilter qos h timer ret subed c r
    assume IH: "\<And>env f qos h timer ret subed c r. loop env f qos h timer ret subed c = Some r \<Longrightarrow> mc_live c \<longrightarrow> mc_live (snd r)"
      and e: "do { (back, ret, c) \<leftarrow>
            (if ret < 0
             then do { (ret, c) \<leftarrow> wrapper_mqtt_subscribe env topicFilter qos h c;
                       Some (mc_in_yield_cb c \<or> qos = 3, ret, c) }
             else Some (False, ret, c));
          if back then Some (ret, c)
          else
            case (if \<not> subed \<and> 0 \<le> ret
                  then case mqtt_malloc env c of (ok, c) \<Rightarrow>
                    if ok then (True, c\<lparr>list_sub_sync_ack := list_sub_sync_ack c @
                                  [\<lparr>sn_packet_id = ret, sn_ack_type = 0\<rparr>]\<rparr>)
                    else (subed, c)
                  else (subed, c)) of (subed, c) \<Rightarrow>
              do { (rc, c) \<leftarrow> wrapper_mqtt_yield env 100 c;
                   case sync_check ret (list_sub_sync_ack c) of (result, ret, taken, nodes) \<Rightarrow>
                     let c = c\<lparr>list_sub_sync_ack := nodes\<rparr> in
                     case result of
                       Some r \<Rightarrow> Some (r, c)
                     | None \<Rightarrow>
                         case time_expired env timer c of (expired, c) \<Rightarrow>
                           if expired
                           then Some (-1, c\<lparr>list_sub_sync_ack := filter (\<lambda>n. sn_packet_id n \<noteq> ret) (list_sub_sync_ack c)\<rparr>)
                           else loop env topicFilter qos h timer ret (subed \<and> \<not> taken) c } } = Some r"
      and ok: "mc_live c"
    have rec: "post (loop env f q h t ret' s c1) (\<lambda>r. mc_live (snd r))" if "mc_live c1" for env f q h t ret' s c1
      using IH that by (auto simp: post_def)
    have body: "post (case (if \<not> subed \<and> 0 \<le> ret
                  then case mqtt_malloc env c of (ok, c) \<Rightarrow>
                    if ok then (True, c\<lparr>list_sub_sync_ack := list_sub_sync_ack c @
                                  [\<lparr>sn_packet_id = ret, sn_ack_type = 0\<rparr>]\<rparr>)
                    else (subed, c)
                  else (subed, c)) of (subed, c) \<Rightarrow>
              do { (rc, c) \<leftarrow> wrapper_mqtt_yield env 100 c;
                   case sync_check ret (list_sub_sync_ack c) of (result, ret, taken, nodes) \<Rightarrow>
                     let c = c\<lparr>list_sub_sync_ack := nodes\<rparr> in
                     case result of
                       Some r \<Rightarrow> Some (r, c)
                     | None \<Rightarrow>
                         case time_expired env timer c of (expired, c) \<Rightarrow>
                           if expired
                           then Some (-1, c\<lparr>list_sub_sync_ack := filter (\<lambda>n. sn_packet_id n \<noteq> ret) (list_sub_sync_ack c)\<rparr>)
                           else loop env topicFilter qos h timer ret (subed \<and> \<not> taken) c }) (\<lambda>r. mc_live (snd r))"
      if "mc_live c" for c ret
      using that
      by (auto intro!: post_bind post_prod post_let post_option post_if post_Some rec wp_yield_live mc_live_syncs
          dest!: core_malloc core_expired split: if_split_asm prod.split_asm intro: mc_live_calls)
    have "post (Some r) (\<lambda>r. mc_live (snd r))"
      unfolding e [symmetric]
      by (rule post_bind, rule post_if)
        (auto intro!: post_bind post_prod post_if post_Some wp_subscribe_live body ok)
    then show "mc_live (snd r)" by (simp add: post_def)
  qed
  then show ?thesis using assms(2) by simp
qed

lemma wp_subscribe_sync:
  assumes "mc_live c" "\<And>rc c'. mc_live c' \<Longrightarrow> Q (rc, c')"
  shows "post (wrapper_mqtt_subscribe_sync env f qos h timeout c) Q"
proof -
  have "post (subscribe_sync_loop env f q h timer (-1) False c1) Q" if "mc_live c1" for q timer c1
    using assms(2) subscribe_sync_loop_live [OF _ that] by (auto simp: post_def)
  then show ?thesis unfolding wrapper_mqtt_subscribe_sync_def
    using mc_live_calls [OF core_countdown assms(1)] by (auto intro!: post_let post_prod)
qed

subsection \<open>Initialisation\<close>

lemma create_locks_core: "\<exists>l t. snd (create_locks env ls c) = c\<lparr>mc_locks := l, mc_tick := t\<rparr>"
proof (induction ls arbitrary: c)
  case Nil
  show ?case by (auto intro!: exI [of _ "mc_locks c"] exI [of _ "mc_tick c"])
next
  case (Cons l ls)
  show ?case
    using Cons.IH [of "c\<lparr>mc_locks := mc_locks c @ [l], mc_tick := Suc (mc_tick c)\<rparr>"]
    by (auto intro!: exI [of _ "mc_locks c"])
qed

lemma create_locks_fields:
  assumes "create_locks env ls c = (ok, c')"
  shows "packet_id c' = packet_id c" "buf_send c' = buf_send c" "buf_read c' = buf_read c"
  using create_locks_core [of env ls c] assms by auto

text \<open>The parameters are clamped into the bounds of the invariant.\<close>

lemma connect_params:
  "\<exists>d. iotx_mc_set_connect_params p c = c\<lparr>connect_data := d\<rparr> \<and> 30 \<le> keepAliveInterval d \<and> keepAliveInterval d \<le> 180"
  by (auto simp: iotx_mc_set_connect_params_def CONFIG_MQTT_KEEPALIVE_INTERVAL_MIN_def
      CONFIG_MQTT_KEEPALIVE_INTERVAL_MAX_def CONFIG_MQTT_KEEPALIVE_INTERVAL_def intro: exI)

lemmas request_timeout_bounds =
  CONFIG_MQTT_REQ_TIMEOUT_MIN_def CONFIG_MQTT_REQ_TIMEOUT_MAX_def CONFIG_MQTT_REQUEST_TIMEOUT_def

text \<open>What a successful initialisation leaves.\<close>

definition fresh_client :: "mqtt_client \<Rightarrow> bool" where
  "fresh_client c \<longleftrightarrow> mc_ok c \<and> client_state c = IOTX_MC_STATE_INITIALIZED \<and>
     list_pub_wait_ack c = [] \<and> list_sub_handle c = [] \<and> list_sub_sync_ack c = []"

lemma fresh_start:
  assumes "packet_id c = 0" "buf_send c = None" "buf_read c = None"
    and "500 \<le> rt" "rt \<le> 5000" "sm < 268435456"
  shows "fresh_client (iotx_mc_set_client_state IOTX_MC_STATE_INITIALIZED
    ((iotx_mc_set_connect_params p (c\<lparr>request_timeout_ms := rt, buf_size_send_max := sm, buf_size_read_max := rm,
        keepalive_probes := 0, handle_event := h, reconnect_time_interval_ms := IOTX_MC_RECONNECT_INTERVAL_MIN_MS,
        list_pub_wait_ack := [], list_sub_handle := [], list_sub_sync_ack := []\<rparr>))
      \<lparr>next_ping_time := t1, reconnect_next_time := t2\<rparr>))" (is "fresh_client (iotx_mc_set_client_state _ ((iotx_mc_set_connect_params p ?c)\<lparr>next_ping_time := _, reconnect_next_time := _\<rparr>))")
proof -
  obtain d where "iotx_mc_set_connect_params p ?c = ?c\<lparr>connect_data := d\<rparr>" "30 \<le> keepAliveInterval d" "keepAliveInterval d \<le> 180"
    using connect_params by blast
  then show ?thesis using assms
    by (simp add: fresh_client_def mc_ok_def cfg_inv_def core_keeps iotx_mc_set_client_state_def IOTX_MC_RECONNECT_INTERVAL_MIN_MS_def)
qed

lemma init_ok:
  assumes "wrapper_mqtt_init env p t = Some c" "mp_write_buf_size p < 268435456"
  shows "fresh_client c"
proof -
  obtain ok1 c1 where l1: "create_locks env [LockGeneric] (zero_client (Suc t)) = (ok1, c1)" by fastforce
  obtain ok2 c2 where l2: "create_locks env [LockListPub, LockYield, LockWriteBuf, LockReadBuf] c1 = (ok2, c2)" by fastforce
  have f: "packet_id c2 = 0" "buf_send c2 = None" "buf_read c2 = None"
    using create_locks_fields [OF l1] create_locks_fields [OF l2] by (simp_all add: zero_client_def)
  have "iotx_mc_init env p (zero_client (Suc t)) = (0, c)"
    using assms(1) by (auto simp: wrapper_mqtt_init_def split: if_split_asm prod.split_asm)
  then show ?thesis using f assms(2) unfolding iotx_mc_init_def l1 l2 Let_def prod.case
    by (auto simp: request_timeout_bounds not_less intro!: fresh_start split: if_split_asm simp del: create_locks.simps)
qed


subsection \<open>Steps of the interface\<close>

text \<open>The contract of a publication: the payload is as long as it is said to be.\<close>

definition payload_contract :: "topic_info \<Rightarrow> bool" where
  "payload_contract msg \<longleftrightarrow> (\<forall>payload. ti_payload msg = Some payload \<longrightarrow> payload_stated msg payload)"

inductive mc_step :: "mqtt_env \<Rightarrow> mqtt_client \<Rightarrow> mqtt_client \<Rightarrow> bool" for env :: mqtt_env where
  step_connect: "wrapper_mqtt_connect env c = Some (rc, c') \<Longrightarrow> mc_step env c c'"
| step_yield: "wrapper_mqtt_yield env timeout_ms c = Some (rc, c') \<Longrightarrow> mc_step env c c'"
| step_subscribe: "wrapper_mqtt_subscribe env f qos h c = Some (rc, c') \<Longrightarrow> mc_step env c c'"
| step_subscribe_sync:
    "wrapper_mqtt_subscribe_sync env f qos h timeout_ms c = Some (rc, c') \<Longrightarrow> mc_step env c c'"
| step_unsubscribe: "wrapper_mqtt_unsubscribe env f c = Some (rc, c') \<Longrightarrow> mc_step env c c'"
| step_publish:
    "payload_contract msg \<Longrightarrow> wrapper_mqtt_publish env topic msg c = Some (rc, c') \<Longrightarrow> mc_step env c c'"

inductive_cases mc_stepE: "mc_step env c c'"

inductive mc_reachable :: "mqtt_env \<Rightarrow> mqtt_client \<Rightarrow> bool" for env :: mqtt_env where
  reach_init: "wrapper_mqtt_init env p t = Some c \<Longrightarrow> mp_write_buf_size p < 268435456 \<Longrightarrow> mc_reachable env c"
| reach_step: "mc_reachable env c \<Longrightarrow> mc_step env c c' \<Longrightarrow> mc_reachable env c'"

text \<open>What each operation makes of the state of the connection.\<close>

lemma connected_ok: "connected c rc c' \<Longrightarrow> mc_ok c \<Longrightarrow> mc_ok c'"
  by (auto simp: connected_def mc_ok_def frees_def cfg_inv_def split: if_splits)

lemma connect_live:
  assumes "mc_live c" "\<And>rc c'. mc_live c' \<Longrightarrow> Q (rc, c')"
  shows "post (wrapper_mqtt_connect env c) Q"
proof (rule wp_wrapper_connect)
  fix rc c' assume con: "connected c rc c'"
  then have "client_state (core c') = IOTX_MC_STATE_CONNECTED \<or> client_state (core c') = client_state (core c)"
    by (auto simp: connected_def split: if_splits)
  then show "Q (rc, c')" using assms connected_ok [OF con] by (auto simp: mc_live_def live_state_def)
qed

lemma wp_unsubscribe_live:
  assumes "mc_live c" "\<And>rc c'. mc_live c' \<Longrightarrow> Q (rc, c')"
  shows "post (wrapper_mqtt_unsubscribe env f c) Q"
  by (rule wp_wrapper_unsubscribe) (use assms requested_live in \<open>simp_all add: mc_live_def\<close>)

lemma wp_publish_live:
  assumes "mc_live c" "payload_contract msg" "\<And>rc c'. mc_live c' \<Longrightarrow> Q (rc, c')"
  shows "post (wrapper_mqtt_publish env topic msg c) Q"
  by (rule wp_wrapper_publish) (use assms requested_live in \<open>simp_all add: mc_live_def payload_contract_def\<close>)

lemmas steps_live =
  connect_live wp_yield_live wp_subscribe_live wp_subscribe_sync wp_unsubscribe_live wp_publish_live

lemma post_after: "m = Some x \<Longrightarrow> post m P \<Longrightarrow> P x"
  by (simp add: post_def)

lemma mc_step_live: "mc_step env c c' \<Longrightarrow> mc_live c \<Longrightarrow> mc_live c'"
  by (erule mc_stepE; drule post_after [where P = "\<lambda>r. mc_live (snd r)"]) (auto intro!: steps_live)

lemma fresh_live: "fresh_client c \<Longrightarrow> mc_live c"
  by (simp add: fresh_client_def mc_live_def live_state_def core_keeps)

lemma reachable_live: "mc_reachable env c \<Longrightarrow> mc_live c"
  by (induction rule: mc_reachable.induct) (use init_ok fresh_live mc_step_live in blast)+

end
