(* ===== verification/MqttClientProps.thy ===== *)
theory MqttClientProps
  imports MqttClientReach
begin

text \<open>
  What the MQTT client guarantees: its reachable states, the outcome of a publication, the waiting
  publications, the connection state, and the two calls that do not do what they mean to.
\<close>

subsection \<open>A sample client\<close>

text \<open>
  An environment whose clock counts the calls, whose transport takes everything it is given and
  whose peer answers the first packet with a CONNACK and is silent afterwards; the client that has
  been set up in it, and the same client connected.
\<close>

definition sample_env :: mqtt_env where
  "sample_env =
     \<lparr>env_uptime = word_of_nat, env_malloc = (\<lambda>n. True), env_mutex = (\<lambda>n. True),
      env_read = (\<lambda>n k l. if 22 < n then None else if k = 2 then Some [0, 0]
                          else if n < 16 then Some [0x20] else Some [2]),
      env_write = (\<lambda>n bs l. int (length bs)), env_connect = (\<lambda>n. 0), env_garbage = (\<lambda>n. 0)\<rparr>"

definition sample_param :: mqtt_param where
  "sample_param =
     \<lparr>mp_host = Some [104], mp_client_id = Some [99], mp_username = Some [117], mp_password = Some [112],
      mp_clean_session = 1, mp_request_timeout_ms = 2000, mp_keepalive_interval_ms = 60000,
      mp_write_buf_size = 1024, mp_read_buf_size = 1024, mp_handle_event = \<lparr>h_fp = None, pcontext = 0\<rparr>\<rparr>"

definition sample_client :: mqtt_client where
  "sample_client = the (wrapper_mqtt_init sample_env sample_param 0)"

definition connected_client :: mqtt_client where
  "connected_client = snd (the (wrapper_mqtt_connect sample_env sample_client))"

lemma sample_run:
  "map_option fst (wrapper_mqtt_connect sample_env sample_client) = Some 0"
  "client_state connected_client = IOTX_MC_STATE_CONNECTED"
  "map_option (\<lambda>(rc, c). (rc, client_state c)) (wrapper_mqtt_yield sample_env 0 connected_client) =
     Some (0, IOTX_MC_STATE_DISCONNECTED)"
  by code_simp+

lemma sample_reachable: "mc_reachable sample_env connected_client"
proof (rule reach_step)
  have "wrapper_mqtt_init sample_env sample_param 0 \<noteq> None" by code_simp
  then have "wrapper_mqtt_init sample_env sample_param 0 = Some sample_client"
    by (auto simp: sample_client_def)
  then show "mc_reachable sample_env sample_client"
    by (rule reach_init) (simp add: sample_param_def)
  obtain c where "wrapper_mqtt_connect sample_env sample_client = Some (0, c)"
    using sample_run(1) by auto
  then show "mc_step sample_env sample_client connected_client"
    by (auto simp: connected_client_def intro: step_connect)
qed

lemma sample_clock: "clock sample_env id" "write_ok sample_env"
  by (auto simp: clock_def write_ok_def sample_env_def)

lemma sample_ok: "mc_ok connected_client"
  using reachable_live [OF sample_reachable] by (simp add: mc_live_def)

subsection \<open>Waiting publications\<close>

definition waiting_node :: "u32 \<Rightarrow> u16 \<Rightarrow> bytes \<Rightarrow> pub_info" where
  "waiting_node t i pkt = \<lparr>pub_start_time = t, node_state = IOTX_MC_NODE_STATE_NORMANL, msg_id = i, pub_buf = pkt\<rparr>"






lemma short_length_read:
  "MQTTPacket_decodeBuf (h # 2 # r) (Suc 0) = Some (1, 2)"
  by (simp add: MQTTPacket_decodeBuf_def MQTTPacket_decode_def numeral_eq_Suc bufchar_def rd_def)








subsection \<open>Publishing\<close>

text \<open>The identifier of the next request.\<close>

definition next_id :: "mqtt_client \<Rightarrow> u32" where
  "next_id c = (if packet_id c = 65535 then 1 else packet_id c + 1)"

lemma get_next_packetid: "iotx_mc_get_next_packetid c = (next_id c, c\<lparr>packet_id := next_id c\<rparr>)"
  by (simp add: iotx_mc_get_next_packetid_def next_id_def IOTX_MC_PACKET_ID_MAX_def Let_def)

lemma wire_packet_id [simp]: "wire (c\<lparr>packet_id := i\<rparr>) = wire c" "wire (note_network_error rc c) = wire c"
  by (simp_all add: wire_def note_network_error_def iotx_mc_set_client_state_def)

lemma note_keeps [simp]:
  "list_pub_wait_ack (note_network_error rc c) = list_pub_wait_ack c"
  "list_sub_handle (note_network_error rc c) = list_sub_handle c"
  by (simp_all add: note_network_error_def iotx_mc_set_client_state_def)

lemma published_lists:
  assumes "published topic msg payload c rc c'"
  defines "pkt \<equiv> publish_packet (uint (ti_qos msg)) (ti_retain msg) (ti_packet_id msg) topic payload"
  shows "list_sub_handle c' = list_sub_handle c"
    "rc = 0 \<Longrightarrow> wire c' = wire c @ pkt"
    "rc = 0 \<Longrightarrow> ti_qos msg = 0 \<Longrightarrow> list_pub_wait_ack c' = list_pub_wait_ack c"
    "rc = 0 \<Longrightarrow> 0 < ti_qos msg \<Longrightarrow> \<exists>t. list_pub_wait_ack c' = list_pub_wait_ack c @ [waiting_node t (ti_packet_id msg) pkt]"
    "rc \<noteq> 0 \<Longrightarrow> list_pub_wait_ack c' = list_pub_wait_ack c \<and> (\<exists>n. wire c' = wire c @ take n pkt)"
  using assms(1) core_keeps(1,2) [of c'] core_keeps(1,2) [of c]
  by (auto simp: published_def sent_outcome_def pkt_def waiting_node_def split: if_splits) (rule exI, erule sym)

text \<open>C16. A publication returns on a running clock (\<open>clock\<close>) over a transport that takes no more than it is
  given (\<open>write_ok\<close>). Success returns the packet identifier (0 at QoS 0); the transport has then taken
  the whole PUBLISH packet and, at QoS 1, a copy of it waits at the end of the list under that identifier.
  After an error the list is as it was, and only a part of the packet has gone out.\<close>

theorem publish_outcome:
  assumes "clock env clk" "write_ok env" "mc_ok c" "client_state c = IOTX_MC_STATE_CONNECTED"
    and "payload_stated msg payload" "iotx_mc_check_topic topic TOPIC_NAME_TYPE = 0" "ti_qos msg = 0 \<or> ti_qos msg = 1"
  defines "i \<equiv> (if ti_qos msg = 1 then next_id c else 0)"
  defines "pkt \<equiv> publish_packet (uint (ti_qos msg)) (ti_retain msg) (ucast i) topic payload"
  shows "\<exists>rc c'. wrapper_mqtt_publish env topic msg c = Some (rc, c') \<and>
    list_sub_handle c' = list_sub_handle c \<and>
    (if 0 \<le> rc
     then rc = uint (ucast i :: u16) \<and> wire c' = wire c @ pkt \<and>
       (\<exists>t. list_pub_wait_ack c' = list_pub_wait_ack c @ (if ti_qos msg = 1 then [waiting_node t (ucast i) pkt] else []))
     else list_pub_wait_ack c' = list_pub_wait_ack c \<and> (\<exists>n. wire c' = wire c @ take n pkt))"
proof -
  have tl: "length topic < 65536" using check_topic_length [OF assms(6)] by simp
  have pl: "ti_payload msg = Some payload" using assms(5) by (simp add: payload_stated_def)
  have st: "wrapper_mqtt_check_state c" using assms(4) by (simp add: wrapper_mqtt_check_state_def)
  show ?thesis
  proof (cases "ti_qos msg = 1")
    case True
    let ?msg = "msg\<lparr>ti_packet_id := ucast (next_id c)\<rparr>" and ?c = "c\<lparr>packet_id := next_id c\<rparr>"
    have "payload_stated ?msg payload" using assms(5) by (simp add: payload_stated_def)
    then obtain rc c' where p: "MQTTPublish env topic ?msg payload ?c = Some (rc, c')" "published topic ?msg payload ?c rc c'" "rc \<le> 0"
      using MQTTPublish_outcome [OF assms(1,2) next_packetid(1) [OF get_next_packetid assms(3)] _ tl] by blast
    show ?thesis
      using published_lists [OF p(2)] p(1,3) True assms(6) st pl
      by (cases "rc = 0") (auto simp: wrapper_mqtt_publish_def get_next_packetid i_def pkt_def)
  next
    case False
    then have q: "ti_qos msg = 0" using assms(7) by simp
    obtain rc c' where p: "MQTTPublish env topic msg payload c = Some (rc, c')" "published topic msg payload c rc c'" "rc \<le> 0"
      using MQTTPublish_outcome [OF assms(1-3,5) tl] by blast
    have k: "publish_packet 0 r j topic payload = publish_packet 0 r 0 topic payload" for r j
      by (simp add: publish_packet_def publish_body_def)
    show ?thesis
      using published_lists [OF p(2)] p(1,3) q assms(6) st pl k [of "ti_retain msg" "ti_packet_id msg"]
      by (cases "rc = 0") (auto simp: wrapper_mqtt_publish_def i_def pkt_def)
  qed
qed

definition sample_message :: topic_info where
  "sample_message = \<lparr>ti_packet_id = 0, ti_qos = 1, ti_dup = 0, ti_retain = 0, ti_topic_len = 0, ti_topic = None,
     ti_payload_len = 2, ti_payload = Some [1, 2]\<rparr>"

theorem publish_outcome_witness:
  "\<exists>rc c'. wrapper_mqtt_publish sample_env ''/a/b'' sample_message connected_client = Some (rc, c') \<and>
     list_sub_handle c' = list_sub_handle connected_client"
proof -
  have t: "iotx_mc_check_topic ''/a/b'' TOPIC_NAME_TYPE = 0" by code_simp
  have p: "payload_stated sample_message [1, 2]" by (simp add: payload_stated_def sample_message_def)
  show ?thesis
    using publish_outcome [OF sample_clock sample_ok sample_run(2) p t] by (auto simp: sample_message_def)
qed

subsection \<open>Unsubscribing\<close>

lemma topic_loop_longer:
  "\<forall>ch\<in>set f. ch \<noteq> CHR ''+'' \<and> ch \<noteq> CHR ''#'' \<Longrightarrow> topic_loop f (f @ x) = ([], x)"
  by (induction f) auto

lemma char_byte: "char_of (unat (of_char c :: u8)) = c"
proof -
  have "(of_char c :: u8) = of_nat (of_char c)" by (rule of_nat_of_char [symmetric])
  then have "unat (of_char c :: u8) = of_char c" by (simp add: unat_of_nat take_bit_eq_mod del: of_nat_of_char)
  then show ?thesis by simp
qed

lemma bytes_str_bytes: "bytes_str (str_bytes f @ [0]) = f @ [CHR 0x00]"
proof -
  have "char_of (0 :: nat) = CHR 0x00" by (simp add: char_of_def)
  then show ?thesis by (simp add: bytes_str_def str_bytes_def comp_def char_byte)
qed

lemma plain_not_hit:
  assumes "\<forall>ch\<in>set f. ch \<noteq> CHR ''+'' \<and> ch \<noteq> CHR ''#''"
  shows "topic_hit (unsubscribed_topic f) f = Some False"
  using topic_loop_longer [OF assms, of "[CHR 0x00]"]
  by (simp add: topic_hit_def unsubscribed_topic_def MQTTPacket_equals_def topic_chars_def bytes_str_bytes iotx_mc_is_topic_matched_def)


text \<open>C20. Unsubscribing never removes the handlers of a filter without wildcards, whatever it returns: the
  length compared with includes the closing zero, so that the filter does not equal itself.\<close>

theorem unsubscribe_keeps_plain_handlers:
  assumes "\<forall>ch\<in>set f. ch \<noteq> CHR ''+'' \<and> ch \<noteq> CHR ''#''"
    and "wrapper_mqtt_unsubscribe env f c = Some (rc, c')"
  shows "filter (\<lambda>h. topic_filter h = f) (list_sub_handle c') = filter (\<lambda>h. topic_filter h = f) (list_sub_handle c)"
proof -
  have hit: "not_hit f h" if "topic_filter h = f" for h
    using plain_not_hit [OF assms(1)] that by (simp add: not_hit_def)
  have un: "filter (\<lambda>h. topic_filter h = f) (list_sub_handle c2) = filter (\<lambda>h. topic_filter h = f) (list_sub_handle c1)"
    if "unsubscribed f c1 c2" for c1 c2
  proof -
    have "list_sub_handle c2 = list_sub_handle c1 \<or> list_sub_handle c2 = filter (not_hit f) (list_sub_handle c1)"
      using that core_keeps(2) [of c2] core_fields(2) [of c2 c1] by (auto simp: unsubscribed_def quiet_def)
    moreover have "filter (\<lambda>h. topic_filter h = f) (filter (not_hit f) hs) = filter (\<lambda>h. topic_filter h = f) hs" for hs
      by (induction hs) (auto simp: hit)
    ultimately show ?thesis by (elim disjE) simp_all
  qed
  have "filter (\<lambda>h. topic_filter h = f) (list_sub_handle c2) = filter (\<lambda>h. topic_filter h = f) (list_sub_handle c1)"
    if "MQTTUnsubscribe env f i c1 = Some (r, c2)" for i c1 r c2
    using un MQTTUnsubscribe_outcome [of env f i c1] that by (simp add: post_def)
  then show ?thesis using assms(2)
    by (fastforce simp: wrapper_mqtt_unsubscribe_def get_next_packetid Let_def bind_eq_Some_conv split: if_split_asm)
qed

definition subscribed_client :: mqtt_client where
  "subscribed_client = connected_client\<lparr>list_sub_handle := [\<lparr>topic_filter = ''/a/b'', handle = \<lparr>h_fp = Some 1, pcontext = 0\<rparr>\<rparr>]\<rparr>"

theorem unsubscribe_keeps_plain_handlers_witness:
  "\<exists>c'. wrapper_mqtt_unsubscribe sample_env ''/a/b'' subscribed_client = Some (1, c') \<and>
     filter (\<lambda>h. topic_filter h = ''/a/b'') (list_sub_handle c') = list_sub_handle subscribed_client"
proof -
  have "map_option fst (wrapper_mqtt_unsubscribe sample_env ''/a/b'' subscribed_client) = Some 1" by code_simp
  then obtain c' where c: "wrapper_mqtt_unsubscribe sample_env ''/a/b'' subscribed_client = Some (1, c')" by auto
  show ?thesis using unsubscribe_keeps_plain_handlers [OF _ c] c by (auto simp: subscribed_client_def)
qed

subsection \<open>A malformed publication\<close>

lemma short_publish_read:
  assumes "0 < 256 * uint hi + uint lo"
  shows "MQTTDeserialize_publish [0x30, 2, hi, lo] = Some (1, None)"
    "publish_malformed [0x30, 2, hi, lo] = Some (\<lparr>cstring = None, lenstring_len = 256 * uint hi + uint lo, lenstring_data = None\<rparr>,
       \<lparr>ti_packet_id = 0, ti_qos = 0, ti_dup = 0, ti_retain = 0, ti_topic_len = 0, ti_topic = None,
        ti_payload_len = 0, ti_payload = None\<rparr>)"
proof -
  have r: "readInt [0x30, 2, hi, lo] 2 = Some (256 * uint hi + uint lo)"
    by (simp add: readInt_def rd_def numeral_eq_Suc)
  show "MQTTDeserialize_publish [0x30, 2, hi, lo] = Some (1, None)"
    using assms r by (simp add: MQTTDeserialize_publish_def short_length_read readChar_def rd_def mqtt_header_defs
        readMQTTLenString_def Let_def flip: numeral_2_eq_2)
  show "publish_malformed [0x30, 2, hi, lo] = Some (\<lparr>cstring = None, lenstring_len = 256 * uint hi + uint lo, lenstring_data = None\<rparr>,
       \<lparr>ti_packet_id = 0, ti_qos = 0, ti_dup = 0, ti_retain = 0, ti_topic_len = 0, ti_topic = None,
        ti_payload_len = 0, ti_payload = None\<rparr>)"
    using assms r by (simp add: publish_malformed_def short_length_read readChar_def rd_def mqtt_header_defs
        readMQTTLenString_def Let_def flip: numeral_2_eq_2)
qed

text \<open>C21. A PUBLISH packet of four bytes whose topic length is not 0 is taken as received, although the
  topic overruns the packet: with a subscription in place, the client then follows the null pointer of the
  topic.\<close>

theorem short_publish_follows_null:
  assumes "buf_read c = Some [0x30, 2, hi, lo]" "hi \<noteq> 0 \<or> lo \<noteq> 0" "list_sub_handle c \<noteq> []"
  shows "iotx_mc_handle_recv_PUBLISH env c = None"
proof -
  have nz: "0 < uint w" if "w \<noteq> 0" for w :: u8
    using that by (simp add: less_le uint_0_iff)
  have pos: "0 < 256 * uint hi + uint lo"
    using assms(2) nz [of hi] nz [of lo] by (auto intro: add_pos_nonneg add_nonneg_pos)
  obtain h hs where l: "list_sub_handle c = h # hs" using assms(3) by (cases "list_sub_handle c") auto
  show ?thesis using pos
    by (simp add: iotx_mc_handle_recv_PUBLISH_def assms(1) short_publish_read [OF pos] deliver_and_ack_def
        iotx_mc_deliver_message_def l topic_hit_def MQTTPacket_equals_def topic_chars_def)
qed

theorem short_publish_follows_null_witness:
  "iotx_mc_handle_recv_PUBLISH sample_env (subscribed_client\<lparr>buf_read := Some [0x30, 2, 0, 4]\<rparr>) = None"
  by (rule short_publish_follows_null [of _ 0 4]) (simp_all add: subscribed_client_def)

subsection \<open>The connection\<close>



text \<open>C19. The connection state moves along the intended edges when the client yields: an initialised client
  is not connected, a lost connection is noted for reconnecting, and a connected or reconnecting client ends
  connected, disconnected or reconnecting. At most two pings are then unanswered.\<close>

theorem yield_moves_connection:
  assumes "mc_reachable env c" "0 \<le> timeout_ms" "wrapper_mqtt_yield env timeout_ms c = Some (rc, c')"
  shows "(case client_state c of
      IOTX_MC_STATE_INITIALIZED \<Rightarrow> client_state c' = IOTX_MC_STATE_INITIALIZED
    | IOTX_MC_STATE_DISCONNECTED \<Rightarrow> client_state c' = IOTX_MC_STATE_DISCONNECTED_RECONNECTING
    | _ \<Rightarrow> client_state c' \<in> {IOTX_MC_STATE_CONNECTED, IOTX_MC_STATE_DISCONNECTED, IOTX_MC_STATE_DISCONNECTED_RECONNECTING})
    \<and> keepalive_probes c' \<le> 2"
proof -
  note live = reachable_live [OF assms(1)]
  have "mc_ok c' \<and> yield_edge (client_state (core c)) (client_state (core c'))"
    using post_after [OF assms(3) wp_yield [of c timeout_ms "\<lambda>(rc, c'). mc_ok c' \<and> yield_edge (client_state (core c)) (client_state (core c'))" env]]
      live assms(2) by (simp add: mc_live_def)
  then show ?thesis using live
    by (cases "client_state c") (auto simp: yield_edge_def mc_live_def live_state_def mc_ok_def core_keeps)
qed

theorem yield_moves_connection_witness:
  "\<exists>c'. wrapper_mqtt_yield sample_env 0 connected_client = Some (0, c') \<and>
     client_state c' = IOTX_MC_STATE_DISCONNECTED \<and> keepalive_probes c' \<le> 2"
proof -
  obtain c' where c: "wrapper_mqtt_yield sample_env 0 connected_client = Some (0, c')"
      "client_state c' = IOTX_MC_STATE_DISCONNECTED"
    using sample_run(3) by auto
  then show ?thesis using yield_moves_connection [OF sample_reachable _ c(1)] by auto
qed

end
