(* ===== verification/I2cBus.thy ===== *)
theory I2cBus
  imports Prelude
begin

text \<open>
  The I2C bus of the light applications, driven by software on two pins (source/demo_rgb/i2c.c),
  and the LED driver on it (source/demo_rgb/pca9634.c). The state is the level of the two pins, the
  direction of the data pin and everything done to the pins so far, oldest first. What reading the
  data pin gives is the parameter \<open>rd\<close>, a function of that history.
  The set-up of the pads and the pin that enables the outputs of the LED driver are left out.
\<close>

unbundle bit_operations_syntax

subsection \<open>Pins\<close>

datatype pin_event =
    Scl bool | Sda bool | SdaInput | SdaOutput | ReadSda bool | Delay nat

record i2c_bus =
  scl :: bool
  sda :: bool
  sda_input :: bool
  pin_trace :: "pin_event list"

type_synonym line_reader = "i2c_bus \<Rightarrow> bool"

definition I2C_SETUP_TIME :: nat where "I2C_SETUP_TIME = 20000"
definition I2C_HOLD_TIME :: nat where "I2C_HOLD_TIME = 40000"

definition I2C_SCL_LOW :: "i2c_bus \<Rightarrow> i2c_bus" where
  "I2C_SCL_LOW b = b\<lparr>scl := False, pin_trace := pin_trace b @ [Scl False]\<rparr>"

definition I2C_SCL_HIGH :: "i2c_bus \<Rightarrow> i2c_bus" where
  "I2C_SCL_HIGH b = b\<lparr>scl := True, pin_trace := pin_trace b @ [Scl True]\<rparr>"

definition sda_write :: "bool \<Rightarrow> i2c_bus \<Rightarrow> i2c_bus" where
  "sda_write v b = b\<lparr>sda := v, pin_trace := pin_trace b @ [Sda v]\<rparr>"

definition I2C_SDA_LOW :: "i2c_bus \<Rightarrow> i2c_bus" where "I2C_SDA_LOW = sda_write False"
definition I2C_SDA_HIGH :: "i2c_bus \<Rightarrow> i2c_bus" where "I2C_SDA_HIGH = sda_write True"

definition sda_read :: "line_reader \<Rightarrow> i2c_bus \<Rightarrow> bool \<times> i2c_bus" where
  "sda_read rd b = (rd b, b\<lparr>pin_trace := pin_trace b @ [ReadSda (rd b)]\<rparr>)"

text \<open>The wait counts down to zero.\<close>

definition i2c_internal_delay :: "nat \<Rightarrow> i2c_bus \<Rightarrow> i2c_bus" where
  "i2c_internal_delay n b = b\<lparr>pin_trace := pin_trace b @ [Delay n]\<rparr>"

abbreviation (input) setup_time :: "i2c_bus \<Rightarrow> i2c_bus" where
  "setup_time \<equiv> i2c_internal_delay I2C_SETUP_TIME"

abbreviation (input) hold_time :: "i2c_bus \<Rightarrow> i2c_bus" where
  "hold_time \<equiv> i2c_internal_delay I2C_HOLD_TIME"

text \<open>A sequence of pin operations, in the order of the code.\<close>

definition then_do :: "(i2c_bus \<Rightarrow> i2c_bus) list \<Rightarrow> i2c_bus \<Rightarrow> i2c_bus" where
  "then_do fs b = foldl (\<lambda>b f. f b) b fs"

subsection \<open>Bits\<close>

definition i2c_master_init :: "i2c_bus \<Rightarrow> i2c_bus" where
  "i2c_master_init b = (I2C_SDA_HIGH (I2C_SCL_HIGH b))\<lparr>sda_input := False\<rparr>"

definition i2c_clock :: "i2c_bus \<Rightarrow> i2c_bus" where
  "i2c_clock = then_do [hold_time, I2C_SCL_HIGH, hold_time, I2C_SCL_LOW, setup_time]"

definition i2c_ack :: "i2c_bus \<Rightarrow> i2c_bus" where
  "i2c_ack = then_do
     [I2C_SDA_LOW, setup_time, I2C_SCL_HIGH, hold_time, I2C_SCL_LOW, setup_time, I2C_SDA_HIGH, setup_time,
      I2C_SCL_HIGH, hold_time]"

definition i2c_noack :: "i2c_bus \<Rightarrow> i2c_bus" where
  "i2c_noack = then_do
     [I2C_SDA_HIGH, setup_time, I2C_SCL_HIGH, hold_time, I2C_SCL_LOW, setup_time, I2C_SDA_HIGH, setup_time,
      I2C_SCL_HIGH, hold_time]"

definition i2c_write_bit :: "u8 \<Rightarrow> i2c_bus \<Rightarrow> i2c_bus" where
  "i2c_write_bit bitv = then_do
     [I2C_SCL_LOW, setup_time, sda_write (0 < bitv), I2C_SCL_HIGH, hold_time, I2C_SCL_LOW, setup_time]"

definition i2c_read_bit :: "line_reader \<Rightarrow> i2c_bus \<Rightarrow> u8 \<times> i2c_bus" where
  "i2c_read_bit rd b =
     (let (rb, b) = sda_read rd (then_do [I2C_SCL_LOW, setup_time, I2C_SCL_HIGH, setup_time] b)
      in (of_bool rb, then_do [setup_time, I2C_SCL_LOW, setup_time] b))"

definition i2c_start_signal :: "i2c_bus \<Rightarrow> i2c_bus" where
  "i2c_start_signal = then_do [I2C_SCL_HIGH, setup_time, I2C_SDA_LOW, setup_time, I2C_SCL_LOW, setup_time]"

definition i2c_stop_signal :: "i2c_bus \<Rightarrow> i2c_bus" where
  "i2c_stop_signal = then_do
     [I2C_SCL_LOW, setup_time, I2C_SDA_LOW, setup_time, I2C_SCL_HIGH, setup_time, I2C_SDA_HIGH, setup_time]"

definition i2c_back2idle_state :: "i2c_bus \<Rightarrow> i2c_bus" where
  "i2c_back2idle_state = then_do [I2C_SCL_LOW, setup_time, I2C_SDA_HIGH, setup_time]"

subsection \<open>Bytes\<close>

text \<open>The loop over the bits of a byte, the most significant first.\<close>

fun write_bits :: "nat \<Rightarrow> u8 \<Rightarrow> i2c_bus \<Rightarrow> i2c_bus" where
  "write_bits 0 w b = b"
| "write_bits (Suc k) w b = write_bits k w (i2c_write_bit (push_bit (7 - k) w AND 0x80) b)"

definition i2c_send_slave_addr :: "line_reader \<Rightarrow> u8 \<Rightarrow> i2c_bus \<Rightarrow> u8 \<times> i2c_bus" where
  "i2c_send_slave_addr rd addr_rw b = i2c_read_bit rd (write_bits 8 addr_rw (i2c_start_signal b))"

definition i2c_write_byte :: "line_reader \<Rightarrow> u8 \<Rightarrow> i2c_bus \<Rightarrow> u8 \<times> i2c_bus" where
  "i2c_write_byte rd wv b =
     (let b = write_bits 8 wv b;
          b = (if wv AND 1 \<noteq> 0 then setup_time (sda_write False b) else b)
      in i2c_read_bit rd b)"

fun read_bits :: "line_reader \<Rightarrow> nat \<Rightarrow> u8 \<Rightarrow> i2c_bus \<Rightarrow> u8 \<times> i2c_bus" where
  "read_bits rd 0 rv b = (rv, b)"
| "read_bits rd (Suc k) rv b =
     (let (x, b) = i2c_read_bit rd b in read_bits rd k (push_bit 1 rv OR x) b)"

text \<open>\<open>GPIO_PinInit\<close> as an output first sets the level to its \<open>outputLogic\<close>, which is 1.\<close>

definition i2c_read_byte :: "line_reader \<Rightarrow> u8 \<Rightarrow> i2c_bus \<Rightarrow> u8 \<times> i2c_bus" where
  "i2c_read_byte rd ack b =
     (let b = b\<lparr>sda_input := True, pin_trace := pin_trace b @ [SdaInput]\<rparr>;
          (rv, b) = read_bits rd 8 0 b;
          b = (sda_write True b)\<lparr>sda_input := False\<rparr>;
          b = b\<lparr>pin_trace := pin_trace b @ [SdaOutput]\<rparr>
      in (rv, if ack \<noteq> 0 then i2c_ack b else i2c_noack b))"

subsection \<open>The LED driver\<close>

definition PCA9634_ALLCALL_ADDR :: u8 where "PCA9634_ALLCALL_ADDR = 0x15"
definition PCA9634_SOFRST_ADDR :: u8 where "PCA9634_SOFRST_ADDR = 0x03"

definition write_addr :: "u8 \<Rightarrow> u8" where
  "write_addr a = push_bit 1 a AND 0xfe"

definition pca_write_reg :: "line_reader \<Rightarrow> u8 \<Rightarrow> u8 \<Rightarrow> i2c_bus \<Rightarrow> u8 \<times> i2c_bus" where
  "pca_write_reg rd regaddr data b =
     (let (ret, b) = i2c_send_slave_addr rd (write_addr PCA9634_ALLCALL_ADDR) b in
      if ret \<noteq> 0 then (ret, i2c_stop_signal b)
      else
        let (ret, b) = i2c_write_byte rd regaddr b;
            (ret, b) = i2c_write_byte rd data b
        in (ret, i2c_stop_signal b))"

text \<open>The result also holds the value read, if one was.\<close>

definition pca_read_reg :: "line_reader \<Rightarrow> u8 \<Rightarrow> i2c_bus \<Rightarrow> u8 \<times> u8 option \<times> i2c_bus" where
  "pca_read_reg rd regaddr b =
     (let wv = write_addr PCA9634_ALLCALL_ADDR;
          (ret, b) = i2c_send_slave_addr rd wv b in
      if ret \<noteq> 0 then (ret, None, i2c_stop_signal b)
      else
        let (ret, b) = i2c_write_byte rd regaddr b;
            (ret, b) = i2c_send_slave_addr rd (wv OR 1) (i2c_back2idle_state b);
            (red_value, b) = i2c_read_byte rd 0 b
        in (ret, Some red_value, i2c_stop_signal b))"

definition pca_reset :: "line_reader \<Rightarrow> i2c_bus \<Rightarrow> u8 \<times> i2c_bus" where
  "pca_reset rd b =
     (let (ret, b) = i2c_send_slave_addr rd (write_addr PCA9634_SOFRST_ADDR) b in
      if ret \<noteq> 0 then (ret, i2c_stop_signal b)
      else
        let (ret, b) = i2c_write_byte rd 0xa5 b;
            (ret, b) = i2c_write_byte rd 0x5a b
        in (ret, i2c_stop_signal b))"

definition pca9634_mode_configure :: "line_reader \<Rightarrow> i2c_bus \<Rightarrow> u8 \<times> i2c_bus" where
  "pca9634_mode_configure rd b =
     (let (ret, b) = pca_write_reg rd 0 1 b;
          (ret, b) = pca_write_reg rd 1 8 b
      in pca_write_reg rd 0x0c 0xff b)"

definition pca9634_init :: "line_reader \<Rightarrow> i2c_bus \<Rightarrow> i2c_bus" where
  "pca9634_init rd b =
     (let (ret, b) = pca_reset rd (i2c_master_init b);
          (ret, b) = pca9634_mode_configure rd b
      in b)"

definition pca_blue_value_set :: "line_reader \<Rightarrow> u8 \<Rightarrow> i2c_bus \<Rightarrow> u8 \<times> i2c_bus" where
  "pca_blue_value_set rd bv b =
     (let (ret, b) = i2c_send_slave_addr rd (write_addr PCA9634_ALLCALL_ADDR) b in
      if ret \<noteq> 0 then (ret, i2c_stop_signal b)
      else
        let (ret, b) = i2c_write_byte rd 0x02 b;
            (ret, b) = i2c_write_byte rd bv b
        in (ret, i2c_stop_signal b))"

definition pca_green_value_set :: "line_reader \<Rightarrow> u8 \<Rightarrow> i2c_bus \<Rightarrow> u8 \<times> i2c_bus" where
  "pca_green_value_set rd gv b =
     (let (ret, b) = i2c_send_slave_addr rd (write_addr PCA9634_ALLCALL_ADDR) b in
      if ret \<noteq> 0 then (ret, i2c_stop_signal b)
      else
        let (ret, b) = i2c_write_byte rd 0x03 b;
            (ret, b) = i2c_write_byte rd gv b
        in (ret, i2c_stop_signal b))"

text \<open>For red the results of the data bytes are dropped.\<close>

definition pca_red_value_set :: "line_reader \<Rightarrow> u8 \<Rightarrow> i2c_bus \<Rightarrow> u8 \<times> i2c_bus" where
  "pca_red_value_set rd rv b =
     (let (ret, b) = i2c_send_slave_addr rd (write_addr PCA9634_ALLCALL_ADDR) b in
      if ret \<noteq> 0 then (ret, i2c_stop_signal b)
      else
        let (ret', b) = i2c_write_byte rd 0x04 b;
            (ret', b) = i2c_write_byte rd rv b
        in (ret, i2c_stop_signal b))"

end
