(* ===== verification/CloudService.thy ===== *)
theory CloudService
  imports Cjson CFormat
begin

text \<open>
  What the two light applications (source/demo_rgb/rgb_light.c and source/demo_dim/lighting.c) have
  in common: their calls to the cloud SDK, the texts they send, and the service they offer.
\<close>

datatype cloud_call =
    ReportProperty string | TriggerEvent string string | DeviceInfoUpdate string | DeviceInfoDelete string
  | QueryFota | QueryCota | CloudYield

text \<open>A JSON object with one member.\<close>

definition quoted :: "string \<Rightarrow> string" where
  "quoted t = [CHR 0x22] @ t @ [CHR 0x22]"

definition member_text :: "string \<Rightarrow> string \<Rightarrow> string" where
  "member_text name v = ''{'' @ quoted name @ '': '' @ v @ ''}''"

text \<open>
  The function for colours of lighting.c is empty; both applications call it.
\<close>

definition light_rgb_set_hdl :: "u8 \<Rightarrow> u8 \<Rightarrow> u8 \<Rightarrow> 's \<Rightarrow> 's" where
  "light_rgb_set_hdl r g b s = s"

text \<open>
  The service adds two numbers; both applications have the same text for it. The result is the return code and the response, if one was made. The buffer holds the format's 14
  characters and 11 more; \<open>mem\<close> says whether it can be allocated.
\<close>

definition operation_service :: string where
  "operation_service = ''Operation_Service''"

definition result_text :: "int \<Rightarrow> string" where
  "result_text n = ''{'' @ [CHR 0x22] @ ''Result'' @ [CHR 0x22] @ '': '' @ fmt_d n @ ''}''"

definition add_service ::
    "(string \<Rightarrow> cjson option) \<Rightarrow> bool \<Rightarrow> string \<Rightarrow> string \<Rightarrow> int \<times> string option" where
  "add_service cJSON_Parse mem serviceid request =
     (case cJSON_Parse request of
        None \<Rightarrow> (-1, None)
      | Some jroot \<Rightarrow>
          if \<not> cJSON_IsObject jroot then (-1, None)
          else if serviceid \<noteq> operation_service then (0, None)
          else
            (case cJSON_GetObjectItem (Some jroot) ''NumberA'' of
               None \<Rightarrow> (-1, None)
             | Some a \<Rightarrow>
                 if \<not> cJSON_IsNumber a then (-1, None)
                 else
                   (case cJSON_GetObjectItem (Some jroot) ''NumberB'' of
                      None \<Rightarrow> (-1, None)
                    | Some b \<Rightarrow>
                        if \<not> cJSON_IsNumber b then (-1, None)
                        else if \<not> mem then (-1, None)
                        else (0, Some (fst (c_snprintf (14 + 10 + 1)
                                              (result_text (i32 (valueint a + valueint b)))))))))"

end
