(* ===== verification/RgbLight.thy ===== *)
theory RgbLight
  imports I2cBus CloudService
begin

text \<open>
  The colour light (source/demo_rgb/rgb_light.c): the context of the application, the pins of the
  bus the LED driver is on, and the calls to the cloud SDK, oldest first. What the SDK returns for
  opening and connecting the device is a parameter. The traces are left out.
\<close>

unbundle bit_operations_syntax

subsection \<open>State\<close>

record rgb_light_example_ctx =
  master_devid :: int
  cloud_connected :: int
  master_initialized :: int
  light_onoff_st :: u8
  red_value :: u8
  green_value :: u8
  blue_value :: u8

record rgb_state =
  rgb_ctx :: rgb_light_example_ctx
  rgb_bus :: i2c_bus
  rgb_calls :: "cloud_call list"

definition RGB_LIGHT_DEFAULT_ON :: u8 where "RGB_LIGHT_DEFAULT_ON = 255"

definition on_bus :: "(i2c_bus \<Rightarrow> u8 \<times> i2c_bus) \<Rightarrow> rgb_state \<Rightarrow> u8 \<times> rgb_state" where
  "on_bus f s = (let (ret, b) = f (rgb_bus s) in (ret, s\<lparr>rgb_bus := b\<rparr>))"

definition call_cloud :: "cloud_call \<Rightarrow> rgb_state \<Rightarrow> rgb_state" where
  "call_cloud c s = s\<lparr>rgb_calls := rgb_calls s @ [c]\<rparr>"

definition set_ctx :: "(rgb_light_example_ctx \<Rightarrow> rgb_light_example_ctx) \<Rightarrow> rgb_state \<Rightarrow> rgb_state" where
  "set_ctx f s = s\<lparr>rgb_ctx := f (rgb_ctx s)\<rparr>"

subsection \<open>Switching and colours\<close>

definition rgb_light_on :: "line_reader \<Rightarrow> rgb_state \<Rightarrow> u8 \<times> rgb_state" where
  "rgb_light_on rd s =
     (let (ret, s) = on_bus (pca_red_value_set rd (red_value (rgb_ctx s))) s in
      if ret \<noteq> 0 then (ret, s)
      else let (ret, s) = on_bus (pca_blue_value_set rd (blue_value (rgb_ctx s))) s in
           if ret \<noteq> 0 then (ret, s)
           else on_bus (pca_green_value_set rd (green_value (rgb_ctx s))) s)"

definition rgb_light_off :: "line_reader \<Rightarrow> rgb_state \<Rightarrow> u8 \<times> rgb_state" where
  "rgb_light_off rd s =
     (let (ret, s) = on_bus (pca_red_value_set rd 0) s in
      if ret \<noteq> 0 then (ret, s)
      else let (ret, s) = on_bus (pca_blue_value_set rd 0) s in
           if ret \<noteq> 0 then (ret, s)
           else on_bus (pca_green_value_set rd 0) s)"

definition rgb_light_onoff_set_hdl :: "line_reader \<Rightarrow> u8 \<Rightarrow> rgb_state \<Rightarrow> rgb_state" where
  "rgb_light_onoff_set_hdl rd onoff s =
     (let s = snd (if onoff \<noteq> 0 then rgb_light_on rd s else rgb_light_off rd s)
      in set_ctx (\<lambda>c. c\<lparr>light_onoff_st := onoff\<rparr>) s)"

definition rgb_light_set_hdl :: "line_reader \<Rightarrow> u8 \<Rightarrow> u8 \<Rightarrow> u8 \<Rightarrow> rgb_state \<Rightarrow> rgb_state" where
  "rgb_light_set_hdl rd r g b s =
     (let s = set_ctx (\<lambda>c. c\<lparr>red_value := r, green_value := g, blue_value := b\<rparr>) s;
          (ret, s) = on_bus (pca_red_value_set rd r) s;
          (ret, s) = on_bus (pca_green_value_set rd g) s;
          (ret, s) = on_bus (pca_blue_value_set rd b) s
      in s)"

subsection \<open>Callbacks of the cloud\<close>

definition rgb_light_connected_event_handler :: "rgb_state \<Rightarrow> rgb_state" where
  "rgb_light_connected_event_handler = set_ctx (\<lambda>c. c\<lparr>cloud_connected := 1\<rparr>)"

definition rgb_light_disconnected_event_handler :: "rgb_state \<Rightarrow> rgb_state" where
  "rgb_light_disconnected_event_handler = set_ctx (\<lambda>c. c\<lparr>cloud_connected := 0\<rparr>)"

definition rgb_light_initialized :: "rgb_state \<Rightarrow> rgb_state" where
  "rgb_light_initialized = set_ctx (\<lambda>c. c\<lparr>master_initialized := 1\<rparr>)"

text \<open>A number is passed on as its lowest byte.\<close>

definition rgb_light_property_set_event_handler ::
    "(string \<Rightarrow> cjson option) \<Rightarrow> line_reader \<Rightarrow> string \<Rightarrow> rgb_state \<Rightarrow> int \<times> rgb_state" where
  "rgb_light_property_set_event_handler cJSON_Parse rd request s =
     (case cJSON_Parse request of
        None \<Rightarrow> (-1, s)
      | Some p_root \<Rightarrow>
          if \<not> cJSON_IsObject p_root then (-1, s)
          else
            let s = (case cJSON_GetObjectItemCaseSensitive p_root ''LightSwitch'' of
                       None \<Rightarrow> s
                     | Some light_c \<Rightarrow>
                         if cJSON_IsNumber light_c
                         then rgb_light_onoff_set_hdl rd (word_of_int (valueint light_c)) s else s);
                s = (case cJSON_GetObjectItemCaseSensitive p_root ''RGBColor'' of
                       None \<Rightarrow> s
                     | Some c \<Rightarrow> light_rgb_set_hdl (word_of_int (valueint c)) (word_of_int (valueint c))
                                   (word_of_int (valueint c)) s)
            in (0, call_cloud (ReportProperty request) s))"

definition rgb_light_service_request_event_handler ::
    "(string \<Rightarrow> cjson option) \<Rightarrow> bool \<Rightarrow> string \<Rightarrow> string \<Rightarrow> int \<times> string option" where
  "rgb_light_service_request_event_handler = add_service"

definition rgb_light_fota_event_handler :: "int \<Rightarrow> rgb_state \<Rightarrow> rgb_state" where
  "rgb_light_fota_event_handler typ s = (if typ = 0 then call_cloud QueryFota s else s)"

definition rgb_light_cota_event_handler :: "int \<Rightarrow> rgb_state \<Rightarrow> rgb_state" where
  "rgb_light_cota_event_handler typ s = (if typ = 0 then call_cloud QueryCota s else s)"

subsection \<open>Posting\<close>

definition rgb_light_property_post :: "u8 \<Rightarrow> rgb_state \<Rightarrow> rgb_state" where
  "rgb_light_property_post is_light_switch s =
     (if cloud_connected (rgb_ctx s) = 0 then s
      else
        let property_payload = fst (c_snprintf 30 (member_text ''LightSwitch'' (fmt_d (uint (light_onoff_st (rgb_ctx s))))))
        in call_cloud (ReportProperty property_payload) s)"

definition rgb_light_post_event :: "rgb_state \<Rightarrow> rgb_state" where
  "rgb_light_post_event = call_cloud (TriggerEvent ''HardwareError'' (member_text ''ErrorCode'' ''0''))"

definition rgb_light_deviceinfo_update :: "rgb_state \<Rightarrow> rgb_state" where
  "rgb_light_deviceinfo_update = call_cloud (DeviceInfoUpdate
     (''[{'' @ quoted ''attrKey'' @ '':'' @ quoted ''abc'' @ '','' @ quoted ''attrValue'' @ '':'' @ quoted ''hello,world'' @ ''}]''))"

definition rgb_light_deviceinfo_delete :: "rgb_state \<Rightarrow> rgb_state" where
  "rgb_light_deviceinfo_delete = call_cloud (DeviceInfoDelete
     (''[{'' @ quoted ''attrKey'' @ '':'' @ quoted ''abc'' @ ''}]''))"

text \<open>The button sets all three colours to the random value drawn for red.\<close>

definition rgb_light_button_pressed :: "line_reader \<Rightarrow> u8 \<Rightarrow> u8 \<Rightarrow> u8 \<Rightarrow> rgb_state \<Rightarrow> rgb_state" where
  "rgb_light_button_pressed rd r g b s =
     (let (ret, s) = on_bus (pca_red_value_set rd r) s;
          (ret, s) = on_bus (pca_green_value_set rd r) s;
          (ret, s) = on_bus (pca_blue_value_set rd r) s
      in s)"

subsection \<open>Starting\<close>

definition zero_ctx :: rgb_light_example_ctx where
  "zero_ctx = \<lparr>master_devid = 0, cloud_connected = 0, master_initialized = 0, light_onoff_st = 0,
     red_value = 0, green_value = 0, blue_value = 0\<rparr>"

text \<open>
  The start of \<open>rgb_light_run\<close>: \<open>opened\<close> and \<open>linked\<close> are what \<open>IOT_Linkkit_Open\<close> and
  \<open>IOT_Linkkit_Connect\<close> return. The result says whether the main loop is reached.
\<close>

definition rgb_light_start :: "line_reader \<Rightarrow> int \<Rightarrow> int \<Rightarrow> rgb_state \<Rightarrow> bool \<times> rgb_state" where
  "rgb_light_start rd opened linked s =
     (let s = s\<lparr>rgb_ctx := zero_ctx\<rparr>;
          s = s\<lparr>rgb_bus := pca9634_init rd (rgb_bus s)\<rparr>;
          s = set_ctx (\<lambda>c. c\<lparr>red_value := RGB_LIGHT_DEFAULT_ON, green_value := RGB_LIGHT_DEFAULT_ON,
                              blue_value := RGB_LIGHT_DEFAULT_ON\<rparr>) s;
          s = rgb_light_onoff_set_hdl rd (light_onoff_st (rgb_ctx s)) s;
          s = set_ctx (\<lambda>c. c\<lparr>master_devid := opened\<rparr>) s
      in (0 \<le> opened \<and> 0 \<le> linked, s))"

text \<open>One round of the main loop.\<close>

definition rgb_light_round :: "int \<Rightarrow> rgb_state \<Rightarrow> int \<times> rgb_state" where
  "rgb_light_round cnt s =
     (let s = call_cloud CloudYield s;
          s = (if cnt smod 100 = 0 then rgb_light_property_post 1 s else s)
      in (i32 (cnt + 1), s))"

end
