(* ===== verification/I2cProps.thy ===== *)
theory I2cProps
  imports I2cBus
begin

text \<open>
  What the pins of the software bus say: an observer of the two lines reads start and stop
  conditions and bits, and from these the transactions. Writing a register of the LED driver is one
  transaction with the address, the register and the value.
\<close>

unbundle bit_operations_syntax

subsection \<open>Observing the bus\<close>

datatype bus_symbol = Start | Stop | Bit bool

text \<open>
  The observer knows the levels of clock and data and whether the data line has moved since the
  clock went up. A move of the data line under a high clock is a start or a stop condition; a high
  phase without a move is a bit.
\<close>

type_synonym observer = "bool \<times> bool \<times> bool"

fun observe :: "observer \<Rightarrow> pin_event list \<Rightarrow> bus_symbol list \<times> observer" where
  "observe s [] = ([], s)"
| "observe (c, d, m) (Scl v # es) =
     (let (ys, s) = observe (v, d, if c then v \<and> m else False) es
      in (if c \<and> \<not> v \<and> \<not> m then Bit d # ys else ys, s))"
| "observe (c, d, m) (Sda v # es) =
     (let (ys, s) = observe (c, v, m \<or> c \<and> d \<noteq> v) es
      in (if c \<and> d \<and> \<not> v then Start # ys else if c \<and> \<not> d \<and> v then Stop # ys else ys, s))"
| "observe s (_ # es) = observe s es"

lemma observe_append:
  "observe s (xs @ ys) = (let (a, s1) = observe s xs; (b, s2) = observe s1 ys in (a @ b, s2))"
  by (induction s xs rule: observe.induct) (auto simp: Let_def split: prod.splits)

text \<open>What an operation puts on the bus.\<close>

definition puts :: "i2c_bus \<Rightarrow> bool \<Rightarrow> bus_symbol list \<Rightarrow> i2c_bus \<Rightarrow> bool \<Rightarrow> bool" where
  "puts b m ys b' m' \<longleftrightarrow> sda_input b' = sda_input b \<and>
     (\<exists>es. pin_trace b' = pin_trace b @ es \<and> observe (scl b, sda b, m) es = (ys, (scl b', sda b', m')))"

lemma putsI:
  "pin_trace b' = pin_trace b @ es \<Longrightarrow> observe (scl b, sda b, m) es = (ys, (scl b', sda b', m')) \<Longrightarrow>
   sda_input b' = sda_input b \<Longrightarrow> puts b m ys b' m'"
  by (auto simp: puts_def)

lemma puts_trans [trans]:
  assumes "puts b m xs b1 m1" "puts b1 m1 ys b2 m2"
  shows "puts b m (xs @ ys) b2 m2"
  using assms by (fastforce simp: puts_def observe_append)

lemma puts_sda_input: "puts b m ys b' m' \<Longrightarrow> sda_input b' = sda_input b"
  by (simp add: puts_def)

lemmas pin_defs =
  then_do_def I2C_SCL_LOW_def I2C_SCL_HIGH_def I2C_SDA_LOW_def I2C_SDA_HIGH_def sda_write_def i2c_internal_delay_def

subsection \<open>Bits and bytes on the bus\<close>

lemma puts_write_bit:
  "\<not> scl b \<Longrightarrow> puts b m [Bit (0 < w)] (i2c_write_bit w b) False"
  "\<not> scl (i2c_write_bit w b)" "sda (i2c_write_bit w b) = (0 < w)"
  by (simp_all add: i2c_write_bit_def pin_defs putsI)

lemma puts_start:
  "scl b \<Longrightarrow> sda b \<Longrightarrow> puts b m [Start] (i2c_start_signal b) False"
  "\<not> scl (i2c_start_signal b)"
  by (simp_all add: i2c_start_signal_def pin_defs putsI)

lemma puts_stop:
  "\<not> scl b \<Longrightarrow> puts b m [Stop] (i2c_stop_signal b) True"
  "scl (i2c_stop_signal b)" "sda (i2c_stop_signal b)"
  by (simp_all add: i2c_stop_signal_def pin_defs putsI)

lemma puts_read_bit:
  assumes "i2c_read_bit rd b = (x, b')" "\<not> scl b"
  shows "puts b m [Bit (sda b)] b' False" "\<not> scl b'" "sda b' = sda b"
    "\<exists>b1. x = of_bool (rd b1) \<and> sda b1 = sda b \<and> sda_input b1 = sda_input b"
  using assms by (auto simp: i2c_read_bit_def sda_read_def pin_defs Let_def intro!: putsI)

lemma bit_0x80: "bit (0x80 :: u8) n \<longleftrightarrow> n = 7"
proof -
  have "(0x80 :: u8) = push_bit 7 1" by simp
  then show ?thesis by (auto simp only: bit_push_bit_iff bit_1_iff) simp_all
qed

lemma top_bit: "k < 8 \<Longrightarrow> 0 < push_bit (7 - k) w AND (0x80 :: u8) \<longleftrightarrow> bit w k"
proof -
  assume k: "k < 8"
  have "bit (push_bit (7 - k) w AND (0x80 :: u8)) n \<longleftrightarrow> n = 7 \<and> bit w k" for n
    using k by (auto simp only: bit_and_iff bit_0x80 bit_push_bit_iff) simp_all
  then have "bit (push_bit (7 - k) w AND (0x80 :: u8)) n \<longleftrightarrow> bit (if bit w k then 0x80 else 0 :: u8) n" for n
    by (auto simp only: bit_0x80 bit_0_eq bot_apply split: if_splits) simp_all
  then have "push_bit (7 - k) w AND (0x80 :: u8) = (if bit w k then 0x80 else 0)"
    by (intro bit_eqI)
  then show ?thesis by simp
qed

definition byte_bits :: "nat \<Rightarrow> u8 \<Rightarrow> bus_symbol list" where
  "byte_bits k w = map (\<lambda>i. Bit (bit w i)) (rev [0..<k])"

lemma puts_write_bits:
  "k \<le> 8 \<Longrightarrow> \<not> scl b \<Longrightarrow> \<exists>m'. puts b m (byte_bits k w) (write_bits k w b) m' \<and>
     \<not> scl (write_bits k w b) \<and> (0 < k \<longrightarrow> sda (write_bits k w b) = bit w 0)"
proof (induction k arbitrary: b m)
  case 0
  show ?case using 0 by (auto simp: byte_bits_def intro!: exI [of _ m] putsI)
next
  case (Suc k)
  let ?b = "i2c_write_bit (push_bit (7 - k) w AND 0x80) b"
  have b: "puts b m [Bit (bit w k)] ?b False" "\<not> scl ?b" "sda ?b = bit w k"
    using puts_write_bit(1) [of b m "push_bit (7 - k) w AND 0x80"] puts_write_bit(2,3) [of "push_bit (7 - k) w AND 0x80" b]
      Suc.prems top_bit [of k w] by simp_all
  obtain m' where r: "puts ?b False (byte_bits k w) (write_bits k w ?b) m'" "\<not> scl (write_bits k w ?b)"
      "0 < k \<longrightarrow> sda (write_bits k w ?b) = bit w 0"
    using Suc.IH [of ?b False] Suc.prems b(2) by auto
  have "puts b m (byte_bits (Suc k) w) (write_bits k w ?b) m'"
    using puts_trans [OF b(1) r(1)] by (simp add: byte_bits_def)
  then show ?case using r b(3) by (cases k) auto
qed

text \<open>
  A byte is followed by the bit in which the receiver acknowledges; there the data line is low, by
  the master itself, after every byte it writes.
\<close>

definition frame :: "u8 \<Rightarrow> bus_symbol list" where
  "frame w = byte_bits 8 w @ [Bit False]"

lemma puts_write_byte:
  assumes "i2c_write_byte rd w b = (x, b')" "\<not> scl b"
  shows "puts b m (frame w) b' False" "\<not> scl b'"
    "\<exists>b1. x = of_bool (rd b1) \<and> \<not> sda b1 \<and> sda_input b1 = sda_input b"
proof -
  obtain m1 where w: "puts b m (byte_bits 8 w) (write_bits 8 w b) m1" "\<not> scl (write_bits 8 w b)"
      "sda (write_bits 8 w b) = bit w 0"
    using puts_write_bits [of 8 b m w] assms(2) by auto
  let ?b = "if w AND 1 \<noteq> 0 then i2c_internal_delay I2C_SETUP_TIME (sda_write False (write_bits 8 w b)) else write_bits 8 w b"
  have one: "w AND 1 = of_bool (bit w 0)"
    by (simp add: and_one_eq mod2_eq_if bit_0)
  have b: "puts (write_bits 8 w b) m1 [] ?b m1" "\<not> scl ?b" "\<not> sda ?b"
    using w(2,3) by (auto simp: one pin_defs intro!: putsI)
  have r: "i2c_read_bit rd ?b = (x, b')"
    using assms(1) by (simp add: i2c_write_byte_def Let_def)
  show "puts b m (frame w) b' False"
    using puts_trans [OF puts_trans [OF w(1) b(1)] puts_read_bit(1) [OF r b(2)]] b(3) by (simp add: frame_def)
  show "\<not> scl b'" by (rule puts_read_bit(2) [OF r b(2)])
  show "\<exists>b1. x = of_bool (rd b1) \<and> \<not> sda b1 \<and> sda_input b1 = sda_input b"
    using puts_read_bit(4) [OF r b(2)] b(3) puts_sda_input [OF w(1)] puts_sda_input [OF b(1)] by auto
qed


subsection \<open>Transactions\<close>

text \<open>
  The transactions of a stretch of traffic: the bytes between a start and the next start or stop
  condition, each from eight bits and the acknowledgement. \<open>open\<close> holds the bytes of the running
  transaction, \<open>got\<close> its bits so far.
\<close>

definition byte_of :: "bool list \<Rightarrow> u8" where
  "byte_of bs = horner_sum of_bool 2 (rev bs)"

fun transactions :: "u8 list option \<Rightarrow> bool list \<Rightarrow> bus_symbol list \<Rightarrow> u8 list list" where
  "transactions run got [] = []"
| "transactions run got (Start # ys) =
     (case run of None \<Rightarrow> transactions (Some []) [] ys | Some t \<Rightarrow> t # transactions (Some []) [] ys)"
| "transactions run got (Stop # ys) =
     (case run of None \<Rightarrow> transactions None [] ys | Some t \<Rightarrow> t # transactions None [] ys)"
| "transactions run got (Bit x # ys) =
     (if length got < 8 then transactions run (got @ [x]) ys
      else transactions (map_option (\<lambda>t. t @ [byte_of got]) run) [] ys)"

lemma transactions_bits:
  "length got + length xs \<le> 8 \<Longrightarrow> transactions run got (map Bit xs @ ys) = transactions run (got @ xs) ys"
  by (induction xs arbitrary: got) auto

lemma byte_of_bits: "byte_of (map (bit w) (rev [0..<8])) = w"
proof -
  have "byte_of (map (bit w) (rev [0..<8])) = horner_sum of_bool 2 (map (bit w) [0..<8])"
    by (simp only: byte_of_def rev_map rev_rev_ident)
  also have "\<dots> = take_bit 8 w" by (rule horner_sum_bit_eq_take_bit)
  finally show ?thesis by (simp add: take_bit_word_eq_self)
qed

lemma transactions_frame:
  "transactions (Some t) [] (frame w @ ys) = transactions (Some (t @ [w])) [] ys"
proof -
  have f: "frame w = map Bit (map (bit w) (rev [0..<8])) @ [Bit False]"
    by (simp add: frame_def byte_bits_def comp_def)
  have "transactions (Some t) [] (frame w @ ys) =
      transactions (Some t) (map (bit w) (rev [0..<8])) (Bit False # ys)"
    unfolding f append_assoc by (subst transactions_bits) (simp_all del: upt_rec_numeral)
  then show ?thesis using byte_of_bits [of w] by (simp del: upt_rec_numeral)
qed

text \<open>What the observer of an idle bus has seen in the end.\<close>

definition idle :: "i2c_bus \<Rightarrow> bool" where
  "idle b \<longleftrightarrow> scl b \<and> sda b \<and> \<not> sda_input b"

definition sent :: "i2c_bus \<Rightarrow> i2c_bus \<Rightarrow> u8 list list \<Rightarrow> bool" where
  "sent b b' ts \<longleftrightarrow> idle b' \<and> (\<forall>m. \<exists>ys m'. puts b m ys b' m' \<and>
     (\<forall>zs. transactions None [] (ys @ zs) = ts @ transactions None [] zs))"

lemma sent_refl: "idle b \<Longrightarrow> sent b b []"
  unfolding sent_def by (auto intro!: exI [of _ "[]"] exI [of _ "m" for m] putsI [where es = "[]"])

lemma sent_trans: "sent b b1 xs \<Longrightarrow> sent b1 b2 ys \<Longrightarrow> sent b b2 (xs @ ys)"
  unfolding sent_def by (metis (no_types, lifting) append_assoc puts_trans)

text \<open>Sending an address: a start condition and the byte of the address.\<close>

lemma puts_send_addr:
  assumes "i2c_send_slave_addr rd a b = (x, b')" "idle b" "\<not> bit a 0"
  shows "puts b m (Start # frame a) b' False" "\<not> scl b'"
    "\<exists>b1. x = of_bool (rd b1) \<and> \<not> sda b1 \<and> \<not> sda_input b1"
proof -
  let ?s = "i2c_start_signal b"
  have s: "puts b m [Start] ?s False" "\<not> scl ?s"
    using puts_start [of b] assms(2) by (simp_all add: idle_def)
  obtain m1 where w: "puts ?s False (byte_bits 8 a) (write_bits 8 a ?s) m1" "\<not> scl (write_bits 8 a ?s)"
      "\<not> sda (write_bits 8 a ?s)"
    using puts_write_bits [of 8 ?s False a] s(2) assms(3) by auto
  have r: "i2c_read_bit rd (write_bits 8 a ?s) = (x, b')"
    using assms(1) by (simp add: i2c_send_slave_addr_def)
  show "puts b m (Start # frame a) b' False"
    using puts_trans [OF puts_trans [OF s(1) w(1)] puts_read_bit(1) [OF r w(2)]] w(3) by (simp add: frame_def)
  show "\<not> scl b'" by (rule puts_read_bit(2) [OF r w(2)])
  show "\<exists>b1. x = of_bool (rd b1) \<and> \<not> sda b1 \<and> \<not> sda_input b1"
    using puts_read_bit(4) [OF r w(2)] w(3) puts_sda_input [OF w(1)] puts_sda_input [OF s(1)] assms(2)
    by (auto simp: idle_def)
qed

text \<open>The common shape of the writes: the address, two bytes, and a stop.\<close>

definition write_two :: "line_reader \<Rightarrow> u8 \<Rightarrow> u8 \<Rightarrow> u8 \<Rightarrow> i2c_bus \<Rightarrow> u8 \<times> u8 \<times> i2c_bus" where
  "write_two rd a x y b =
     (let (ret, b) = i2c_send_slave_addr rd a b in
      if ret \<noteq> 0 then (ret, ret, i2c_stop_signal b)
      else let (r, b) = i2c_write_byte rd x b; (r', b) = i2c_write_byte rd y b
           in (ret, r', i2c_stop_signal b))"

lemma writes:
  "pca_write_reg rd x y b = (let (ret, r, b') = write_two rd (write_addr PCA9634_ALLCALL_ADDR) x y b in (r, b'))"
  "pca_reset rd b = (let (ret, r, b') = write_two rd (write_addr PCA9634_SOFRST_ADDR) 0xa5 0x5a b in (r, b'))"
  "pca_blue_value_set rd v b = pca_write_reg rd 2 v b"
  "pca_green_value_set rd v b = pca_write_reg rd 3 v b"
  "pca_red_value_set rd v b = (let (ret, r, b') = write_two rd (write_addr PCA9634_ALLCALL_ADDR) 4 v b in (ret, b'))"
  by (simp_all add: pca_write_reg_def pca_reset_def pca_blue_value_set_def pca_green_value_set_def
      pca_red_value_set_def write_two_def Let_def split: prod.split)

lemma sent_stop:
  assumes "idle b" "\<not> scl c" "sda_input c = sda_input b"
    and run: "\<And>m. \<exists>ys m1. puts b m (Start # ys) c m1 \<and>
      (\<forall>zs. transactions (Some []) [] (ys @ zs) = transactions (Some t) [] zs)"
  shows "sent b (i2c_stop_signal c) [t]"
  unfolding sent_def
proof (intro conjI allI)
  show "idle (i2c_stop_signal c)"
    using puts_stop(2,3) [of c] assms(1,3) puts_sda_input [OF puts_stop(1) [OF assms(2), of False]]
    by (simp add: idle_def)
  fix m
  obtain ys m1 where y: "puts b m (Start # ys) c m1" "\<And>zs. transactions (Some []) [] (ys @ zs) = transactions (Some t) [] zs"
    using run by blast
  show "\<exists>ys m'. puts b m ys (i2c_stop_signal c) m' \<and> (\<forall>zs. transactions None [] (ys @ zs) = [t] @ transactions None [] zs)"
    using puts_trans [OF y(1) puts_stop(1) [OF assms(2)]] y(2)
    by (intro exI [of _ "(Start # ys) @ [Stop]"] exI [of _ True]) simp
qed

lemma write_two_acked:
  assumes "write_two rd a x y b = (ret, r, b')" "idle b" "\<not> bit a 0"
  shows "\<exists>b1. ret = of_bool (rd b1) \<and> \<not> sda b1 \<and> \<not> sda_input b1"
    "\<exists>b2. r = of_bool (rd b2) \<and> \<not> sda b2 \<and> \<not> sda_input b2"
proof -
  obtain ret0 b1 where a: "i2c_send_slave_addr rd a b = (ret0, b1)" by fastforce
  obtain r1 b2 where x: "i2c_write_byte rd x b1 = (r1, b2)" by fastforce
  obtain r2 b3 where y: "i2c_write_byte rd y b2 = (r2, b3)" by fastforce
  note A = puts_send_addr [OF a assms(2,3)]
  note X = puts_write_byte [OF x A(2)]
  have "ret = ret0" "r = (if ret0 \<noteq> 0 then ret0 else r2)"
    using assms(1) by (auto simp: write_two_def a x y split: if_splits)
  then show "\<exists>b1. ret = of_bool (rd b1) \<and> \<not> sda b1 \<and> \<not> sda_input b1"
    "\<exists>b2. r = of_bool (rd b2) \<and> \<not> sda b2 \<and> \<not> sda_input b2"
    using A(3) puts_write_byte(3) [OF y X(2)] puts_sda_input [OF A(1)] puts_sda_input [OF X(1)] assms(2)
    by (auto simp: idle_def)
qed

lemma write_two_sent:
  assumes "write_two rd a x y b = (ret, r, b')" "idle b" "\<not> bit a 0"
  shows "sent b b' (if ret \<noteq> 0 then [[a]] else [[a, x, y]])"
proof -
  obtain ret0 b1 where a: "i2c_send_slave_addr rd a b = (ret0, b1)" by fastforce
  obtain r1 b2 where x: "i2c_write_byte rd x b1 = (r1, b2)" by fastforce
  obtain r2 b3 where y: "i2c_write_byte rd y b2 = (r2, b3)" by fastforce
  note A = puts_send_addr [OF a assms(2,3)]
  note X = puts_write_byte [OF x A(2)]
  note Y = puts_write_byte [OF y X(2)]
  have fr: "transactions (Some []) [] (frame a @ zs) = transactions (Some [a]) [] zs" for zs
    using transactions_frame [of "[]"] by simp
  show ?thesis
  proof (cases "ret0 = 0")
    case False
    have "sent b (i2c_stop_signal b1) [[a]]"
      using sent_stop [OF assms(2) A(2), of "[a]"] A(1) fr puts_sda_input [OF A(1)] by blast
    then show ?thesis using False assms(1) by (auto simp: write_two_def a)
  next
    case True
    have "puts b m (Start # frame a @ frame x @ frame y) b3 False" for m
      using puts_trans [OF puts_trans [OF A(1) X(1)] Y(1)] by simp
    moreover have "transactions (Some []) [] ((frame a @ frame x @ frame y) @ zs) = transactions (Some [a, x, y]) [] zs" for zs
      by (simp add: fr transactions_frame)
    ultimately have "sent b (i2c_stop_signal b3) [[a, x, y]]"
      using puts_sda_input [OF A(1)] puts_sda_input [OF X(1)] puts_sda_input [OF Y(1)]
      by (intro sent_stop [OF assms(2) Y(2)]) blast+
    then show ?thesis using True assms(1) by (auto simp: write_two_def a x y)
  qed
qed

end
