(* ===== verification/RgbProps.thy ===== *)
theory RgbProps
  imports RgbLight I2cProps
begin

text \<open>
  What the colour light does to its LEDs: the registers of the LED driver, as the transactions on
  the bus set them, follow an abstract light.
\<close>

unbundle bit_operations_syntax

subsection \<open>The registers behind the bus\<close>

text \<open>Everything an observer has read since the pins were set up.\<close>

definition traffic :: "i2c_bus \<Rightarrow> u8 list list" where
  "traffic b = transactions None [] (fst (observe (True, True, False) (pin_trace b)))"

definition heard :: "i2c_bus \<Rightarrow> u8 list list \<Rightarrow> bool" where
  "heard b ts \<longleftrightarrow> idle b \<and> (\<exists>ys m. observe (True, True, False) (pin_trace b) = (ys, (scl b, sda b, m)) \<and>
     (\<forall>zs. transactions None [] (ys @ zs) = ts @ transactions None [] zs))"

lemma heard_traffic: "heard b ts \<Longrightarrow> traffic b = ts"
  unfolding heard_def traffic_def by (metis append.right_neutral fst_conv transactions.simps(1))

lemma heard_sent:
  assumes "heard b xs" "sent b b' ts"
  shows "heard b' (xs @ ts)"
proof -
  obtain ys m where y: "observe (True, True, False) (pin_trace b) = (ys, (scl b, sda b, m))"
      "\<And>zs. transactions None [] (ys @ zs) = xs @ transactions None [] zs"
    using assms(1) by (auto simp: heard_def)
  obtain zs m' where z: "puts b m zs b' m'" "\<And>us. transactions None [] (zs @ us) = ts @ transactions None [] us"
    using assms(2) unfolding sent_def by blast
  obtain es where e: "pin_trace b' = pin_trace b @ es" "observe (scl b, sda b, m) es = (zs, (scl b', sda b', m'))"
    using z(1) by (auto simp: puts_def)
  have "observe (True, True, False) (pin_trace b') = (ys @ zs, (scl b', sda b', m'))"
    by (simp add: e(1) observe_append y(1) e(2))
  moreover have "idle b'" using assms(2) by (simp add: sent_def)
  ultimately show ?thesis
    unfolding heard_def using y(2) z(2) by (intro conjI exI [of _ "ys @ zs"] exI [of _ m']) simp_all
qed

text \<open>
  A register of the device at address \<open>a\<close> holds what was last written to it: a transaction of an
  address, a register and a value is a write.
\<close>

fun write_of :: "u8 \<Rightarrow> u8 list \<Rightarrow> (u8 \<Rightarrow> u8) \<Rightarrow> u8 \<Rightarrow> u8" where
  "write_of a [a', r, v] regs = (if a' = a then regs(r := v) else regs)"
| "write_of a _ regs = regs"

definition registers :: "i2c_bus \<Rightarrow> u8 \<Rightarrow> u8" where
  "registers b = fold (write_of 0x2a) (traffic b) (\<lambda>r. 0)"

text \<open>
  Reading a pin that is driven low gives 0, whatever is connected to it.
\<close>

definition reads_driven_low :: "line_reader \<Rightarrow> bool" where
  "reads_driven_low rd \<longleftrightarrow> (\<forall>b. \<not> sda_input b \<longrightarrow> \<not> sda b \<longrightarrow> \<not> rd b)"

lemma addr_values: "write_addr PCA9634_ALLCALL_ADDR = 0x2a" "write_addr PCA9634_SOFRST_ADDR = 6"
  by (simp_all add: write_addr_def PCA9634_ALLCALL_ADDR_def PCA9634_SOFRST_ADDR_def)

lemma addr_even: "\<not> bit (0x2a :: u8) 0" "\<not> bit (6 :: u8) 0"
  by simp_all

lemma write_two_low:
  assumes "reads_driven_low rd" "idle b" "\<not> bit a 0"
  shows "\<exists>b'. write_two rd a x y b = (0, 0, b') \<and> sent b b' [[a, x, y]]"
proof -
  obtain ret r b' where w: "write_two rd a x y b = (ret, r, b')" by (cases "write_two rd a x y b") auto
  have "ret = 0" "r = 0"
    using write_two_acked [OF w assms(2,3)] assms(1) by (auto simp: reads_driven_low_def)
  then show ?thesis using w write_two_sent [OF w assms(2,3)] by auto
qed

lemma register_written:
  assumes "reads_driven_low rd" "heard b ts"
  shows "\<exists>b'. pca_write_reg rd r v b = (0, b') \<and> heard b' (ts @ [[0x2a, r, v]])"
    "\<exists>b'. pca_red_value_set rd v b = (0, b') \<and> heard b' (ts @ [[0x2a, 4, v]])"
    "\<exists>b'. pca_green_value_set rd v b = (0, b') \<and> heard b' (ts @ [[0x2a, 3, v]])"
    "\<exists>b'. pca_blue_value_set rd v b = (0, b') \<and> heard b' (ts @ [[0x2a, 2, v]])"
    "\<exists>b'. pca_reset rd b = (0, b') \<and> heard b' (ts @ [[6, 0xa5, 0x5a]])"
proof -
  have i: "idle b" using assms(2) by (simp add: heard_def)
  have w: "\<exists>b'. write_two rd a x y b = (0, 0, b') \<and> heard b' (ts @ [[a, x, y]])" if "\<not> bit a 0" for a x y
    using write_two_low [OF assms(1) i that] heard_sent [OF assms(2)] by blast
  show "\<exists>b'. pca_write_reg rd r v b = (0, b') \<and> heard b' (ts @ [[0x2a, r, v]])"
    "\<exists>b'. pca_red_value_set rd v b = (0, b') \<and> heard b' (ts @ [[0x2a, 4, v]])"
    "\<exists>b'. pca_green_value_set rd v b = (0, b') \<and> heard b' (ts @ [[0x2a, 3, v]])"
    "\<exists>b'. pca_blue_value_set rd v b = (0, b') \<and> heard b' (ts @ [[0x2a, 2, v]])"
    "\<exists>b'. pca_reset rd b = (0, b') \<and> heard b' (ts @ [[6, 0xa5, 0x5a]])"
    using w [of "0x2a" r v] w [of "0x2a" 4 v] w [of "0x2a" 3 v] w [of "0x2a" 2 v] w [of 6 "0xa5" "0x5a"]
    by (auto simp: writes addr_values)
qed


subsection \<open>The abstract light\<close>

text \<open>
  A light that is switched and coloured: whether it is on, its colour, and what the LEDs show. A
  colour is shown at once, even by a light that is off.
\<close>

type_synonym colour = "u8 \<times> u8 \<times> u8"

datatype light_command = Switch u8 | Colour u8 u8 u8

fun light_step :: "light_command \<Rightarrow> bool \<times> colour \<times> colour \<Rightarrow> bool \<times> colour \<times> colour" where
  "light_step (Switch n) (on, col, lit) = (n \<noteq> 0, col, if n \<noteq> 0 then col else (0, 0, 0))"
| "light_step (Colour r g b) (on, col, lit) = (on, (r, g, b), (r, g, b))"

fun rgb_command :: "line_reader \<Rightarrow> light_command \<Rightarrow> rgb_state \<Rightarrow> rgb_state" where
  "rgb_command rd (Switch n) s = rgb_light_onoff_set_hdl rd n s"
| "rgb_command rd (Colour r g b) s = rgb_light_set_hdl rd r g b s"

definition light_of :: "rgb_state \<Rightarrow> bool \<times> colour \<times> colour" where
  "light_of s =
     (light_onoff_st (rgb_ctx s) \<noteq> 0,
      (red_value (rgb_ctx s), green_value (rgb_ctx s), blue_value (rgb_ctx s)),
      (registers (rgb_bus s) 4, registers (rgb_bus s) 3, registers (rgb_bus s) 2))"

lemma heard_registers: "heard b ts \<Longrightarrow> registers b = fold (write_of 0x2a) ts (\<lambda>r. 0)"
  by (simp add: registers_def heard_traffic)

text \<open>Three writes in a row, as switching on, switching off and colouring do them.\<close>

lemma three_writes:
  assumes "reads_driven_low rd" "heard (rgb_bus s) ts"
  shows "\<exists>b. rgb_light_on rd s = (0, s\<lparr>rgb_bus := b\<rparr>) \<and> heard b (ts @ [[0x2a, 4, red_value (rgb_ctx s)],
      [0x2a, 2, blue_value (rgb_ctx s)], [0x2a, 3, green_value (rgb_ctx s)]])"
    "\<exists>b. rgb_light_off rd s = (0, s\<lparr>rgb_bus := b\<rparr>) \<and> heard b (ts @ [[0x2a, 4, 0], [0x2a, 2, 0], [0x2a, 3, 0]])"
proof -
  have "\<exists>b1 b2 b3. pca_red_value_set rd x (rgb_bus s) = (0, b1) \<and> pca_blue_value_set rd y b1 = (0, b2) \<and>
      pca_green_value_set rd z b2 = (0, b3) \<and> heard b3 (ts @ [[0x2a, 4, x], [0x2a, 2, y], [0x2a, 3, z]])" for x y z
    using register_written(2) [OF assms, of x] register_written(4) [OF assms(1), where v = y]
      register_written(3) [OF assms(1), where v = z]
    by (metis (no_types, lifting) append_Cons append_Nil append_assoc)
  from this [of "red_value (rgb_ctx s)" "blue_value (rgb_ctx s)" "green_value (rgb_ctx s)"] this [of 0 0 0]
  show "\<exists>b. rgb_light_on rd s = (0, s\<lparr>rgb_bus := b\<rparr>) \<and> heard b (ts @ [[0x2a, 4, red_value (rgb_ctx s)],
      [0x2a, 2, blue_value (rgb_ctx s)], [0x2a, 3, green_value (rgb_ctx s)]])"
    "\<exists>b. rgb_light_off rd s = (0, s\<lparr>rgb_bus := b\<rparr>) \<and> heard b (ts @ [[0x2a, 4, 0], [0x2a, 2, 0], [0x2a, 3, 0]])"
    by (auto simp: rgb_light_on_def rgb_light_off_def on_bus_def)
qed

lemma colour_writes:
  assumes "reads_driven_low rd" "heard (rgb_bus s) ts"
  shows "\<exists>b'. rgb_light_set_hdl rd r g b s =
      (set_ctx (\<lambda>c. c\<lparr>red_value := r, green_value := g, blue_value := b\<rparr>) s)\<lparr>rgb_bus := b'\<rparr> \<and>
    heard b' (ts @ [[0x2a, 4, r], [0x2a, 3, g], [0x2a, 2, b]])"
proof -
  have "\<exists>b1 b2 b3. pca_red_value_set rd r (rgb_bus s) = (0, b1) \<and> pca_green_value_set rd g b1 = (0, b2) \<and>
      pca_blue_value_set rd b b2 = (0, b3) \<and> heard b3 (ts @ [[0x2a, 4, r], [0x2a, 3, g], [0x2a, 2, b]])"
    using register_written(2) [OF assms, of r] register_written(3) [OF assms(1), where v = g]
      register_written(4) [OF assms(1), where v = b]
    by (metis (no_types, lifting) append_Cons append_Nil append_assoc)
  then show ?thesis by (auto simp: rgb_light_set_hdl_def on_bus_def set_ctx_def)
qed

lemma rgb_command_refines:
  assumes "reads_driven_low rd" "heard (rgb_bus s) ts"
  shows "light_of (rgb_command rd c s) = light_step c (light_of s)" "\<exists>ts'. heard (rgb_bus (rgb_command rd c s)) ts'"
proof -
  have "light_of (rgb_command rd c s) = light_step c (light_of s) \<and> (\<exists>ts'. heard (rgb_bus (rgb_command rd c s)) ts')"
  proof (cases c)
    case (Switch n)
    then show ?thesis
      using three_writes [OF assms] heard_registers
      by (auto simp: rgb_light_onoff_set_hdl_def light_of_def set_ctx_def)
  next
    case (Colour r g b)
    then show ?thesis
      using colour_writes [OF assms, of r g b] heard_registers by (auto simp: light_of_def set_ctx_def)
  qed
  then show "light_of (rgb_command rd c s) = light_step c (light_of s)" "\<exists>ts'. heard (rgb_bus (rgb_command rd c s)) ts'"
    by blast+
qed

lemma rgb_commands_refine:
  "reads_driven_low rd \<Longrightarrow> heard (rgb_bus s) ts \<Longrightarrow>
   light_of (fold (rgb_command rd) cs s) = fold light_step cs (light_of s)"
proof (induction cs arbitrary: s ts)
  case (Cons c cs)
  obtain ts' where "heard (rgb_bus (rgb_command rd c s)) ts'"
    using rgb_command_refines(2) [OF Cons.prems] by blast
  then show ?case using Cons.IH Cons.prems(1) rgb_command_refines(1) [OF Cons.prems] by simp
qed simp

lemma heard_master_init: "pin_trace b = [] \<Longrightarrow> heard (i2c_master_init b) []"
  by (auto simp: heard_def i2c_master_init_def pin_defs idle_def intro: exI [of _ False])

lemma heard_init:
  assumes "reads_driven_low rd" "pin_trace b = []"
  shows "heard (pca9634_init rd b) [[6, 0xa5, 0x5a], [0x2a, 0, 1], [0x2a, 1, 8], [0x2a, 0x0c, 0xff]]"
proof -
  obtain b1 where b1: "pca_reset rd (i2c_master_init b) = (0, b1)" "heard b1 [[6, 0xa5, 0x5a]]"
    using register_written(5) [OF assms(1) heard_master_init [OF assms(2)]] by auto
  obtain b2 where b2: "pca_write_reg rd 0 1 b1 = (0, b2)" "heard b2 ([[6, 0xa5, 0x5a]] @ [[0x2a, 0, 1]])"
    using register_written(1) [OF assms(1) b1(2)] by blast
  obtain b3 where b3: "pca_write_reg rd 1 8 b2 = (0, b3)" "heard b3 (([[6, 0xa5, 0x5a]] @ [[0x2a, 0, 1]]) @ [[0x2a, 1, 8]])"
    using register_written(1) [OF assms(1) b2(2)] by blast
  obtain b4 where "pca_write_reg rd 0x0c 0xff b3 = (0, b4)"
      "heard b4 ((([[6, 0xa5, 0x5a]] @ [[0x2a, 0, 1]]) @ [[0x2a, 1, 8]]) @ [[0x2a, 0x0c, 0xff]])"
    using register_written(1) [OF assms(1) b3(2)] by blast
  then show ?thesis by (simp add: pca9634_init_def pca9634_mode_configure_def b1(1) b2(1) b3(1))
qed

text \<open>C22. Whatever is done to it after its start, the colour light shows what an abstract light with a
  switch and a colour shows: the registers of the LED driver, as an observer reads them from the
  pins of the bus, are the colour of a light that is on, zero for one switched off, and a colour that
  is set is shown at once, by a light that is off as well.\<close>

theorem colour_light_refines:
  assumes "reads_driven_low rd" "pin_trace (rgb_bus s) = []"
  shows "light_of (fold (rgb_command rd) cs (snd (rgb_light_start rd opened linked s))) =
    fold light_step cs (False, (255, 255, 255), (0, 0, 0))"
proof -
  let ?ts = "[[6, 0xa5, 0x5a], [0x2a, 0, 1], [0x2a, 1, 8], [0x2a, 0x0c, 0xff]]"
  let ?s = "set_ctx (\<lambda>c. c\<lparr>red_value := RGB_LIGHT_DEFAULT_ON, green_value := RGB_LIGHT_DEFAULT_ON,
      blue_value := RGB_LIGHT_DEFAULT_ON\<rparr>) (s\<lparr>rgb_ctx := zero_ctx, rgb_bus := pca9634_init rd (rgb_bus s)\<rparr>)"
  have h: "heard (rgb_bus ?s) ?ts" using heard_init [OF assms] by (simp add: set_ctx_def)
  obtain b where off: "rgb_light_off rd ?s = (0, ?s\<lparr>rgb_bus := b\<rparr>)"
      "heard b (?ts @ [[0x2a, 4, 0], [0x2a, 2, 0], [0x2a, 3, 0]])"
    using three_writes(2) [OF assms(1) h] by blast
  let ?u = "snd (rgb_light_start rd opened linked s)"
  have "?u = set_ctx (\<lambda>c. c\<lparr>master_devid := opened\<rparr>) (rgb_light_onoff_set_hdl rd 0 ?s)"
    by (simp add: rgb_light_start_def Let_def set_ctx_def zero_ctx_def)
  then have u: "?u = set_ctx (\<lambda>c. c\<lparr>master_devid := opened, light_onoff_st := 0\<rparr>) (?s\<lparr>rgb_bus := b\<rparr>)"
    using off(1) by (simp add: rgb_light_onoff_set_hdl_def set_ctx_def)
  have "light_of ?u = (False, (255, 255, 255), (0, 0, 0))" "heard (rgb_bus ?u) (?ts @ [[0x2a, 4, 0], [0x2a, 2, 0], [0x2a, 3, 0]])"
    using off(2) heard_registers [OF off(2)] unfolding u
    by (simp_all add: light_of_def set_ctx_def zero_ctx_def RGB_LIGHT_DEFAULT_ON_def)
  then show ?thesis using rgb_commands_refine [OF assms(1)] by simp
qed

definition silent_state :: rgb_state where
  "silent_state = \<lparr>rgb_ctx = zero_ctx, rgb_bus = \<lparr>scl = False, sda = False, sda_input = True, pin_trace = []\<rparr>, rgb_calls = []\<rparr>"

lemma own_level_low: "reads_driven_low sda"
  by (simp add: reads_driven_low_def)

theorem colour_light_refines_witness:
  "light_of (fold (rgb_command sda) [Switch 1, Switch 0, Colour 9 8 7] (snd (rgb_light_start sda 0 0 silent_state))) =
    (False, (9, 8, 7), (9, 8, 7))"
  using colour_light_refines [OF own_level_low, of silent_state "[Switch 1, Switch 0, Colour 9 8 7]" 0 0]
  by (simp add: silent_state_def)

subsection \<open>A missing LED driver\<close>

text \<open>C24. A missing LED driver is never noticed: the master itself holds the data line low in the
  slot where the device would acknowledge, so every write reports success whatever is on the bus.\<close>

theorem missing_device_acknowledges:
  assumes "reads_driven_low rd" "idle b"
  shows "fst (pca_red_value_set rd v b) = 0 \<and> fst (pca_green_value_set rd v b) = 0 \<and>
    fst (pca_blue_value_set rd v b) = 0 \<and> fst (pca_write_reg rd r v b) = 0 \<and> fst (pca_reset rd b) = 0"
proof -
  have "\<exists>b'. write_two rd a x y b = (0, 0, b')" if "\<not> bit a 0" for a x y
    using write_two_low [OF assms that] by blast
  from this [of "0x2a" 4 v] this [of "0x2a" 3 v] this [of "0x2a" 2 v] this [of "0x2a" r v] this [of 6 "0xa5" "0x5a"]
  show ?thesis by (auto simp: writes addr_values)
qed

theorem missing_device_acknowledges_witness:
  "fst (pca_red_value_set (\<lambda>b. sda b) 255 (i2c_master_init (rgb_bus silent_state))) = 0"
  using missing_device_acknowledges [OF own_level_low, of "i2c_master_init (rgb_bus silent_state)" 255]
  by (simp add: idle_def i2c_master_init_def pin_defs silent_state_def)

subsection \<open>Colour requests\<close>

theorem colour_request_ignored:
  assumes "cJSON_Parse request = Some (CObject kvs)"
    "cJSON_GetObjectItemCaseSensitive (CObject kvs) ''LightSwitch'' = None"
  shows "rgb_light_property_set_event_handler cJSON_Parse rd request s = (0, call_cloud (ReportProperty request) s)"
  using assms by (simp add: rgb_light_property_set_event_handler_def light_rgb_set_hdl_def split: option.split)

theorem colour_request_ignored_witness:
  "rgb_light_property_set_event_handler (\<lambda>t. Some (CObject [(''RGBColor'', CNumber 255 255)])) sda ''x'' silent_state =
     (0, call_cloud (ReportProperty ''x'') silent_state)"
  by (rule colour_request_ignored, simp, code_simp)

end
