(* ===== verification/DimLight.thy ===== *)
theory DimLight
  imports CloudService "HOL-Library.Monad_Syntax"
begin

text \<open>
  The dimmable light (source/demo_dim/lighting.c): its context, the software timer that fades the
  light, what is done to the PWM module, and the calls to the cloud SDK, oldest first. A timer is its
  period in milliseconds and whether it runs. \<open>None\<close> is a failed assertion of the timer service,
  on a timer that could not be created. The set-up of clocks and pins and the traces are left out.
\<close>

subsection \<open>State\<close>

datatype pwm_event = PwmSetup u8 | PwmDuty u8 | PwmStart | PwmStop

record lighting_example_ctx =
  master_devid :: int
  cloud_connected :: int
  master_initialized :: int
  light_onoff_st :: u8
  light_lightness :: u8

record fade_timer =
  timer_period :: nat
  timer_running :: bool

record dim_state =
  dim_ctx :: lighting_example_ctx
  lighting_change_ln_timer :: "fade_timer option"
  current_lightness_level :: u8
  pwm_trace :: "pwm_event list"
  dim_calls :: "cloud_call list"

definition pwm :: "pwm_event \<Rightarrow> dim_state \<Rightarrow> dim_state" where
  "pwm e s = s\<lparr>pwm_trace := pwm_trace s @ [e]\<rparr>"

definition dim_call :: "cloud_call \<Rightarrow> dim_state \<Rightarrow> dim_state" where
  "dim_call c s = s\<lparr>dim_calls := dim_calls s @ [c]\<rparr>"

definition set_dim :: "(lighting_example_ctx \<Rightarrow> lighting_example_ctx) \<Rightarrow> dim_state \<Rightarrow> dim_state" where
  "set_dim f s = s\<lparr>dim_ctx := f (dim_ctx s)\<rparr>"

subsection \<open>Fading\<close>

definition pwm_internal_setup :: "dim_state \<Rightarrow> dim_state" where
  "pwm_internal_setup s = pwm (PwmSetup (light_lightness (dim_ctx s))) s"

text \<open>One step towards the target: the level is set, and then moved.\<close>

definition step_level :: "dim_state \<Rightarrow> u8 \<times> dim_state" where
  "step_level s =
     (let set_lightness = current_lightness_level s in
      (set_lightness,
       if light_lightness (dim_ctx s) < current_lightness_level s
       then s\<lparr>current_lightness_level := current_lightness_level s - 1\<rparr>
       else s\<lparr>current_lightness_level := current_lightness_level s + 1\<rparr>))"

definition lightness_timeout_cb :: "dim_state \<Rightarrow> dim_state" where
  "lightness_timeout_cb s =
     (let (set_lightness, s) = step_level s;
          s = pwm (PwmDuty set_lightness) s
      in if current_lightness_level s = light_lightness (dim_ctx s)
         then s\<lparr>lighting_change_ln_timer := None\<rparr> else s)"

definition lighting_init :: "bool \<Rightarrow> dim_state \<Rightarrow> dim_state" where
  "lighting_init pwm_init_ok s =
     (if \<not> pwm_init_ok then s else set_dim (\<lambda>c. c\<lparr>light_onoff_st := 0, light_lightness := 100\<rparr>) s)"

definition light_onoff_set_hdl :: "u8 \<Rightarrow> dim_state \<Rightarrow> dim_state" where
  "light_onoff_set_hdl onoff s =
     (let s = (if onoff = 0
               then (let s = pwm PwmStop s in
                     if lighting_change_ln_timer s \<noteq> None then s\<lparr>lighting_change_ln_timer := None\<rparr> else s)
               else pwm PwmStart (pwm_internal_setup s))
      in set_dim (\<lambda>c. c\<lparr>light_onoff_st := onoff\<rparr>) s)"

text \<open>\<open>mem\<close> says whether a timer can be created.\<close>

definition light_lightness_set_hdl :: "bool \<Rightarrow> u8 \<Rightarrow> dim_state \<Rightarrow> dim_state option" where
  "light_lightness_set_hdl mem lightness s =
     (if 100 < lightness \<or> light_onoff_st (dim_ctx s) = 0 then Some s
      else
        let lightness = (if lightness = 0 then 1 else lightness);
            s = s\<lparr>current_lightness_level := light_lightness (dim_ctx s)\<rparr>;
            s = set_dim (\<lambda>c. c\<lparr>light_lightness := lightness\<rparr>) s;
            gap = (if light_lightness (dim_ctx s) < current_lightness_level s
                   then current_lightness_level s - light_lightness (dim_ctx s)
                   else light_lightness (dim_ctx s) - current_lightness_level s)
        in if gap = 0 then Some s
           else if lighting_change_ln_timer s = None \<and> \<not> mem then None
           else
             let setv = 200 div unat gap;
                 s = s\<lparr>lighting_change_ln_timer := Some \<lparr>timer_period = setv, timer_running = True\<rparr>\<rparr>;
                 (set_lightness, s) = step_level s
             in Some (pwm (PwmDuty set_lightness) s))"

subsection \<open>Callbacks of the cloud\<close>

definition lighting_connected_event_handler :: "dim_state \<Rightarrow> dim_state" where
  "lighting_connected_event_handler = set_dim (\<lambda>c. c\<lparr>cloud_connected := 1\<rparr>)"

definition lighting_disconnected_event_handler :: "dim_state \<Rightarrow> dim_state" where
  "lighting_disconnected_event_handler = set_dim (\<lambda>c. c\<lparr>cloud_connected := 0\<rparr>)"

definition lighting_initialized :: "dim_state \<Rightarrow> dim_state" where
  "lighting_initialized = set_dim (\<lambda>c. c\<lparr>master_initialized := 1\<rparr>)"

text \<open>A number is passed on as its lowest byte.\<close>

definition lighting_property_set_event_handler ::
    "(string \<Rightarrow> cjson option) \<Rightarrow> bool \<Rightarrow> string \<Rightarrow> dim_state \<Rightarrow> (int \<times> dim_state) option" where
  "lighting_property_set_event_handler cJSON_Parse mem request s =
     (case cJSON_Parse request of
        None \<Rightarrow> Some (-1, s)
      | Some p_root \<Rightarrow>
          if \<not> cJSON_IsObject p_root then Some (-1, s)
          else
            let s = (case cJSON_GetObjectItemCaseSensitive p_root ''LightSwitch'' of
                       None \<Rightarrow> s
                     | Some light_c \<Rightarrow>
                         if cJSON_IsNumber light_c then light_onoff_set_hdl (word_of_int (valueint light_c)) s else s)
            in do { s \<leftarrow> (case cJSON_GetObjectItemCaseSensitive p_root ''Brightness'' of
                            None \<Rightarrow> Some s
                          | Some brigtness \<Rightarrow>
                              if cJSON_IsNumber brigtness
                              then light_lightness_set_hdl mem (word_of_int (valueint brigtness)) s else Some s);
                    let s = (case cJSON_GetObjectItemCaseSensitive p_root ''RGBColor'' of
                               None \<Rightarrow> s
                             | Some c \<Rightarrow> light_rgb_set_hdl (word_of_int (valueint c)) (word_of_int (valueint c))
                                           (word_of_int (valueint c)) s)
                    in Some (0, dim_call (ReportProperty request) s) })"

definition lighting_service_request_event_handler ::
    "(string \<Rightarrow> cjson option) \<Rightarrow> bool \<Rightarrow> string \<Rightarrow> string \<Rightarrow> int \<times> string option" where
  "lighting_service_request_event_handler = add_service"

definition lighting_fota_event_handler :: "int \<Rightarrow> dim_state \<Rightarrow> dim_state" where
  "lighting_fota_event_handler typ s = (if typ = 0 then dim_call QueryFota s else s)"

definition lighting_cota_event_handler :: "int \<Rightarrow> dim_state \<Rightarrow> dim_state" where
  "lighting_cota_event_handler typ s = (if typ = 0 then dim_call QueryCota s else s)"

subsection \<open>Posting, starting and the main loop\<close>

definition lighting_property_post :: "u8 \<Rightarrow> dim_state \<Rightarrow> dim_state" where
  "lighting_property_post is_light_switch s =
     (if cloud_connected (dim_ctx s) = 0 then s
      else
        let property_payload =
              (if is_light_switch \<noteq> 0
               then fst (c_snprintf 30 (member_text ''LightSwitch'' (fmt_d (uint (light_onoff_st (dim_ctx s))))))
               else fst (c_snprintf 30 (member_text ''Brightness'' (fmt_d (uint (light_lightness (dim_ctx s)))))))
        in dim_call (ReportProperty property_payload) s)"

definition lighting_post_event :: "dim_state \<Rightarrow> dim_state" where
  "lighting_post_event = dim_call (TriggerEvent ''HardwareError'' (member_text ''ErrorCode'' ''0''))"

definition lighting_deviceinfo_update :: "dim_state \<Rightarrow> dim_state" where
  "lighting_deviceinfo_update = dim_call (DeviceInfoUpdate
     (''[{'' @ quoted ''attrKey'' @ '':'' @ quoted ''abc'' @ '','' @ quoted ''attrValue'' @ '':'' @ quoted ''hello,world'' @ ''}]''))"

definition lighting_deviceinfo_delete :: "dim_state \<Rightarrow> dim_state" where
  "lighting_deviceinfo_delete = dim_call (DeviceInfoDelete
     (''[{'' @ quoted ''attrKey'' @ '':'' @ quoted ''abc'' @ ''}]''))"

text \<open>
  The start of \<open>lighting_run\<close>: \<open>opened\<close> and \<open>linked\<close> are what \<open>IOT_Linkkit_Open\<close> and
  \<open>IOT_Linkkit_Connect\<close> return. The result says whether the main loop is reached.
\<close>

definition lighting_start :: "bool \<Rightarrow> int \<Rightarrow> int \<Rightarrow> dim_state \<Rightarrow> bool \<times> dim_state" where
  "lighting_start pwm_init_ok opened linked s =
     (let s = s\<lparr>dim_ctx := \<lparr>master_devid = 0, cloud_connected = 0, master_initialized = 0, light_onoff_st = 0,
                            light_lightness = 0\<rparr>\<rparr>;
          s = lighting_init pwm_init_ok s;
          s = set_dim (\<lambda>c. c\<lparr>master_devid := opened\<rparr>) s
      in if opened < 0 \<or> linked < 0 then (False, s)
         else (True, lighting_property_post 0 (lighting_property_post 1 s)))"

definition lighting_round :: "int \<Rightarrow> dim_state \<Rightarrow> int \<times> dim_state" where
  "lighting_round cnt s =
     (let s = dim_call CloudYield s;
          s = (if cnt smod 50 = 0 then lighting_post_event s else s)
      in (i32 (cnt + 1), s))"

end
