(* ===== verification/DimProps.thy ===== *)
theory DimProps
  imports DimLight
begin

text \<open>
  Fading the dimmable light: the timer runs a bounded number of times and is then deleted, but the
  level it leaves is beside the one that was asked for.
\<close>

text \<open>The duty cycle the PWM module shows, in percent.\<close>

fun shown :: "pwm_event list \<Rightarrow> u8 option \<Rightarrow> u8 option" where
  "shown [] d = d"
| "shown (PwmSetup x # es) d = shown es (Some x)"
| "shown (PwmDuty x # es) d = shown es (Some x)"
| "shown (e # es) d = shown es d"

lemma shown_append: "shown (xs @ ys) d = shown ys (shown xs d)"
  by (induction xs d rule: shown.induct) simp_all

definition duty :: "dim_state \<Rightarrow> u8 option" where
  "duty s = shown (pwm_trace s) None"

text \<open>The timer runs until its callback deletes it.\<close>

definition fades_to :: "dim_state \<Rightarrow> nat \<Rightarrow> u8 \<Rightarrow> bool" where
  "fades_to s n d \<longleftrightarrow>
     (\<forall>k<n. lighting_change_ln_timer ((lightness_timeout_cb ^^ k) s) \<noteq> None) \<and>
     lighting_change_ln_timer ((lightness_timeout_cb ^^ n) s) = None \<and>
     duty ((lightness_timeout_cb ^^ n) s) = Some d \<and>
     dim_ctx ((lightness_timeout_cb ^^ n) s) = dim_ctx s"

lemma fades_step:
  assumes "fades_to (lightness_timeout_cb s) n d" "lighting_change_ln_timer s \<noteq> None"
  shows "fades_to s (Suc n) d"
proof -
  have c: "dim_ctx (lightness_timeout_cb s) = dim_ctx s"
    by (simp add: lightness_timeout_cb_def step_level_def pwm_def Let_def)
  have "lighting_change_ln_timer ((lightness_timeout_cb ^^ k) s) \<noteq> None" if "k < Suc n" for k
    using that assms by (cases k) (auto simp: fades_to_def funpow_swap1)
  then show ?thesis using assms(1) c by (simp add: fades_to_def funpow_swap1)
qed

lemma callback_cases:
  fixes s :: dim_state
  defines "cur \<equiv> current_lightness_level s" and "goal \<equiv> light_lightness (dim_ctx s)"
  shows "current_lightness_level (lightness_timeout_cb s) = (if goal < cur then cur - 1 else cur + 1)"
    "duty (lightness_timeout_cb s) = Some cur"
    "dim_ctx (lightness_timeout_cb s) = dim_ctx s"
    "lighting_change_ln_timer (lightness_timeout_cb s) =
      (if (if goal < cur then cur - 1 else cur + 1) = goal then None else lighting_change_ln_timer s)"
  by (auto simp: lightness_timeout_cb_def step_level_def pwm_def duty_def shown_append cur_def goal_def Let_def)

lemma fades_last:
  assumes "lighting_change_ln_timer s \<noteq> None" "lighting_change_ln_timer (lightness_timeout_cb s) = None"
  shows "fades_to s 1 (current_lightness_level s)"
  using assms callback_cases(2,3) [of s] by (simp add: fades_to_def)

lemma level_up:
  fixes c g :: u8
  assumes "unat g = unat c + Suc d"
  shows "\<not> g < c" "unat (c + 1) = unat c + 1" "c + 1 = g \<longleftrightarrow> d = 0"
proof -
  have "unat g < 256" using unsigned_less [of g] by simp
  then have "unat c + unat (1 :: u8) < 2 ^ LENGTH(8)" using assms by simp
  then show u: "unat (c + 1) = unat c + 1" using unat_add_lem [of c 1] by simp
  show "\<not> g < c" using assms by (simp add: word_less_nat_alt)
  show "c + 1 = g \<longleftrightarrow> d = 0" using assms u by (simp add: word_unat_eq_iff)
qed

lemma level_down:
  fixes c g :: u8
  assumes "unat c = unat g + Suc d"
  shows "g < c" "unat (c - 1) = unat g + d" "c - 1 = g \<longleftrightarrow> d = 0"
proof -
  have "c \<noteq> 0" using assms by auto
  then show u: "unat (c - 1) = unat g + d" using assms by (simp add: unat_minus_one)
  show "g < c" using assms by (simp add: word_less_nat_alt)
  show "c - 1 = g \<longleftrightarrow> d = 0" using u by (simp add: word_unat_eq_iff)
qed

lemma fade_up:
  "unat (light_lightness (dim_ctx s)) = unat (current_lightness_level s) + Suc d \<Longrightarrow>
   lighting_change_ln_timer s \<noteq> None \<Longrightarrow> fades_to s (Suc d) (light_lightness (dim_ctx s) - 1)"
proof (induction d arbitrary: s)
  case 0
  have "current_lightness_level s = light_lightness (dim_ctx s) - 1"
    using level_up(3) [OF "0.prems"(1)] by (metis add_diff_cancel_right')
  then show ?case using fades_last [of s] callback_cases(4) [of s] level_up [OF "0.prems"(1)] "0.prems"(2) by auto
next
  case (Suc d)
  let ?t = "lightness_timeout_cb s"
  have "lighting_change_ln_timer ?t \<noteq> None" "unat (light_lightness (dim_ctx ?t)) = unat (current_lightness_level ?t) + Suc d"
    using callback_cases [of s] level_up [OF Suc.prems(1)] Suc.prems by simp_all
  then have "fades_to ?t (Suc d) (light_lightness (dim_ctx s) - 1)" using Suc.IH [of ?t] callback_cases(3) [of s] by simp
  then show ?case using fades_step Suc.prems(2) by blast
qed

lemma fade_down:
  "unat (current_lightness_level s) = unat (light_lightness (dim_ctx s)) + Suc d \<Longrightarrow>
   lighting_change_ln_timer s \<noteq> None \<Longrightarrow> fades_to s (Suc d) (light_lightness (dim_ctx s) + 1)"
proof (induction d arbitrary: s)
  case 0
  have "current_lightness_level s = light_lightness (dim_ctx s) + 1"
    using level_down(3) [OF "0.prems"(1)] by (metis diff_add_cancel)
  then show ?case using fades_last [of s] callback_cases(4) [of s] level_down [OF "0.prems"(1)] "0.prems"(2) by auto
next
  case (Suc d)
  let ?t = "lightness_timeout_cb s"
  have "lighting_change_ln_timer ?t \<noteq> None" "unat (current_lightness_level ?t) = unat (light_lightness (dim_ctx ?t)) + Suc d"
    using callback_cases [of s] level_down [OF Suc.prems(1)] Suc.prems by simp_all
  then have "fades_to ?t (Suc d) (light_lightness (dim_ctx s) + 1)" using Suc.IH [of ?t] callback_cases(3) [of s] by simp
  then show ?case using fades_step Suc.prems(2) by blast
qed

text \<open>A level that is already at its target is first moved away from it.\<close>

lemma fade_from_target:
  assumes "current_lightness_level s = light_lightness (dim_ctx s)" "light_lightness (dim_ctx s) \<le> 100"
    "lighting_change_ln_timer s \<noteq> None"
  shows "fades_to s 2 (light_lightness (dim_ctx s) + 1)"
proof -
  let ?t = "lightness_timeout_cb s"
  have "unat (light_lightness (dim_ctx s)) + unat (1 :: u8) < 2 ^ LENGTH(8)"
    using assms(2) by (simp add: word_le_nat_alt)
  then have "unat (current_lightness_level ?t) = unat (light_lightness (dim_ctx ?t)) + Suc 0" "lighting_change_ln_timer ?t \<noteq> None"
    using callback_cases [of s] assms unat_add_lem [of "light_lightness (dim_ctx s)" 1] by simp_all
  from fade_down [OF this] show ?thesis
    using fades_step [of s "Suc 0"] assms(3) callback_cases(3) [of s] by (simp add: numeral_2_eq_2)
qed

lemma fade_ends:
  assumes "light_onoff_st (dim_ctx s) \<noteq> 0" "goal \<le> 100" "1 \<le> goal" "light_lightness (dim_ctx s) \<le> 100"
    and "light_lightness (dim_ctx s) \<noteq> goal" "light_lightness_set_hdl mem goal s = Some s1"
  shows "\<exists>n. fades_to s1 n (if light_lightness (dim_ctx s) < goal \<and> light_lightness (dim_ctx s) + 1 \<noteq> goal
      then goal - 1 else goal + 1)" "light_lightness (dim_ctx s1) = goal"
proof -
  let ?old = "light_lightness (dim_ctx s)"
  have g: "goal \<noteq> 0" "\<not> 100 < goal" using assms(2,3) by auto
  have gap: "(if goal < ?old then ?old - goal else goal - ?old) \<noteq> 0" using assms(5) by auto
  have s1: "current_lightness_level s1 = (if goal < ?old then ?old - 1 else ?old + 1)" "light_lightness (dim_ctx s1) = goal"
      "lighting_change_ln_timer s1 \<noteq> None"
    using assms(1,6) g gap
    by (auto simp: light_lightness_set_hdl_def step_level_def pwm_def set_dim_def Let_def split: if_splits)
  show "light_lightness (dim_ctx s1) = goal" by (rule s1(2))
  have at: "\<exists>n. fades_to s1 n (goal + 1)" if "current_lightness_level s1 = goal"
    using fade_from_target [of s1] s1 that assms(2) by auto
  show "\<exists>n. fades_to s1 n (if ?old < goal \<and> ?old + 1 \<noteq> goal then goal - 1 else goal + 1)"
  proof (cases "?old < goal")
    case True
    then obtain d where d: "unat goal = unat ?old + Suc d"
      using less_imp_Suc_add [of "unat ?old" "unat goal"] by (auto simp: word_less_nat_alt)
    show ?thesis
    proof (cases d)
      case 0
      then show ?thesis using at s1(1) level_up [OF d] by auto
    next
      case (Suc e)
      then have "unat (light_lightness (dim_ctx s1)) = unat (current_lightness_level s1) + Suc e"
        using s1 level_up [OF d] d by simp
      from fade_up [OF this s1(3)] show ?thesis using s1(2) level_up [OF d] True Suc by auto
    qed
  next
    case False
    then have "goal < ?old" using assms(5) by (simp add: less_le not_less)
    then obtain d where d: "unat ?old = unat goal + Suc d"
      using less_imp_Suc_add [of "unat goal" "unat ?old"] by (auto simp: word_less_nat_alt)
    show ?thesis
    proof (cases d)
      case 0
      then show ?thesis using at s1(1) level_down [OF d] False by auto
    next
      case (Suc e)
      then have "unat (current_lightness_level s1) = unat (light_lightness (dim_ctx s1)) + Suc e"
        using s1 level_down [OF d] by simp
      from fade_down [OF this s1(3)] show ?thesis using s1(2) False by auto
    qed
  qed
qed

text \<open>C23. A light that is on fades from its level to another one in finitely many timer callbacks, after
  which the timer is gone and the requested level is recorded; but the level shown in the end is
  one below the target when fading up by two or more, and one above it otherwise, never the
  target itself.\<close>
theorem fade_ends_beside_target:
  assumes "light_onoff_st (dim_ctx s) \<noteq> 0" "goal \<le> 100" "1 \<le> goal" "light_lightness (dim_ctx s) \<le> 100"
    and "light_lightness (dim_ctx s) \<noteq> goal"
  shows "\<exists>s1 n shown_level. light_lightness_set_hdl True goal s = Some s1 \<and> light_lightness (dim_ctx s1) = goal \<and>
    fades_to s1 n shown_level \<and> shown_level \<noteq> goal \<and>
    shown_level = (if light_lightness (dim_ctx s) < goal \<and> light_lightness (dim_ctx s) + 1 \<noteq> goal
      then goal - 1 else goal + 1)"
proof -
  obtain s1 where s1: "light_lightness_set_hdl True goal s = Some s1"
    by (cases "light_lightness_set_hdl True goal s")
      (auto simp: light_lightness_set_hdl_def step_level_def Let_def split: if_splits)
  from fade_ends(1) [OF assms s1] obtain n where "fades_to s1 n (if light_lightness (dim_ctx s) < goal \<and>
      light_lightness (dim_ctx s) + 1 \<noteq> goal then goal - 1 else goal + 1)" by blast
  then show ?thesis using s1 fade_ends(2) [OF assms s1] by auto
qed

definition lit_at :: "u8 \<Rightarrow> dim_state" where
  "lit_at l =
     \<lparr>dim_ctx = \<lparr>master_devid = 0, cloud_connected = 1, master_initialized = 1, light_onoff_st = 1, light_lightness = l\<rparr>,
      lighting_change_ln_timer = None, current_lightness_level = 0, pwm_trace = [], dim_calls = []\<rparr>"

text \<open>From 99 to 100 percent the light ends at 101 percent, which the PWM driver asserts against.\<close>

theorem fade_ends_beside_target_witness:
  "\<exists>s1 n. light_lightness_set_hdl True 100 (lit_at 99) = Some s1 \<and> fades_to s1 n 101"
  using fade_ends_beside_target [of "lit_at 99" 100] by (auto simp: lit_at_def)

end
