(* ===== verification/Spec2Isabelle.thy ===== *)
theory Spec2Isabelle
  imports WmProps MqttProps MqttTopic CoapServerProps DevSign LinkkitUtil DmMsgCache IotxCm KvProps MqttClientProps RgbProps DimProps
begin

text \<open>
  Verification library of a smart washing machine on an NXP i.MX RT1050: the application under
  source/demo_wm, the colour and the dimmable light of the same repository (source/demo_rgb,
  source/demo_dim), the cloud stack under linkkit/, and the flash store under component/kv. Paths are
  relative to src/. This theory imports all others; it holds no definitions of its own.

  \<^bold>\<open>The program.\<close> The application keeps the state of the machine and reacts to the GUI
  (emgui/DeviceDriver.c), to the cloud and to a command line; software timers drive a wash. It reports
  its properties through the device model, whose messages go through the connection manager to the
  MQTT client; on the local network a CoAP server answers. The identity of the device is signed with
  the hash functions; settings are kept in the flash store. The two lights are applications on the same
  stack: one drives a colour LED over an I2C bus written in software, the other fades a pulse-width output.

  \<^bold>\<open>The theories and what they model.\<close>
    \<^item> Prelude: C integers and truncating division, collections of rewrite rules. Interfaces: the
      contracts shared by components, as locales (\<open>keyed_store\<close>, \<open>map_refinement\<close>, \<open>bounded_queue\<close>,
      \<open>codec\<close>); each is interpreted on the model of a component. CFloat, CFormat: C's floating point
      as rounded rationals, and the conversions of printf and atoi the sources use.
    \<^item> WmData, DeviceDriver, WmReport, WmTimer, WmControl, WmHandlers, WmEvents, WmSystem, WmProps:
      demo_wm/washing_machine.c. The static variables are the record \<open>wm_state\<close>; calls to the GUI and
      the cloud are appended to its list of effects; an error is \<open>Inl\<close>. WmSystem interleaves the tasks
      as the step relation \<open>wm_step\<close>; a mutex taken twice blocks for ever.
    \<^item> ByteBuf, MqttPacket, MqttSerialize, MqttDeserialize, MqttProps: the MQTT packets of linkkit/mqtt.
      A buffer is a list of bytes, a pointer a position in it, an access outside it \<open>None\<close>.
    \<^item> MqttTopic: checking and matching topics (iotx_mqtt_client.c) and the tokeniser of infra_string.c.
    \<^item> MqttClient, MqttClientRecv, MqttClientApi: the client itself (iotx_mqtt_client.c), state
      \<open>mqtt_client\<close>. Clock, allocator, mutexes and transport are the record \<open>mqtt_env\<close>, which answers the
      n-th call; the bytes and events that go out are the list \<open>mc_trace\<close>. Operations give \<open>None\<close> for
      an access outside a buffer and for a loop that does not end (\<open>partial_function\<close>). MqttClientNet,
      MqttClientInv, MqttClientSafe, MqttClientPublish, MqttClientReach, MqttClientProps: its proofs, with
      a calculus of postconditions (\<open>post\<close>, the rules \<open>wp\<close>), the invariant \<open>mc_ok\<close>, and the steps of the
      interface \<open>mc_step\<close>.
    \<^item> CoapPacket, CoapProps: the CoAP messages of linkkit/coap_server/CoAPPacket. CoapContext,
      CoapResource, CoapObserve, CoapExchange, CoapServer: the server of linkkit/coap_server/server, state
      \<open>CoAPIntContext\<close>, surroundings \<open>coap_env\<close>; datagrams and callbacks go to \<open>coap_trace\<close>. CoapRetry
      (a conservation law: what was sent and what is still owed), CoapInv (the invariant \<open>coap_ok\<close> and the
      steps \<open>server_step\<close>), CoapEndToEnd (a path from sender to receiver), CoapServerProps: its proofs.
    \<^item> Cjson, CloudService: the JSON the two lights read and their calls to the cloud. I2cBus, I2cProps,
      RgbLight, RgbProps: source/demo_rgb (i2c.c, pca9634.c, rgb_light.c). DimLight, DimProps:
      source/demo_dim (lighting.c).
    \<^item> HashStream, Hashes, HashProps: MD5, SHA-1, SHA-256 and the HMACs of linkkit/infra. DevSign: the
      credentials of linkkit/dev_sign.
    \<^item> LinkkitUtil: text conversions and timers of linkkit/infra. DmIpc, DmMsgCache: the queues of
      linkkit/dev_model. IotxCm: its table of connections.
    \<^item> KvStore, KvOps: component/kv/kv.c on a flash that can only clear bits. KvLog, KvBlocks, KvSpace,
      KvGc, KvRefine, KvInit, KvProps: its proofs, over the logs the blocks hold.

  \<^bold>\<open>What is shown.\<close> The washing machine: every reachable state is safe, a started wash runs to its
  end, programmes take their minutes, settings are frozen while working, every property is reported
  once, timers count down and are replaced, pause and resume keep the time; and the deadlock of the
  timer mutex. Packets: round trips, layouts and bounds, and the malformed packets that are taken for
  good ones. The MQTT client: the type invariant of all reachable clients, the outcome of a
  publication, resending and acknowledgement, the edges of the connection, and two calls that miss
  their purpose. The flash store: it refines a map, survives restarts and a power loss within an
  update, and its operations return while there is room. Hashes: equal to their standards however the
  message is fed. The CoAP server: its lists stay within bounds in every run, an unanswered message is
  sent again the right number of times and given up, a multicast reaches the resource it names, and the
  path that overruns its buffer. The lights: the colour light refines its abstract colour, a fade stops,
  and beside its target. Queues and tables: bounded, first-in first-out, with the right error codes.

  \<^bold>\<open>Bounds and fuel.\<close> Loops over counters and lists are structural recursion. The receive loop of the CoAP
  server, the send loop, the cycle
  and the waiting subscription of the MQTT client, and the search for room of the flash store, may run
  for ever and are \<open>partial_function (option)\<close>; that they return is proved where it holds (publishing
  and resending on a running clock, the cycles of a CoAP server that receives nothing, storing while
  there is room). Machine integers are words of their
  width, or integers with the wrap-around written out.

  \<^bold>\<open>Not modelled.\<close> Vendored and generated code: lwIP, mbed TLS, FreeRTOS, CMSIS, the WICED driver, the
  emWin runtime and its generated GUI, the USB stack, device headers and board files. Hardware access
  without logic of its own (drivers, flash commands, pins). Of linkkit: the JSON library, logging, the
  TLS and HAL wrappers, over-the-air updates, the gateway and the parts of the device model that only
  build and dispatch messages, binding a device, and the threads and mutexes of the CoAP server. Callbacks of the
  user are outputs; that a callback calls back into the library is not modelled. Allocation succeeds or
  fails as its parameter says; leaked memory does not appear in the state.
\<close>

end
